(* ===== verification/Py_Base.thy ===== *)
theory Py_Base
  imports Complex_Main "HOL-Library.List_Lexorder"
begin

section \<open>Python values, strings and dictionaries\<close>

text \<open>
  The prelude of the development. It fixes how the Python data of the plugin is read in
  HOL and holds the generic lemmas every component uses.

  \<^item> A \<^verbatim>\<open>str\<close> is its list of code points (\<open>ustr\<close>); \<open>lit\<close> reads an ASCII literal.
  \<^item> A value is an immediate or a reference into a heap of objects (\<open>pyval\<close>, \<open>pyobj\<close>),
    so aliasing, object identity and cyclic containers exist in the model. Accessors that
    may raise in Python return \<open>exn + _\<close>.
  \<^item> A \<^verbatim>\<open>dict\<close> keeps its insertion order: an association list with \<open>dict_set\<close>.
  \<^item> What CPython takes from its generated tables (Unicode categories and case mappings
    beyond ASCII), the conversions between a float and its decimal form, the recursion
    limit of the JSON scanner, and the validity of bracketed or non-ASCII host parts of a URL
    are the record \<open>pyrt\<close>, a parameter of the definitions that
    need it; on ASCII input the model computes the result itself.
  Instances of subclasses of the builtin types are outside the model.
\<close>

subsection \<open>Collections of facts\<close>

named_theorems py_access \<open>unfolding of the accessors of Python values\<close>
named_theorems py_bounds \<open>size bounds of sanitised values\<close>

subsection \<open>Strings\<close>

type_synonym ustr = "nat list"

definition lit :: "string \<Rightarrow> ustr" where
  "lit s = map of_char s"

definition lits :: "string list \<Rightarrow> ustr list" where
  "lits ss = map lit ss"

lemma lit_eq_iff [simp]: "lit a = lit b \<longleftrightarrow> a = b"
  by (auto simp: lit_def dest: map_injective intro!: injI)

lemma lit_eq_Nil_iff [simp]: "lit a = [] \<longleftrightarrow> a = []" "[] = lit a \<longleftrightarrow> a = []"
  by (auto simp: lit_def)

lemma length_lit [simp]: "length (lit s) = length s"
  by (simp add: lit_def)

lemma set_lits [simp]: "set (lits ss) = lit ` set ss"
  by (simp add: lits_def)

lemma lit_in_lits [simp]: "lit s \<in> lit ` S \<longleftrightarrow> s \<in> S"
  by auto

definition is_ascii :: "ustr \<Rightarrow> bool" where
  "is_ascii s = list_all (\<lambda>c. c < 128) s"

text \<open>The characters for which \<^verbatim>\<open>str.isspace\<close> holds; \<^verbatim>\<open>strip\<close> and \<^verbatim>\<open>split\<close> use them.\<close>

definition py_isspace :: "nat \<Rightarrow> bool" where
  "py_isspace c \<longleftrightarrow> (9 \<le> c \<and> c \<le> 13) \<or> (28 \<le> c \<and> c \<le> 32) \<or> c = 133 \<or> c = 160 \<or>
     c = 5760 \<or> (8192 \<le> c \<and> c \<le> 8202) \<or> c = 8232 \<or> c = 8233 \<or> c = 8239 \<or>
     c = 8287 \<or> c = 12288"

definition py_strip :: "ustr \<Rightarrow> ustr" where
  "py_strip s = rev (dropWhile py_isspace (rev (dropWhile py_isspace s)))"

definition startswith :: "ustr \<Rightarrow> ustr \<Rightarrow> bool" where
  "startswith s p \<longleftrightarrow> take (length p) s = p"

text \<open>\<^verbatim>\<open>s.split(sep)\<close> for a one-character separator: never empty.\<close>

fun py_split_on :: "nat \<Rightarrow> ustr \<Rightarrow> ustr list" where
  "py_split_on sep [] = [[]]"
| "py_split_on sep (c # cs) =
     (if c = sep then [] # py_split_on sep cs
      else case py_split_on sep cs of [] \<Rightarrow> [[c]] | w # ws \<Rightarrow> (c # w) # ws)"

text \<open>\<^verbatim>\<open>s.split()\<close>: the runs of characters that are not white space.\<close>

fun words_acc :: "ustr \<Rightarrow> ustr \<Rightarrow> ustr list" where
  "words_acc w [] = (if w = [] then [] else [rev w])"
| "words_acc w (c # cs) =
     (if py_isspace c then (if w = [] then [] else [rev w]) @ words_acc [] cs
      else words_acc (c # w) cs)"

definition py_words :: "ustr \<Rightarrow> ustr list" where
  "py_words s = words_acc [] s"

fun py_join :: "ustr \<Rightarrow> ustr list \<Rightarrow> ustr" where
  "py_join sep [] = []"
| "py_join sep [w] = w"
| "py_join sep (w # v # ws) = w @ sep @ py_join sep (v # ws)"

definition is_control :: "nat \<Rightarrow> bool" where
  "is_control c \<longleftrightarrow> c < 32 \<or> c = 127"

text \<open>The decimal digits of an integer, as \<^verbatim>\<open>str(int)\<close> prints it.\<close>

fun dec_nat :: "nat \<Rightarrow> ustr" where
  "dec_nat n = (if n < 10 then [48 + n] else dec_nat (n div 10) @ [48 + n mod 10])"

declare dec_nat.simps [simp del]

definition dec_int :: "int \<Rightarrow> ustr" where
  "dec_int i = (if i < 0 then 45 # dec_nat (nat (- i)) else dec_nat (nat i))"

subsection \<open>UTF-8\<close>

text \<open>Bytes of one code point; a surrogate cannot be encoded (\<^verbatim>\<open>UnicodeEncodeError\<close>).\<close>

definition utf8_len :: "nat \<Rightarrow> nat option" where
  "utf8_len c =
     (if c < 128 then Some 1 else if c < 2048 then Some 2
      else if 55296 \<le> c \<and> c \<le> 57343 then None
      else if c < 65536 then Some 3 else Some 4)"

fun utf8_size :: "ustr \<Rightarrow> nat option" where
  "utf8_size [] = Some 0"
| "utf8_size (c # cs) =
     (case utf8_len c of None \<Rightarrow> None
      | Some k \<Rightarrow> (case utf8_size cs of None \<Rightarrow> None | Some n \<Rightarrow> Some (k + n)))"

definition utf8_fits :: "nat \<Rightarrow> ustr \<Rightarrow> bool" where
  "utf8_fits limit s = (case utf8_size s of None \<Rightarrow> False | Some n \<Rightarrow> n \<le> limit)"

lemma utf8_size_append:
  "utf8_size (xs @ ys) =
     (case utf8_size xs of None \<Rightarrow> None
      | Some m \<Rightarrow> (case utf8_size ys of None \<Rightarrow> None | Some n \<Rightarrow> Some (m + n)))"
  by (induction xs) (auto split: option.splits)

lemma utf8_len_pos: "utf8_len c = Some k \<Longrightarrow> 1 \<le> k \<and> k \<le> 4"
  by (auto simp: utf8_len_def split: if_splits)

lemma utf8_size_length: "utf8_size s = Some n \<Longrightarrow> length s \<le> n"
  by (induction s arbitrary: n) (auto split: option.splits dest: utf8_len_pos)

lemma utf8_size_ascii: "is_ascii s \<Longrightarrow> utf8_size s = Some (length s)"
  by (induction s) (auto simp: is_ascii_def utf8_len_def)

lemma utf8_size_Some_iff: "utf8_size s = None \<longleftrightarrow> (\<exists>c\<in>set s. utf8_len c = None)"
  by (induction s) (auto split: option.splits)

lemma utf8_size_rev: "utf8_size (rev s) = utf8_size s"
  by (induction s) (auto simp: utf8_size_append split: option.splits)

subsection \<open>Insertion-ordered dictionaries\<close>

fun dict_set :: "'k \<Rightarrow> 'v \<Rightarrow> ('k \<times> 'v) list \<Rightarrow> ('k \<times> 'v) list" where
  "dict_set k v [] = [(k, v)]"
| "dict_set k v ((k', v') # d) =
     (if k = k' then (k, v) # d else (k', v') # dict_set k v d)"

definition dict_del :: "'k \<Rightarrow> ('k \<times> 'v) list \<Rightarrow> ('k \<times> 'v) list" where
  "dict_del k d = filter (\<lambda>p. fst p \<noteq> k) d"

definition dict_keys :: "('k \<times> 'v) list \<Rightarrow> 'k set" where
  "dict_keys d = fst ` set d"

lemma map_of_dict_set [simp]: "map_of (dict_set k v d) = (map_of d)(k \<mapsto> v)"
  by (induction d) auto

lemma map_of_dict_del [simp]: "map_of (dict_del k d) = (map_of d)(k := None)"
  by (induction d) (auto simp: dict_del_def)

lemma fst_dict_set: "fst ` set (dict_set k v d) = insert k (fst ` set d)"
proof (induction d)
  case (Cons p d)
  then show ?case by (cases p) (simp add: insert_commute)
qed simp

lemma dict_keys_set [simp]: "dict_keys (dict_set k v d) = insert k (dict_keys d)"
  by (simp add: dict_keys_def fst_dict_set)

lemma distinct_dict_set: "distinct (map fst d) \<Longrightarrow> distinct (map fst (dict_set k v d))"
  by (induction d) (auto simp: fst_dict_set)

lemma set_dict_set_subset: "set (dict_set k v d) \<subseteq> insert (k, v) (set d)"
  by (induction d) (auto split: if_splits)

lemma length_dict_set: "length (dict_set k v d) \<le> Suc (length d)"
  by (induction d) auto

lemma dict_set_fresh: "k \<notin> fst ` set d \<Longrightarrow> dict_set k v d = d @ [(k, v)]"
  by (induction d) auto

lemma map_of_in_set: "map_of d k = Some v \<Longrightarrow> (k, v) \<in> set d"
  by (rule map_of_SomeD)

subsection \<open>Values, objects and the heap\<close>

text \<open>A float is a finite double (a rational number), an infinity or not a number.\<close>

datatype pyfloat = FFin rat | FInf bool | FNan

type_synonym addr = nat

datatype pyval =
    PNone
  | PBool bool
  | PInt int
  | PFloat pyfloat
  | PStr ustr
  | PRef addr

text \<open>
  \<open>OMapping\<close> is a \<^verbatim>\<open>Mapping\<close> that is not a \<^verbatim>\<open>dict\<close>; with \<open>None\<close> every access to it
  raises. \<open>OInst\<close> is any other object: its class name and the attributes it has, where an
  attribute that is \<open>None\<close> is a property that raises.
\<close>

datatype pyobj =
    OBytes "nat list"
  | OList "pyval list"
  | OTuple "pyval list"
  | OSet "pyval list"
  | ODict "(pyval \<times> pyval) list"
  | OMapping "(pyval \<times> pyval) list option"
  | OInst ustr "(ustr \<times> pyval option) list"

type_synonym heap = "addr \<Rightarrow> pyobj"

datatype exn = TypeError | ValueError | KeyError | AttributeError | OverflowError | RuntimeError
  | RecursionError | OtherError

text \<open>Since Python 3.11 the decimal form of an integer of more than 4300 digits raises.\<close>

definition MAX_INT_STR_DIGITS :: nat where "MAX_INT_STR_DIGITS = 4300"

definition py_str_int :: "int \<Rightarrow> exn + ustr" where
  "py_str_int i =
     (if length (dec_nat (nat \<bar>i\<bar>)) > MAX_INT_STR_DIGITS then Inl ValueError
      else Inr (dec_int i))"

record pyrt =
  rt_catC :: "nat \<Rightarrow> bool"
  rt_alnum :: "nat \<Rightarrow> bool"
  rt_lower :: "ustr \<Rightarrow> ustr"
  rt_upper :: "ustr \<Rightarrow> ustr"
  rt_casefold :: "ustr \<Rightarrow> ustr"
  rt_decimal :: "nat \<Rightarrow> nat option"
  rt_float_repr :: "rat \<Rightarrow> ustr"
  rt_float_of :: "ustr \<Rightarrow> pyfloat"
  rt_parse_float :: "ustr \<Rightarrow> pyfloat option"
  rt_json_depth :: nat
  rt_netloc_rejected :: "ustr \<Rightarrow> bool"

definition ascii_lower :: "nat \<Rightarrow> nat" where
  "ascii_lower c = (if 65 \<le> c \<and> c \<le> 90 then c + 32 else c)"

definition ascii_upper :: "nat \<Rightarrow> nat" where
  "ascii_upper c = (if 97 \<le> c \<and> c \<le> 122 then c - 32 else c)"

definition py_lower :: "pyrt \<Rightarrow> ustr \<Rightarrow> ustr" where
  "py_lower rt s = (if is_ascii s then map ascii_lower s else rt_lower rt s)"

definition py_upper :: "pyrt \<Rightarrow> ustr \<Rightarrow> ustr" where
  "py_upper rt s = (if is_ascii s then map ascii_upper s else rt_upper rt s)"

definition py_casefold :: "pyrt \<Rightarrow> ustr \<Rightarrow> ustr" where
  "py_casefold rt s = (if is_ascii s then map ascii_lower s else rt_casefold rt s)"

text \<open>\<^verbatim>\<open>unicodedata.category(c).startswith("C")\<close>\<close>

definition category_C :: "pyrt \<Rightarrow> nat \<Rightarrow> bool" where
  "category_C rt c = (if c < 128 then is_control c else rt_catC rt c)"

text \<open>\<^verbatim>\<open>\w\<close> of a regular expression.\<close>

definition is_digit :: "nat \<Rightarrow> bool" where "is_digit c \<longleftrightarrow> 48 \<le> c \<and> c \<le> 57"
definition is_upper :: "nat \<Rightarrow> bool" where "is_upper c \<longleftrightarrow> 65 \<le> c \<and> c \<le> 90"
definition is_lower :: "nat \<Rightarrow> bool" where "is_lower c \<longleftrightarrow> 97 \<le> c \<and> c \<le> 122"
definition is_alnum :: "nat \<Rightarrow> bool" where "is_alnum c \<longleftrightarrow> is_digit c \<or> is_upper c \<or> is_lower c"

definition word_char :: "pyrt \<Rightarrow> nat \<Rightarrow> bool" where
  "word_char rt c = (if c < 128 then is_alnum c \<or> c = 95 else rt_alnum rt c)"

text \<open>A concrete instance, for evaluation on ASCII input.\<close>

definition sample_rt :: pyrt where
  "sample_rt = \<lparr>rt_catC = (\<lambda>c. 55296 \<le> c \<and> c \<le> 57343), rt_alnum = (\<lambda>c. False),
     rt_lower = (\<lambda>s. s), rt_upper = (\<lambda>s. s), rt_casefold = (\<lambda>s. s), rt_decimal = (\<lambda>c. None),
     rt_float_repr = (\<lambda>r. lit ''0.0''),
     rt_float_of = (\<lambda>s. FNan), rt_parse_float = (\<lambda>s. None), rt_json_depth = 1000,
     rt_netloc_rejected = (\<lambda>s. False)\<rparr>"

subsection \<open>Accessors\<close>

definition is_mapping :: "heap \<Rightarrow> pyval \<Rightarrow> bool" where
  "is_mapping H v =
     (case v of PRef a \<Rightarrow> (case H a of ODict _ \<Rightarrow> True | OMapping _ \<Rightarrow> True | _ \<Rightarrow> False)
      | _ \<Rightarrow> False)"

text \<open>\<^verbatim>\<open>list(m.items())\<close>\<close>

definition mapping_items :: "heap \<Rightarrow> pyval \<Rightarrow> exn + (pyval \<times> pyval) list" where
  "mapping_items H v =
     (case v of PRef a \<Rightarrow>
        (case H a of ODict d \<Rightarrow> Inr d | OMapping (Some d) \<Rightarrow> Inr d
         | OMapping None \<Rightarrow> Inl OtherError | _ \<Rightarrow> Inl AttributeError)
      | _ \<Rightarrow> Inl AttributeError)"

text \<open>\<^verbatim>\<open>m[k] if k in m else <absent>\<close>, for a string key.\<close>

definition mapping_find :: "heap \<Rightarrow> pyval \<Rightarrow> ustr \<Rightarrow> exn + pyval option" where
  "mapping_find H v k =
     (case mapping_items H v of Inl e \<Rightarrow> Inl e | Inr d \<Rightarrow> Inr (map_of d (PStr k)))"

text \<open>\<^verbatim>\<open>m.get(k)\<close>\<close>

definition mapping_get :: "heap \<Rightarrow> pyval \<Rightarrow> string \<Rightarrow> exn + pyval" where
  "mapping_get H v k =
     (case mapping_find H v (lit k) of Inl e \<Rightarrow> Inl e
      | Inr x \<Rightarrow> Inr (case x of None \<Rightarrow> PNone | Some y \<Rightarrow> y))"

datatype attr = Absent | Present pyval | Raising

definition attr_of :: "heap \<Rightarrow> pyval \<Rightarrow> ustr \<Rightarrow> attr" where
  "attr_of H v k =
     (case v of PRef a \<Rightarrow>
        (case H a of OInst _ fs \<Rightarrow>
           (case map_of fs k of None \<Rightarrow> Absent | Some None \<Rightarrow> Raising
            | Some (Some x) \<Rightarrow> Present x)
         | _ \<Rightarrow> Absent)
      | _ \<Rightarrow> Absent)"

text \<open>\<^verbatim>\<open>type(v).__name__\<close>\<close>

definition type_name :: "heap \<Rightarrow> pyval \<Rightarrow> ustr" where
  "type_name H v =
     (case v of PNone \<Rightarrow> lit ''NoneType'' | PBool _ \<Rightarrow> lit ''bool'' | PInt _ \<Rightarrow> lit ''int''
      | PFloat _ \<Rightarrow> lit ''float'' | PStr _ \<Rightarrow> lit ''str''
      | PRef a \<Rightarrow> (case H a of OBytes _ \<Rightarrow> lit ''bytes'' | OList _ \<Rightarrow> lit ''list''
          | OTuple _ \<Rightarrow> lit ''tuple'' | OSet _ \<Rightarrow> lit ''set'' | ODict _ \<Rightarrow> lit ''dict''
          | OMapping _ \<Rightarrow> lit ''mappingproxy'' | OInst n _ \<Rightarrow> n))"

text \<open>\<^verbatim>\<open>isinstance(v, Sequence) and not isinstance(v, (str, bytes, bytearray))\<close>\<close>

definition seq_items :: "heap \<Rightarrow> pyval \<Rightarrow> pyval list option" where
  "seq_items H v =
     (case v of PRef a \<Rightarrow> (case H a of OList xs \<Rightarrow> Some xs | OTuple xs \<Rightarrow> Some xs | _ \<Rightarrow> None)
      | _ \<Rightarrow> None)"

definition str_in :: "pyval \<Rightarrow> string list \<Rightarrow> bool" where
  "str_in v ss = (case v of PStr s \<Rightarrow> s \<in> set (lits ss) | _ \<Rightarrow> False)"

lemma str_in_PStr [simp]: "str_in (PStr s) ss \<longleftrightarrow> s \<in> lit ` set ss"
  by (simp add: str_in_def)

lemma str_in_others [simp]:
  "\<not> str_in PNone ss" "\<not> str_in (PBool b) ss" "\<not> str_in (PInt i) ss"
  "\<not> str_in (PFloat f) ss" "\<not> str_in (PRef a) ss"
  by (simp_all add: str_in_def)

text \<open>The entries of an exact \<^verbatim>\<open>dict\<close>, and \<^verbatim>\<open>d.get(k)\<close> on them.\<close>

definition exact_dict :: "heap \<Rightarrow> pyval \<Rightarrow> (pyval \<times> pyval) list option" where
  "exact_dict H v =
     (case v of PRef a \<Rightarrow> (case H a of ODict d \<Rightarrow> Some d | _ \<Rightarrow> None) | _ \<Rightarrow> None)"

definition dict_get :: "(pyval \<times> pyval) list \<Rightarrow> string \<Rightarrow> pyval" where
  "dict_get d k = (case map_of d (PStr (lit k)) of None \<Rightarrow> PNone | Some v \<Rightarrow> v)"

text \<open>\<^verbatim>\<open>bool(v)\<close>, and \<^verbatim>\<open>a or b\<close>; the length of a raising mapping raises.\<close>

definition py_truthy :: "heap \<Rightarrow> pyval \<Rightarrow> exn + bool" where
  "py_truthy H v =
     (case v of PNone \<Rightarrow> Inr False | PBool b \<Rightarrow> Inr b | PInt i \<Rightarrow> Inr (i \<noteq> 0)
      | PFloat f \<Rightarrow> Inr (f \<noteq> FFin 0) | PStr s \<Rightarrow> Inr (s \<noteq> [])
      | PRef a \<Rightarrow> (case H a of OBytes b \<Rightarrow> Inr (b \<noteq> []) | OList xs \<Rightarrow> Inr (xs \<noteq> [])
          | OTuple xs \<Rightarrow> Inr (xs \<noteq> []) | OSet xs \<Rightarrow> Inr (xs \<noteq> []) | ODict d \<Rightarrow> Inr (d \<noteq> [])
          | OMapping (Some d) \<Rightarrow> Inr (d \<noteq> []) | OMapping None \<Rightarrow> Inl OtherError
          | OInst _ _ \<Rightarrow> Inr True))"

definition py_or :: "heap \<Rightarrow> pyval \<Rightarrow> pyval \<Rightarrow> exn + pyval" where
  "py_or H a b =
     (case py_truthy H a of Inl e \<Rightarrow> Inl e | Inr t \<Rightarrow> Inr (if t then a else b))"

text \<open>\<^verbatim>\<open>getattr(v, name, None)\<close>: only a missing attribute gives the default.\<close>

definition attr_or_none :: "heap \<Rightarrow> pyval \<Rightarrow> string \<Rightarrow> exn + pyval" where
  "attr_or_none H v name =
     (case attr_of H v (lit name) of Absent \<Rightarrow> Inr PNone | Present x \<Rightarrow> Inr x
      | Raising \<Rightarrow> Inl OtherError)"

lemmas [py_access] = is_mapping_def mapping_items_def mapping_find_def attr_of_def
  type_name_def seq_items_def

lemma map_sum_Inr_iff [simp]:
  "map_sum f g x = Inr y \<longleftrightarrow> (\<exists>z. x = Inr z \<and> y = g z)"
  "Inr y = map_sum f g x \<longleftrightarrow> (\<exists>z. x = Inr z \<and> y = g z)"
  by (cases x; auto)+

subsection \<open>Iteration that may raise\<close>

text \<open>Sequencing: the rest runs when nothing was raised.\<close>

definition and_then :: "'e + 'a \<Rightarrow> ('a \<Rightarrow> 'e + 'b) \<Rightarrow> 'e + 'b" where
  "and_then x f = (case x of Inl e \<Rightarrow> Inl e | Inr y \<Rightarrow> f y)"

lemma and_then_simps [simp]: "and_then (Inl e) f = Inl e" "and_then (Inr y) f = f y"
  by (simp_all add: and_then_def)

lemma and_then_Inr: "and_then x f = Inr z \<longleftrightarrow> (\<exists>y. x = Inr y \<and> f y = Inr z)"
  by (cases x) auto

lemma and_then_Inl: "and_then x f = Inl e \<longleftrightarrow> x = Inl e \<or> (\<exists>y. x = Inr y \<and> f y = Inl e)"
  by (cases x) auto

lemma and_then_cong [fundef_cong]:
  "x = x' \<Longrightarrow> (\<And>y. x' = Inr y \<Longrightarrow> f y = g y) \<Longrightarrow> and_then x f = and_then x' g"
  by (cases x') auto

text \<open>\<^verbatim>\<open>iter(v)\<close>, read to its end.\<close>

definition py_iter :: "heap \<Rightarrow> pyval \<Rightarrow> exn + pyval list" where
  "py_iter H v =
     (case v of
        PStr s \<Rightarrow> Inr (map (\<lambda>c. PStr [c]) s)
      | PRef a \<Rightarrow>
          (case H a of OBytes b \<Rightarrow> Inr (map (\<lambda>n. PInt (int n)) b) | OList xs \<Rightarrow> Inr xs
           | OTuple xs \<Rightarrow> Inr xs | OSet xs \<Rightarrow> Inr xs | ODict d \<Rightarrow> Inr (map fst d)
           | OMapping (Some d) \<Rightarrow> Inr (map fst d) | OMapping None \<Rightarrow> Inl OtherError
           | OInst _ _ \<Rightarrow> Inl TypeError)
      | _ \<Rightarrow> Inl TypeError)"

fun map_exn :: "('a \<Rightarrow> 'e + 'b) \<Rightarrow> 'a list \<Rightarrow> 'e + 'b list" where
  "map_exn f [] = Inr []"
| "map_exn f (x # xs) =
     (case f x of Inl e \<Rightarrow> Inl e
      | Inr y \<Rightarrow> (case map_exn f xs of Inl e \<Rightarrow> Inl e | Inr ys \<Rightarrow> Inr (y # ys)))"

lemma map_exn_cong [fundef_cong]:
  "xs = ys \<Longrightarrow> (\<And>x. x \<in> set ys \<Longrightarrow> f x = g x) \<Longrightarrow> map_exn f xs = map_exn g ys"
  by (induction xs arbitrary: ys) (auto split: sum.split)

lemma map_exn_Inr: "map_exn f xs = Inr ys \<longleftrightarrow> list_all2 (\<lambda>x y. f x = Inr y) xs ys"
proof (induction xs arbitrary: ys)
  case (Cons x xs)
  show ?case
  proof (cases "f x")
    case (Inr y)
    then have "map_exn f (x # xs) = Inr ys \<longleftrightarrow> (\<exists>zs. ys = y # zs \<and> map_exn f xs = Inr zs)"
      by (auto split: sum.split)
    with Cons.IH Inr show ?thesis by (simp add: list_all2_Cons1)
  qed (simp add: list_all2_Cons1)
qed auto

subsection \<open>Lemmas on stripped strings\<close>

lemma set_dropWhile_subset: "set (dropWhile P xs) \<subseteq> set xs"
  by (induction xs) auto

lemma py_strip_subset: "set (py_strip s) \<subseteq> set s"
  using set_dropWhile_subset[of py_isspace s]
    set_dropWhile_subset[of py_isspace "rev (dropWhile py_isspace s)"]
  by (auto simp: py_strip_def)

lemma length_py_strip [py_bounds]: "length (py_strip s) \<le> length s"
proof -
  have "length (py_strip s) \<le> length (dropWhile py_isspace s)"
    unfolding py_strip_def using length_dropWhile_le[of py_isspace "rev (dropWhile py_isspace s)"]
    by simp
  also have "\<dots> \<le> length s" by (rule length_dropWhile_le)
  finally show ?thesis .
qed

subsection \<open>Lower-case words\<close>

text \<open>
  Literals of lower-case letters, digits, \<open>-\<close>, \<open>_\<close> and \<open>.\<close> are fixed points of
  \<^verbatim>\<open>strip\<close>, \<^verbatim>\<open>lower\<close> and \<^verbatim>\<open>casefold\<close>.
\<close>

definition plain_char :: "nat \<Rightarrow> bool" where
  "plain_char n \<longleftrightarrow> n = 45 \<or> n = 46 \<or> n = 95 \<or> (48 \<le> n \<and> n \<le> 57) \<or> (97 \<le> n \<and> n \<le> 122)"

definition plain_word :: "ustr \<Rightarrow> bool" where
  "plain_word s = list_all plain_char s"

lemma py_strip_id: "list_all (\<lambda>c. \<not> py_isspace c) s \<Longrightarrow> py_strip s = s"
proof -
  assume a: "list_all (\<lambda>c. \<not> py_isspace c) s"
  have d: "list_all (\<lambda>c. \<not> py_isspace c) t \<Longrightarrow> dropWhile py_isspace t = t" for t
    by (cases t) auto
  have "list_all (\<lambda>c. \<not> py_isspace c) (rev s)" using a by (simp add: list_all_iff)
  with a d show ?thesis by (simp add: py_strip_def)
qed

lemma plain_word_strip: "plain_word s \<Longrightarrow> py_strip s = s"
  by (rule py_strip_id) (auto simp: plain_word_def plain_char_def py_isspace_def list_all_iff)

lemma plain_word_ascii: "plain_word s \<Longrightarrow> is_ascii s"
  by (fastforce simp: plain_word_def plain_char_def is_ascii_def list_all_iff)

lemma plain_word_map_lower: "plain_word s \<Longrightarrow> map ascii_lower s = s"
  by (auto simp: plain_word_def plain_char_def ascii_lower_def list_all_iff intro!: map_idI)

lemma plain_word_lower: "plain_word s \<Longrightarrow> py_lower rt s = s"
  by (simp add: py_lower_def plain_word_ascii plain_word_map_lower)

lemma plain_word_casefold: "plain_word s \<Longrightarrow> py_casefold rt s = s"
  by (simp add: py_casefold_def plain_word_ascii plain_word_map_lower)

lemmas plain_word_simps = plain_word_strip plain_word_lower plain_word_casefold

end
