(* ===== verification/Billing.thy ===== *)
theory Billing
  imports Py_Base
begin

section \<open>Subscription-only billing policy (billing.py)\<close>

text \<open>
  The pure policy module \<^verbatim>\<open>billing.py\<close>: the scrub of the child environment
  (\<open>plan_sdk_env_overrides\<close>), the reduction of one SDK event to four billing signals
  (\<open>extract_sdk_billing_evidence\<close>) and the fail-closed classification of a snapshot of
  them (\<open>classify_sdk_billing\<close>).
\<close>

subsection \<open>Enumerations and constants\<close>

datatype BillingMode = SUBSCRIPTION_INCLUDED | SDK_REPORTED_METERED | UNKNOWN_MODE

datatype BillingBlockReason =
  API_KEY_SOURCE | EXTRA_USAGE | OVERAGE | UNKNOWN_EVIDENCE | CONFLICTING_EVIDENCE

definition METERED_ENV_DENYLIST :: "string list" where
  "METERED_ENV_DENYLIST =
     [''ANTHROPIC_API_KEY'', ''ANTHROPIC_AUTH_TOKEN'', ''ANTHROPIC_TOKEN'',
      ''ANTHROPIC_BASE_URL'', ''CLAUDE_CODE_USE_BEDROCK'', ''CLAUDE_CODE_USE_VERTEX'',
      ''AWS_ACCESS_KEY_ID'', ''AWS_SECRET_ACCESS_KEY'', ''AWS_SESSION_TOKEN'',
      ''GOOGLE_APPLICATION_CREDENTIALS'']"

definition REFUSAL_FALLBACK_ENV :: ustr where
  "REFUSAL_FALLBACK_ENV = lit ''CLAUDE_CODE_DISABLE_REFUSAL_FALLBACK''"

definition REFUSAL_FALLBACK_VALUE :: ustr where
  "REFUSAL_FALLBACK_VALUE = lit ''1''"

definition MAX_ENV_KEY_LENGTH :: nat where "MAX_ENV_KEY_LENGTH = 128"
definition MAX_ENV_VALUE_LENGTH :: nat where "MAX_ENV_VALUE_LENGTH = 4096"
definition MAX_EVIDENCE_TEXT_LENGTH :: nat where "MAX_EVIDENCE_TEXT_LENGTH = 64"

definition METERED_API_KEY_SOURCES :: "string list" where
  "METERED_API_KEY_SOURCES =
     [''anthropic_api_key'', ''anthropic_auth_token'', ''anthropic_token'', ''api_key'',
      ''api-key'', ''metered'']"

definition SAFE_OVERAGE_STATUSES :: "string list" where
  "SAFE_OVERAGE_STATUSES =
     [''rejected'', ''disabled'', ''not_allowed'', ''not-allowed'', ''inactive'', ''none'']"

definition RISKY_OVERAGE_STATUSES :: "string list" where
  "RISKY_OVERAGE_STATUSES = [''allowed'', ''allowed_warning'', ''allowed-warning'']"

definition SAFE_RATE_LIMIT_TYPES :: "string list" where
  "SAFE_RATE_LIMIT_TYPES =
     [''five_hour'', ''five-hour'', ''seven_day'', ''seven-day'', ''seven_day_opus'',
      ''seven_day_sonnet'', ''seven_day_overage_included'']"

definition SECRETISH_ENV_PARTS :: "string list" where
  "SECRETISH_ENV_PARTS =
     [''AUTH'', ''AUTHENTICATION'', ''COOKIE'', ''CREDENTIAL'', ''KEY'', ''OAUTH'',
      ''PASSWORD'', ''PRIVATE'', ''SECRET'', ''TOKEN'']"

subsection \<open>The child environment\<close>

definition is_subscription_oauth_token :: "pyval \<Rightarrow> bool" where
  "is_subscription_oauth_token value =
     (case value of
        PStr s \<Rightarrow>
          if s = [] then False
          else if startswith s (lit ''sk-ant-api'') then False
          else if startswith s (lit ''sk-ant-'') then True
          else if startswith s (lit ''eyJ'') then True
          else if startswith s (lit ''cc-'') then True
          else False
      | _ \<Rightarrow> False)"

definition is_metered_sdk_env_value :: "pyval \<Rightarrow> pyval \<Rightarrow> bool" where
  "is_metered_sdk_env_value key value =
     (if \<not> str_in key METERED_ENV_DENYLIST then False
      else if value = PNone \<or> value = PStr [] then False
      else if key = PStr (lit ''ANTHROPIC_TOKEN'') then \<not> is_subscription_oauth_token value
      else True)"

definition safe_env_key :: "pyval \<Rightarrow> ustr option" where
  "safe_env_key value =
     (case value of
        PStr s \<Rightarrow> if s = [] \<or> length s > MAX_ENV_KEY_LENGTH \<or> 0 \<in> set s then None else Some s
      | _ \<Rightarrow> None)"

text \<open>
  \<^verbatim>\<open>str(value)\<close> of an accepted scalar; a very long integer raises \<^verbatim>\<open>ValueError\<close>.
\<close>

definition py_str_float :: "pyrt \<Rightarrow> pyfloat \<Rightarrow> ustr" where
  "py_str_float rt f =
     (case f of FFin r \<Rightarrow> rt_float_repr rt r | FNan \<Rightarrow> lit ''nan''
      | FInf neg \<Rightarrow> if neg then lit ''-inf'' else lit ''inf'')"

definition py_str_scalar :: "pyrt \<Rightarrow> pyval \<Rightarrow> (exn + ustr) option" where
  "py_str_scalar rt value =
     (case value of
        PStr s \<Rightarrow> Some (Inr s)
      | PBool b \<Rightarrow> Some (Inr (if b then lit ''True'' else lit ''False''))
      | PInt i \<Rightarrow> Some (py_str_int i)
      | PFloat f \<Rightarrow> Some (Inr (py_str_float rt f))
      | _ \<Rightarrow> None)"

definition safe_env_value :: "pyrt \<Rightarrow> pyval \<Rightarrow> exn + ustr option" where
  "safe_env_value rt value =
     (case py_str_scalar rt value of
        None \<Rightarrow> Inr None
      | Some (Inl e) \<Rightarrow> Inl e
      | Some (Inr text) \<Rightarrow>
          Inr (if length text > MAX_ENV_VALUE_LENGTH \<or> 0 \<in> set text then None else Some text))"

definition looks_secretish_env_key :: "pyrt \<Rightarrow> ustr \<Rightarrow> bool" where
  "looks_secretish_env_key rt key =
     (let parts = filter (\<lambda>p. p \<noteq> [])
            (py_split_on 95 (map (\<lambda>c. if c = 45 then 95 else c) (py_upper rt key)))
      in list_ex (\<lambda>p. p \<in> set (lits SECRETISH_ENV_PARTS)) parts)"

text \<open>
  The loop over the parent environment. An unreadable value counts as present and is
  replaced by a fresh \<^verbatim>\<open>object()\<close>, some reference that is no string.
\<close>

definition fresh_object :: pyval where
  "fresh_object = PRef 0"

fun scrub_parent :: "heap \<Rightarrow> pyval \<Rightarrow> string list \<Rightarrow> (ustr \<times> ustr) list \<Rightarrow> (ustr \<times> ustr) list" where
  "scrub_parent H parent_env [] overrides = overrides"
| "scrub_parent H parent_env (k # ks) overrides =
     (let metered =
        (case mapping_find H parent_env (lit k) of
           Inl _ \<Rightarrow> is_metered_sdk_env_value (PStr (lit k)) fresh_object
         | Inr None \<Rightarrow> False
         | Inr (Some value) \<Rightarrow> is_metered_sdk_env_value (PStr (lit k)) value)
      in scrub_parent H parent_env ks
           (if metered then dict_set (lit k) [] overrides else overrides))"

text \<open>The loop over the configured items; an exception keeps what was accumulated.\<close>

fun add_configured :: "pyrt \<Rightarrow> (pyval \<times> pyval) list \<Rightarrow> (ustr \<times> ustr) list \<Rightarrow> (ustr \<times> ustr) list" where
  "add_configured rt [] overrides = overrides"
| "add_configured rt ((raw_key, raw_value) # items) overrides =
     (case safe_env_key raw_key of
        None \<Rightarrow> add_configured rt items overrides
      | Some key \<Rightarrow>
          if raw_value = PNone then add_configured rt items overrides
          else if key \<in> set (lits METERED_ENV_DENYLIST) \<or> key = REFUSAL_FALLBACK_ENV \<or>
                  looks_secretish_env_key rt key
          then add_configured rt items overrides
          else (case safe_env_value rt raw_value of
                  Inl _ \<Rightarrow> overrides
                | Inr None \<Rightarrow> add_configured rt items overrides
                | Inr (Some value) \<Rightarrow> add_configured rt items (dict_set key value overrides)))"

definition plan_sdk_env_overrides ::
    "pyrt \<Rightarrow> heap \<Rightarrow> pyval \<Rightarrow> pyval \<Rightarrow> (ustr \<times> ustr) list" where
  "plan_sdk_env_overrides rt H parent_env configured_env =
     (let overrides = [(REFUSAL_FALLBACK_ENV, REFUSAL_FALLBACK_VALUE)];
          overrides = (if is_mapping H parent_env
                       then scrub_parent H parent_env METERED_ENV_DENYLIST overrides
                       else overrides)
      in if \<not> is_mapping H configured_env then overrides
         else (case mapping_items H configured_env of
                 Inl _ \<Rightarrow> overrides
               | Inr items \<Rightarrow> add_configured rt items overrides))"

definition scrubbed_sdk_env :: "pyrt \<Rightarrow> heap \<Rightarrow> pyval \<Rightarrow> (ustr \<times> ustr) list" where
  "scrubbed_sdk_env rt H parent_env =
     filter (\<lambda>p. fst p \<in> set (lits METERED_ENV_DENYLIST))
       (plan_sdk_env_overrides rt H parent_env PNone)"

subsection \<open>Billing evidence\<close>

text \<open>
  The typed evidence. Its fields hold arbitrary objects until they are normalised;
  \<open>malformed_fields\<close> is a collection of names, or (a malformed typed seam) no collection.
\<close>

datatype malformed_names = Names "ustr list" | NotCollection

record SDKBillingEvidence =
  ev_api_key_source :: pyval
  ev_is_using_overage :: pyval
  ev_overage_status :: pyval
  ev_rate_limit_type :: pyval
  ev_malformed_fields :: malformed_names

definition no_evidence :: SDKBillingEvidence where
  "no_evidence = \<lparr>ev_api_key_source = PNone, ev_is_using_overage = PNone,
     ev_overage_status = PNone, ev_rate_limit_type = PNone, ev_malformed_fields = Names []\<rparr>"

record BillingDecision =
  bd_mode :: BillingMode
  bd_allowed :: bool
  bd_block_reason :: "BillingBlockReason option"
  bd_evidence :: SDKBillingEvidence

text \<open>
  \<open>_read_field\<close>: the first of the names that the mapping has, or the first attribute that
  can be read; a mapping that raises gives the default at once.
\<close>

fun read_mapping_field :: "heap \<Rightarrow> pyval \<Rightarrow> string list \<Rightarrow> pyval \<Rightarrow> pyval" where
  "read_mapping_field H value [] dflt = dflt"
| "read_mapping_field H value (name # names) dflt =
     (case mapping_find H value (lit name) of
        Inl _ \<Rightarrow> dflt
      | Inr (Some v) \<Rightarrow> v
      | Inr None \<Rightarrow> read_mapping_field H value names dflt)"

fun read_attr_field :: "heap \<Rightarrow> pyval \<Rightarrow> string list \<Rightarrow> pyval \<Rightarrow> pyval" where
  "read_attr_field H value [] dflt = dflt"
| "read_attr_field H value (name # names) dflt =
     (case attr_of H value (lit name) of
        Present v \<Rightarrow> v
      | _ \<Rightarrow> read_attr_field H value names dflt)"

definition read_field :: "heap \<Rightarrow> pyval \<Rightarrow> string list \<Rightarrow> pyval \<Rightarrow> pyval" where
  "read_field H value names dflt =
     (if is_mapping H value then read_mapping_field H value names dflt
      else read_attr_field H value names dflt)"

definition bounded_signal_text :: "pyrt \<Rightarrow> pyval \<Rightarrow> ustr option \<times> bool" where
  "bounded_signal_text rt value =
     (case value of
        PNone \<Rightarrow> (None, False)
      | PStr s \<Rightarrow>
          (let text = py_lower rt (py_strip s)
           in if text = [] \<or> length text > MAX_EVIDENCE_TEXT_LENGTH
              then (Some (lit ''unknown''), True) else (Some text, False))
      | _ \<Rightarrow> (Some (lit ''unknown''), True))"

definition canonical_api_key_source :: "pyrt \<Rightarrow> pyval \<Rightarrow> ustr option \<times> bool" where
  "canonical_api_key_source rt value =
     (case bounded_signal_text rt value of
        (None, malformed) \<Rightarrow> (None, malformed)
      | (Some text, malformed) \<Rightarrow>
          if text = lit ''none'' then (Some (lit ''none''), malformed)
          else if text \<in> set (lits METERED_API_KEY_SOURCES) then (Some (lit ''metered''), malformed)
          else (Some (lit ''unknown''), malformed))"

definition canonical_overage_status :: "pyrt \<Rightarrow> pyval \<Rightarrow> ustr option \<times> bool" where
  "canonical_overage_status rt value =
     (case bounded_signal_text rt value of
        (None, malformed) \<Rightarrow> (None, malformed)
      | (Some text, malformed) \<Rightarrow>
          if text \<in> set (lits SAFE_OVERAGE_STATUSES) \<or> text \<in> set (lits RISKY_OVERAGE_STATUSES)
          then (Some text, malformed) else (Some (lit ''unknown''), malformed))"

definition canonical_rate_limit_type :: "pyrt \<Rightarrow> pyval \<Rightarrow> ustr option \<times> bool" where
  "canonical_rate_limit_type rt value =
     (case bounded_signal_text rt value of
        (None, malformed) \<Rightarrow> (None, malformed)
      | (Some text, malformed) \<Rightarrow>
          if text \<in> set (lits SAFE_RATE_LIMIT_TYPES) then (Some text, malformed)
          else if text = lit ''overage'' then (Some text, malformed)
          else (Some (lit ''unknown''), malformed))"

definition of_signal :: "ustr option \<Rightarrow> pyval" where
  "of_signal s = (case s of None \<Rightarrow> PNone | Some t \<Rightarrow> PStr t)"

definition EVIDENCE_FIELDS :: "string list" where
  "EVIDENCE_FIELDS =
     [''api_key_source'', ''is_using_overage'', ''overage_status'', ''rate_limit_type'']"

definition add_if :: "bool \<Rightarrow> string \<Rightarrow> ustr list \<Rightarrow> ustr list" where
  "add_if bad name names = (if bad then List.insert (lit name) names else names)"

definition normalize_evidence ::
    "pyrt \<Rightarrow> SDKBillingEvidence \<Rightarrow> SDKBillingEvidence \<times> ustr list" where
  "normalize_evidence rt evidence =
     (let malformed =
            (case ev_malformed_fields evidence of
               Names names \<Rightarrow> remdups (filter (\<lambda>n. n \<in> set (lits EVIDENCE_FIELDS)) names)
             | NotCollection \<Rightarrow> [lit ''malformed_fields'']);
          (api_key_source, bad1) = canonical_api_key_source rt (ev_api_key_source evidence);
          malformed = add_if bad1 ''api_key_source'' malformed;
          (is_using_overage, bad2) =
            (case ev_is_using_overage evidence of
               PNone \<Rightarrow> (PNone, False) | PBool b \<Rightarrow> (PBool b, False) | _ \<Rightarrow> (PNone, True));
          malformed = add_if bad2 ''is_using_overage'' malformed;
          (overage_status, bad3) = canonical_overage_status rt (ev_overage_status evidence);
          malformed = add_if bad3 ''overage_status'' malformed;
          (rate_limit_type, bad4) = canonical_rate_limit_type rt (ev_rate_limit_type evidence);
          malformed = add_if bad4 ''rate_limit_type'' malformed
      in (\<lparr>ev_api_key_source = of_signal api_key_source,
           ev_is_using_overage = is_using_overage,
           ev_overage_status = of_signal overage_status,
           ev_rate_limit_type = of_signal rate_limit_type,
           ev_malformed_fields = Names []\<rparr>, sort malformed))"

text \<open>\<^verbatim>\<open>SDKBillingEvidence.to_dict\<close>: canonical categories and safe field names only.\<close>

datatype evidence_value = EvValue pyval | EvNames "ustr list"

definition evidence_to_dict :: "pyrt \<Rightarrow> SDKBillingEvidence \<Rightarrow> (ustr \<times> evidence_value) list" where
  "evidence_to_dict rt evidence =
     (let (n, malformed) = normalize_evidence rt evidence;
          present = filter (\<lambda>(k, v). v \<noteq> PNone)
            [(lit ''api_key_source'', ev_api_key_source n),
             (lit ''is_using_overage'', ev_is_using_overage n),
             (lit ''overage_status'', ev_overage_status n),
             (lit ''rate_limit_type'', ev_rate_limit_type n)]
      in map (\<lambda>(k, v). (k, EvValue v)) present @
         (if malformed = [] then [] else [(lit ''malformed_fields'', EvNames malformed)]))"

subsection \<open>Extraction from one SDK event\<close>

datatype sdk_event = TypedEvidence SDKBillingEvidence | EventObject pyval

definition event_kind :: "pyrt \<Rightarrow> heap \<Rightarrow> pyval \<Rightarrow> ustr" where
  "event_kind rt H event =
     (case (if is_mapping H event then read_field H event [''type'', ''kind''] (PStr [])
            else PStr (type_name H event)) of
        PStr s \<Rightarrow> py_lower rt (filter (\<lambda>c. c \<noteq> 32) (map (\<lambda>c. if c = 45 then 95 else c) s))
      | _ \<Rightarrow> [])"

text \<open>\<^verbatim>\<open>any(key in event for key in keys)\<close>; the mapping's own exception escapes.\<close>

fun mapping_has_any :: "heap \<Rightarrow> pyval \<Rightarrow> string list \<Rightarrow> exn + bool" where
  "mapping_has_any H m [] = Inr False"
| "mapping_has_any H m (k # ks) =
     (case mapping_find H m (lit k) of
        Inl e \<Rightarrow> Inl e | Inr (Some _) \<Rightarrow> Inr True | Inr None \<Rightarrow> mapping_has_any H m ks)"

definition system_evidence :: "heap \<Rightarrow> pyval \<Rightarrow> SDKBillingEvidence" where
  "system_evidence H event =
     (let data = read_field H event [''data''] event
      in if \<not> is_mapping H data
         then no_evidence\<lparr>ev_malformed_fields := Names [lit ''api_key_source'']\<rparr>
         else no_evidence\<lparr>ev_api_key_source :=
                read_field H data [''apiKeySource'', ''api_key_source''] PNone\<rparr>)"

definition RATE_LIMIT_KEYS :: "string list" where
  "RATE_LIMIT_KEYS =
     [''raw'', ''isUsingOverage'', ''is_using_overage'', ''overageStatus'', ''overage_status'',
      ''rateLimitType'', ''rate_limit_type'']"

text \<open>
  The rate-limit part. The fallback mapping \<^verbatim>\<open>raw\<close> defaults to \<^verbatim>\<open>{}\<close>: \<open>raw_field\<close> reads a
  field of it, and of the empty mapping nothing.
\<close>

definition raw_field :: "heap \<Rightarrow> pyval option \<Rightarrow> string list \<Rightarrow> pyval" where
  "raw_field H raw names =
     (case raw of None \<Rightarrow> PNone | Some r \<Rightarrow> read_field H r names PNone)"

definition rate_limit_evidence :: "heap \<Rightarrow> pyval \<Rightarrow> SDKBillingEvidence" where
  "rate_limit_evidence H info =
     (let raw0 = read_field H info [''raw''] PNone;
          raw_bad = (raw0 \<noteq> PNone \<and> \<not> is_mapping H raw0);
          raw = (if is_mapping H raw0 then Some raw0 else None);
          overage_value = read_field H info [''is_using_overage'', ''isUsingOverage'']
            (raw_field H raw [''isUsingOverage'', ''is_using_overage'']);
          overage_status = read_field H info [''overage_status'', ''overageStatus'']
            (raw_field H raw [''overageStatus'', ''overage_status'']);
          rate_limit_type = read_field H info [''rate_limit_type'', ''rateLimitType'']
            (raw_field H raw [''rateLimitType'', ''rate_limit_type'']);
          value_bad = (case overage_value of PNone \<Rightarrow> False | PBool _ \<Rightarrow> False | _ \<Rightarrow> True)
      in no_evidence\<lparr>ev_is_using_overage := overage_value,
                     ev_overage_status := overage_status,
                     ev_rate_limit_type := rate_limit_type,
                     ev_malformed_fields :=
                       Names (if raw_bad \<or> value_bad then [lit ''is_using_overage''] else [])\<rparr>)"

definition extract_sdk_billing_evidence ::
    "pyrt \<Rightarrow> heap \<Rightarrow> sdk_event \<Rightarrow> exn + SDKBillingEvidence option" where
  "extract_sdk_billing_evidence rt H ev =
     (case ev of
        TypedEvidence e \<Rightarrow> Inr (Some e)
      | EventObject event \<Rightarrow>
          (let kind = event_kind rt H event;
               subtype = read_field H event [''subtype''] PNone;
               init_subtype = (subtype = PNone \<or> subtype = PStr (lit ''init''));
               direct = (if is_mapping H event
                         then mapping_has_any H event [''apiKeySource'', ''api_key_source'']
                         else Inr False)
           in case direct of Inl e \<Rightarrow> Inl e | Inr direct_has_api_source \<Rightarrow>
             (let is_system =
                    kind \<in> set (lits [''systemmessage'', ''system_message'', ''system'']) \<or>
                    (direct_has_api_source \<and> init_subtype)
              in if is_system then
                   Inr (if \<not> init_subtype then None else Some (system_evidence H event))
                 else
                   (let info = read_field H event [''rate_limit_info'', ''rateLimitInfo''] PNone;
                        is_rate_limit = kind \<in> set (lits [''ratelimitevent'', ''rate_limit_event'',
                          ''rate_limit''])
                    in if info = PNone \<and> is_mapping H event
                       then (case (if is_rate_limit then Inr True
                                   else mapping_has_any H event RATE_LIMIT_KEYS) of
                               Inl e \<Rightarrow> Inl e
                             | Inr rl \<Rightarrow> Inr (if rl then Some (rate_limit_evidence H event) else None))
                       else Inr (if is_rate_limit then Some (rate_limit_evidence H info)
                                 else None)))))"

subsection \<open>Classification\<close>

datatype evidence_arg = TypedArg SDKBillingEvidence | RawArg pyval

definition coerce_evidence :: "heap \<Rightarrow> evidence_arg \<Rightarrow> SDKBillingEvidence option" where
  "coerce_evidence H arg =
     (case arg of
        TypedArg e \<Rightarrow> Some e
      | RawArg value \<Rightarrow>
          if \<not> is_mapping H value then None
          else Some \<lparr>
            ev_api_key_source = read_field H value [''api_key_source'', ''apiKeySource''] PNone,
            ev_is_using_overage = read_field H value [''is_using_overage'', ''isUsingOverage''] PNone,
            ev_overage_status = read_field H value [''overage_status'', ''overageStatus''] PNone,
            ev_rate_limit_type = read_field H value [''rate_limit_type'', ''rateLimitType''] PNone,
            ev_malformed_fields = Names []\<rparr>)"

definition blocked :: "BillingBlockReason \<Rightarrow> SDKBillingEvidence \<Rightarrow> bool \<Rightarrow> BillingDecision" where
  "blocked reason evidence metered =
     \<lparr>bd_mode = (if metered then SDK_REPORTED_METERED else UNKNOWN_MODE),
      bd_allowed = False, bd_block_reason = Some reason, bd_evidence = evidence\<rparr>"

definition classify_normalized :: "SDKBillingEvidence \<Rightarrow> BillingDecision" where
  "classify_normalized n =
     (let source = ev_api_key_source n;
          using_overage = ev_is_using_overage n;
          status = ev_overage_status n;
          rate_limit_type = ev_rate_limit_type n
      in if source = PStr (lit ''none'') \<and>
            (using_overage = PBool True \<or> str_in status RISKY_OVERAGE_STATUSES)
         then blocked CONFLICTING_EVIDENCE n False
         else if using_overage = PBool False \<and> str_in status RISKY_OVERAGE_STATUSES
         then blocked CONFLICTING_EVIDENCE n False
         else if source = PStr (lit ''metered'') then blocked API_KEY_SOURCE n True
         else if using_overage = PBool True \<or> str_in status RISKY_OVERAGE_STATUSES
         then blocked EXTRA_USAGE n True
         else if rate_limit_type = PStr (lit ''overage'') \<and> using_overage \<noteq> PBool False
         then blocked OVERAGE n True
         else if PStr (lit ''unknown'') \<in> set [source, using_overage, status, rate_limit_type]
         then blocked UNKNOWN_EVIDENCE n False
         else if \<not> (source = PStr (lit ''none'') \<or> using_overage = PBool False \<or>
                    str_in status SAFE_OVERAGE_STATUSES \<or> str_in rate_limit_type SAFE_RATE_LIMIT_TYPES)
         then blocked UNKNOWN_EVIDENCE n False
         else \<lparr>bd_mode = SUBSCRIPTION_INCLUDED, bd_allowed = True, bd_block_reason = None,
                bd_evidence = n\<rparr>)"

definition classify_sdk_billing :: "pyrt \<Rightarrow> heap \<Rightarrow> evidence_arg \<Rightarrow> BillingDecision" where
  "classify_sdk_billing rt H evidence =
     (case coerce_evidence H evidence of
        None \<Rightarrow> blocked UNKNOWN_EVIDENCE no_evidence False
      | Some typed \<Rightarrow>
          (let (normalized, malformed) = normalize_evidence rt typed
           in if malformed \<noteq> [] then blocked UNKNOWN_EVIDENCE normalized False
              else classify_normalized normalized))"

subsection \<open>The environment plan: lemmas\<close>

text \<open>Whether the parent mapping carries the variable \<open>k\<close> as a metered vector.\<close>

definition parent_metered :: "heap \<Rightarrow> pyval \<Rightarrow> string \<Rightarrow> bool" where
  "parent_metered H parent_env k =
     (is_mapping H parent_env \<and>
      (case mapping_find H parent_env (lit k) of
         Inl _ \<Rightarrow> is_metered_sdk_env_value (PStr (lit k)) fresh_object
       | Inr None \<Rightarrow> False
       | Inr (Some value) \<Rightarrow> is_metered_sdk_env_value (PStr (lit k)) value))"

lemma scrub_parent_alt:
  assumes "is_mapping H parent_env"
  shows "scrub_parent H parent_env ks ov =
    foldl (\<lambda>ov k. if parent_metered H parent_env k then dict_set (lit k) [] ov else ov) ov ks"
  using assms
  by (induction ks arbitrary: ov)
     (auto simp: parent_metered_def Let_def split: sum.splits option.splits)

lemma map_of_scrub_parent:
  assumes "is_mapping H parent_env"
  shows "map_of (scrub_parent H parent_env ks ov) key =
    (if \<exists>k\<in>set ks. key = lit k \<and> parent_metered H parent_env k then Some []
     else map_of ov key)"
  unfolding scrub_parent_alt[OF assms]
  by (induction ks arbitrary: ov) auto

definition config_key_ok :: "pyrt \<Rightarrow> ustr \<Rightarrow> bool" where
  "config_key_ok rt key \<longleftrightarrow> key \<noteq> [] \<and> length key \<le> MAX_ENV_KEY_LENGTH \<and> 0 \<notin> set key \<and>
     key \<notin> set (lits METERED_ENV_DENYLIST) \<and> key \<noteq> REFUSAL_FALLBACK_ENV \<and>
     \<not> looks_secretish_env_key rt key"

definition config_value_ok :: "ustr \<Rightarrow> bool" where
  "config_value_ok v \<longleftrightarrow> length v \<le> MAX_ENV_VALUE_LENGTH \<and> 0 \<notin> set v"

lemma safe_env_key_Some:
  "safe_env_key v = Some key \<Longrightarrow> key \<noteq> [] \<and> length key \<le> MAX_ENV_KEY_LENGTH \<and> 0 \<notin> set key"
  by (auto simp: safe_env_key_def split: pyval.splits if_splits)

lemma safe_env_value_Some:
  "safe_env_value rt v = Inr (Some t) \<Longrightarrow> config_value_ok t"
  by (auto simp: safe_env_value_def config_value_ok_def split: option.splits sum.splits if_splits)

lemma add_configured_keeps:
  "\<not> config_key_ok rt key \<Longrightarrow> map_of (add_configured rt items ov) key = map_of ov key"
proof (induction rt items ov rule: add_configured.induct)
  case (2 rt raw_key raw_value items ov)
  then show ?case
    by (auto simp: config_key_ok_def dest: safe_env_key_Some
             split: option.splits sum.splits)
qed simp

lemma add_configured_entries:
  "(key, v) \<in> set (add_configured rt items ov) \<Longrightarrow>
     (key, v) \<in> set ov \<or> (config_key_ok rt key \<and> config_value_ok v)"
proof (induction items arbitrary: ov)
  case (Cons item items)
  obtain rk rv where item: "item = (rk, rv)" by (cases item)
  have step: "add_configured rt (item # items) ov = ov \<or>
    add_configured rt (item # items) ov = add_configured rt items ov \<or>
    (\<exists>k t. config_key_ok rt k \<and> config_value_ok t \<and>
       add_configured rt (item # items) ov = add_configured rt items (dict_set k t ov))"
    unfolding item
    by (auto simp: config_key_ok_def dest!: safe_env_key_Some safe_env_value_Some
             split: option.splits sum.splits)
  then show ?case
  proof (elim disjE exE conjE)
    fix k t
    assume ok: "config_key_ok rt k" "config_value_ok t"
      and eq: "add_configured rt (item # items) ov = add_configured rt items (dict_set k t ov)"
    from Cons.prems eq Cons.IH have
      "(key, v) \<in> set (dict_set k t ov) \<or> (config_key_ok rt key \<and> config_value_ok v)"
      by simp
    with ok set_dict_set_subset[of k t ov] show ?thesis by auto
  qed (use Cons in auto)
qed simp

lemma denylist_not_config: "key \<in> set (lits METERED_ENV_DENYLIST) \<Longrightarrow> \<not> config_key_ok rt key"
  by (simp add: config_key_ok_def)

lemma refusal_not_config: "\<not> config_key_ok rt REFUSAL_FALLBACK_ENV"
  by (simp add: config_key_ok_def)

lemma refusal_not_denied: "k \<in> set METERED_ENV_DENYLIST \<Longrightarrow> lit k \<noteq> REFUSAL_FALLBACK_ENV"
  by (auto simp: REFUSAL_FALLBACK_ENV_def METERED_ENV_DENYLIST_def)

lemma plan_on_protected_key:
  assumes "\<not> config_key_ok rt key"
  shows "map_of (plan_sdk_env_overrides rt H p c) key =
    (if \<exists>k\<in>set METERED_ENV_DENYLIST. key = lit k \<and> parent_metered H p k then Some []
     else if key = REFUSAL_FALLBACK_ENV then Some REFUSAL_FALLBACK_VALUE else None)"
proof (cases "is_mapping H p")
  case True
  then show ?thesis
    using assms
    by (auto simp: plan_sdk_env_overrides_def Let_def map_of_scrub_parent add_configured_keeps
             split: sum.splits)
next
  case False
  then show ?thesis
    using assms
    by (auto simp: plan_sdk_env_overrides_def Let_def add_configured_keeps parent_metered_def
             split: sum.splits)
qed

subsection \<open>Canonical evidence\<close>

text \<open>
  The values the normalised evidence can hold: fixed categories only, never the text an
  SDK event carried.
\<close>

definition signal_words :: "string list" where
  "signal_words = SAFE_OVERAGE_STATUSES @ RISKY_OVERAGE_STATUSES @ SAFE_RATE_LIMIT_TYPES @
     [''metered'', ''none'', ''unknown'', ''overage'']"

lemmas signal_defs = signal_words_def SAFE_OVERAGE_STATUSES_def RISKY_OVERAGE_STATUSES_def
  SAFE_RATE_LIMIT_TYPES_def METERED_API_KEY_SOURCES_def

definition canonical_evidence :: "SDKBillingEvidence \<Rightarrow> bool" where
  "canonical_evidence n \<longleftrightarrow>
     (ev_api_key_source n = PNone \<or>
      str_in (ev_api_key_source n) [''none'', ''metered'', ''unknown'']) \<and>
     ev_is_using_overage n \<in> {PNone, PBool True, PBool False} \<and>
     (ev_overage_status n = PNone \<or>
      str_in (ev_overage_status n) (SAFE_OVERAGE_STATUSES @ RISKY_OVERAGE_STATUSES @ [''unknown''])) \<and>
     (ev_rate_limit_type n = PNone \<or>
      str_in (ev_rate_limit_type n) (SAFE_RATE_LIMIT_TYPES @ [''overage'', ''unknown''])) \<and>
     ev_malformed_fields n = Names []"

lemma signal_words_plain:
  "s \<in> set signal_words \<Longrightarrow> plain_word (lit s) \<and> s \<noteq> [] \<and> length s \<le> 64"
  by (auto simp: signal_defs lit_def plain_word_def plain_char_def)

lemma bounded_signal_text_word:
  "s \<in> set signal_words \<Longrightarrow> bounded_signal_text rt (PStr (lit s)) = (Some (lit s), False)"
  by (auto simp: bounded_signal_text_def plain_word_simps MAX_EVIDENCE_TEXT_LENGTH_def Let_def
           dest: signal_words_plain)

lemma canonical_source_range:
  "canonical_api_key_source rt v = (t, b) \<Longrightarrow>
     of_signal t = PNone \<or> str_in (of_signal t) [''none'', ''metered'', ''unknown'']"
  by (auto simp: canonical_api_key_source_def of_signal_def split: prod.splits option.splits if_splits)

lemma canonical_status_range:
  "canonical_overage_status rt v = (t, b) \<Longrightarrow> of_signal t = PNone \<or>
     str_in (of_signal t) (SAFE_OVERAGE_STATUSES @ RISKY_OVERAGE_STATUSES @ [''unknown''])"
  by (auto simp: canonical_overage_status_def of_signal_def split: prod.splits option.splits if_splits)

lemma canonical_rate_range:
  "canonical_rate_limit_type rt v = (t, b) \<Longrightarrow> of_signal t = PNone \<or>
     str_in (of_signal t) (SAFE_RATE_LIMIT_TYPES @ [''overage'', ''unknown''])"
  by (auto simp: canonical_rate_limit_type_def of_signal_def split: prod.splits option.splits if_splits)

lemma normalize_canonical: "canonical_evidence (fst (normalize_evidence rt e))"
  using canonical_source_range canonical_status_range canonical_rate_range
  by (auto simp: normalize_evidence_def canonical_evidence_def Let_def
           split: prod.splits pyval.splits)

lemma canonical_source_id:
  "str_in v [''none'', ''metered'', ''unknown''] \<Longrightarrow>
     \<exists>t. v = PStr t \<and> canonical_api_key_source rt v = (Some t, False)"
  by (cases v)
     (auto simp: canonical_api_key_source_def bounded_signal_text_word signal_defs)

lemma canonical_status_id:
  "str_in v (SAFE_OVERAGE_STATUSES @ RISKY_OVERAGE_STATUSES @ [''unknown'']) \<Longrightarrow>
     \<exists>t. v = PStr t \<and> canonical_overage_status rt v = (Some t, False)"
  by (cases v)
     (auto simp: canonical_overage_status_def bounded_signal_text_word signal_defs)

lemma canonical_rate_id:
  "str_in v (SAFE_RATE_LIMIT_TYPES @ [''overage'', ''unknown'']) \<Longrightarrow>
     \<exists>t. v = PStr t \<and> canonical_rate_limit_type rt v = (Some t, False)"
  by (cases v)
     (auto simp: canonical_rate_limit_type_def bounded_signal_text_word signal_defs)

lemma canonical_PNone [simp]:
  "canonical_api_key_source rt PNone = (None, False)"
  "canonical_overage_status rt PNone = (None, False)"
  "canonical_rate_limit_type rt PNone = (None, False)"
  by (simp_all add: canonical_api_key_source_def canonical_overage_status_def
        canonical_rate_limit_type_def bounded_signal_text_def)

lemma of_signal_simps [simp]: "of_signal None = PNone" "of_signal (Some t) = PStr t"
  by (simp_all add: of_signal_def)

lemma normalize_canonical_id:
  assumes "canonical_evidence n"
  shows "normalize_evidence rt n = (n, [])"
proof -
  note c = assms[unfolded canonical_evidence_def]
  have 1: "\<exists>t. canonical_api_key_source rt (ev_api_key_source n) = (t, False) \<and>
    of_signal t = ev_api_key_source n"
    using c canonical_source_id[of "ev_api_key_source n" rt] by auto
  have 2: "\<exists>t. canonical_overage_status rt (ev_overage_status n) = (t, False) \<and>
    of_signal t = ev_overage_status n"
    using c canonical_status_id[of "ev_overage_status n" rt] by auto
  have 3: "\<exists>t. canonical_rate_limit_type rt (ev_rate_limit_type n) = (t, False) \<and>
    of_signal t = ev_rate_limit_type n"
    using c canonical_rate_id[of "ev_rate_limit_type n" rt] by auto
  from 1 2 3 c show ?thesis
    by (cases n) (auto simp: normalize_evidence_def Let_def add_if_def)
qed

lemma classify_keeps_evidence: "bd_evidence (classify_normalized n) = n"
  by (simp add: classify_normalized_def blocked_def Let_def)

lemma classify_evidence_canonical:
  "canonical_evidence (bd_evidence (classify_sdk_billing rt H arg))"
proof (cases "coerce_evidence H arg")
  case None
  then show ?thesis
    by (simp add: classify_sdk_billing_def blocked_def canonical_evidence_def no_evidence_def)
next
  case (Some e)
  with normalize_canonical[of rt e] show ?thesis
    by (auto simp: classify_sdk_billing_def blocked_def classify_keeps_evidence split: prod.splits)
qed

subsection \<open>Properties\<close>

text \<open>The policy in one place: what a snapshot of canonical signals must look like.\<close>

definition subscription_evidence :: "SDKBillingEvidence \<Rightarrow> bool" where
  "subscription_evidence n \<longleftrightarrow>
     (ev_api_key_source n = PNone \<or> ev_api_key_source n = PStr (lit ''none'')) \<and>
     ev_is_using_overage n \<noteq> PBool True \<and>
     (ev_overage_status n = PNone \<or> str_in (ev_overage_status n) SAFE_OVERAGE_STATUSES) \<and>
     (ev_rate_limit_type n = PNone \<or> str_in (ev_rate_limit_type n) SAFE_RATE_LIMIT_TYPES \<or>
      (ev_rate_limit_type n = PStr (lit ''overage'') \<and> ev_is_using_overage n = PBool False)) \<and>
     (ev_api_key_source n \<noteq> PNone \<or> ev_is_using_overage n \<noteq> PNone \<or>
      ev_overage_status n \<noteq> PNone \<or> ev_rate_limit_type n \<noteq> PNone)"

lemma str_in_append: "str_in v (xs @ ys) \<longleftrightarrow> str_in v xs \<or> str_in v ys"
  by (cases v) auto

lemma str_in_single: "str_in v [x] \<longleftrightarrow> v = PStr (lit x)"
  by (cases v) auto

lemma status_words:
  "''unknown'' \<notin> set SAFE_OVERAGE_STATUSES" "''unknown'' \<notin> set RISKY_OVERAGE_STATUSES"
  "''unknown'' \<notin> set SAFE_RATE_LIMIT_TYPES" "''overage'' \<notin> set SAFE_RATE_LIMIT_TYPES"
  by (simp_all add: signal_defs)

lemma safe_status_facts:
  "str_in v SAFE_OVERAGE_STATUSES \<Longrightarrow>
     v \<noteq> PNone \<and> PStr (lit ''unknown'') \<noteq> v \<and> \<not> str_in v RISKY_OVERAGE_STATUSES"
  by (cases v) (auto simp: signal_defs)

lemma risky_status_facts:
  "str_in v RISKY_OVERAGE_STATUSES \<Longrightarrow>
     v \<noteq> PNone \<and> PStr (lit ''unknown'') \<noteq> v \<and> \<not> str_in v SAFE_OVERAGE_STATUSES"
  by (cases v) (auto simp: signal_defs)

lemma safe_rate_facts:
  "str_in v SAFE_RATE_LIMIT_TYPES \<Longrightarrow>
     v \<noteq> PNone \<and> PStr (lit ''unknown'') \<noteq> v \<and> v \<noteq> PStr (lit ''overage'')"
  by (cases v) (auto simp: signal_defs)

lemma classify_normalized_allowed:
  assumes "canonical_evidence n"
  shows "bd_allowed (classify_normalized n) \<longleftrightarrow> subscription_evidence n"
proof -
  define src ovg sts rlt where
    "src = ev_api_key_source n" and "ovg = ev_is_using_overage n" and
    "sts = ev_overage_status n" and "rlt = ev_rate_limit_type n"
  note d = src_def[symmetric] ovg_def[symmetric] sts_def[symmetric] rlt_def[symmetric]
  have src: "src = PNone \<or> src = PStr (lit ''none'') \<or> src = PStr (lit ''metered'') \<or>
      src = PStr (lit ''unknown'')"
    using assms by (cases src) (auto simp: canonical_evidence_def d)
  have ovg: "ovg = PNone \<or> ovg = PBool True \<or> ovg = PBool False"
    using assms by (auto simp: canonical_evidence_def d)
  have sts: "sts = PNone \<or> str_in sts SAFE_OVERAGE_STATUSES \<or> str_in sts RISKY_OVERAGE_STATUSES \<or>
      sts = PStr (lit ''unknown'')"
    using assms by (auto simp: canonical_evidence_def d str_in_append str_in_single)
  have rlt: "rlt = PNone \<or> str_in rlt SAFE_RATE_LIMIT_TYPES \<or> rlt = PStr (lit ''overage'') \<or>
      rlt = PStr (lit ''unknown'')"
  proof -
    have "[''overage'', ''unknown''] = [''overage''] @ [''unknown'']" by simp
    then show ?thesis
      using assms unfolding canonical_evidence_def d by (metis str_in_append str_in_single)
  qed
  show ?thesis
    unfolding classify_normalized_def subscription_evidence_def blocked_def Let_def d
    using src ovg sts rlt
    by (elim disjE)
       (simp_all add: status_words safe_status_facts risky_status_facts safe_rate_facts)
qed

lemma classify_normalized_coherent:
  "let d = classify_normalized n
   in (bd_allowed d \<longleftrightarrow> bd_mode d = SUBSCRIPTION_INCLUDED) \<and>
      (bd_allowed d \<longleftrightarrow> bd_block_reason d = None) \<and>
      (bd_mode d = SDK_REPORTED_METERED \<longleftrightarrow>
         bd_block_reason d \<in> {Some API_KEY_SOURCE, Some EXTRA_USAGE, Some OVERAGE})"
  by (simp add: classify_normalized_def blocked_def Let_def)


text \<open>
  The three fields of a billing decision agree: allowed, mode "subscription included" and
  the absence of a block reason are the same thing, and the metered mode is reported exactly
  for the API-key, extra-usage and overage reasons.
\<close>

theorem billing_decision_coherent:
  "let d = classify_sdk_billing rt H arg
   in (bd_allowed d \<longleftrightarrow> bd_mode d = SUBSCRIPTION_INCLUDED) \<and>
      (bd_allowed d \<longleftrightarrow> bd_block_reason d = None) \<and>
      (bd_mode d = SDK_REPORTED_METERED \<longleftrightarrow>
         bd_block_reason d \<in> {Some API_KEY_SOURCE, Some EXTRA_USAGE, Some OVERAGE})"
proof (cases "coerce_evidence H arg")
  case None
  then show ?thesis by (simp add: classify_sdk_billing_def blocked_def)
next
  case (Some e)
  with classify_normalized_coherent[of "fst (normalize_evidence rt e)"] show ?thesis
    by (auto simp: classify_sdk_billing_def blocked_def Let_def split: prod.splits)
qed

text \<open>
  The evidence a decision retains is sanitised whatever the event carried: it holds
  canonical categories only, normalising it again changes nothing, and it names no malformed
  field, also when a malformed field is the reason the decision blocks.
\<close>

theorem decision_evidence_sanitised:
  "canonical_evidence (bd_evidence (classify_sdk_billing rt H arg)) \<and>
   normalize_evidence rt (bd_evidence (classify_sdk_billing rt H arg)) =
     (bd_evidence (classify_sdk_billing rt H arg), [])"
  by (simp add: classify_evidence_canonical normalize_canonical_id)

text \<open>
  In the environment plan of a child process a denylisted variable is the empty string
  exactly when the parent carries it as a metered vector, and is otherwise absent; the
  refusal-fallback switch is always set. No configured value can change either, and no value
  of the parent is copied.
\<close>

theorem plan_scrubs_metered_vectors:
  assumes "k \<in> set METERED_ENV_DENYLIST"
  shows "map_of (plan_sdk_env_overrides rt H parent_env configured_env) (lit k) =
           (if parent_metered H parent_env k then Some [] else None) \<and>
         map_of (plan_sdk_env_overrides rt H parent_env configured_env) REFUSAL_FALLBACK_ENV =
           Some REFUSAL_FALLBACK_VALUE"
proof -
  have "map_of (plan_sdk_env_overrides rt H parent_env configured_env) (lit k) =
      (if parent_metered H parent_env k then Some [] else None)"
    using assms refusal_not_denied[OF assms]
    by (auto simp: plan_on_protected_key denylist_not_config)
  moreover have "map_of (plan_sdk_env_overrides rt H parent_env configured_env)
      REFUSAL_FALLBACK_ENV = Some REFUSAL_FALLBACK_VALUE"
    unfolding plan_on_protected_key[OF refusal_not_config]
    using refusal_not_denied by (metis (full_types))
  ultimately show ?thesis by simp
qed

theorem plan_scrubs_metered_vectors_witness:
  "map_of (plan_sdk_env_overrides sample_rt
      (\<lambda>_. ODict [(PStr (lit ''ANTHROPIC_API_KEY''), PStr (lit ''sk-ant-api-1''))])
      (PRef 0) (PRef 0)) (lit ''ANTHROPIC_API_KEY'') = Some []"
proof -
  have mem: "''ANTHROPIC_API_KEY'' \<in> set METERED_ENV_DENYLIST"
    by (simp add: METERED_ENV_DENYLIST_def)
  show ?thesis
    using plan_scrubs_metered_vectors[OF mem, of sample_rt
        "\<lambda>_. ODict [(PStr (lit ''ANTHROPIC_API_KEY''), PStr (lit ''sk-ant-api-1''))]"
        "PRef 0" "PRef 0"] mem
    by (simp add: parent_metered_def is_metered_sdk_env_value_def py_access)
qed

text \<open>
  Every other entry of the plan is a bounded operator knob: its name is non-empty, at
  most 128 characters, free of NUL and does not look like a credential, and its value is at
  most 4096 characters and free of NUL.
\<close>

theorem plan_entries_bounded:
  assumes "(key, v) \<in> set (plan_sdk_env_overrides rt H parent_env configured_env)"
    and "v \<noteq> []" and "key \<noteq> REFUSAL_FALLBACK_ENV"
  shows "config_key_ok rt key \<and> config_value_ok v"
proof -
  have scrub: "(key, v) \<notin> set (scrub_parent H parent_env ks [(REFUSAL_FALLBACK_ENV, b)])"
    if "is_mapping H parent_env" for ks b
  proof -
    have "\<forall>(k, v) \<in> set ov. v = [] \<or> k = REFUSAL_FALLBACK_ENV \<Longrightarrow>
        \<forall>(k, v) \<in> set (scrub_parent H parent_env ks ov). v = [] \<or> k = REFUSAL_FALLBACK_ENV"
      for ov
    proof (induction ks arbitrary: ov)
      case (Cons k ks)
      then show ?case
        using set_dict_set_subset[of "lit k" "[]" ov] by (auto simp: Let_def)
    qed simp
    from this[of "[(REFUSAL_FALLBACK_ENV, b)]"] assms(2,3) show ?thesis by auto
  qed
  show ?thesis
    using assms scrub
    by (auto simp: plan_sdk_env_overrides_def Let_def dest: add_configured_entries
             split: sum.splits if_splits)
qed

theorem plan_entries_bounded_witness:
  "config_key_ok sample_rt (lit ''MODE'') \<and> config_value_ok (lit ''on'')"
proof (rule plan_entries_bounded[of _ _ sample_rt
      "\<lambda>_. ODict [(PStr (lit ''MODE''), PStr (lit ''on''))]" PNone "PRef 0"])
  show "(lit ''MODE'', lit ''on'') \<in> set (plan_sdk_env_overrides sample_rt
      (\<lambda>_. ODict [(PStr (lit ''MODE''), PStr (lit ''on''))]) PNone (PRef 0))"
    by (simp add: plan_sdk_env_overrides_def py_access safe_env_key_def safe_env_value_def
        py_str_scalar_def looks_secretish_env_key_def py_upper_def is_ascii_def ascii_upper_def
        METERED_ENV_DENYLIST_def REFUSAL_FALLBACK_ENV_def SECRETISH_ENV_PARTS_def
        MAX_ENV_KEY_LENGTH_def MAX_ENV_VALUE_LENGTH_def lits_def lit_def)
qed (simp_all add: REFUSAL_FALLBACK_ENV_def)

end
