(* ===== verification/Compaction.thy ===== *)
theory Compaction
  imports Py_Base
begin

section \<open>Native compaction lifecycle (compaction.py)\<close>

text \<open>
  \<^verbatim>\<open>NativeCompactionLifecycle\<close>: one turn's native compaction, from the PreCompact hook to a
  terminal phase. The coroutines that change the state hold \<^verbatim>\<open>_transition_lock\<close> from the
  first to the last access, so each is one atomic function of the state; the watchdog task is
  the flag \<open>cp_watchdog\<close> and its wake-up the function \<open>watchdog_fire\<close>. A turn's callbacks
  are named by a number. What the component does to the outside is the log \<open>cp_log\<close>: an
  emission goes to the callback that is bound then (\<open>None\<close>: none), and an exception of the
  callback is swallowed by the code.
\<close>

datatype SessionCompactionPhase = CP_STARTED | CP_COMPLETED | CP_FAILED | CP_WATCHDOG

datatype trigger = TAuto | TManual

record SessionCompactionEvent =
  ce_phase :: SessionCompactionPhase
  ce_trigger :: trigger
  ce_watchdog_seconds :: "rat option"

datatype cp_output = Emitted "nat option" SessionCompactionEvent | WatchdogNotified "nat option"

record NativeCompactionLifecycle =
  cp_watchdog_seconds :: rat
  cp_on_event :: "nat option"
  cp_on_watchdog :: "nat option"
  cp_depth :: nat
  cp_trigger :: trigger
  cp_watchdog :: bool
  cp_log :: "cp_output list"

definition trigger_of :: "pyval \<Rightarrow> trigger" where
  "trigger_of value = (if value = PStr (lit ''manual'') then TManual else TAuto)"

text \<open>The constructor rejects a bound that is not finite or not in \<open>(0, 86400]\<close>.\<close>

definition new_lifecycle :: "pyfloat \<Rightarrow> exn + NativeCompactionLifecycle" where
  "new_lifecycle watchdog_seconds =
     (case watchdog_seconds of
        FFin value \<Rightarrow>
          if value \<le> 0 \<or> value > 86400 then Inl ValueError
          else Inr \<lparr>cp_watchdog_seconds = value, cp_on_event = None, cp_on_watchdog = None,
                    cp_depth = 0, cp_trigger = TAuto, cp_watchdog = False, cp_log = []\<rparr>
      | _ \<Rightarrow> Inl ValueError)"

definition cp_active :: "NativeCompactionLifecycle \<Rightarrow> bool" where
  "cp_active s \<longleftrightarrow> cp_depth s > 0"

definition cp_bind ::
    "nat option \<Rightarrow> nat option \<Rightarrow> NativeCompactionLifecycle \<Rightarrow> exn + NativeCompactionLifecycle" where
  "cp_bind on_event on_watchdog s =
     (if cp_active s then Inl OtherError
      else Inr (s\<lparr>cp_on_event := on_event, cp_on_watchdog := on_watchdog\<rparr>))"

definition cp_emit :: "SessionCompactionEvent \<Rightarrow> NativeCompactionLifecycle \<Rightarrow> NativeCompactionLifecycle" where
  "cp_emit event s = s\<lparr>cp_log := cp_log s @ [Emitted (cp_on_event s) event]\<rparr>"

definition cp_notify_watchdog :: "NativeCompactionLifecycle \<Rightarrow> NativeCompactionLifecycle" where
  "cp_notify_watchdog s = s\<lparr>cp_log := cp_log s @ [WatchdogNotified (cp_on_watchdog s)]\<rparr>"

definition cp_finish :: "SessionCompactionEvent \<Rightarrow> NativeCompactionLifecycle \<Rightarrow> NativeCompactionLifecycle" where
  "cp_finish event s = cp_emit event (s\<lparr>cp_depth := 0, cp_watchdog := False\<rparr>)"

definition cp_start :: "trigger \<Rightarrow> NativeCompactionLifecycle \<Rightarrow> NativeCompactionLifecycle" where
  "cp_start trigger s =
     (if cp_depth s > 0 then s\<lparr>cp_depth := cp_depth s + 1\<rparr>
      else cp_emit \<lparr>ce_phase = CP_STARTED, ce_trigger = trigger, ce_watchdog_seconds = None\<rparr>
             (s\<lparr>cp_depth := 1, cp_trigger := trigger, cp_watchdog := True\<rparr>))"

text \<open>
  The hook \<^verbatim>\<open>on_pre_compact\<close> that \<^verbatim>\<open>build_hooks\<close> registers: only an exact dict has its
  \<^verbatim>\<open>trigger\<close> read.
\<close>

definition on_pre_compact :: "heap \<Rightarrow> pyval \<Rightarrow> NativeCompactionLifecycle \<Rightarrow> NativeCompactionLifecycle" where
  "on_pre_compact H input_data s =
     cp_start (trigger_of (case exact_dict H input_data of None \<Rightarrow> PNone
                           | Some d \<Rightarrow> dict_get d ''trigger'')) s"

definition cp_complete ::
    "trigger \<Rightarrow> NativeCompactionLifecycle \<Rightarrow> bool \<times> NativeCompactionLifecycle" where
  "cp_complete trigger s =
     (if \<not> cp_active s then (False, s)
      else let s = s\<lparr>cp_depth := cp_depth s - 1\<rparr>
           in if cp_depth s > 0 then (False, s)
              else (True, cp_finish \<lparr>ce_phase = CP_COMPLETED, ce_trigger = trigger,
                                     ce_watchdog_seconds = None\<rparr> s))"

definition cp_handle_message ::
    "heap \<Rightarrow> pyval \<Rightarrow> NativeCompactionLifecycle \<Rightarrow> exn + bool \<times> NativeCompactionLifecycle" where
  "cp_handle_message H message s =
     (if type_name H message \<noteq> lit ''SystemMessage'' then Inr (False, s)
      else (case attr_or_none H message ''subtype'' of
        Inl e \<Rightarrow> Inl e
      | Inr subtype \<Rightarrow>
          (if subtype \<noteq> PStr (lit ''compact_boundary'') \<or> \<not> cp_active s then Inr (False, s)
           else (case attr_or_none H message ''data'' of
             Inl e \<Rightarrow> Inl e
           | Inr data \<Rightarrow>
               (case (case exact_dict H data of
                        None \<Rightarrow> Inr PNone
                      | Some d \<Rightarrow> py_or H (dict_get d ''compact_metadata'')
                                          (dict_get d ''compactMetadata'')) of
                  Inl e \<Rightarrow> Inl e
                | Inr metadata \<Rightarrow>
                    Inr (cp_complete (trigger_of (case exact_dict H metadata of
                           None \<Rightarrow> PNone | Some d \<Rightarrow> dict_get d ''trigger'')) s))))))"

definition cp_expire :: "NativeCompactionLifecycle \<Rightarrow> bool \<times> NativeCompactionLifecycle" where
  "cp_expire s =
     (if \<not> cp_active s then (False, s)
      else (True, cp_notify_watchdog
              (cp_finish \<lparr>ce_phase = CP_WATCHDOG, ce_trigger = cp_trigger s,
                          ce_watchdog_seconds = Some (cp_watchdog_seconds s)\<rparr> s)))"

text \<open>The watchdog task: it can wake up only while it has not been cancelled.\<close>

definition watchdog_fire :: "NativeCompactionLifecycle \<Rightarrow> NativeCompactionLifecycle" where
  "watchdog_fire s = (if cp_watchdog s then snd (cp_expire s) else s)"

definition cp_end_turn :: "bool \<Rightarrow> NativeCompactionLifecycle \<Rightarrow> NativeCompactionLifecycle" where
  "cp_end_turn completed s =
     (let s = (if cp_active s
               then cp_finish \<lparr>ce_phase = (if completed then CP_COMPLETED else CP_FAILED),
                               ce_trigger = cp_trigger s, ce_watchdog_seconds = None\<rparr> s
               else s)
      in s\<lparr>cp_on_event := None, cp_on_watchdog := None\<rparr>)"

subsection \<open>Runs\<close>

text \<open>The calls the session, the hook and the event loop can make, in any order.\<close>

datatype cp_call =
    CBind "nat option" "nat option"
  | CStart trigger
  | CComplete trigger
  | CWatchdog
  | CEndTurn bool

fun cp_do :: "cp_call \<Rightarrow> NativeCompactionLifecycle \<Rightarrow> NativeCompactionLifecycle" where
  "cp_do (CBind e w) s = (case cp_bind e w s of Inl _ \<Rightarrow> s | Inr s' \<Rightarrow> s')"
| "cp_do (CStart t) s = cp_start t s"
| "cp_do (CComplete t) s = snd (cp_complete t s)"
| "cp_do CWatchdog s = watchdog_fire s"
| "cp_do (CEndTurn b) s = cp_end_turn b s"

definition cp_run :: "cp_call list \<Rightarrow> NativeCompactionLifecycle \<Rightarrow> NativeCompactionLifecycle" where
  "cp_run cs s = fold cp_do cs s"

lemmas cp_defs = cp_active_def cp_bind_def cp_emit_def cp_notify_watchdog_def cp_finish_def
  cp_start_def cp_complete_def cp_expire_def watchdog_fire_def cp_end_turn_def

subsection \<open>The lifecycle protocol\<close>

text \<open>
  The protocol seen by the callbacks, read from left to right with the callback of the open
  compaction, if any: a start opens it, exactly one terminal phase closes it and goes to the
  callback that saw the start, and the watchdog is notified right after its phase.
\<close>

definition terminal_phase :: "SessionCompactionPhase \<Rightarrow> bool" where
  "terminal_phase p \<longleftrightarrow> p \<noteq> CP_STARTED"

datatype protocol = Idle | Open "nat option" | Expired | Broken

fun protocol_step :: "protocol \<Rightarrow> cp_output \<Rightarrow> protocol" where
  "protocol_step Idle (Emitted cb e) =
     (if ce_phase e = CP_STARTED then Open cb else Broken)"
| "protocol_step (Open cb) (Emitted cb' e) =
     (if cb' = cb \<and> terminal_phase (ce_phase e)
      then if ce_phase e = CP_WATCHDOG then Expired else Idle
      else Broken)"
| "protocol_step Expired (WatchdogNotified _) = Idle"
| "protocol_step _ _ = Broken"

definition protocol_state :: "cp_output list \<Rightarrow> protocol" where
  "protocol_state outs = foldl protocol_step Idle outs"

lemma protocol_state_simps [simp]:
  "protocol_state [] = Idle"
  "protocol_state (outs @ [x]) = protocol_step (protocol_state outs) x"
  by (simp_all add: protocol_state_def)

definition cp_inv :: "NativeCompactionLifecycle \<Rightarrow> bool" where
  "cp_inv s \<longleftrightarrow> (cp_watchdog s \<longleftrightarrow> cp_active s) \<and>
     protocol_state (cp_log s) = (if cp_active s then Open (cp_on_event s) else Idle)"

lemma protocol_append2: "protocol_state (outs @ [x, y]) =
    protocol_step (protocol_step (protocol_state outs) x) y"
  by (simp add: protocol_state_def)

lemma new_lifecycle_inv: "new_lifecycle v = Inr s \<Longrightarrow> cp_inv s \<and> \<not> cp_active s"
  by (auto simp: new_lifecycle_def cp_inv_def cp_active_def split: pyfloat.splits if_splits)

lemma cp_do_inv: "cp_inv s \<Longrightarrow> cp_inv (cp_do c s)"
  by (cases c) (auto simp: cp_inv_def cp_defs terminal_phase_def Let_def protocol_append2)

lemma cp_run_inv: "cp_inv s \<Longrightarrow> cp_inv (cp_run cs s)"
  unfolding cp_run_def by (induction cs arbitrary: s) (simp_all add: cp_do_inv)

text \<open>A message of the stream does to the lifecycle what a completion call does, or nothing.\<close>

lemma cp_handle_message_cases:
  "cp_handle_message H m s = Inr (b, s') \<Longrightarrow>
     (\<not> b \<and> s' = s) \<or> (\<exists>t. cp_complete t s = (b, s'))"
  by (auto simp: cp_handle_message_def split: if_splits sum.splits)

lemma cp_handle_message_inv:
  "cp_inv s \<Longrightarrow> cp_handle_message H m s = Inr (b, s') \<Longrightarrow> cp_inv s'"
  by (drule cp_handle_message_cases) (metis cp_do.simps(3) cp_do_inv snd_conv)

subsection \<open>Counting phases\<close>

fun emitted_phase :: "cp_output \<Rightarrow> SessionCompactionPhase option" where
  "emitted_phase (Emitted cb e) = Some (ce_phase e)"
| "emitted_phase (WatchdogNotified cb) = None"

definition starts :: "cp_output list \<Rightarrow> nat" where
  "starts outs = length (filter (\<lambda>x. emitted_phase x = Some CP_STARTED) outs)"

definition terminals :: "cp_output list \<Rightarrow> nat" where
  "terminals outs =
     length (filter (\<lambda>x. case emitted_phase x of None \<Rightarrow> False | Some p \<Rightarrow> terminal_phase p) outs)"

lemma protocol_counts:
  "protocol_state outs \<noteq> Broken \<Longrightarrow>
     starts outs = terminals outs + (case protocol_state outs of Open _ \<Rightarrow> 1 | _ \<Rightarrow> 0)"
proof (induction outs rule: rev_induct)
  case (snoc x outs)
  have step: "protocol_step p x \<noteq> Broken \<Longrightarrow> p \<noteq> Broken" for p
    by (cases x) auto
  show ?case
    using snoc step[of "protocol_state outs"]
    by (cases "protocol_state outs"; cases x)
       (auto simp: starts_def terminals_def terminal_phase_def split: if_splits)
qed (simp add: starts_def terminals_def)

subsection \<open>Properties\<close>

text \<open>
  C16: Whatever the order of hooks, boundary messages, watchdog wake-ups, turn ends and
  bindings, the callbacks see a well-formed lifecycle: each start is closed by exactly one
  terminal phase before the next start, delivered to the callback that saw the start, the
  watchdog notification follows its phase, and a watchdog task is pending exactly while a
  compaction is active.
\<close>

theorem compaction_lifecycle_protocol:
  assumes "new_lifecycle v = Inr s"
  shows "let s' = cp_run cs s
         in protocol_state (cp_log s') = (if cp_active s' then Open (cp_on_event s') else Idle) \<and>
            (cp_watchdog s' \<longleftrightarrow> cp_active s') \<and>
            starts (cp_log s') = terminals (cp_log s') + (if cp_active s' then 1 else 0)"
proof -
  have inv: "cp_inv (cp_run cs s)"
    using new_lifecycle_inv[OF assms] by (simp add: cp_run_inv)
  then show ?thesis
    using protocol_counts[of "cp_log (cp_run cs s)"]
    by (auto simp: cp_inv_def Let_def)
qed

theorem compaction_lifecycle_protocol_witness:
  "\<exists>s s'. new_lifecycle (FFin 600) = Inr s \<and>
     s' = cp_run [CBind (Some 1) (Some 1), CStart TAuto, CWatchdog, CStart TManual] s \<and>
     protocol_state (cp_log s') = Open (Some 1) \<and> starts (cp_log s') = terminals (cp_log s') + 1"
proof -
  obtain s where s: "new_lifecycle (FFin 600) = Inr s"
    by (simp add: new_lifecycle_def)
  let ?s' = "cp_run [CBind (Some 1) (Some 1), CStart TAuto, CWatchdog, CStart TManual] s"
  have "cp_active ?s'" "cp_on_event ?s' = Some 1"
    using s by (auto simp: cp_run_def cp_defs new_lifecycle_def)
  with compaction_lifecycle_protocol[OF s,
      of "[CBind (Some 1) (Some 1), CStart TAuto, CWatchdog, CStart TManual]"] s
  show ?thesis by (auto simp: Let_def)
qed

lemma cp_starts_depth:
  assumes "\<not> cp_active s"
  shows "cp_run (replicate (Suc n) (CStart t)) s =
    (cp_start t s)\<lparr>cp_depth := Suc n\<rparr>"
proof (induction n)
  case 0
  then show ?case using assms by (simp add: cp_run_def cp_defs)
next
  case (Suc n)
  have "cp_run (replicate (Suc (Suc n)) (CStart t)) s =
      cp_start t (cp_run (replicate (Suc n) (CStart t)) s)"
    by (simp add: cp_run_def replicate_append_same[symmetric] del: replicate.simps)
  with Suc show ?case by (simp add: cp_start_def)
qed

lemma cp_completes_depth:
  "k < cp_depth s \<Longrightarrow> cp_run (replicate k (CComplete t)) s = s\<lparr>cp_depth := cp_depth s - k\<rparr>"
proof (induction k)
  case (Suc k)
  have "cp_run (replicate (Suc k) (CComplete t)) s =
      snd (cp_complete t (cp_run (replicate k (CComplete t)) s))"
    by (simp add: cp_run_def replicate_append_same[symmetric] del: replicate.simps)
  with Suc show ?case by (simp add: cp_complete_def cp_active_def)
qed (simp add: cp_run_def)

text \<open>
  Nested hooks are counted: after \<open>n + 1\<close> starts of an idle lifecycle, \<open>n\<close> boundaries
  report no completion and emit nothing, and the next one completes the compaction, emits
  the completed phase with that boundary's trigger and leaves the lifecycle idle.
\<close>

theorem nested_compaction_completes_once:
  assumes "\<not> cp_active s"
  shows "let s1 = cp_run (replicate (Suc n) (CStart t)) s;
             s2 = cp_run (replicate n (CComplete u)) s1;
             (done, s3) = cp_complete w s2
         in cp_log s2 = cp_log s1 \<and> cp_active s2 \<and> done \<and> \<not> cp_active s3 \<and>
            cp_log s3 = cp_log s @
              [Emitted (cp_on_event s) \<lparr>ce_phase = CP_STARTED, ce_trigger = t, ce_watchdog_seconds = None\<rparr>,
               Emitted (cp_on_event s) \<lparr>ce_phase = CP_COMPLETED, ce_trigger = w, ce_watchdog_seconds = None\<rparr>]"
  using assms
  by (simp add: cp_starts_depth cp_completes_depth Let_def cp_complete_def cp_active_def
      cp_finish_def cp_emit_def cp_start_def del: replicate.simps)

theorem nested_compaction_completes_once_witness:
  "\<exists>s. new_lifecycle (FFin 600) = Inr s \<and>
     cp_active (cp_run (replicate 2 (CComplete TAuto)) (cp_run (replicate 3 (CStart TAuto)) s))"
proof -
  obtain s where s: "new_lifecycle (FFin 600) = Inr s"
    by (simp add: new_lifecycle_def)
  then have "\<not> cp_active s" using new_lifecycle_inv by blast
  from nested_compaction_completes_once[OF this, of 2 TAuto TAuto TAuto] s show ?thesis
    by (auto simp: Let_def numeral_3_eq_3 numeral_2_eq_2)
qed

text \<open>
  The end of a turn always closes the lifecycle: nothing is active, no watchdog is pending
  and no callback is bound afterwards; an open compaction is closed with one phase, completed
  or failed as the turn was, delivered to the turn's callback, and a closed one emits nothing.
\<close>

theorem end_turn_closes_lifecycle:
  assumes "cp_inv s"
  shows "let s' = cp_end_turn completed s
         in \<not> cp_active s' \<and> \<not> cp_watchdog s' \<and> cp_on_event s' = None \<and> cp_on_watchdog s' = None \<and>
            cp_log s' = cp_log s @
              (if cp_active s
               then [Emitted (cp_on_event s)
                      \<lparr>ce_phase = (if completed then CP_COMPLETED else CP_FAILED),
                       ce_trigger = cp_trigger s, ce_watchdog_seconds = None\<rparr>]
               else [])"
  using assms by (auto simp: cp_end_turn_def cp_finish_def cp_emit_def cp_active_def cp_inv_def Let_def)

theorem end_turn_closes_lifecycle_witness:
  "\<exists>s. new_lifecycle (FFin 600) = Inr s \<and> \<not> cp_active (cp_end_turn False (cp_start TAuto s))"
proof -
  obtain s where s: "new_lifecycle (FFin 600) = Inr s"
    by (simp add: new_lifecycle_def)
  then have "cp_inv (cp_do (CStart TAuto) s)"
    using new_lifecycle_inv cp_do_inv by blast
  from end_turn_closes_lifecycle[OF this, of False] s show ?thesis
    by (auto simp: Let_def)
qed

end
