(* ===== verification/Configuration.thy ===== *)
theory Configuration
  imports Billing
begin

section \<open>Session configuration (configuration.py)\<close>

text \<open>
  \<^verbatim>\<open>SDKSessionConfiguration\<close>: the factory \<^verbatim>\<open>create\<close>, which validates every value in the
  order of the source and raises on the first one it refuses, and \<^verbatim>\<open>option_fields\<close>, the
  options the SDK client is built with. The arguments the source annotates as mappings of
  servers and as floats are taken at that type; every other argument is an arbitrary value.
\<close>

definition MAX_TEXT :: nat where "MAX_TEXT = 4096"
definition MAX_PROMPT_SNAPSHOT_UTF8_BYTES :: nat where "MAX_PROMPT_SNAPSHOT_UTF8_BYTES = 1048576"

definition PERMISSION_MODES :: "string list" where
  "PERMISSION_MODES =
     [''default'', ''acceptEdits'', ''plan'', ''bypassPermissions'', ''dontAsk'', ''auto'']"

definition HERMES_SERVER :: ustr where "HERMES_SERVER = lit ''hermes-tools''"
definition HERMES_TOOL_PREFIX :: ustr where "HERMES_TOOL_PREFIX = lit ''mcp__hermes-tools__''"

record config_args =
  a_cwd :: pyval
  a_model :: pyval
  a_permission_mode :: pyval
  a_prompt_snapshot :: pyval
  a_resume_external_session_id :: pyval
  a_parent_env :: pyval
  a_configured_env :: pyval
  a_setting_sources :: pyval
  a_mcp_servers :: "(pyval \<times> pyval) list"
  a_allowed_tools :: pyval
  a_turn_timeout_seconds :: pyfloat
  a_connect_timeout_seconds :: pyfloat
  a_close_timeout_seconds :: pyfloat

record SDKSessionConfiguration =
  cf_cwd :: ustr
  cf_model :: "ustr option"
  cf_permission_mode :: ustr
  cf_prompt_snapshot :: ustr
  cf_resume_external_session_id :: "ustr option"
  cf_env_overrides :: "(ustr \<times> ustr) list"
  cf_setting_sources :: "ustr list"
  cf_mcp_servers :: "(ustr \<times> pyval) list"
  cf_allowed_tools :: "ustr list"
  cf_turn_timeout_seconds :: rat
  cf_connect_timeout_seconds :: rat
  cf_close_timeout_seconds :: rat

definition optional_text :: "pyval \<Rightarrow> exn + ustr option" where
  "optional_text value =
     (case value of
        PNone \<Rightarrow> Inr None
      | PStr s \<Rightarrow> if s = [] \<or> length s > MAX_TEXT \<or> 0 \<in> set s then Inl ValueError else Inr (Some s)
      | _ \<Rightarrow> Inl TypeError)"

definition checked_prompt :: "pyval \<Rightarrow> exn + ustr" where
  "checked_prompt value =
     (case value of
        PStr s \<Rightarrow>
          (case utf8_size s of
             None \<Rightarrow> Inl ValueError
           | Some n \<Rightarrow> if n > MAX_PROMPT_SNAPSHOT_UTF8_BYTES \<or> 0 \<in> set s then Inl ValueError
                       else Inr s)
      | _ \<Rightarrow> Inl TypeError)"

definition checked_resume :: "pyval \<Rightarrow> exn + ustr option" where
  "checked_resume value =
     (case optional_text value of
        Inl e \<Rightarrow> Inl e
      | Inr None \<Rightarrow> Inr None
      | Inr (Some s) \<Rightarrow>
          if length s > 512 \<or> list_ex is_control s then Inl ValueError else Inr (Some s))"

definition checked_permission_mode :: "heap \<Rightarrow> pyval \<Rightarrow> exn + ustr" where
  "checked_permission_mode H value =
     (case value of
        PStr s \<Rightarrow> if s \<in> set (lits PERMISSION_MODES) then Inr s else Inl ValueError
      | PRef a \<Rightarrow> (case H a of OList _ \<Rightarrow> Inl TypeError | ODict _ \<Rightarrow> Inl TypeError
                    | OSet _ \<Rightarrow> Inl TypeError | _ \<Rightarrow> Inl ValueError)
      | _ \<Rightarrow> Inl ValueError)"

definition checked_setting_sources :: "heap \<Rightarrow> pyval \<Rightarrow> exn + ustr list" where
  "checked_setting_sources H value =
     (case value of
        PRef a \<Rightarrow> (case H a of OTuple [] \<Rightarrow> Inr [] | _ \<Rightarrow> Inl ValueError)
      | _ \<Rightarrow> Inl ValueError)"

fun tool_name_text :: "pyval \<Rightarrow> ustr option" where
  "tool_name_text (PStr s) = (if s = [] \<or> length s > MAX_TEXT then None else Some s)"
| "tool_name_text _ = None"

fun all_texts :: "pyval list \<Rightarrow> ustr list option" where
  "all_texts [] = Some []"
| "all_texts (v # vs) =
     (case tool_name_text v of None \<Rightarrow> None
      | Some s \<Rightarrow> (case all_texts vs of None \<Rightarrow> None | Some ss \<Rightarrow> Some (s # ss)))"

definition is_hermes_tool_name :: "ustr \<Rightarrow> bool" where
  "is_hermes_tool_name name \<longleftrightarrow> startswith name HERMES_TOOL_PREFIX \<and> name \<noteq> HERMES_TOOL_PREFIX"

definition checked_allowed_tools :: "heap \<Rightarrow> pyval \<Rightarrow> exn + ustr list" where
  "checked_allowed_tools H value =
     (case value of
        PRef a \<Rightarrow>
          (case H a of
             OTuple vs \<Rightarrow>
               (case all_texts vs of
                  None \<Rightarrow> Inl ValueError
                | Some names \<Rightarrow>
                    if \<not> list_all is_hermes_tool_name names then Inl ValueError
                    else if \<not> distinct names then Inl ValueError
                    else Inr names)
           | _ \<Rightarrow> Inl ValueError)
      | _ \<Rightarrow> Inl ValueError)"

fun server_names_ok :: "(pyval \<times> pyval) list \<Rightarrow> exn + (ustr \<times> pyval) list" where
  "server_names_ok [] = Inr []"
| "server_names_ok ((k, v) # kvs) =
     (case k of
        PStr s \<Rightarrow>
          if s = [] \<or> length s > 256 \<or> s \<noteq> HERMES_SERVER then Inl ValueError
          else (case server_names_ok kvs of Inl e \<Rightarrow> Inl e | Inr d \<Rightarrow> Inr ((s, v) # d))
      | _ \<Rightarrow> Inl ValueError)"

text \<open>\<^verbatim>\<open>dict(mcp_servers)\<close>: the entries of a mapping, each key once.\<close>

definition as_dict :: "(pyval \<times> pyval) list \<Rightarrow> (pyval \<times> pyval) list" where
  "as_dict kvs = fold (\<lambda>(k, v) d. dict_set k v d) kvs []"

definition checked_timeout :: "pyfloat \<Rightarrow> exn + rat" where
  "checked_timeout f =
     (case f of FFin v \<Rightarrow> if v \<le> 0 \<or> v > 86400 then Inl ValueError else Inr v
      | _ \<Rightarrow> Inl ValueError)"

definition config_create :: "pyrt \<Rightarrow> heap \<Rightarrow> config_args \<Rightarrow> exn + SDKSessionConfiguration" where
  "config_create rt H a =
     (case optional_text (a_cwd a) of Inl e \<Rightarrow> Inl e | Inr None \<Rightarrow> Inl OtherError
      | Inr (Some cwd) \<Rightarrow>
      (case optional_text (a_model a) of Inl e \<Rightarrow> Inl e | Inr model \<Rightarrow>
      (case checked_prompt (a_prompt_snapshot a) of Inl e \<Rightarrow> Inl e | Inr prompt \<Rightarrow>
      (case checked_resume (a_resume_external_session_id a) of Inl e \<Rightarrow> Inl e | Inr resume \<Rightarrow>
      (case checked_permission_mode H (a_permission_mode a) of Inl e \<Rightarrow> Inl e | Inr mode \<Rightarrow>
      (case checked_setting_sources H (a_setting_sources a) of Inl e \<Rightarrow> Inl e | Inr sources \<Rightarrow>
      (case checked_allowed_tools H (a_allowed_tools a) of Inl e \<Rightarrow> Inl e | Inr tools \<Rightarrow>
      (case server_names_ok (as_dict (a_mcp_servers a)) of Inl e \<Rightarrow> Inl e | Inr servers \<Rightarrow>
      (case checked_timeout (a_turn_timeout_seconds a) of Inl e \<Rightarrow> Inl e | Inr t1 \<Rightarrow>
      (case checked_timeout (a_connect_timeout_seconds a) of Inl e \<Rightarrow> Inl e | Inr t2 \<Rightarrow>
      (case checked_timeout (a_close_timeout_seconds a) of Inl e \<Rightarrow> Inl e | Inr t3 \<Rightarrow>
      (case py_truthy H (a_parent_env a) of Inl e \<Rightarrow> Inl e | Inr nonempty \<Rightarrow>
        Inr \<lparr>cf_cwd = cwd, cf_model = model, cf_permission_mode = mode,
             cf_prompt_snapshot = prompt, cf_resume_external_session_id = resume,
             cf_env_overrides = sort_key fst
               (plan_sdk_env_overrides rt H (if nonempty then a_parent_env a else PNone)
                  (a_configured_env a)),
             cf_setting_sources = sources, cf_mcp_servers = servers, cf_allowed_tools = tools,
             cf_turn_timeout_seconds = t1, cf_connect_timeout_seconds = t2,
             cf_close_timeout_seconds = t3\<rparr>))))))))))))"

datatype option_value =
    OptText "ustr option"
  | OptEnv "(ustr \<times> ustr) list"
  | OptNames "ustr list"
  | OptServers "(ustr \<times> pyval) list"
  | OptFlag bool

definition option_fields :: "SDKSessionConfiguration \<Rightarrow> (ustr \<times> option_value) list" where
  "option_fields c =
     [(lit ''cwd'', OptText (Some (cf_cwd c))),
      (lit ''model'', OptText (cf_model c)),
      (lit ''permission_mode'', OptText (Some (cf_permission_mode c))),
      (lit ''system_prompt'', OptText (Some (cf_prompt_snapshot c))),
      (lit ''env'', OptEnv (cf_env_overrides c)),
      (lit ''setting_sources'', OptNames (cf_setting_sources c)),
      (lit ''tools'', OptNames []),
      (lit ''mcp_servers'', OptServers (cf_mcp_servers c)),
      (lit ''strict_mcp_config'', OptFlag (cf_mcp_servers c \<noteq> [])),
      (lit ''allowed_tools'', OptNames (cf_allowed_tools c))] @
     (case cf_resume_external_session_id c of
        None \<Rightarrow> [] | Some r \<Rightarrow> [(lit ''resume'', OptText (Some r))])"

subsection \<open>What a configuration satisfies\<close>

definition resume_ok :: "ustr option \<Rightarrow> bool" where
  "resume_ok r \<longleftrightarrow> (case r of None \<Rightarrow> True
     | Some s \<Rightarrow> s \<noteq> [] \<and> length s \<le> 512 \<and> \<not> list_ex is_control s)"

definition text_ok :: "ustr \<Rightarrow> bool" where
  "text_ok s \<longleftrightarrow> s \<noteq> [] \<and> length s \<le> MAX_TEXT \<and> 0 \<notin> set s"

definition timeout_ok :: "rat \<Rightarrow> bool" where
  "timeout_ok t \<longleftrightarrow> 0 < t \<and> t \<le> 86400"

definition env_ok :: "(ustr \<times> ustr) list \<Rightarrow> bool" where
  "env_ok env \<longleftrightarrow> map_of env REFUSAL_FALLBACK_ENV = Some REFUSAL_FALLBACK_VALUE \<and>
     list_all (\<lambda>k. map_of env (lit k) \<in> {None, Some []}) METERED_ENV_DENYLIST"

definition tools_ok :: "ustr list \<Rightarrow> bool" where
  "tools_ok names \<longleftrightarrow> list_all (\<lambda>n. is_hermes_tool_name n \<and> length n \<le> MAX_TEXT) names \<and>
     distinct names"

definition valid_configuration :: "SDKSessionConfiguration \<Rightarrow> bool" where
  "valid_configuration c \<longleftrightarrow>
     text_ok (cf_cwd c) \<and> pred_option text_ok (cf_model c) \<and>
     cf_permission_mode c \<in> set (lits PERMISSION_MODES) \<and>
     utf8_fits MAX_PROMPT_SNAPSHOT_UTF8_BYTES (cf_prompt_snapshot c) \<and>
     0 \<notin> set (cf_prompt_snapshot c) \<and>
     resume_ok (cf_resume_external_session_id c) \<and> env_ok (cf_env_overrides c) \<and>
     cf_setting_sources c = [] \<and> tools_ok (cf_allowed_tools c) \<and>
     list_all (\<lambda>(n, v). n = HERMES_SERVER) (cf_mcp_servers c) \<and>
     distinct (map fst (cf_mcp_servers c)) \<and>
     timeout_ok (cf_turn_timeout_seconds c) \<and> timeout_ok (cf_connect_timeout_seconds c) \<and>
     timeout_ok (cf_close_timeout_seconds c)"

lemma is_control_0: "is_control 0"
  by (simp add: is_control_def)

lemma no_control_no_nul: "\<not> list_ex is_control s \<Longrightarrow> 0 \<notin> set s"
  by (auto simp: list_ex_iff is_control_def)

lemma optional_text_Inr:
  "optional_text v = Inr r \<longleftrightarrow> (case r of None \<Rightarrow> v = PNone | Some s \<Rightarrow> v = PStr s \<and> text_ok s)"
  by (cases v) (auto simp: optional_text_def text_ok_def not_less split: option.splits)

lemma checked_prompt_Inr:
  "checked_prompt v = Inr s \<longleftrightarrow>
     v = PStr s \<and> utf8_fits MAX_PROMPT_SNAPSHOT_UTF8_BYTES s \<and> 0 \<notin> set s"
  by (cases v) (auto simp: checked_prompt_def utf8_fits_def not_less split: option.splits)

lemma checked_resume_Inr:
  "checked_resume v = Inr r \<longleftrightarrow>
     (case r of None \<Rightarrow> v = PNone | Some s \<Rightarrow> v = PStr s) \<and> resume_ok r"
proof (cases v)
  case (PStr s)
  have "\<not> MAX_TEXT < length s" if "length s \<le> 512" using that by (simp add: MAX_TEXT_def)
  then show ?thesis
    using PStr
    by (cases r) (auto simp: checked_resume_def optional_text_def resume_ok_def not_less
        dest: no_control_no_nul)
qed (auto simp: checked_resume_def optional_text_def resume_ok_def split: option.splits)

lemma checked_mode_Inr:
  "checked_permission_mode H v = Inr s \<longleftrightarrow> v = PStr s \<and> s \<in> set (lits PERMISSION_MODES)"
  by (auto simp: checked_permission_mode_def split: pyval.splits pyobj.splits if_splits)

lemma all_texts_SomeD:
  "all_texts vs = Some ss \<Longrightarrow> vs = map PStr ss \<and> list_all (\<lambda>s. s \<noteq> [] \<and> length s \<le> MAX_TEXT) ss"
proof (induction vs arbitrary: ss)
  case (Cons v vs)
  then show ?case
    by (cases v) (auto simp: not_less split: option.splits if_splits)
qed simp

lemma all_texts_map:
  "list_all (\<lambda>s. s \<noteq> [] \<and> length s \<le> MAX_TEXT) ss \<Longrightarrow> all_texts (map PStr ss) = Some ss"
  by (induction ss) auto

lemma hermes_name_nonempty: "is_hermes_tool_name n \<Longrightarrow> n \<noteq> []"
  by (auto simp: is_hermes_tool_name_def startswith_def HERMES_TOOL_PREFIX_def)

lemma tools_ok_texts:
  "tools_ok ns \<Longrightarrow> list_all (\<lambda>s. s \<noteq> [] \<and> length s \<le> MAX_TEXT) ns"
  by (auto simp: tools_ok_def list_all_iff dest: hermes_name_nonempty)

lemma checked_tools_InrD:
  assumes "checked_allowed_tools H v = Inr names"
  shows "(\<exists>a. v = PRef a \<and> H a = OTuple (map PStr names)) \<and> tools_ok names"
proof -
  from assms obtain a vs where v: "v = PRef a" "H a = OTuple vs" "all_texts vs = Some names"
    and ok: "list_all is_hermes_tool_name names" "distinct names"
    by (auto simp: checked_allowed_tools_def split: pyval.splits pyobj.splits option.splits if_splits)
  from all_texts_SomeD[OF v(3)] ok v show ?thesis
    by (auto simp: tools_ok_def list_all_iff)
qed

lemma checked_tools_Inr:
  "checked_allowed_tools H v = Inr names \<longleftrightarrow>
     (\<exists>a. v = PRef a \<and> H a = OTuple (map PStr names)) \<and> tools_ok names"
proof
  assume r: "(\<exists>a. v = PRef a \<and> H a = OTuple (map PStr names)) \<and> tools_ok names"
  then have "list_all is_hermes_tool_name names" "distinct names"
    by (auto simp: tools_ok_def list_all_iff)
  with r tools_ok_texts[of names] show "checked_allowed_tools H v = Inr names"
    by (auto simp: checked_allowed_tools_def all_texts_map)
qed (rule checked_tools_InrD)

lemma server_names_InrD:
  "server_names_ok d = Inr d' \<Longrightarrow>
     d = map (\<lambda>(k, v). (PStr k, v)) d' \<and> list_all (\<lambda>(k, v). k = HERMES_SERVER) d'"
proof (induction d arbitrary: d')
  case (Cons p d)
  obtain k v where p: "p = (k, v)" by (cases p)
  with Cons.prems obtain s d'' where "k = PStr s" "s = HERMES_SERVER"
      "server_names_ok d = Inr d''" "d' = (s, v) # d''"
    by (auto split: pyval.splits if_splits sum.splits)
  with Cons.IH[of d''] p show ?case by auto
qed simp

lemma server_names_map:
  "list_all (\<lambda>(k, v). k = HERMES_SERVER) d' \<Longrightarrow>
     server_names_ok (map (\<lambda>(k, v). (PStr k, v)) d') = Inr d'"
proof (induction d')
  case (Cons p d')
  have h: "HERMES_SERVER \<noteq> []" "length HERMES_SERVER \<le> 256" by (simp_all add: HERMES_SERVER_def)
  from Cons h show ?case by (cases p) auto
qed simp

lemma server_names_Inr:
  "server_names_ok d = Inr d' \<longleftrightarrow>
     d = map (\<lambda>(k, v). (PStr k, v)) d' \<and> list_all (\<lambda>(k, v). k = HERMES_SERVER) d'"
  using server_names_InrD server_names_map by blast

lemma as_dict_distinct: "distinct (map fst (as_dict kvs))"
proof -
  have "distinct (map fst d) \<Longrightarrow>
      distinct (map fst (fold (\<lambda>(k, v) d. dict_set k v d) kvs d))" for d :: "(pyval \<times> pyval) list"
    by (induction kvs arbitrary: d) (auto simp: distinct_dict_set)
  then show ?thesis by (simp add: as_dict_def)
qed

lemma as_dict_id: "distinct (map fst kvs) \<Longrightarrow> as_dict kvs = kvs"
proof -
  have "distinct (map fst (d @ kvs)) \<Longrightarrow>
      fold (\<lambda>(k, v) d. dict_set k v d) kvs d = d @ kvs" for d
    by (induction kvs arbitrary: d) (auto simp: dict_set_fresh)
  from this[of "[]"] show "distinct (map fst kvs) \<Longrightarrow> as_dict kvs = kvs"
    by (simp add: as_dict_def)
qed

lemma checked_timeout_Inr: "checked_timeout f = Inr t \<longleftrightarrow> f = FFin t \<and> timeout_ok t"
  by (cases f) (auto simp: checked_timeout_def timeout_ok_def)

lemma checked_sources_Inr:
  "checked_setting_sources H v = Inr ss \<longleftrightarrow> ss = [] \<and> (\<exists>a. v = PRef a \<and> H a = OTuple [])"
  by (auto simp: checked_setting_sources_def split: pyval.splits pyobj.splits list.splits)

lemmas checked_Inr = optional_text_Inr checked_prompt_Inr checked_resume_Inr checked_mode_Inr
  checked_tools_Inr server_names_Inr checked_timeout_Inr checked_sources_Inr

lemma config_create_InrD:
  assumes "config_create rt H a = Inr c"
  shows "optional_text (a_cwd a) = Inr (Some (cf_cwd c)) \<and>
    optional_text (a_model a) = Inr (cf_model c) \<and>
    checked_prompt (a_prompt_snapshot a) = Inr (cf_prompt_snapshot c) \<and>
    checked_resume (a_resume_external_session_id a) = Inr (cf_resume_external_session_id c) \<and>
    checked_permission_mode H (a_permission_mode a) = Inr (cf_permission_mode c) \<and>
    checked_setting_sources H (a_setting_sources a) = Inr (cf_setting_sources c) \<and>
    checked_allowed_tools H (a_allowed_tools a) = Inr (cf_allowed_tools c) \<and>
    server_names_ok (as_dict (a_mcp_servers a)) = Inr (cf_mcp_servers c) \<and>
    checked_timeout (a_turn_timeout_seconds a) = Inr (cf_turn_timeout_seconds c) \<and>
    checked_timeout (a_connect_timeout_seconds a) = Inr (cf_connect_timeout_seconds c) \<and>
    checked_timeout (a_close_timeout_seconds a) = Inr (cf_close_timeout_seconds c) \<and>
    (\<exists>p. cf_env_overrides c = sort_key fst (plan_sdk_env_overrides rt H p (a_configured_env a)))"
  using assms unfolding config_create_def
  by (auto split: sum.splits option.splits)

lemma distinct_scrub_parent:
  "distinct (map fst ov) \<Longrightarrow> distinct (map fst (scrub_parent H p ks ov))"
  by (induction ks arbitrary: ov) (auto simp: Let_def distinct_dict_set)

lemma distinct_add_configured:
  "distinct (map fst ov) \<Longrightarrow> distinct (map fst (add_configured rt items ov))"
  by (induction rt items ov rule: add_configured.induct)
     (auto simp: distinct_dict_set split: option.splits sum.splits)

lemma plan_distinct: "distinct (map fst (plan_sdk_env_overrides rt H p c))"
  by (auto simp: plan_sdk_env_overrides_def Let_def distinct_scrub_parent distinct_add_configured
           split: sum.splits)

lemma map_of_sort_key_fst:
  assumes "distinct (map fst d)"
  shows "map_of (sort_key fst d) = map_of d"
proof -
  from assms have "distinct (map fst (sort_key fst d))"
    by (simp add: distinct_map)
  with assms show ?thesis by (metis map_of_inject_set set_sort)
qed

lemma planned_env_ok: "env_ok (sort_key fst (plan_sdk_env_overrides rt H p c))"
proof -
  have "map_of (sort_key fst (plan_sdk_env_overrides rt H p c)) =
      map_of (plan_sdk_env_overrides rt H p c)"
    by (rule map_of_sort_key_fst) (rule plan_distinct)
  moreover have "map_of (plan_sdk_env_overrides rt H p c) REFUSAL_FALLBACK_ENV =
      Some REFUSAL_FALLBACK_VALUE"
    unfolding plan_on_protected_key[OF refusal_not_config]
    using refusal_not_denied by (metis (full_types))
  moreover have "map_of (plan_sdk_env_overrides rt H p c) (lit k) \<in> {None, Some []}"
    if "k \<in> set METERED_ENV_DENYLIST" for k
    using that refusal_not_denied[OF that] by (simp add: plan_on_protected_key denylist_not_config)
  ultimately show ?thesis by (auto simp: env_ok_def list_all_iff)
qed

lemma created_valid:
  assumes "config_create rt H a = Inr c"
  shows "valid_configuration c"
proof -
  note d = config_create_InrD[OF assms]
  have servers: "list_all (\<lambda>(n, v). n = HERMES_SERVER) (cf_mcp_servers c)"
    "distinct (map fst (cf_mcp_servers c))"
  proof -
    from d have s: "as_dict (a_mcp_servers a) = map (\<lambda>(k, v). (PStr k, v)) (cf_mcp_servers c)"
      "list_all (\<lambda>(n, v). n = HERMES_SERVER) (cf_mcp_servers c)"
      by (simp_all add: server_names_Inr)
    then show "list_all (\<lambda>(n, v). n = HERMES_SERVER) (cf_mcp_servers c)" by simp
    from s as_dict_distinct[of "a_mcp_servers a"]
    have "distinct (map PStr (map fst (cf_mcp_servers c)))"
      by (simp add: comp_def case_prod_beta)
    then show "distinct (map fst (cf_mcp_servers c))"
      by (auto simp: distinct_map dest: inj_on_imageI2)
  qed
  from d servers planned_env_ok show ?thesis
    by (auto simp: checked_Inr valid_configuration_def pred_option_def split: option.splits)
qed

subsection \<open>Properties\<close>

text \<open>
  A configuration that \<^verbatim>\<open>create\<close> returns is valid: bounded NUL-free texts, a prompt of at
  most 1 MiB of UTF-8, a resume id without control characters, no setting source, distinct
  tools of the Hermes MCP server only, no other server, timeouts in (0, 86400], and an
  environment with every denylisted variable scrubbed and the refusal fallback disabled.
\<close>

theorem config_create_valid:
  assumes "config_create rt H a = Inr c"
  shows "valid_configuration c"
  by (rule created_valid) (rule assms)

text \<open>The arguments that spell out a configuration: tuples live at the addresses 0 and 2.\<close>

definition opt_text :: "ustr option \<Rightarrow> pyval" where
  "opt_text t = (case t of None \<Rightarrow> PNone | Some s \<Rightarrow> PStr s)"

definition args_of :: "SDKSessionConfiguration \<Rightarrow> config_args" where
  "args_of c =
     \<lparr>a_cwd = PStr (cf_cwd c), a_model = opt_text (cf_model c),
          a_permission_mode = PStr (cf_permission_mode c),
          a_prompt_snapshot = PStr (cf_prompt_snapshot c),
          a_resume_external_session_id = opt_text (cf_resume_external_session_id c),
          a_parent_env = PNone, a_configured_env = PNone, a_setting_sources = PRef 0,
          a_mcp_servers = map (\<lambda>(k, v). (PStr k, v)) (cf_mcp_servers c),
          a_allowed_tools = PRef 2,
          a_turn_timeout_seconds = FFin (cf_turn_timeout_seconds c),
          a_connect_timeout_seconds = FFin (cf_connect_timeout_seconds c),
          a_close_timeout_seconds = FFin (cf_close_timeout_seconds c)\<rparr>"

text \<open>
  \<^verbatim>\<open>create\<close> accepts every valid configuration's own values and returns them unchanged;
  with the previous property, the values it accepts are exactly the valid ones. (The
  environment is planned anew; with no parent and no configured variable only the refusal
  fallback remains.)
\<close>

theorem config_create_accepts_valid:
  assumes "valid_configuration c" and "H 0 = OTuple []" and "H 2 = OTuple (map PStr (cf_allowed_tools c))"
  shows "config_create rt H (args_of c) =
    Inr (c\<lparr>cf_env_overrides := [(REFUSAL_FALLBACK_ENV, REFUSAL_FALLBACK_VALUE)]\<rparr>)"
proof -
  note v = assms(1)[unfolded valid_configuration_def]
  have servers: "server_names_ok (as_dict (map (\<lambda>(k, v). (PStr k, v)) (cf_mcp_servers c))) =
      Inr (cf_mcp_servers c)"
  proof -
    have "distinct (map fst (map (\<lambda>(k, v). (PStr k, v)) (cf_mcp_servers c)))"
    proof -
      have "map fst (map (\<lambda>(k, v). (PStr k, v)) (cf_mcp_servers c)) =
          map PStr (map fst (cf_mcp_servers c))" by auto
      moreover have "distinct (map PStr xs) = distinct xs" for xs
        by (simp add: distinct_map inj_on_def)
      ultimately show ?thesis using v by (simp only:)
    qed
    then show ?thesis using v by (simp add: as_dict_id server_names_Inr)
  qed
  have checks: "optional_text (PStr (cf_cwd c)) = Inr (Some (cf_cwd c))"
    "optional_text (opt_text (cf_model c)) = Inr (cf_model c)"
    "checked_prompt (PStr (cf_prompt_snapshot c)) = Inr (cf_prompt_snapshot c)"
    "checked_resume (opt_text (cf_resume_external_session_id c)) =
       Inr (cf_resume_external_session_id c)"
    "checked_permission_mode H (PStr (cf_permission_mode c)) = Inr (cf_permission_mode c)"
    "checked_setting_sources H (PRef 0) = Inr []"
    "checked_allowed_tools H (PRef 2) = Inr (cf_allowed_tools c)"
    "checked_timeout (FFin (cf_turn_timeout_seconds c)) = Inr (cf_turn_timeout_seconds c)"
    "checked_timeout (FFin (cf_connect_timeout_seconds c)) = Inr (cf_connect_timeout_seconds c)"
    "checked_timeout (FFin (cf_close_timeout_seconds c)) = Inr (cf_close_timeout_seconds c)"
    using v assms(2,3) by (auto simp: checked_Inr opt_text_def split: option.splits)
  have "py_truthy H PNone = Inr False" by (simp add: py_truthy_def)
  moreover have "plan_sdk_env_overrides rt H PNone PNone =
      [(REFUSAL_FALLBACK_ENV, REFUSAL_FALLBACK_VALUE)]"
    by (simp add: plan_sdk_env_overrides_def is_mapping_def)
  ultimately show ?thesis
    using v by (simp add: config_create_def args_of_def servers checks)
qed

text \<open>
  The options the SDK client gets keep Claude's own surface closed: the native tool list
  and the setting sources are empty, every allowed tool is a Hermes MCP name, the only server
  that can be configured is the Hermes one and the MCP configuration is strict exactly when it
  is, the prompt is passed as it is, and a resume option exists exactly when a session id does.
\<close>

theorem option_fields_zero_native:
  assumes "config_create rt H a = Inr c"
  shows "map_of (option_fields c) (lit ''tools'') = Some (OptNames []) \<and>
    map_of (option_fields c) (lit ''setting_sources'') = Some (OptNames []) \<and>
    (\<exists>names. map_of (option_fields c) (lit ''allowed_tools'') = Some (OptNames names) \<and>
       list_all is_hermes_tool_name names) \<and>
    (\<exists>servers. map_of (option_fields c) (lit ''mcp_servers'') = Some (OptServers servers) \<and>
       fst ` set servers \<subseteq> {HERMES_SERVER} \<and>
       map_of (option_fields c) (lit ''strict_mcp_config'') = Some (OptFlag (servers \<noteq> []))) \<and>
    a_prompt_snapshot a = PStr (cf_prompt_snapshot c) \<and>
    map_of (option_fields c) (lit ''system_prompt'') = Some (OptText (Some (cf_prompt_snapshot c))) \<and>
    (map_of (option_fields c) (lit ''resume'') = None \<longleftrightarrow>
       a_resume_external_session_id a = PNone)"
proof -
  note v = created_valid[OF assms, unfolded valid_configuration_def]
  note d = config_create_InrD[OF assms]
  have tools: "list_all is_hermes_tool_name (cf_allowed_tools c)"
    using v by (auto simp: tools_ok_def list_all_iff)
  have servers: "fst ` set (cf_mcp_servers c) \<subseteq> {HERMES_SERVER}"
    using v by (auto simp: list_all_iff)
  have resume: "(map_of (option_fields c) (lit ''resume'') = None) =
      (a_resume_external_session_id a = PNone)"
    using d by (auto simp: option_fields_def checked_Inr split: option.splits)
  have prompt: "a_prompt_snapshot a = PStr (cf_prompt_snapshot c)"
    using d by (simp add: checked_Inr)
  show ?thesis
    using v tools servers resume prompt by (simp add: option_fields_def)
qed

text \<open>A concrete configuration: the witness of the three properties.\<close>

definition sample_args :: config_args where
  "sample_args = \<lparr>a_cwd = PStr (lit ''.''), a_model = PStr (lit ''claude-fable-5-1''),
     a_permission_mode = PStr (lit ''bypassPermissions''), a_prompt_snapshot = PStr (lit ''hi''),
     a_resume_external_session_id = PNone, a_parent_env = PNone, a_configured_env = PNone,
     a_setting_sources = PRef 0, a_mcp_servers = [(PStr (lit ''hermes-tools''), PNone)],
     a_allowed_tools = PRef 2, a_turn_timeout_seconds = FFin 600,
     a_connect_timeout_seconds = FFin 60, a_close_timeout_seconds = FFin 15\<rparr>"

definition sample_heap :: heap where
  "sample_heap = (\<lambda>_. OTuple [])(2 := OTuple [PStr (lit ''mcp__hermes-tools__x'')])"

definition sample_configuration :: SDKSessionConfiguration where
  "sample_configuration = \<lparr>cf_cwd = lit ''.'', cf_model = Some (lit ''claude-fable-5-1''),
     cf_permission_mode = lit ''bypassPermissions'', cf_prompt_snapshot = lit ''hi'',
     cf_resume_external_session_id = None,
     cf_env_overrides = [(REFUSAL_FALLBACK_ENV, REFUSAL_FALLBACK_VALUE)], cf_setting_sources = [],
     cf_mcp_servers = [(lit ''hermes-tools'', PNone)], cf_allowed_tools = [lit ''mcp__hermes-tools__x''],
     cf_turn_timeout_seconds = 600, cf_connect_timeout_seconds = 60, cf_close_timeout_seconds = 15\<rparr>"

lemma sample_valid: "valid_configuration sample_configuration"
  by (simp add: valid_configuration_def sample_configuration_def text_ok_def MAX_TEXT_def
      PERMISSION_MODES_def utf8_fits_def MAX_PROMPT_SNAPSHOT_UTF8_BYTES_def resume_ok_def
      env_ok_def METERED_ENV_DENYLIST_def REFUSAL_FALLBACK_ENV_def REFUSAL_FALLBACK_VALUE_def
      tools_ok_def is_hermes_tool_name_def startswith_def HERMES_TOOL_PREFIX_def HERMES_SERVER_def
      timeout_ok_def lit_def utf8_len_def lits_def)

lemma sample_args_of: "sample_args = args_of sample_configuration"
  by (simp add: sample_args_def args_of_def sample_configuration_def opt_text_def)

theorem config_create_accepts_valid_witness:
  "config_create sample_rt sample_heap sample_args = Inr sample_configuration"
  using config_create_accepts_valid[OF sample_valid, of sample_heap sample_rt]
  by (simp add: sample_args_of sample_heap_def) (simp add: sample_configuration_def)

lemma sample_created: "config_create rt sample_heap sample_args = Inr sample_configuration"
  by (simp add: config_create_def sample_args_def sample_configuration_def checked_Inr
      optional_text_def checked_prompt_def checked_resume_def checked_permission_mode_def
      checked_setting_sources_def checked_allowed_tools_def checked_timeout_def as_dict_def
      MAX_TEXT_def PERMISSION_MODES_def MAX_PROMPT_SNAPSHOT_UTF8_BYTES_def sample_heap_def
      is_hermes_tool_name_def startswith_def HERMES_TOOL_PREFIX_def HERMES_SERVER_def
      py_truthy_def plan_sdk_env_overrides_def is_mapping_def lit_def lits_def utf8_len_def)

theorem config_create_valid_witness: "valid_configuration sample_configuration"
  by (rule config_create_valid) (rule sample_created)

theorem option_fields_zero_native_witness:
  "map_of (option_fields sample_configuration) (lit ''tools'') = Some (OptNames [])"
  using option_fields_zero_native[OF sample_created] by blast

end
