(* ===== verification/Json_Copy.thy ===== *)
theory Json_Copy
  imports Py_Base
begin

section \<open>Bounded copy of a plain JSON graph (tool\_bridge.py, \_copy\_plain\_json)\<close>

text \<open>
  \<^verbatim>\<open>_copy_plain_json\<close> walks an object graph that the host or the provider supplied and
  returns a fresh tree, or rejects the graph. The model walks the heap of \<^theory_text>\<open>Py_Base\<close>:
  containers have addresses, so the graph may share nodes and may be cyclic, and the set
  \<^verbatim>\<open>active\<close> of the source is the list of the addresses on the current path. The recursion
  is bounded by \<^verbatim>\<open>_MAX_JSON_DEPTH\<close>: the parameter \<open>room\<close> is the number of levels left,
  \<open>MAX_JSON_DEPTH + 1 - depth\<close>.
\<close>

definition MAX_NAME_UTF8_BYTES :: nat where "MAX_NAME_UTF8_BYTES = 256"
definition MAX_DESCRIPTION_UTF8_BYTES :: nat where "MAX_DESCRIPTION_UTF8_BYTES = 4096"
definition MAX_REQUEST_ID_UTF8_BYTES :: nat where "MAX_REQUEST_ID_UTF8_BYTES = 256"
definition MAX_INPUT_UTF8_BYTES :: nat where "MAX_INPUT_UTF8_BYTES = 65536"
definition MAX_RESULT_UTF8_BYTES :: nat where "MAX_RESULT_UTF8_BYTES = 65536"
definition MAX_JSON_DEPTH :: nat where "MAX_JSON_DEPTH = 64"
definition MAX_JSON_NODES :: nat where "MAX_JSON_NODES = 10000"

subsection \<open>JSON trees\<close>

datatype json =
    JNull
  | JBool bool
  | JInt int
  | JFloat pyfloat
  | JStr ustr
  | JList "json list"
  | JDict "(ustr \<times> json) list"

text \<open>\<^verbatim>\<open>current.bit_length() > _MAX_RESULT_UTF8_BYTES * 8\<close>\<close>

definition int_too_long :: "int \<Rightarrow> bool" where
  "int_too_long i \<longleftrightarrow> \<bar>i\<bar> \<ge> 2 ^ (MAX_RESULT_UTF8_BYTES * 8)"

lemma small_int: "\<bar>i\<bar> < 1024 \<Longrightarrow> \<not> int_too_long i"
proof -
  assume "\<bar>i\<bar> < 1024"
  moreover have "(2::int) ^ 10 \<le> 2 ^ (MAX_RESULT_UTF8_BYTES * 8)"
    by (rule power_increasing) (simp_all add: MAX_RESULT_UTF8_BYTES_def)
  ultimately show ?thesis by (simp add: int_too_long_def)
qed

subsection \<open>The walk\<close>

text \<open>The counters \<^verbatim>\<open>nodes\<close> and \<^verbatim>\<open>input_bytes\<close> of the enclosing call.\<close>

type_synonym counters = "nat \<times> nat"

fun map_state :: "('a \<Rightarrow> 's \<Rightarrow> ('b \<times> 's) option) \<Rightarrow> 'a list \<Rightarrow> 's \<Rightarrow> ('b list \<times> 's) option" where
  "map_state f [] st = Some ([], st)"
| "map_state f (x # xs) st =
     (case f x st of None \<Rightarrow> None
      | Some (y, st1) \<Rightarrow>
          (case map_state f xs st1 of None \<Rightarrow> None | Some (ys, st2) \<Rightarrow> Some (y # ys, st2)))"

fun copy_items ::
    "(pyval \<Rightarrow> counters \<Rightarrow> (json \<times> counters) option) \<Rightarrow> (pyval \<times> pyval) list \<Rightarrow>
     (ustr \<times> json) list \<Rightarrow> counters \<Rightarrow> ((ustr \<times> json) list \<times> counters) option" where
  "copy_items f [] copied st = Some (copied, st)"
| "copy_items f ((key, child) # items) copied st =
     (case key of
        PStr s \<Rightarrow>
          if utf8_size s = None then None
          else (case f key st of None \<Rightarrow> None
          | Some (copied_key, st1) \<Rightarrow>
              (case f child st1 of None \<Rightarrow> None
               | Some (child_copy, st2) \<Rightarrow> copy_items f items (dict_set s child_copy copied) st2))
      | _ \<Rightarrow> None)"

fun copy_value ::
    "heap \<Rightarrow> nat \<Rightarrow> addr list \<Rightarrow> nat \<Rightarrow> pyval \<Rightarrow> counters \<Rightarrow> (json \<times> counters) option" where
  "copy_value H max_input active 0 current st = None"
| "copy_value H max_input active (Suc room) current (nodes, input_bytes) =
     (let nodes = nodes + 1
      in if nodes > MAX_JSON_NODES then None
         else
           (case current of
              PStr s \<Rightarrow>
                (case utf8_size s of None \<Rightarrow> None
                 | Some k \<Rightarrow>
                     if input_bytes + k > max_input then None
                     else Some (JStr s, (nodes, input_bytes + k)))
            | PNone \<Rightarrow> Some (JNull, (nodes, input_bytes))
            | PBool b \<Rightarrow> Some (JBool b, (nodes, input_bytes))
            | PInt i \<Rightarrow> if int_too_long i then None else Some (JInt i, (nodes, input_bytes))
            | PFloat f \<Rightarrow> (case f of FFin r \<Rightarrow> Some (JFloat f, (nodes, input_bytes)) | _ \<Rightarrow> None)
            | PRef a \<Rightarrow>
                if a \<in> set active then None
                else
                  (let copy_child = copy_value H max_input (a # active) room;
                       copy_seq = (\<lambda>xs. map_option (\<lambda>(js, st). (JList js, st))
                         (map_state copy_child xs (nodes, input_bytes)));
                       copy_dict = (\<lambda>kvs. map_option (\<lambda>(d, st). (JDict d, st))
                         (copy_items copy_child kvs [] (nodes, input_bytes)))
                   in (case H a of
                         OList xs \<Rightarrow> copy_seq xs
                       | OTuple xs \<Rightarrow> copy_seq xs
                       | ODict kvs \<Rightarrow> copy_dict kvs
                       | OMapping (Some kvs) \<Rightarrow> copy_dict kvs
                       | _ \<Rightarrow> None))))"

definition copy_plain_json :: "heap \<Rightarrow> nat \<Rightarrow> pyval \<Rightarrow> json option" where
  "copy_plain_json H max_input value =
     map_option fst (copy_value H max_input [] (MAX_JSON_DEPTH + 1) value (0, 0))"

subsection \<open>Reading a graph back as a tree\<close>

text \<open>
  \<open>reads H v j\<close>: the plain JSON graph that starts at \<open>v\<close> unfolds to the finite tree \<open>j\<close>.
  A cyclic graph unfolds to no tree.
\<close>

inductive reads :: "heap \<Rightarrow> pyval \<Rightarrow> json \<Rightarrow> bool" for H where
  reads_None: "reads H PNone JNull"
| reads_Bool: "reads H (PBool b) (JBool b)"
| reads_Int: "reads H (PInt i) (JInt i)"
| reads_Float: "reads H (PFloat (FFin r)) (JFloat (FFin r))"
| reads_Str: "reads H (PStr s) (JStr s)"
| reads_Seq: "H a = OList xs \<or> H a = OTuple xs \<Longrightarrow> list_all2 (reads H) xs js \<Longrightarrow>
     reads H (PRef a) (JList js)"
| reads_Dict: "H a = ODict kvs \<or> H a = OMapping (Some kvs) \<Longrightarrow>
     list_all2 (\<lambda>kv p. fst kv = PStr (fst p) \<and> reads H (snd kv) (snd p)) kvs d \<Longrightarrow>
     reads H (PRef a) (JDict d)"

inductive_cases reads_immediateE:
  "reads H PNone j" "reads H (PBool b) j" "reads H (PInt i) j" "reads H (PFloat f) j"
  "reads H (PStr s) j"
inductive_cases reads_refE: "reads H (PRef a) j"

text \<open>The contract of a mapping: each key is listed once.\<close>

definition heap_ok :: "heap \<Rightarrow> bool" where
  "heap_ok H \<longleftrightarrow> (\<forall>a kvs. H a = ODict kvs \<or> H a = OMapping (Some kvs) \<longrightarrow> distinct (map fst kvs))"

lemma size_snd_json [termination_simp]:
  "p \<in> set d \<Longrightarrow> size (snd p) < Suc (size_list (size_prod (\<lambda>x. 0) size) d)"
  by (induction d) (auto split: prod.splits)

text \<open>
  The measures the source bounds: the nodes visited (a key counts as a node), the bytes of
  all strings and keys, the levels below the root.
\<close>

fun json_nodes :: "json \<Rightarrow> nat" where
  "json_nodes (JList js) = 1 + sum_list (map json_nodes js)"
| "json_nodes (JDict d) = 1 + sum_list (map (\<lambda>p. 1 + json_nodes (snd p)) d)"
| "json_nodes _ = 1"

definition bytes_of :: "ustr \<Rightarrow> nat" where
  "bytes_of s = (case utf8_size s of None \<Rightarrow> 0 | Some n \<Rightarrow> n)"

fun json_bytes :: "json \<Rightarrow> nat" where
  "json_bytes (JStr s) = bytes_of s"
| "json_bytes (JList js) = sum_list (map json_bytes js)"
| "json_bytes (JDict d) = sum_list (map (\<lambda>p. bytes_of (fst p) + json_bytes (snd p)) d)"
| "json_bytes _ = 0"

fun json_height :: "json \<Rightarrow> nat" where
  "json_height (JList js) = foldr max (map (\<lambda>j. Suc (json_height j)) js) 0"
| "json_height (JDict d) = foldr max (map (\<lambda>p. Suc (json_height (snd p))) d) 0"
| "json_height _ = 0"

text \<open>Every string can be encoded and no integer is longer than the bound.\<close>

fun json_clean :: "json \<Rightarrow> bool" where
  "json_clean (JStr s) = (utf8_size s \<noteq> None)"
| "json_clean (JInt i) = (\<not> int_too_long i)"
| "json_clean (JFloat f) = (\<exists>r. f = FFin r)"
| "json_clean (JList js) = list_all json_clean js"
| "json_clean (JDict d) = list_all (\<lambda>p. utf8_size (fst p) \<noteq> None \<and> json_clean (snd p)) d"
| "json_clean _ = True"

subsection \<open>The walk returns the tree of the graph\<close>

definition in_limits :: "nat \<Rightarrow> counters \<Rightarrow> bool" where
  "in_limits max_input st = (fst st \<le> MAX_JSON_NODES \<and> snd st \<le> max_input)"

definition keeps_limits :: "nat \<Rightarrow> (pyval \<Rightarrow> counters \<Rightarrow> (json \<times> counters) option) \<Rightarrow> bool" where
  "keeps_limits m f =
     (\<forall>x st j st'. f x st = Some (j, st') \<longrightarrow> in_limits m st \<longrightarrow> in_limits m st')"

lemma keeps_limitsD:
  "keeps_limits m f \<Longrightarrow> f x st = Some (j, st') \<Longrightarrow> in_limits m st \<Longrightarrow> in_limits m st'"
  unfolding keeps_limits_def by blast

lemma map_state_in_limits:
  assumes "keeps_limits m f"
  shows "map_state f xs st = Some (js, st') \<Longrightarrow> in_limits m st \<Longrightarrow> in_limits m st'"
  by (induction xs arbitrary: st js) (auto split: option.splits prod.splits dest: keeps_limitsD[OF assms])

lemma copy_items_in_limits:
  assumes "keeps_limits m f"
  shows "copy_items f kvs acc st = Some (d, st') \<Longrightarrow> in_limits m st \<Longrightarrow> in_limits m st'"
proof (induction kvs arbitrary: acc st)
  case (Cons kv kvs)
  obtain key child where kv: "kv = (key, child)" by (cases kv)
  from Cons.prems(1) kv obtain s jk st1 jc st2 where steps: "f (PStr s) st = Some (jk, st1)"
    "f child st1 = Some (jc, st2)" "copy_items f kvs (dict_set s jc acc) st2 = Some (d, st')"
    by (cases key) (auto split: option.splits if_splits)
  show ?case by (rule Cons.IH[OF steps(3) keeps_limitsD[OF assms steps(2)
        keeps_limitsD[OF assms steps(1) Cons.prems(2)]]])
qed simp

lemma copy_ref_SomeD:
  assumes "copy_value H m active (Suc room) (PRef a) (n, b) = Some (j, st')"
  shows "Suc n \<le> MAX_JSON_NODES \<and> a \<notin> set active \<and>
    ((\<exists>xs js. (H a = OList xs \<or> H a = OTuple xs) \<and> j = JList js \<and>
        map_state (copy_value H m (a # active) room) xs (Suc n, b) = Some (js, st')) \<or>
     (\<exists>kvs d. (H a = ODict kvs \<or> H a = OMapping (Some kvs)) \<and> j = JDict d \<and>
        copy_items (copy_value H m (a # active) room) kvs [] (Suc n, b) = Some (d, st')))"
  using assms by (cases "H a") (auto simp: Let_def split: if_splits option.splits)

lemma copy_value_in_limits:
  "copy_value H m active room v st = Some (j, st') \<Longrightarrow> in_limits m st \<Longrightarrow> in_limits m st'"
proof (induction room arbitrary: active v st j st')
  case (Suc room)
  obtain n b where st: "st = (n, b)" by (cases st)
  have child: "keeps_limits m (copy_value H m act room)" for act
    unfolding keeps_limits_def using Suc.IH by blast
  show ?case
  proof (cases "\<exists>a. v = PRef a")
    case True
    then obtain a where v: "v = PRef a" by blast
    note d = copy_ref_SomeD[OF Suc.prems(1)[unfolded v st]]
    then have "in_limits m (Suc n, b)" using Suc.prems(2) by (simp add: in_limits_def st)
    with d show ?thesis
      using map_state_in_limits[OF child] copy_items_in_limits[OF child] by blast
  next
    case False
    then show ?thesis using Suc.prems unfolding st
      by (cases v) (auto simp: Let_def in_limits_def split: if_splits option.splits pyfloat.splits)
  qed
qed simp

definition copied_as :: "heap \<Rightarrow> nat \<Rightarrow> pyval \<Rightarrow> json \<Rightarrow> bool" where
  "copied_as H room v j = (reads H v j \<and> json_height j < room \<and> json_clean j)"

definition counts_exactly ::
    "(pyval \<Rightarrow> json \<Rightarrow> bool) \<Rightarrow> (pyval \<Rightarrow> counters \<Rightarrow> (json \<times> counters) option) \<Rightarrow> bool" where
  "counts_exactly P f = (\<forall>x n b j n' b'. f x (n, b) = Some (j, (n', b')) \<longrightarrow>
      P x j \<and> n' = n + json_nodes j \<and> b' = b + json_bytes j)"

lemma counts_exactlyD:
  "counts_exactly P f \<Longrightarrow> f x (n, b) = Some (j, (n', b')) \<Longrightarrow>
      P x j \<and> n' = n + json_nodes j \<and> b' = b + json_bytes j"
  by (auto simp: counts_exactly_def)

lemma map_state_sound:
  assumes "counts_exactly P f"
  shows "map_state f xs (n, b) = Some (js, (n', b')) \<Longrightarrow>
      list_all2 P xs js \<and> n' = n + sum_list (map json_nodes js) \<and>
      b' = b + sum_list (map json_bytes js)"
proof (induction xs arbitrary: n b js)
  case (Cons x xs)
  from Cons.prems obtain y n1 b1 ys where steps: "f x (n, b) = Some (y, (n1, b1))"
    "map_state f xs (n1, b1) = Some (ys, (n', b'))" "js = y # ys"
    by (auto split: option.splits)
  from counts_exactlyD[OF assms steps(1)] Cons.IH[OF steps(2)] steps(3) show ?case by simp
qed simp

lemma copy_items_sound:
  assumes f: "counts_exactly P f"
    and str: "\<And>s j. P (PStr s) j \<Longrightarrow> j = JStr s \<and> utf8_size s \<noteq> None"
  shows "copy_items f kvs acc (n, b) = Some (d, (n', b')) \<Longrightarrow> distinct (map fst kvs) \<Longrightarrow>
      (\<forall>k \<in> fst ` set acc. PStr k \<notin> fst ` set kvs) \<Longrightarrow>
      \<exists>e. d = acc @ e \<and>
        list_all2 (\<lambda>kv p. fst kv = PStr (fst p) \<and> utf8_size (fst p) \<noteq> None \<and> P (snd kv) (snd p)) kvs e \<and>
        n' = n + sum_list (map (\<lambda>p. 1 + json_nodes (snd p)) e) \<and>
        b' = b + sum_list (map (\<lambda>p. bytes_of (fst p) + json_bytes (snd p)) e)"
proof (induction kvs arbitrary: acc n b)
  case (Cons kv kvs)
  obtain key child where kv: "kv = (key, child)" by (cases kv)
  from Cons.prems(1) kv obtain s where key: "key = PStr s" by (cases key) auto
  from Cons.prems(1) kv key obtain jk n1 b1 jc n2 b2 where steps:
    "f (PStr s) (n, b) = Some (jk, (n1, b1))" "f child (n1, b1) = Some (jc, (n2, b2))"
    "copy_items f kvs (dict_set s jc acc) (n2, b2) = Some (d, (n', b'))"
    by (auto split: option.splits if_splits)
  have fresh: "dict_set s jc acc = acc @ [(s, jc)]"
    using Cons.prems(3) kv key by (intro dict_set_fresh) auto
  have rest: "\<forall>k \<in> fst ` set (dict_set s jc acc). PStr k \<notin> fst ` set kvs"
    using Cons.prems(2,3) kv key by (auto simp: fresh)
  from Cons.IH[OF steps(3) _ rest] Cons.prems(2) obtain e where e:
    "d = (acc @ [(s, jc)]) @ e"
    "list_all2 (\<lambda>kv p. fst kv = PStr (fst p) \<and> utf8_size (fst p) \<noteq> None \<and> P (snd kv) (snd p)) kvs e"
    "n' = n2 + sum_list (map (\<lambda>p. 1 + json_nodes (snd p)) e)"
    "b' = b2 + sum_list (map (\<lambda>p. bytes_of (fst p) + json_bytes (snd p)) e)"
    by (auto simp: fresh)
  from counts_exactlyD[OF f steps(1)] str[of s jk] counts_exactlyD[OF f steps(2)] e kv key show ?case
    by (intro exI[of _ "(s, jc) # e"]) (auto simp: bytes_of_def split: option.splits)
qed simp

lemma foldr_max_less:
  "foldr max (map f xs) 0 < Suc m \<longleftrightarrow> list_all (\<lambda>x. f x \<le> (m :: nat)) xs"
  by (induction xs) auto

lemma copied_as_Seq:
  assumes "H a = OList xs \<or> H a = OTuple xs" and "list_all2 (copied_as H room) xs js"
  shows "copied_as H (Suc room) (PRef a) (JList js)"
proof -
  have "list_all2 (reads H) xs js"
    using assms(2) by (rule list_all2_mono) (simp add: copied_as_def)
  moreover have "list_all (\<lambda>j. json_height j < room \<and> json_clean j) js"
    using assms(2) by (auto simp: copied_as_def list_all2_conv_all_nth list_all_length)
  ultimately show ?thesis
    using assms(1) by (auto simp: copied_as_def foldr_max_less list_all_iff Suc_le_eq intro: reads_Seq)
qed

lemma copied_as_Dict:
  assumes "H a = ODict kvs \<or> H a = OMapping (Some kvs)"
    and "list_all2 (\<lambda>kv p. fst kv = PStr (fst p) \<and> utf8_size (fst p) \<noteq> None \<and>
           copied_as H room (snd kv) (snd p)) kvs d"
  shows "copied_as H (Suc room) (PRef a) (JDict d)"
proof -
  have "list_all2 (\<lambda>kv p. fst kv = PStr (fst p) \<and> reads H (snd kv) (snd p)) kvs d"
    using assms(2) by (rule list_all2_mono) (simp add: copied_as_def)
  moreover have "list_all (\<lambda>p. utf8_size (fst p) \<noteq> None \<and> json_height (snd p) < room \<and>
      json_clean (snd p)) d"
    using assms(2) by (auto simp: copied_as_def list_all2_conv_all_nth list_all_length)
  ultimately show ?thesis
    using assms(1) by (auto simp: copied_as_def foldr_max_less list_all_iff Suc_le_eq intro: reads_Dict)
qed

lemma copied_as_PStr: "copied_as H room (PStr s) j \<Longrightarrow> j = JStr s \<and> utf8_size s \<noteq> None"
  by (auto simp: copied_as_def elim: reads_immediateE)

lemma copy_value_sound:
  assumes "heap_ok H"
  shows "copy_value H m active room v (n, b) = Some (j, (n', b')) \<Longrightarrow>
    copied_as H room v j \<and> n' = n + json_nodes j \<and> b' = b + json_bytes j"
proof (induction room arbitrary: active v n b j n' b')
  case (Suc room)
  show ?case
  proof (cases "\<exists>a. v = PRef a")
    case True
    then obtain a where v: "v = PRef a" by blast
    let ?f = "copy_value H m (a # active) room"
    have f: "counts_exactly (copied_as H room) ?f"
      unfolding counts_exactly_def using Suc.IH by blast
    from copy_ref_SomeD[OF Suc.prems[unfolded v]] consider
      (seq) xs js where "H a = OList xs \<or> H a = OTuple xs" "j = JList js"
        "map_state ?f xs (Suc n, b) = Some (js, (n', b'))"
    | (items) kvs d where "H a = ODict kvs \<or> H a = OMapping (Some kvs)" "j = JDict d"
        "copy_items ?f kvs [] (Suc n, b) = Some (d, (n', b'))" by blast
    then show ?thesis
    proof cases
      case seq
      with map_state_sound[OF f seq(3)] copied_as_Seq[of H a xs room js] v show ?thesis by simp
    next
      case items
      have "distinct (map fst kvs)" using assms items(1) by (auto simp: heap_ok_def)
      with copy_items_sound[OF f copied_as_PStr items(3)] items copied_as_Dict[of H a kvs room d] v
      show ?thesis by auto
    qed
  next
    case False
    then show ?thesis using Suc.prems
      by (cases v)
         (auto simp: Let_def copied_as_def bytes_of_def intro: reads.intros
            split: if_splits option.splits pyfloat.splits)
  qed
qed simp

subsection \<open>Every graph within the limits is copied\<close>

lemma reads_deterministic: "reads H v j \<Longrightarrow> reads H v j' \<Longrightarrow> j = j'"
proof (induction arbitrary: j' rule: reads.induct)
  case (reads_Seq a xs js)
  from reads_Seq.prems reads_Seq.hyps obtain js' where j': "j' = JList js'" "list_all2 (reads H) xs js'"
    by (auto elim: reads_refE)
  from reads_Seq.IH j'(2) have "js = js'"
    by (auto simp: list_all2_conv_all_nth intro!: nth_equalityI)
  with j' show ?case by simp
next
  case (reads_Dict a kvs d)
  from reads_Dict.prems reads_Dict.hyps obtain d' where j': "j' = JDict d'"
    "list_all2 (\<lambda>kv p. fst kv = PStr (fst p) \<and> reads H (snd kv) (snd p)) kvs d'"
    by (auto elim: reads_refE)
  from reads_Dict.IH j'(2) have "d = d'"
    by (auto simp: list_all2_conv_all_nth prod_eq_iff intro!: nth_equalityI)
  with j' show ?case by simp
qed (auto elim: reads_immediateE)

lemma json_nodes_pos: "0 < json_nodes j"
  by (cases j) auto

lemma elem_le_sum_list_nat: "x \<in> set xs \<Longrightarrow> f x \<le> sum_list (map f xs)" for f :: "'a \<Rightarrow> nat"
  by (induction xs) auto

lemma nodes_child_list: "j \<in> set js \<Longrightarrow> json_nodes j < json_nodes (JList js)"
  using elem_le_sum_list_nat[of j js json_nodes] by simp

lemma nodes_child_dict: "p \<in> set d \<Longrightarrow> json_nodes (snd p) < json_nodes (JDict d)"
  using elem_le_sum_list_nat[of p d "\<lambda>p. 1 + json_nodes (snd p)"] by simp

definition copies_fully ::
    "nat \<Rightarrow> (pyval \<Rightarrow> counters \<Rightarrow> (json \<times> counters) option) \<Rightarrow> pyval \<Rightarrow> json \<Rightarrow> bool" where
  "copies_fully m f x j =
     (\<forall>n b. n + json_nodes j \<le> MAX_JSON_NODES \<longrightarrow> b + json_bytes j \<le> m \<longrightarrow>
        f x (n, b) = Some (j, (n + json_nodes j, b + json_bytes j)))"

lemma copies_fullyD:
  "copies_fully m f x j \<Longrightarrow> n + json_nodes j \<le> MAX_JSON_NODES \<Longrightarrow> b + json_bytes j \<le> m \<Longrightarrow>
    f x (n, b) = Some (j, (n + json_nodes j, b + json_bytes j))"
  by (simp add: copies_fully_def)

lemma map_state_complete:
  "list_all2 (copies_fully m f) xs js \<Longrightarrow>
    n + sum_list (map json_nodes js) \<le> MAX_JSON_NODES \<Longrightarrow>
    b + sum_list (map json_bytes js) \<le> m \<Longrightarrow>
    map_state f xs (n, b) =
      Some (js, (n + sum_list (map json_nodes js), b + sum_list (map json_bytes js)))"
proof (induction xs js arbitrary: n b rule: list_all2_induct)
  case (Cons x xs j js)
  from Cons.prems have "f x (n, b) = Some (j, (n + json_nodes j, b + json_bytes j))"
    by (intro copies_fullyD[OF Cons.hyps(1)]) simp_all
  with Cons.IH[of "n + json_nodes j" "b + json_bytes j"] Cons.prems show ?case
    by (simp add: add.assoc)
qed simp

lemma copy_items_complete:
  assumes key: "\<And>s. utf8_size s \<noteq> None \<Longrightarrow> copies_fully m f (PStr s) (JStr s)"
  shows "list_all2 (\<lambda>kv p. fst kv = PStr (fst p) \<and> utf8_size (fst p) \<noteq> None \<and>
      copies_fully m f (snd kv) (snd p)) kvs d \<Longrightarrow> distinct (map fst (acc @ d)) \<Longrightarrow>
    n + sum_list (map (\<lambda>p. 1 + json_nodes (snd p)) d) \<le> MAX_JSON_NODES \<Longrightarrow>
    b + sum_list (map (\<lambda>p. bytes_of (fst p) + json_bytes (snd p)) d) \<le> m \<Longrightarrow>
    copy_items f kvs acc (n, b) =
      Some (acc @ d, (n + sum_list (map (\<lambda>p. 1 + json_nodes (snd p)) d),
         b + sum_list (map (\<lambda>p. bytes_of (fst p) + json_bytes (snd p)) d)))"
proof (induction kvs d arbitrary: acc n b rule: list_all2_induct)
  case (Cons kv kvs p d)
  obtain child s j where kv: "kv = (PStr s, child)" and p: "p = (s, j)"
    using Cons.hyps(1) by (cases kv; cases p) auto
  have enc: "utf8_size s \<noteq> None" using Cons.hyps(1) p by simp
  have "f (PStr s) (n, b) = Some (JStr s, (n + 1, b + bytes_of s))"
    using copies_fullyD[OF key[OF enc], of n b] Cons.prems p by simp
  moreover have "f child (n + 1, b + bytes_of s) =
      Some (j, (n + 1 + json_nodes j, b + bytes_of s + json_bytes j))"
    by (rule copies_fullyD[of m]) (use Cons.hyps(1) Cons.prems kv p in simp_all)
  moreover have "dict_set s j acc = acc @ [(s, j)]"
    using Cons.prems(1) p by (intro dict_set_fresh) auto
  ultimately show ?case
    using Cons.IH[of "acc @ [(s, j)]" "n + 1 + json_nodes j" "b + bytes_of s + json_bytes j"]
      Cons.prems kv p enc
    by (simp add: add.assoc)
qed simp

text \<open>An address on the path unfolds to a strictly larger tree, so a tree has no way back.\<close>

definition path_above :: "heap \<Rightarrow> addr list \<Rightarrow> json \<Rightarrow> bool" where
  "path_above H active j =
     (\<forall>a \<in> set active. \<exists>ja. reads H (PRef a) ja \<and> json_nodes j < json_nodes ja)"

lemma path_above_child:
  assumes "path_above H active j" "reads H (PRef a) j" "json_nodes c < json_nodes j"
  shows "path_above H (a # active) c"
  using assms by (fastforce simp: path_above_def)

lemma path_above_fresh: "path_above H active j \<Longrightarrow> reads H (PRef a) j \<Longrightarrow> a \<notin> set active"
  by (auto simp: path_above_def dest: reads_deterministic)

lemma copied_keys_distinct:
  assumes "list_all2 (\<lambda>kv p. fst kv = PStr (fst p) \<and> R kv p) kvs d" "distinct (map fst kvs)"
  shows "distinct (map fst d)"
proof -
  have "map fst kvs = map PStr (map fst d)"
    using assms(1) by (auto simp: list_all2_conv_all_nth intro!: nth_equalityI)
  with assms(2) show ?thesis by (simp only: distinct_map[of PStr])
qed

lemma copy_value_complete:
  assumes ok: "heap_ok H"
  shows "reads H v j \<Longrightarrow> json_clean j \<Longrightarrow> json_height j < room \<Longrightarrow> path_above H active j \<Longrightarrow>
    copies_fully m (copy_value H m active room) v j"
proof (induction room arbitrary: active v j)
  case (Suc room)
  show ?case
  proof (cases "\<exists>a. v = PRef a")
    case True
    then obtain a where v: "v = PRef a" by blast
    let ?f = "copy_value H m (a # active) room"
    have a: "a \<notin> set active" using path_above_fresh Suc.prems(1,4) v by blast
    have IH: "copies_fully m ?f c jc"
      if "reads H c jc" "json_clean jc" "json_height jc < room" "json_nodes jc < json_nodes j" for c jc
      using Suc.IH that path_above_child Suc.prems(1,4) v by blast
    from Suc.prems(1)[unfolded v] show ?thesis
    proof (cases rule: reads.cases)
      case (reads_Seq xs js)
      have "list_all2 (copies_fully m ?f) xs js"
        unfolding list_all2_conv_all_nth
      proof (intro conjI allI impI)
        show "length xs = length js" using reads_Seq(3) by (rule list_all2_lengthD)
        fix i assume i: "i < length xs"
        with reads_Seq(3) have mem: "reads H (xs ! i) (js ! i)" "js ! i \<in> set js"
          by (auto simp: list_all2_conv_all_nth)
        with Suc.prems(2,3) reads_Seq(1) nodes_child_list[of "js ! i" js] show "copies_fully m ?f (xs ! i) (js ! i)"
          by (intro IH) (auto simp: foldr_max_less list_all_iff)
      qed
      with map_state_complete[of m ?f xs js] reads_Seq a v show ?thesis
        by (auto simp: copies_fully_def Let_def)
    next
      case (reads_Dict kvs d)
      have dist: "distinct (map fst kvs)" using ok reads_Dict(2) by (auto simp: heap_ok_def)
      have "list_all2 (\<lambda>kv p. fst kv = PStr (fst p) \<and> utf8_size (fst p) \<noteq> None \<and>
          copies_fully m ?f (snd kv) (snd p)) kvs d"
        unfolding list_all2_conv_all_nth
      proof (intro conjI allI impI)
        show "length kvs = length d" using reads_Dict(3) by (rule list_all2_lengthD)
        fix i assume i: "i < length kvs"
        with reads_Dict(3) have mem: "reads H (snd (kvs ! i)) (snd (d ! i))" "d ! i \<in> set d"
          "fst (kvs ! i) = PStr (fst (d ! i))"
          by (auto simp: list_all2_conv_all_nth)
        then show "fst (kvs ! i) = PStr (fst (d ! i))" by simp
        from mem(2) Suc.prems(2) reads_Dict(1) show "utf8_size (fst (d ! i)) \<noteq> None"
          by (auto simp: list_all_iff)
        from mem Suc.prems(2,3) reads_Dict(1) nodes_child_dict[of "d ! i" d]
        show "copies_fully m ?f (snd (kvs ! i)) (snd (d ! i))"
          by (intro IH) (auto simp: foldr_max_less list_all_iff)
      qed
      moreover have "copies_fully m ?f (PStr s) (JStr s)" if "utf8_size s \<noteq> None" "kvs \<noteq> []" for s
      proof -
        have "room \<noteq> 0" using Suc.prems(3) reads_Dict(1,3) that(2) by (cases d) auto
        with that(1) show ?thesis
          by (cases room) (auto simp: copies_fully_def bytes_of_def)
      qed
      ultimately show ?thesis
        using copy_items_complete[of m ?f kvs d "[]"] reads_Dict a v dist
          copied_keys_distinct[OF reads_Dict(3) dist]
        by (cases "kvs = []") (auto simp: copies_fully_def Let_def)
    qed
  next
    case False
    from Suc.prems(1) False show ?thesis
      by (cases rule: reads.cases)
         (use Suc.prems(2) in \<open>auto simp: copies_fully_def bytes_of_def\<close>)
  qed
qed simp

subsection \<open>Properties\<close>

lemma copy_plain_json_iff:
  assumes "heap_ok H"
  shows "copy_plain_json H m v = Some j \<longleftrightarrow>
    reads H v j \<and> json_clean j \<and> json_height j \<le> MAX_JSON_DEPTH \<and>
    json_nodes j \<le> MAX_JSON_NODES \<and> json_bytes j \<le> m"
proof
  assume "copy_plain_json H m v = Some j"
  then obtain n b where c: "copy_value H m [] (Suc MAX_JSON_DEPTH) v (0, 0) = Some (j, (n, b))"
    by (auto simp: copy_plain_json_def)
  from copy_value_sound[OF assms c] copy_value_in_limits[OF c] show
    "reads H v j \<and> json_clean j \<and> json_height j \<le> MAX_JSON_DEPTH \<and>
     json_nodes j \<le> MAX_JSON_NODES \<and> json_bytes j \<le> m"
    by (simp add: copied_as_def in_limits_def)
next
  assume r: "reads H v j \<and> json_clean j \<and> json_height j \<le> MAX_JSON_DEPTH \<and>
    json_nodes j \<le> MAX_JSON_NODES \<and> json_bytes j \<le> m"
  with copies_fullyD[OF copy_value_complete[OF assms, of v j "Suc MAX_JSON_DEPTH" "[]" m], of 0 0]
  show "copy_plain_json H m v = Some j"
    by (simp add: copy_plain_json_def path_above_def)
qed

text \<open>
  C17: The copy of an untrusted object graph succeeds exactly for the graphs that unfold to a
  finite JSON tree within the limits (depth 64, 10000 nodes, the given number of UTF-8 bytes,
  encodable text, bounded integers), and then the result is that tree. Shared nodes are
  copied each time they occur.
\<close>

theorem copy_plain_json_exact:
  assumes "heap_ok H"
  shows "copy_plain_json H m v = Some j \<longleftrightarrow>
    reads H v j \<and> json_clean j \<and> json_height j \<le> MAX_JSON_DEPTH \<and>
    json_nodes j \<le> MAX_JSON_NODES \<and> json_bytes j \<le> m"
  by (rule copy_plain_json_iff) (rule assms)

definition shared_heap :: heap where
  "shared_heap = (\<lambda>_. OList [])(2 := OList [PRef 3, PRef 3, PInt 7], 3 := ODict [(PStr (lit ''a''), PNone)])"

theorem copy_plain_json_exact_witness:
  "copy_plain_json shared_heap 2 (PRef 2) =
     Some (JList [JDict [(lit ''a'', JNull)], JDict [(lit ''a'', JNull)], JInt 7]) \<and>
   copy_plain_json shared_heap 1 (PRef 2) \<noteq>
     Some (JList [JDict [(lit ''a'', JNull)], JDict [(lit ''a'', JNull)], JInt 7])"
proof -
  have ok: "heap_ok shared_heap" by (auto simp: heap_ok_def shared_heap_def)
  have r3: "reads shared_heap (PRef 3) (JDict [(lit ''a'', JNull)])"
    by (rule reads_Dict[of _ _ "[(PStr (lit ''a''), PNone)]"])
       (auto simp: shared_heap_def intro: reads.intros)
  have r: "reads shared_heap (PRef 2)
      (JList [JDict [(lit ''a'', JNull)], JDict [(lit ''a'', JNull)], JInt 7])"
    by (rule reads_Seq[of _ _ "[PRef 3, PRef 3, PInt 7]"])
       (auto simp: shared_heap_def intro: reads.intros r3[unfolded shared_heap_def])
  have "bytes_of (lit ''a'') = 1" "utf8_size (lit ''a'') = Some 1"
    by (simp_all add: bytes_of_def lit_def utf8_len_def)
  then show ?thesis using r
    by (simp add: copy_plain_json_exact[OF ok] small_int MAX_JSON_DEPTH_def MAX_JSON_NODES_def)
qed

text \<open>The edges of an object graph.\<close>

inductive child_of :: "heap \<Rightarrow> pyval \<Rightarrow> pyval \<Rightarrow> bool" for H where
  child_seq: "H a = OList xs \<or> H a = OTuple xs \<Longrightarrow> w \<in> set xs \<Longrightarrow> child_of H w (PRef a)"
| child_item: "H a = ODict kvs \<or> H a = OMapping (Some kvs) \<Longrightarrow> (k, w) \<in> set kvs \<Longrightarrow>
    child_of H w (PRef a)"

lemma list_all2_left: "list_all2 P xs ys \<Longrightarrow> x \<in> set xs \<Longrightarrow> \<exists>y \<in> set ys. P x y"
  by (induction rule: list_all2_induct) auto

lemma child_smaller:
  assumes "child_of H w v" "reads H v j"
  shows "\<exists>jw. reads H w jw \<and> json_nodes jw < json_nodes j"
  using assms(1)
proof cases
  case (child_seq a xs)
  with assms(2) obtain js where "j = JList js" "list_all2 (reads H) xs js"
    by (auto elim: reads_refE)
  with list_all2_left[OF this(2) child_seq(3)] show ?thesis using nodes_child_list by blast
next
  case (child_item a kvs k)
  with assms(2) obtain d where d: "j = JDict d"
    "list_all2 (\<lambda>kv p. fst kv = PStr (fst p) \<and> reads H (snd kv) (snd p)) kvs d"
    by (auto elim: reads_refE)
  with list_all2_left[OF d(2) child_item(3)] show ?thesis using nodes_child_dict by fastforce
qed

lemma descendant_reads:
  "(child_of H)\<^sup>*\<^sup>* w v \<Longrightarrow> reads H v j \<Longrightarrow> \<exists>jw. reads H w jw"
  by (induction arbitrary: j rule: rtranclp_induct) (blast dest: child_smaller)+

lemma descendant_smaller:
  "(child_of H)\<^sup>+\<^sup>+ w v \<Longrightarrow> reads H v j \<Longrightarrow> \<exists>jw. reads H w jw \<and> json_nodes jw < json_nodes j"
proof (induction arbitrary: j rule: tranclp_induct)
  case (step y z)
  from child_smaller[OF step.hyps(2) step.prems] step.IH show ?case
    using less_trans by blast
qed (blast dest: child_smaller)

text \<open>
  The copy always returns, and it rejects every object graph from which a cycle can be
  reached, however long the cycle and whatever else the graph holds.
\<close>

theorem copy_plain_json_rejects_cycles:
  assumes "heap_ok H" and "(child_of H)\<^sup>*\<^sup>* w v" and "(child_of H)\<^sup>+\<^sup>+ w w"
  shows "copy_plain_json H m v = None"
proof (cases "copy_plain_json H m v")
  case (Some j)
  then have "reads H v j" using copy_plain_json_iff[OF assms(1)] by simp
  with descendant_reads[OF assms(2)] obtain jw where jw: "reads H w jw" by blast
  with descendant_smaller[OF assms(3)] obtain jw' where "reads H w jw'" "json_nodes jw' < json_nodes jw"
    by blast
  with jw show ?thesis by (auto dest: reads_deterministic)
qed

theorem copy_plain_json_rejects_cycles_witness:
  "copy_plain_json (\<lambda>a. if a = 2 then OList [PInt 1, PRef 3] else ODict [(PStr [], PRef 2)])
     100 (PRef 2) = None"
proof (rule copy_plain_json_rejects_cycles)
  let ?H = "\<lambda>a. if a = 2 then OList [PInt 1, PRef 3] else ODict [(PStr [], PRef 2)]"
  show "heap_ok ?H" by (auto simp: heap_ok_def)
  show "(child_of ?H)\<^sup>*\<^sup>* (PRef 2) (PRef 2)" by simp
  have "child_of ?H (PRef 3) (PRef 2)" "child_of ?H (PRef 2) (PRef 3)"
    by (auto intro: child_seq[of _ _ "[PInt 1, PRef 3]"] child_item[of _ _ "[(PStr [], PRef 2)]" "PStr []"])
  then show "(child_of ?H)\<^sup>+\<^sup>+ (PRef 2) (PRef 2)" by (meson tranclp.intros)
qed

end
