(* ===== verification/Regex.thy ===== *)
theory Regex
  imports Py_Base
begin

section \<open>Regular expressions of the sources\<close>

text \<open>
  The sources use \<^verbatim>\<open>re\<close> for identifiers and for redaction. A pattern is a \<open>regex\<close>; \<open>ends\<close>
  lists the positions at which a match that starts at the cursor can end, in the order in
  which Python's backtracking matcher tries them, so that its first element is the match.
  Every repetition in the sources repeats one character class. A cursor is the reversed text
  before a position and the text after it, which is what \<^verbatim>\<open>\b\<close> needs.
\<close>

type_synonym cursor = "ustr \<times> ustr"

datatype regex =
    Eps
  | Cls "nat \<Rightarrow> bool"
  | Seq regex regex
  | Alt regex regex
  | Rep nat "nat option" "nat \<Rightarrow> bool"
  | WordB "nat \<Rightarrow> bool"

definition run_length :: "(nat \<Rightarrow> bool) \<Rightarrow> nat option \<Rightarrow> ustr \<Rightarrow> nat" where
  "run_length P hi s =
     (let n = length (takeWhile P s) in case hi of None \<Rightarrow> n | Some h \<Rightarrow> min h n)"

definition advance :: "nat \<Rightarrow> cursor \<Rightarrow> cursor" where
  "advance k p = (rev (take k (snd p)) @ fst p, drop k (snd p))"

definition at_word :: "(nat \<Rightarrow> bool) \<Rightarrow> ustr \<Rightarrow> bool" where
  "at_word w s = (case s of [] \<Rightarrow> False | c # _ \<Rightarrow> w c)"

fun ends :: "regex \<Rightarrow> cursor \<Rightarrow> cursor list" where
  "ends Eps p = [p]"
| "ends (Cls P) (b, a) = (case a of [] \<Rightarrow> [] | c # a' \<Rightarrow> if P c then [(c # b, a')] else [])"
| "ends (Seq r s) p = concat (map (ends s) (ends r p))"
| "ends (Alt r s) p = ends r p @ ends s p"
| "ends (Rep lo hi P) p = map (\<lambda>k. advance k p) (rev [lo ..< Suc (run_length P hi (snd p))])"
| "ends (WordB w) (b, a) = (if at_word w b \<noteq> at_word w a then [(b, a)] else [])"

definition re_match :: "regex \<Rightarrow> cursor \<Rightarrow> cursor option" where
  "re_match r p = (case ends r p of [] \<Rightarrow> None | e # _ \<Rightarrow> Some e)"

definition fullmatch :: "regex \<Rightarrow> ustr \<Rightarrow> bool" where
  "fullmatch r s = list_ex (\<lambda>e. snd e = []) (ends r ([], s))"

fun re_search_from :: "regex \<Rightarrow> ustr \<Rightarrow> ustr \<Rightarrow> bool" where
  "re_search_from r b [] = (re_match r (b, []) \<noteq> None)"
| "re_search_from r b (c # a) = (re_match r (b, c # a) \<noteq> None \<or> re_search_from r (c # b) a)"

definition re_search :: "regex \<Rightarrow> ustr \<Rightarrow> bool" where
  "re_search r s = re_search_from r [] s"

text \<open>
  \<^verbatim>\<open>pattern.sub(repl, text)\<close>: the leftmost matches that do not overlap. No pattern of the
  sources matches the empty string, so an empty match is not replaced here.
\<close>

function re_sub_from :: "regex \<Rightarrow> ustr \<Rightarrow> ustr \<Rightarrow> ustr \<Rightarrow> ustr" where
  "re_sub_from r repl b [] = []"
| "re_sub_from r repl b (c # a) =
     (case re_match r (b, c # a) of
        None \<Rightarrow> c # re_sub_from r repl (c # b) a
      | Some (b', a') \<Rightarrow>
          if length a' \<le> length a then repl @ re_sub_from r repl b' a'
          else c # re_sub_from r repl (c # b) a)"
  by pat_completeness auto
termination
  by (relation "measure (\<lambda>(r, repl, b, a). length a)") auto

definition re_sub :: "regex \<Rightarrow> ustr \<Rightarrow> ustr \<Rightarrow> ustr" where
  "re_sub r repl s = re_sub_from r repl [] s"

subsection \<open>Building patterns\<close>

fun re_seq :: "regex list \<Rightarrow> regex" where
  "re_seq [] = Eps"
| "re_seq (r # rs) = Seq r (re_seq rs)"

fun re_alts :: "regex list \<Rightarrow> regex" where
  "re_alts [] = Cls (\<lambda>_. False)"
| "re_alts (r # rs) = Alt r (re_alts rs)"

definition chars :: "string \<Rightarrow> nat \<Rightarrow> bool" where
  "chars s c = (c \<in> set (lit s))"

definition re_text :: "string \<Rightarrow> regex" where
  "re_text s = re_seq (map (\<lambda>k. Cls (\<lambda>c. c = k)) (lit s))"

text \<open>
  \<^verbatim>\<open>IGNORECASE\<close>: besides the two cases of an ASCII letter, the dotted capital I, the dotless
  i, the long s and the Kelvin sign match the letter they fold to.
\<close>

definition fold_ascii :: "nat \<Rightarrow> nat" where
  "fold_ascii c =
     (if c = 304 \<or> c = 305 then 105 else if c = 383 then 115 else if c = 8490 then 107
      else ascii_lower c)"

definition re_itext :: "string \<Rightarrow> regex" where
  "re_itext s = re_seq (map (\<lambda>k. Cls (\<lambda>c. fold_ascii c = k)) (lit s))"

definition identifier_char :: "nat \<Rightarrow> bool" where
  "identifier_char c \<longleftrightarrow> is_alnum c \<or> c = 95 \<or> c = 46 \<or> c = 58 \<or> c = 45"

subsection \<open>Lemmas\<close>

lemma ends_advance:
  "e \<in> set (ends r p) \<Longrightarrow> \<exists>m. snd p = m @ snd e \<and> fst e = rev m @ fst p"
proof (induction r arbitrary: p e)
  case (Cls P)
  then show ?case by (cases p) (auto split: list.splits if_splits)
next
  case (Seq r s)
  from Seq.prems obtain q where q: "q \<in> set (ends r p)" "e \<in> set (ends s q)" by auto
  from Seq.IH(1)[OF q(1)] Seq.IH(2)[OF q(2)] show ?case by auto
next
  case (Rep lo hi P)
  then obtain k where "e = advance k p" by auto
  then show ?case by (intro exI[of _ "take k (snd p)"]) (simp add: advance_def)
next
  case (WordB w)
  then show ?case by (cases p) (auto split: if_splits)
qed auto

lemma fullmatch_Rep:
  "fullmatch (Rep lo None P) s \<longleftrightarrow> lo \<le> length s \<and> list_all P s"
proof -
  have "fullmatch (Rep lo None P) s \<longleftrightarrow> (\<exists>k \<ge> lo. k < Suc (length (takeWhile P s)) \<and> drop k s = [])"
    by (auto simp: fullmatch_def list_ex_iff run_length_def advance_def Bex_def)
  also have "\<dots> \<longleftrightarrow> lo \<le> length s \<and> length (takeWhile P s) = length s"
    using length_takeWhile_le[of P s] by auto
  also have "length (takeWhile P s) = length s \<longleftrightarrow> list_all P s"
    by (metis list_all_iff takeWhile_eq_all_conv takeWhile_eq_take take_all_iff order_refl)
  finally show ?thesis .
qed

lemma re_sub_unmatched:
  assumes "\<And>b a. re_match r (b, a) \<noteq> None \<Longrightarrow> \<exists>c \<in> set a. P c"
  shows "\<forall>c \<in> set s. \<not> P c \<Longrightarrow> re_sub_from r repl b s = s"
proof (induction s arbitrary: b)
  case (Cons c s)
  then have "re_match r (b, c # s) = None" using assms by fastforce
  with Cons show ?case by simp
qed simp

end
