(* ===== verification/Bounded_Text.thy ===== *)
theory Bounded_Text
  imports Regex
begin

section \<open>Bounded, redacted text (tool\_bridge.py, \_bounded\_text)\<close>

text \<open>
  Every text that crosses the tool bridge goes through \<^verbatim>\<open>_bounded_text\<close>: credentials are
  redacted, control characters become blanks, white space is collapsed, and a text that is
  still longer than the byte limit keeps a head and a tail around a truncation marker. The
  lemmas show that the result always fits the limit, is one clean line, and is the text
  itself when nothing has to be done.
\<close>

subsection \<open>Redaction\<close>

definition bearer_char :: "nat \<Rightarrow> bool" where
  "bearer_char c \<longleftrightarrow> is_alnum (fold_ascii c) \<or> chars ''._~+/=-'' c"

definition value_char :: "nat \<Rightarrow> bool" where
  "value_char c \<longleftrightarrow> \<not> py_isspace c \<and> c \<noteq> 44 \<and> c \<noteq> 59"

definition SECRET_LIKE_PATTERNS :: "pyrt \<Rightarrow> regex list" where
  "SECRET_LIKE_PATTERNS rt =
     (let b = WordB (word_char rt); dash = Rep 0 (Some 1) (chars ''_-'')
      in [re_seq [b, re_itext ''bearer'', Rep 1 None py_isspace, Rep 8 None bearer_char],
          re_seq [b, re_text ''sk-'', Rep 8 None (\<lambda>c. is_alnum c \<or> c = 95 \<or> c = 45), b],
          re_seq [b, re_text ''AKIA'', Rep 16 (Some 16) (\<lambda>c. is_digit c \<or> is_upper c), b],
          re_seq [b,
            re_alts [re_seq [re_itext ''api'', dash, re_itext ''key''],
                     re_seq [re_itext ''access'', dash, re_itext ''token''],
                     re_seq [re_itext ''auth'', dash, re_itext ''token''],
                     re_itext ''password'', re_itext ''secret''],
            Rep 0 None py_isspace, Cls (chars '':=''), Rep 0 None py_isspace,
            Rep 1 None value_char]])"

definition redact_secret_like :: "pyrt \<Rightarrow> ustr \<Rightarrow> ustr" where
  "redact_secret_like rt value =
     fold (\<lambda>pattern v. re_sub pattern (lit ''[redacted]'') v) (SECRET_LIKE_PATTERNS rt) value"

subsection \<open>Sanitising and bounding\<close>

fun take_bytes :: "nat \<Rightarrow> ustr \<Rightarrow> ustr" where
  "take_bytes limit [] = []"
| "take_bytes limit (c # cs) =
     (case utf8_len c of None \<Rightarrow> []
      | Some k \<Rightarrow> if k > limit then [] else c # take_bytes (limit - k) cs)"

definition TRUNCATION_MARKER :: ustr where
  "TRUNCATION_MARKER = [32, 8230] @ lit '' [truncated] '' @ [8230, 32]"

definition one_line :: "pyrt \<Rightarrow> ustr \<Rightarrow> ustr" where
  "one_line rt value =
     py_join [32] (py_words (map (\<lambda>c. if category_C rt c then 32 else c) value))"

definition truncate_middle :: "nat \<Rightarrow> ustr \<Rightarrow> ustr" where
  "truncate_middle limit value =
     (let marker = TRUNCATION_MARKER; marker_bytes = 21
      in if marker_bytes \<ge> limit then take_bytes limit marker
         else (let remaining = limit - marker_bytes; head_limit = remaining div 2;
                   tail_limit = remaining - head_limit
               in take_bytes head_limit value @ marker @
                  rev (take_bytes tail_limit (rev value))))"

definition bounded_text :: "pyrt \<Rightarrow> nat \<Rightarrow> bool \<Rightarrow> ustr \<Rightarrow> ustr option" where
  "bounded_text rt limit redact value =
     (let value = one_line rt (if redact then redact_secret_like rt value else value)
      in case utf8_size value of None \<Rightarrow> None
         | Some n \<Rightarrow> if n \<le> limit then Some value else Some (truncate_middle limit value))"

subsection \<open>Lemmas\<close>

lemma utf8_size_TRUNCATION_MARKER: "utf8_size TRUNCATION_MARKER = Some 21"
  by (simp add: TRUNCATION_MARKER_def lit_def utf8_len_def)

lemma take_bytes_fits: "\<exists>n. utf8_size (take_bytes limit s) = Some n \<and> n \<le> limit"
proof (induction s arbitrary: limit)
  case (Cons c s)
  show ?case
  proof (cases "\<exists>k. utf8_len c = Some k \<and> k \<le> limit")
    case True
    then obtain k where k: "utf8_len c = Some k" "k \<le> limit" by blast
    from Cons[of "limit - k"] obtain n where "utf8_size (take_bytes (limit - k) s) = Some n"
      "n \<le> limit - k" by blast
    with k show ?thesis by auto
  qed (auto split: option.splits)
qed simp

lemma take_bytes_take: "take_bytes limit s = take (length (take_bytes limit s)) s"
  by (induction s arbitrary: limit) (auto split: option.splits)

lemma take_bytes_id: "utf8_size s = Some n \<Longrightarrow> n \<le> limit \<Longrightarrow> take_bytes limit s = s"
  by (induction s arbitrary: n limit) (auto split: option.splits)

lemma utf8_fits_append:
  "utf8_size x = Some a \<Longrightarrow> utf8_size y = Some b \<Longrightarrow> utf8_size (x @ y) = Some (a + b)"
  by (simp add: utf8_size_append)

lemma truncate_middle_fits: "\<exists>n. utf8_size (truncate_middle limit value) = Some n \<and> n \<le> limit"
proof (cases "21 \<ge> limit")
  case True
  then show ?thesis using take_bytes_fits by (simp add: truncate_middle_def)
next
  case False
  define h where "h = (limit - 21) div 2"
  obtain a b where a: "utf8_size (take_bytes h value) = Some a" "a \<le> h"
    and b: "utf8_size (take_bytes (limit - 21 - h) (rev value)) = Some b" "b \<le> limit - 21 - h"
    using take_bytes_fits by blast
  have "utf8_size (truncate_middle limit value) = Some (a + (21 + b))"
    using False a(1) b(1)
    by (simp add: truncate_middle_def Let_def h_def utf8_size_append utf8_size_rev
        utf8_size_TRUNCATION_MARKER)
  then show ?thesis using False a(2) b(2) by (auto simp: h_def)
qed

lemma truncate_middle_parts:
  assumes "21 < limit"
  shows "\<exists>i j. truncate_middle limit value = take i value @ TRUNCATION_MARKER @ drop j value"
proof -
  define h where "h = (limit - 21) div 2"
  define t where "t = take_bytes (limit - 21 - h) (rev value)"
  have "take_bytes h value = take (length (take_bytes h value)) value" by (rule take_bytes_take)
  moreover have "rev t = drop (length value - length t) value"
    using arg_cong[OF take_bytes_take[of "limit - 21 - h" "rev value"], of rev]
    by (simp only: t_def rev_take rev_rev_ident length_rev)
  ultimately show ?thesis using assms
    by (auto simp: truncate_middle_def Let_def h_def t_def)
qed

text \<open>A clean line: blanks and characters that are neither white space nor control.\<close>

definition clean_char :: "pyrt \<Rightarrow> nat \<Rightarrow> bool" where
  "clean_char rt c \<longleftrightarrow> c = 32 \<or> (\<not> py_isspace c \<and> \<not> category_C rt c)"

lemma words_acc_chars:
  "w \<in> set (words_acc u s) \<Longrightarrow> c \<in> set w \<Longrightarrow> (c \<in> set s \<and> \<not> py_isspace c) \<or> c \<in> set u"
  by (induction u s rule: words_acc.induct) (auto split: if_splits)

lemma set_py_join: "c \<in> set (py_join sep ws) \<Longrightarrow> c \<in> set sep \<or> (\<exists>w \<in> set ws. c \<in> set w)"
  by (induction sep ws rule: py_join.induct) auto

lemma one_line_clean: "list_all (clean_char rt) (one_line rt value)"
  unfolding list_all_iff
proof
  fix c assume "c \<in> set (one_line rt value)"
  with set_py_join have "c = 32 \<or>
    (\<exists>w \<in> set (py_words (map (\<lambda>c. if category_C rt c then 32 else c) value)). c \<in> set w)"
    by (fastforce simp: one_line_def)
  then show "clean_char rt c"
    by (fastforce simp: clean_char_def py_words_def py_isspace_def dest: words_acc_chars split: if_splits)
qed

lemma list_all_take_bytes: "list_all P s \<Longrightarrow> list_all P (take_bytes k s)"
  by (metis take_bytes_take list_all_iff in_set_takeD)

lemma truncate_middle_all:
  assumes "list_all P value" "list_all P TRUNCATION_MARKER"
  shows "list_all P (truncate_middle limit value)"
  using assms list_all_take_bytes[of P "rev value"]
  by (simp add: truncate_middle_def Let_def list_all_take_bytes)

lemma marker_clean: "\<not> category_C rt 8230 \<Longrightarrow> list_all (clean_char rt) TRUNCATION_MARKER"
  by (simp add: TRUNCATION_MARKER_def lit_def clean_char_def py_isspace_def category_C_def is_control_def)

lemma bounded_text_Some_iff:
  "bounded_text rt limit redact value = Some t \<longleftrightarrow>
     (let line = one_line rt (if redact then redact_secret_like rt value else value)
      in \<exists>n. utf8_size line = Some n \<and>
             t = (if n \<le> limit then line else truncate_middle limit line))"
  by (auto simp: bounded_text_def Let_def split: option.splits)

lemma bounded_text_fits: "bounded_text rt limit redact value = Some t \<Longrightarrow> utf8_fits limit t"
  using truncate_middle_fits[of limit "one_line rt (if redact then redact_secret_like rt value else value)"]
  by (auto simp: bounded_text_Some_iff Let_def utf8_fits_def split: if_splits)

lemma bounded_text_clean:
  "bounded_text rt limit redact value = Some t \<Longrightarrow> \<not> category_C rt 8230 \<Longrightarrow>
   list_all (clean_char rt) t"
  by (auto simp: bounded_text_Some_iff Let_def one_line_clean truncate_middle_all marker_clean split: if_splits)

subsection \<open>Properties\<close>

text \<open>What the Unicode tables say: surrogates are in category Cs, the ellipsis is not in C.\<close>

definition unicode_facts :: "pyrt \<Rightarrow> bool" where
  "unicode_facts rt \<longleftrightarrow> (\<forall>c. 55296 \<le> c \<and> c \<le> 57343 \<longrightarrow> rt_catC rt c) \<and> \<not> rt_catC rt 8230"

lemma one_line_encodable:
  assumes "unicode_facts rt"
  shows "\<exists>n. utf8_size (one_line rt value) = Some n"
proof -
  have "utf8_len c \<noteq> None" if "clean_char rt c" for c
    using assms that
    by (auto simp: utf8_len_def clean_char_def unicode_facts_def category_C_def split: if_splits)
  then have "\<not> (\<exists>c \<in> set (one_line rt value). utf8_len c = None)"
    using one_line_clean by (fastforce simp: list_all_iff)
  then have "utf8_size (one_line rt value) \<noteq> None" by (simp only: utf8_size_Some_iff simp_thms)
  then show ?thesis by blast
qed

lemma bounded_text_total:
  assumes "unicode_facts rt"
  shows "\<exists>t. bounded_text rt limit redact value = Some t \<and> utf8_fits limit t \<and>
    list_all (clean_char rt) t"
proof -
  obtain t where t: "bounded_text rt limit redact value = Some t"
    using one_line_encodable[OF assms] by (fastforce simp: bounded_text_Some_iff Let_def)
  moreover have "\<not> category_C rt 8230" using assms by (simp add: unicode_facts_def category_C_def)
  ultimately show ?thesis using bounded_text_fits bounded_text_clean by blast
qed

text \<open>
  Sanitising a text always succeeds and its result is one clean line of at most the given
  number of UTF-8 bytes: no control character, no line break, no white space but blanks.
  Nothing is cut when the line fits; otherwise the result is a head and a tail of the line
  around the truncation marker, cut between characters.
\<close>

theorem bounded_text_bounded_line:
  assumes "unicode_facts rt" and "21 < limit"
  shows "\<exists>t. bounded_text rt limit redact value = Some t \<and> utf8_fits limit t \<and>
    list_all (clean_char rt) t \<and>
    (let line = one_line rt (if redact then redact_secret_like rt value else value)
     in if utf8_fits limit line then t = line
        else \<exists>i j. t = take i line @ TRUNCATION_MARKER @ drop j line)"
proof -
  obtain t where t: "bounded_text rt limit redact value = Some t" "utf8_fits limit t"
    "list_all (clean_char rt) t"
    using bounded_text_total[OF assms(1)] by blast
  define line where "line = one_line rt (if redact then redact_secret_like rt value else value)"
  from t(1) obtain n where n: "utf8_size line = Some n"
    "t = (if n \<le> limit then line else truncate_middle limit line)"
    unfolding bounded_text_Some_iff Let_def line_def by blast
  with truncate_middle_parts[OF assms(2), of line]
  have "if utf8_fits limit line then t = line
      else \<exists>i j. t = take i line @ TRUNCATION_MARKER @ drop j line"
    by (simp add: utf8_fits_def)
  with t show ?thesis unfolding Let_def line_def by blast
qed

lemma sample_rt_facts: "unicode_facts sample_rt"
  by (simp add: unicode_facts_def sample_rt_def)

theorem bounded_text_bounded_line_witness:
  "\<exists>t. bounded_text sample_rt 64 True (lit ''key sk-abcdefgh1'') = Some t \<and> utf8_fits 64 t"
  using bounded_text_bounded_line[OF sample_rt_facts, of 64 True "lit ''key sk-abcdefgh1''"] by auto

end
