(* ===== verification/Tool_Schema.thy ===== *)
theory Tool_Schema
  imports Json_Copy Bounded_Text
begin

section \<open>Tool schemas (tool\_bridge.py)\<close>

text \<open>
  A tool's input schema is a copied JSON tree. \<open>valid_schema\<close> is the subset of JSON Schema the
  bridge accepts, \<open>matches_schema\<close> the check of a call's arguments. The latter reads the
  schema's keywords without checking them: on an ill-typed keyword the model raises. It is
  only applied to valid schemas, and on those it is proved not to raise.
  \<open>conforms\<close> is the meaning the check should have, without exceptions and evaluation order.
\<close>

definition SCHEMA_KEYS :: "string list" where
  "SCHEMA_KEYS = [''type'', ''properties'', ''required'', ''additionalProperties'', ''items'',
     ''enum'', ''default'', ''anyOf'', ''minLength'', ''maxLength'', ''minimum'', ''maximum'',
     ''minItems'', ''maxItems'', ''description'', ''title'']"

definition SCHEMA_TYPES :: "string list" where
  "SCHEMA_TYPES = [''object'', ''array'', ''string'', ''number'', ''integer'', ''boolean'', ''null'']"

type_synonym fields = "(ustr \<times> json) list"

text \<open>\<^verbatim>\<open>key in d\<close>, and \<^verbatim>\<open>d.get(key)\<close>, where \<^verbatim>\<open>None\<close> is \<open>JNull\<close>.\<close>

definition has :: "fields \<Rightarrow> string \<Rightarrow> bool" where
  "has d k = (map_of d (lit k) \<noteq> None)"

definition get_or :: "json \<Rightarrow> fields \<Rightarrow> string \<Rightarrow> json" where
  "get_or dflt d k = (case map_of d (lit k) of None \<Rightarrow> dflt | Some v \<Rightarrow> v)"

abbreviation get :: "fields \<Rightarrow> string \<Rightarrow> json" where
  "get d k \<equiv> get_or JNull d k"

subsection \<open>Validity\<close>

definition valid_nonnegative_integer :: "json \<Rightarrow> bool" where
  "valid_nonnegative_integer v =
     (case v of JInt i \<Rightarrow> 0 \<le> i \<and> i \<le> int MAX_INPUT_UTF8_BYTES | _ \<Rightarrow> False)"

text \<open>
  \<^verbatim>\<open>math.isfinite\<close> converts an integer to a double first; from the middle between the largest
  double and 2 to the 1024 on, that raises \<^verbatim>\<open>OverflowError\<close>.
\<close>

definition is_finite_number :: "json \<Rightarrow> bool" where
  "is_finite_number v =
     (case v of JInt i \<Rightarrow> \<bar>i\<bar> < 2 ^ 1024 - 2 ^ 970 | JFloat (FFin r) \<Rightarrow> True | _ \<Rightarrow> False)"

text \<open>The numeric value that \<^verbatim>\<open><\<close> and \<^verbatim>\<open>></\<close> compare; a \<^verbatim>\<open>bool\<close> is an integer.\<close>

fun number_of :: "json \<Rightarrow> rat option" where
  "number_of (JInt i) = Some (of_int i)"
| "number_of (JFloat (FFin r)) = Some r"
| "number_of (JBool b) = Some (if b then 1 else 0)"
| "number_of _ = None"

definition exceeds :: "json \<Rightarrow> json \<Rightarrow> bool" where
  "exceeds a b = (case (number_of a, number_of b) of (Some x, Some y) \<Rightarrow> x > y | _ \<Rightarrow> False)"

text \<open>
  \<^verbatim>\<open>_copy_plain_json\<close> on a subtree of the copied schema: by \<open>copy_plain_json_iff\<close> it returns
  the subtree exactly when these bounds hold.
\<close>

definition plain_ok :: "nat \<Rightarrow> json \<Rightarrow> bool" where
  "plain_ok max_input j \<longleftrightarrow> json_clean j \<and> json_height j \<le> MAX_JSON_DEPTH \<and>
     json_nodes j \<le> MAX_JSON_NODES \<and> json_bytes j \<le> max_input"

lemma plain_ok_copies:
  "heap_ok H \<Longrightarrow> reads H v j \<Longrightarrow>
   copy_plain_json H m v = (if plain_ok m j then Some j else None)"
  unfolding plain_ok_def
  using copy_plain_json_iff[of H m v] reads_deterministic[of H v j]
  by (cases "copy_plain_json H m v") (metis option.distinct(1), metis)

definition property_name_ok :: "pyrt \<Rightarrow> ustr \<Rightarrow> bool" where
  "property_name_ok rt name \<longleftrightarrow> name \<noteq> [] \<and> utf8_fits MAX_NAME_UTF8_BYTES name \<and>
     \<not> list_ex (category_C rt) name"

definition text_keyword_ok :: "fields \<Rightarrow> string \<Rightarrow> bool" where
  "text_keyword_ok d k = (case map_of d (lit k) of None \<Rightarrow> True | Some (JStr _) \<Rightarrow> True | _ \<Rightarrow> False)"

definition any_key :: "fields \<Rightarrow> string list \<Rightarrow> bool" where
  "any_key d ks = list_ex (has d) ks"

definition enum_ok :: "fields \<Rightarrow> bool" where
  "enum_ok d = (case map_of d (lit ''enum'') of None \<Rightarrow> True
     | Some (JList xs) \<Rightarrow> plain_ok MAX_INPUT_UTF8_BYTES (JList xs) | _ \<Rightarrow> False)"

definition bounds_ok :: "fields \<Rightarrow> bool" where
  "bounds_ok d \<longleftrightarrow>
     list_all (\<lambda>k. has d k \<longrightarrow> valid_nonnegative_integer (get d k))
       [''minLength'', ''maxLength'', ''minItems'', ''maxItems''] \<and>
     \<not> (has d ''minLength'' \<and> has d ''maxLength'' \<and> exceeds (get d ''minLength'') (get d ''maxLength'')) \<and>
     \<not> (has d ''minItems'' \<and> has d ''maxItems'' \<and> exceeds (get d ''minItems'') (get d ''maxItems'')) \<and>
     list_all (\<lambda>k. has d k \<longrightarrow> is_finite_number (get d k)) [''minimum'', ''maximum''] \<and>
     \<not> (has d ''minimum'' \<and> has d ''maximum'' \<and> exceeds (get d ''minimum'') (get d ''maximum''))"

definition required_name_ok :: "fields \<Rightarrow> json \<Rightarrow> bool" where
  "required_name_ok properties n =
     (case n of JStr s \<Rightarrow> map_of properties s \<noteq> None | _ \<Rightarrow> False)"

definition required_ok :: "fields \<Rightarrow> fields \<Rightarrow> bool" where
  "required_ok d properties =
     (case get_or (JList []) d ''required'' of
        JList names \<Rightarrow> list_all (required_name_ok properties) names
      | _ \<Rightarrow> False)"

definition additional_ok :: "fields \<Rightarrow> bool" where
  "additional_ok d = (case get_or (JBool True) d ''additionalProperties'' of JBool _ \<Rightarrow> True | _ \<Rightarrow> False)"

text \<open>The keywords that only some types may carry; \<open>t\<close> is the value of \<^verbatim>\<open>type\<close>.\<close>

definition keywords_fit_type :: "ustr \<Rightarrow> fields \<Rightarrow> bool" where
  "keywords_fit_type t d \<longleftrightarrow>
     (t \<noteq> lit ''object'' \<and> t \<noteq> lit ''array'' \<longrightarrow>
        \<not> any_key d [''properties'', ''required'', ''additionalProperties'']) \<and>
     (t \<noteq> lit ''string'' \<longrightarrow> \<not> any_key d [''minLength'', ''maxLength'']) \<and>
     (t \<noteq> lit ''array'' \<longrightarrow> \<not> any_key d [''minItems'', ''maxItems'']) \<and>
     (t \<noteq> lit ''number'' \<and> t \<noteq> lit ''integer'' \<longrightarrow> \<not> any_key d [''minimum'', ''maximum''])"

definition UNTYPED_FORBIDDEN :: "string list" where
  "UNTYPED_FORBIDDEN = [''properties'', ''required'', ''additionalProperties'', ''items'',
     ''minLength'', ''maxLength'', ''minimum'', ''maximum'', ''minItems'', ''maxItems'', ''enum'']"

text \<open>\<open>room\<close> is \<open>MAX_JSON_DEPTH + 1 - depth\<close>.\<close>

fun valid_schema :: "pyrt \<Rightarrow> nat \<Rightarrow> json \<Rightarrow> bool" where
  "valid_schema rt 0 schema = False"
| "valid_schema rt (Suc room) schema =
     (case schema of
        JDict d \<Rightarrow>
          list_all (\<lambda>p. fst p \<in> set (lits SCHEMA_KEYS)) d \<and>
          (let schema_type = get d ''type''; alternatives = get d ''anyOf''
           in \<not> (schema_type = JNull \<and> alternatives = JNull) \<and>
              (case schema_type of JNull \<Rightarrow> True | JStr t \<Rightarrow> t \<in> set (lits SCHEMA_TYPES) | _ \<Rightarrow> False) \<and>
              (has d ''default'' \<longrightarrow> plain_ok MAX_INPUT_UTF8_BYTES (get d ''default'')) \<and>
              (case alternatives of
                 JNull \<Rightarrow> True
               | JList cs \<Rightarrow> cs \<noteq> [] \<and> length cs \<le> 16 \<and> list_all (valid_schema rt room) cs
               | _ \<Rightarrow> False) \<and>
              (case schema_type of
                 JStr t \<Rightarrow>
                   text_keyword_ok d ''description'' \<and> text_keyword_ok d ''title'' \<and>
                   enum_ok d \<and> bounds_ok d \<and>
                   (if t = lit ''object''
                    then (case get_or (JDict []) d ''properties'' of
                            JDict properties \<Rightarrow>
                              list_all (\<lambda>p. property_name_ok rt (fst p) \<and> valid_schema rt room (snd p))
                                properties \<and>
                              required_ok d properties \<and> additional_ok d
                          | _ \<Rightarrow> False)
                    else if t = lit ''array''
                    then has d ''items'' \<longrightarrow> valid_schema rt room (get d ''items'')
                    else True) \<and>
                   keywords_fit_type t d
               | _ \<Rightarrow> \<not> any_key d UNTYPED_FORBIDDEN))
      | _ \<Rightarrow> False)"

subsection \<open>The check of a call's arguments\<close>

fun any_raises :: "('a \<Rightarrow> exn + bool) \<Rightarrow> 'a list \<Rightarrow> exn + bool" where
  "any_raises f [] = Inr False"
| "any_raises f (x # xs) =
     (case f x of Inl e \<Rightarrow> Inl e | Inr True \<Rightarrow> Inr True | Inr False \<Rightarrow> any_raises f xs)"

fun all_raises :: "('a \<Rightarrow> exn + bool) \<Rightarrow> 'a list \<Rightarrow> exn + bool" where
  "all_raises f [] = Inr True"
| "all_raises f (x # xs) =
     (case f x of Inl e \<Rightarrow> Inl e | Inr False \<Rightarrow> Inr False | Inr True \<Rightarrow> all_raises f xs)"

lemma any_raises_cong [fundef_cong]:
  "xs = ys \<Longrightarrow> (\<And>x. x \<in> set ys \<Longrightarrow> f x = g x) \<Longrightarrow> any_raises f xs = any_raises g ys"
  by (induction xs arbitrary: ys) (auto split: sum.split bool.split)

lemma all_raises_cong [fundef_cong]:
  "xs = ys \<Longrightarrow> (\<And>x. x \<in> set ys \<Longrightarrow> f x = g x) \<Longrightarrow> all_raises f xs = all_raises g ys"
  by (induction xs arbitrary: ys) (auto split: sum.split bool.split)

text \<open>Evaluation from left to right: \<open>cond \<Longrightarrow> return False\<close>, else go on.\<close>

definition reject_if :: "exn + bool \<Rightarrow> exn + bool \<Rightarrow> exn + bool" where
  "reject_if c rest = (case c of Inl e \<Rightarrow> Inl e | Inr b \<Rightarrow> if b then Inr False else rest)"

definition negate :: "exn + bool \<Rightarrow> exn + bool" where
  "negate c = (case c of Inl e \<Rightarrow> Inl e | Inr b \<Rightarrow> Inr (\<not> b))"

text \<open>\<^verbatim>\<open>k in schema and x < schema[k]\<close>; values that are not numbers cannot be compared.\<close>

definition below :: "rat \<Rightarrow> fields \<Rightarrow> string \<Rightarrow> exn + bool" where
  "below x d k = (case map_of d (lit k) of None \<Rightarrow> Inr False
     | Some b \<Rightarrow> (case number_of b of None \<Rightarrow> Inl TypeError | Some y \<Rightarrow> Inr (x < y)))"

definition above :: "rat \<Rightarrow> fields \<Rightarrow> string \<Rightarrow> exn + bool" where
  "above x d k = (case map_of d (lit k) of None \<Rightarrow> Inr False
     | Some b \<Rightarrow> (case number_of b of None \<Rightarrow> Inl TypeError | Some y \<Rightarrow> Inr (x > y)))"

definition in_range :: "rat \<Rightarrow> fields \<Rightarrow> string \<Rightarrow> string \<Rightarrow> (exn + bool) \<Rightarrow> exn + bool" where
  "in_range x d lo hi rest = reject_if (below x d lo) (reject_if (above x d hi) rest)"

text \<open>
  The final \<^verbatim>\<open>enum\<close> test. It is only reached with a scalar value, for which equal type and
  equal value is equality of the trees.
\<close>

definition enum_test :: "json \<Rightarrow> fields \<Rightarrow> exn + bool" where
  "enum_test value d =
     (case map_of d (lit ''enum'') of None \<Rightarrow> Inr True
      | Some (JList items) \<Rightarrow> Inr (list_ex (\<lambda>item. item = value) items)
      | Some _ \<Rightarrow> Inl TypeError)"

definition missing_name :: "fields \<Rightarrow> json \<Rightarrow> exn + bool" where
  "missing_name value n =
     (case n of JStr s \<Rightarrow> Inr (map_of value s = None) | JList _ \<Rightarrow> Inl TypeError
      | JDict _ \<Rightarrow> Inl TypeError | _ \<Rightarrow> Inr True)"

definition missing_required :: "fields \<Rightarrow> fields \<Rightarrow> exn + bool" where
  "missing_required value d =
     (case get_or (JList []) d ''required'' of
        JList names \<Rightarrow>
          any_raises (missing_name value) names
      | _ \<Rightarrow> Inl TypeError)"

lemma map_of_smaller:
  "map_of d k = Some j \<Longrightarrow> size j < size (JDict d)"
  using size_snd_json[of "(k, j)" d] by (auto dest: map_of_SomeD)

lemma size_in_list: "c \<in> set cs \<Longrightarrow> size (c :: json) < size (JList cs)"
  by (induction cs) auto

lemma anyOf_smaller:
  assumes "get_or JNull d k = JList cs" "c \<in> set cs"
  shows "size c < size (JDict d)"
proof -
  have "map_of d (lit k) = Some (JList cs)"
    using assms(1) by (auto simp: get_or_def split: option.splits)
  from map_of_smaller[OF this] size_in_list[OF assms(2)] show ?thesis by (rule less_trans[rotated])
qed

lemma items_smaller:
  "get_or JNull d k \<noteq> JNull \<Longrightarrow>
    size (get_or JNull d k) < size (JDict d)"
  by (auto simp: get_or_def split: option.splits dest: map_of_smaller)

lemma property_smaller:
  assumes "map_of ps n = Some j" "get_or (JDict []) d k = JDict ps"
  shows "size j < size (JDict d)"
proof -
  have "map_of d (lit k) = Some (JDict ps)"
    using assms by (auto simp: get_or_def split: option.splits)
  with map_of_smaller[OF assms(1)] map_of_smaller[OF this] show ?thesis by simp
qed

function matches_schema :: "json \<Rightarrow> json \<Rightarrow> exn + bool" where
  "matches_schema value (JDict d) =
     (let scalar_ok = enum_test value d;
          typed = (case get d ''type'' of
            JNull \<Rightarrow> Inr True
          | JStr t \<Rightarrow>
              (if t = lit ''object'' then
                 (case value of
                    JDict m \<Rightarrow>
                      (case get_or (JDict []) d ''properties'' of
                         JDict properties \<Rightarrow>
                           reject_if (missing_required m d)
                             (reject_if
                               (Inr (get_or (JBool True) d ''additionalProperties'' = JBool False \<and>
                                     list_ex (\<lambda>p. map_of properties (fst p) = None) m))
                               (all_raises (\<lambda>p. case map_of properties (fst p) of None \<Rightarrow> Inr True
                                  | Some child \<Rightarrow> matches_schema (snd p) child) m))
                       | _ \<Rightarrow> Inl TypeError)
                  | _ \<Rightarrow> Inr False)
               else if t = lit ''array'' then
                 (case value of
                    JList xs \<Rightarrow>
                      in_range (of_nat (length xs)) d ''minItems'' ''maxItems''
                        (if get d ''items'' = JNull then Inr True
                         else all_raises (\<lambda>x. matches_schema x (get d ''items'')) xs)
                  | _ \<Rightarrow> Inr False)
               else if t = lit ''string'' then
                 (case value of
                    JStr s \<Rightarrow> in_range (of_nat (length s)) d ''minLength'' ''maxLength'' scalar_ok
                  | _ \<Rightarrow> Inr False)
               else if t = lit ''number'' then
                 (if is_finite_number value
                  then in_range (the (number_of value)) d ''minimum'' ''maximum'' scalar_ok
                  else Inr False)
               else if t = lit ''integer'' then
                 (case value of
                    JInt i \<Rightarrow> in_range (of_int i) d ''minimum'' ''maximum'' scalar_ok
                  | _ \<Rightarrow> Inr False)
               else if t = lit ''boolean'' then
                 (case value of JBool b \<Rightarrow> scalar_ok | _ \<Rightarrow> Inr False)
               else if t = lit ''null'' then
                 (case value of JNull \<Rightarrow> scalar_ok | _ \<Rightarrow> Inr False)
               else scalar_ok)
          | _ \<Rightarrow> scalar_ok)
      in case get d ''anyOf'' of
           JNull \<Rightarrow> typed
         | JList cs \<Rightarrow> reject_if (negate (any_raises (matches_schema value) cs)) typed
         | _ \<Rightarrow> Inl TypeError)"
| "matches_schema value JNull = Inl AttributeError"
| "matches_schema value (JBool b) = Inl AttributeError"
| "matches_schema value (JInt i) = Inl AttributeError"
| "matches_schema value (JFloat r) = Inl AttributeError"
| "matches_schema value (JStr s) = Inl AttributeError"
| "matches_schema value (JList xs) = Inl AttributeError"
  by pat_completeness auto
termination
  by (relation "measure (\<lambda>p. size (snd p))", simp_all only: in_measure snd_conv wf_measure)
     (blast intro: anyOf_smaller items_smaller property_smaller)+

subsection \<open>The meaning of a schema\<close>

definition declared :: "fields \<Rightarrow> fields" where
  "declared d = (case get_or (JDict []) d ''properties'' of JDict ps \<Rightarrow> ps | _ \<Rightarrow> [])"

definition name_texts :: "json \<Rightarrow> ustr list" where
  "name_texts n = (case n of JStr s \<Rightarrow> [s] | _ \<Rightarrow> [])"

definition required_names :: "fields \<Rightarrow> ustr list" where
  "required_names d = (case get_or (JList []) d ''required'' of
     JList ns \<Rightarrow> concat (map name_texts ns) | _ \<Rightarrow> [])"

definition at_least :: "rat \<Rightarrow> fields \<Rightarrow> string \<Rightarrow> bool" where
  "at_least x d k = (case number_of (get d k) of None \<Rightarrow> True | Some y \<Rightarrow> y \<le> x)"

definition at_most :: "rat \<Rightarrow> fields \<Rightarrow> string \<Rightarrow> bool" where
  "at_most x d k = (case number_of (get d k) of None \<Rightarrow> True | Some y \<Rightarrow> x \<le> y)"

definition in_enum :: "json \<Rightarrow> fields \<Rightarrow> bool" where
  "in_enum v d = (case get d ''enum'' of JList items \<Rightarrow> v \<in> set items | _ \<Rightarrow> True)"

lemma declared_smaller:
  assumes "map_of (declared d) n = Some j"
  shows "size j < size (JDict d)"
proof (cases "get_or (JDict []) d ''properties''")
  case (JDict ps)
  with assms property_smaller[of ps n j d] show ?thesis by (simp add: declared_def)
qed (use assms in \<open>simp_all add: declared_def\<close>)

function conforms :: "json \<Rightarrow> json \<Rightarrow> bool" where
  "conforms v (JDict d) \<longleftrightarrow>
     (case get d ''anyOf'' of JList cs \<Rightarrow> list_ex (conforms v) cs | _ \<Rightarrow> True) \<and>
     (case v of
        JDict m \<Rightarrow> get d ''type'' \<in> {JNull, JStr (lit ''object'')} \<and>
          (get d ''type'' \<noteq> JNull \<longrightarrow>
             (\<forall>r \<in> set (required_names d). map_of m r \<noteq> None) \<and>
             (get d ''additionalProperties'' = JBool False \<longrightarrow>
                list_all (\<lambda>p. map_of (declared d) (fst p) \<noteq> None) m) \<and>
             list_all (\<lambda>p. case map_of (declared d) (fst p) of None \<Rightarrow> True
                         | Some c \<Rightarrow> conforms (snd p) c) m)
      | JList xs \<Rightarrow> get d ''type'' \<in> {JNull, JStr (lit ''array'')} \<and>
          (get d ''type'' \<noteq> JNull \<longrightarrow>
             at_least (of_nat (length xs)) d ''minItems'' \<and> at_most (of_nat (length xs)) d ''maxItems'' \<and>
             (get d ''items'' \<noteq> JNull \<longrightarrow> list_all (\<lambda>x. conforms x (get d ''items'')) xs))
      | JStr s \<Rightarrow> get d ''type'' \<in> {JNull, JStr (lit ''string'')} \<and>
          (get d ''type'' \<noteq> JNull \<longrightarrow>
             at_least (of_nat (length s)) d ''minLength'' \<and> at_most (of_nat (length s)) d ''maxLength'' \<and>
             in_enum v d)
      | JInt i \<Rightarrow> get d ''type'' \<in> {JNull, JStr (lit ''number''), JStr (lit ''integer'')} \<and>
          (get d ''type'' = JStr (lit ''number'') \<longrightarrow> is_finite_number v) \<and>
          (get d ''type'' \<noteq> JNull \<longrightarrow>
             at_least (of_int i) d ''minimum'' \<and> at_most (of_int i) d ''maximum'' \<and> in_enum v d)
      | JFloat f \<Rightarrow> get d ''type'' \<in> {JNull, JStr (lit ''number'')} \<and>
          (get d ''type'' \<noteq> JNull \<longrightarrow> is_finite_number v \<and>
             at_least (the (number_of v)) d ''minimum'' \<and> at_most (the (number_of v)) d ''maximum'' \<and> in_enum v d)
      | JBool b \<Rightarrow> get d ''type'' \<in> {JNull, JStr (lit ''boolean'')} \<and>
          (get d ''type'' \<noteq> JNull \<longrightarrow> in_enum v d)
      | JNull \<Rightarrow> get d ''type'' \<in> {JNull, JStr (lit ''null'')} \<and>
          (get d ''type'' \<noteq> JNull \<longrightarrow> in_enum v d))"
| "conforms v JNull \<longleftrightarrow> False"
| "conforms v (JBool b) \<longleftrightarrow> False"
| "conforms v (JInt i) \<longleftrightarrow> False"
| "conforms v (JFloat r) \<longleftrightarrow> False"
| "conforms v (JStr s) \<longleftrightarrow> False"
| "conforms v (JList xs) \<longleftrightarrow> False"
  by pat_completeness auto
termination
  by (relation "measure (\<lambda>p. size (snd p))", simp_all only: in_measure snd_conv wf_measure)
     (blast intro: anyOf_smaller items_smaller declared_smaller)+

subsection \<open>Validity makes the check total and right\<close>

lemma any_raises_Inr:
  "(\<And>x. x \<in> set xs \<Longrightarrow> f x = Inr (P x)) \<Longrightarrow> any_raises f xs = Inr (list_ex P xs)"
  by (induction xs) (auto split: bool.split)

lemma all_raises_Inr:
  "(\<And>x. x \<in> set xs \<Longrightarrow> f x = Inr (P x)) \<Longrightarrow> all_raises f xs = Inr (list_all P xs)"
  by (induction xs) (auto split: bool.split)

lemma reject_if_Inr [simp]: "reject_if (Inr b) rest = (if b then Inr False else rest)"
  by (simp add: reject_if_def)

lemma negate_Inr [simp]: "negate (Inr b) = Inr (\<not> b)"
  by (simp add: negate_def)

definition bound_ok :: "fields \<Rightarrow> string \<Rightarrow> bool" where
  "bound_ok d k = (has d k \<longrightarrow> number_of (get d k) \<noteq> None)"

lemma in_range_Inr:
  "bound_ok d lo \<Longrightarrow> bound_ok d hi \<Longrightarrow>
   in_range x d lo hi (Inr b) = Inr (at_least x d lo \<and> at_most x d hi \<and> b)"
  by (auto simp: in_range_def below_def above_def bound_ok_def at_least_def at_most_def has_def
      get_or_def reject_if_def split: option.splits)

lemma bounds_ok_bound:
  assumes "bounds_ok d"
  shows "bound_ok d ''minLength'' \<and> bound_ok d ''maxLength'' \<and> bound_ok d ''minItems'' \<and>
    bound_ok d ''maxItems'' \<and> bound_ok d ''minimum'' \<and> bound_ok d ''maximum''"
proof -
  have "valid_nonnegative_integer v \<Longrightarrow> number_of v \<noteq> None" for v
    by (cases v) (auto simp: valid_nonnegative_integer_def)
  moreover have "is_finite_number v \<Longrightarrow> number_of v \<noteq> None" for v
    by (cases v) (auto simp: is_finite_number_def split: pyfloat.splits)
  ultimately show ?thesis using assms by (auto simp: bounds_ok_def bound_ok_def)
qed

lemma enum_ok_test: "enum_ok d \<Longrightarrow> enum_test v d = Inr (in_enum v d)"
  by (auto simp: enum_ok_def enum_test_def in_enum_def get_or_def list_ex_iff
      split: option.splits json.splits)

lemma missing_names_Inr:
  "list_all (required_name_ok ps) ns \<Longrightarrow>
   any_raises (missing_name m) ns =
     Inr (\<exists>r \<in> set (concat (map name_texts ns)). map_of m r = None)"
  by (induction ns) (auto simp: missing_name_def name_texts_def required_name_ok_def split: json.splits bool.split)

lemma required_ok_missing:
  assumes "required_ok d ps"
  shows "missing_required m d = Inr (\<exists>r \<in> set (required_names d). map_of m r = None)"
proof -
  from assms obtain ns where ns: "get_or (JList []) d ''required'' = JList ns"
    and ok: "list_all (required_name_ok ps) ns"
    by (auto simp: required_ok_def split: json.splits)
  then show ?thesis
    using missing_names_Inr[OF ok, of m] by (simp add: missing_required_def required_names_def)
qed

lemma additional_ok_get:
  "additional_ok d \<Longrightarrow>
   (get_or (JBool True) d ''additionalProperties'' = JBool False) =
   (get d ''additionalProperties'' = JBool False)"
  by (auto simp: additional_ok_def get_or_def split: option.splits)

lemma schema_matches:
  "valid_schema rt room schema \<Longrightarrow> matches_schema v schema = Inr (conforms v schema)"
proof (induction room arbitrary: v schema)
  case (Suc room)
  from Suc.prems obtain d where d: "schema = JDict d" by (cases schema) auto
  note valid = Suc.prems[unfolded d valid_schema.simps json.case Let_def]
  have alts: "get d ''anyOf'' = JNull \<or> (\<exists>cs. get d ''anyOf'' = JList cs \<and>
      any_raises (matches_schema v) cs = Inr (list_ex (conforms v) cs))"
    using valid Suc.IH
    by (cases "get d ''anyOf''") (auto simp: list_all_iff intro!: any_raises_Inr)
  show ?case
  proof (cases "get d ''type''")
    case (JStr t)
    then have b: "bounds_ok d" "enum_ok d" and t: "t \<in> set (lits SCHEMA_TYPES)"
      using valid by auto
    note ranges = bounds_ok_bound[OF b(1)] enum_ok_test[OF b(2)]
    consider "t = lit ''object''" | "t = lit ''array''"
      | "t \<in> lit ` {''string'', ''number'', ''integer'', ''boolean'', ''null''}"
      using t by (auto simp: SCHEMA_TYPES_def)
    then show ?thesis
    proof cases
      case 1
      then obtain ps where ps: "get_or (JDict []) d ''properties'' = JDict ps"
        "list_all (\<lambda>p. property_name_ok rt (fst p) \<and> valid_schema rt room (snd p)) ps"
        "required_ok d ps" "additional_ok d"
        using valid JStr by (cases "get_or (JDict []) d ''properties''") auto
      have child: "(case map_of ps (fst p) of None \<Rightarrow> Inr True
            | Some c \<Rightarrow> matches_schema (snd p) c) =
          Inr (case map_of ps (fst p) of None \<Rightarrow> True | Some c \<Rightarrow> conforms (snd p) c)" for p
        using ps(2) Suc.IH by (fastforce simp: list_all_iff split: option.split dest: map_of_SomeD)
      have all: "all_raises (\<lambda>p. case map_of ps (fst p) of None \<Rightarrow> Inr True
            | Some c \<Rightarrow> matches_schema (snd p) c) m =
          Inr (list_all (\<lambda>p. case map_of ps (fst p) of None \<Rightarrow> True | Some c \<Rightarrow> conforms (snd p) c) m)" for m
        by (rule all_raises_Inr) (rule child)
      have ex: "list_ex (\<lambda>p. map_of ps (fst p) = None) m =
          (\<not> list_all (\<lambda>p. map_of ps (fst p) \<noteq> None) m)" for m :: fields
        by (induction m) auto
      show ?thesis
        unfolding d using alts 1 JStr ps(1)
        by (cases v)
           (auto simp: all ex declared_def required_ok_missing[OF ps(3)] additional_ok_get[OF ps(4)] Let_def)
    next
      case 2
      have "get d ''items'' \<noteq> JNull \<Longrightarrow>
          all_raises (\<lambda>x. matches_schema x (get d ''items'')) xs =
            Inr (list_all (\<lambda>x. conforms x (get d ''items'')) xs)" for xs
        using valid JStr 2 Suc.IH
        by (intro all_raises_Inr) (auto simp: has_def get_or_def split: option.splits)
      then show ?thesis
        unfolding d using alts 2 JStr ranges
        by (cases v) (auto simp: in_range_Inr Let_def)
    next
      case 3
      then show ?thesis
        unfolding d using alts JStr ranges
        by (cases v) (auto simp: in_range_Inr Let_def is_finite_number_def[of "JNull"]
          is_finite_number_def[of "JStr _"] is_finite_number_def[of "JList _"] is_finite_number_def[of "JDict _"]
          is_finite_number_def[of "JBool _"])
    qed
  next
    case JNull
    then show ?thesis unfolding d using alts by (cases v) (auto simp: Let_def)
  qed (use valid in auto)
qed simp

declare valid_schema.simps(2) [simp del]
declare matches_schema.simps(1) [simp del]
declare conforms.simps(1) [simp del]

subsection \<open>Normalising the host's tool definitions\<close>

record HostToolDefinition =
  td_name :: ustr
  td_description :: ustr
  td_input_schema :: json

datatype config_error = ConfigurationError ustr | RaisedInside exn

definition config_error :: "string \<Rightarrow> config_error + 'a" where
  "config_error m = Inl (ConfigurationError (lit m))"

text \<open>\<^verbatim>\<open>m.get(k)\<close> on a mapping; a raising mapping lets its exception out.\<close>

definition spec_get :: "heap \<Rightarrow> pyval \<Rightarrow> string \<Rightarrow> pyval \<Rightarrow> exn + pyval" where
  "spec_get H m k dflt = (case mapping_find H m (lit k) of Inl e \<Rightarrow> Inl e
     | Inr None \<Rightarrow> Inr dflt | Inr (Some v) \<Rightarrow> Inr v)"

definition spec_parts :: "heap \<Rightarrow> pyval \<Rightarrow> config_error + pyval \<times> pyval \<times> pyval" where
  "spec_parts H spec =
     (case spec_get H spec ''type'' PNone of Inl e \<Rightarrow> Inl (RaisedInside e) | Inr kind \<Rightarrow>
      if kind = PStr (lit ''function'') then
        (case spec_get H spec ''function'' PNone of Inl e \<Rightarrow> Inl (RaisedInside e) | Inr function \<Rightarrow>
         if \<not> is_mapping H function then config_error ''tool schema function is malformed''
         else (case (spec_get H function ''name'' PNone, spec_get H function ''description'' PNone,
                     spec_get H function ''parameters'' PNone) of
                 (Inr n, Inr d, Inr s) \<Rightarrow> Inr (n, d, s)
               | (Inl e, _, _) \<Rightarrow> Inl (RaisedInside e) | (_, Inl e, _) \<Rightarrow> Inl (RaisedInside e)
               | (_, _, Inl e) \<Rightarrow> Inl (RaisedInside e)))
      else (case (spec_get H spec ''name'' PNone, spec_get H spec ''description'' PNone,
                  spec_get H spec ''parameters'' PNone) of
              (Inr n, Inr d, Inr p) \<Rightarrow>
                (case spec_get H spec ''input_schema'' p of Inl e \<Rightarrow> Inl (RaisedInside e)
                 | Inr s \<Rightarrow> Inr (n, d, s))
            | (Inl e, _, _) \<Rightarrow> Inl (RaisedInside e) | (_, Inl e, _) \<Rightarrow> Inl (RaisedInside e)
            | (_, _, Inl e) \<Rightarrow> Inl (RaisedInside e)))"

definition tool_name_ok :: "pyrt \<Rightarrow> ustr \<Rightarrow> bool" where
  "tool_name_ok rt name \<longleftrightarrow> name \<noteq> [] \<and> utf8_fits MAX_NAME_UTF8_BYTES name \<and>
     \<not> list_ex (\<lambda>c. category_C rt c \<or> py_isspace c) name"

definition normalize_tool_schema :: "pyrt \<Rightarrow> heap \<Rightarrow> pyval \<Rightarrow> config_error + HostToolDefinition" where
  "normalize_tool_schema rt H spec =
     (if \<not> is_mapping H spec then config_error ''tool schema must be an object''
      else (case spec_parts H spec of Inl e \<Rightarrow> Inl e | Inr (name, description, input_schema) \<Rightarrow>
        (case name of
           PStr n \<Rightarrow>
             if \<not> tool_name_ok rt n then config_error ''tool schema name is malformed''
             else (case (if description = PNone then PStr n else description) of
               PStr d \<Rightarrow>
                 (case bounded_text rt MAX_DESCRIPTION_UTF8_BYTES False d of
                    None \<Rightarrow> config_error ''tool schema description is malformed''
                  | Some bounded \<Rightarrow>
                      (case copy_plain_json H MAX_INPUT_UTF8_BYTES input_schema of
                         Some (JDict s) \<Rightarrow>
                           if valid_schema rt (MAX_JSON_DEPTH + 1) (JDict s) \<and>
                              get s ''type'' = JStr (lit ''object'')
                           then Inr \<lparr>td_name = n, td_description = bounded, td_input_schema = JDict s\<rparr>
                           else config_error ''tool schema input schema is unsupported''
                       | _ \<Rightarrow> config_error ''tool schema input schema is unsupported''))
             | _ \<Rightarrow> config_error ''tool schema description is malformed'')
         | _ \<Rightarrow> config_error ''tool schema name is malformed'')))"

fun collect_schemas ::
    "pyrt \<Rightarrow> heap \<Rightarrow> pyval list \<Rightarrow> (ustr \<times> HostToolDefinition) list \<Rightarrow>
     config_error + (ustr \<times> HostToolDefinition) list" where
  "collect_schemas rt H [] by_name = Inr by_name"
| "collect_schemas rt H (spec # specs) by_name =
     (case normalize_tool_schema rt H spec of Inl e \<Rightarrow> Inl e
      | Inr t \<Rightarrow> if map_of by_name (td_name t) \<noteq> None then config_error ''duplicate tool schema name''
                else collect_schemas rt H specs (dict_set (td_name t) t by_name))"

text \<open>\<open>specs\<close> is what the iteration over the argument yields; \<open>None\<close> is an argument that is no
  sequence.\<close>

definition normalize_tool_schemas ::
    "pyrt \<Rightarrow> heap \<Rightarrow> pyval list option \<Rightarrow> config_error + HostToolDefinition list" where
  "normalize_tool_schemas rt H specs =
     (case specs of None \<Rightarrow> config_error ''tool schemas must be a sequence''
      | Some xs \<Rightarrow> (case collect_schemas rt H xs [] of Inl e \<Rightarrow> Inl e
         | Inr by_name \<Rightarrow> Inr (map (\<lambda>n. the (map_of by_name n)) (sort (map fst by_name)))))"

lemma normalize_InrD:
  assumes "normalize_tool_schema rt H spec = Inr t"
  shows "tool_name_ok rt (td_name t) \<and> utf8_fits MAX_DESCRIPTION_UTF8_BYTES (td_description t) \<and>
    valid_schema rt (MAX_JSON_DEPTH + 1) (td_input_schema t) \<and>
    (\<exists>s. td_input_schema t = JDict s \<and> get s ''type'' = JStr (lit ''object''))"
  using assms
  by (auto simp: normalize_tool_schema_def config_error_def
      split: if_splits sum.splits pyval.splits option.splits json.splits)
     (auto elim: bounded_text_fits)

definition tool_ok :: "pyrt \<Rightarrow> HostToolDefinition \<Rightarrow> bool" where
  "tool_ok rt t \<longleftrightarrow> tool_name_ok rt (td_name t) \<and>
     utf8_fits MAX_DESCRIPTION_UTF8_BYTES (td_description t) \<and>
     valid_schema rt (MAX_JSON_DEPTH + 1) (td_input_schema t) \<and>
     (\<exists>s. td_input_schema t = JDict s \<and> get s ''type'' = JStr (lit ''object''))"

definition tools_by_name :: "pyrt \<Rightarrow> (ustr \<times> HostToolDefinition) list \<Rightarrow> bool" where
  "tools_by_name rt d \<longleftrightarrow> distinct (map fst d) \<and> (\<forall>(n, t) \<in> set d. n = td_name t \<and> tool_ok rt t)"

lemma collect_schemas_ok:
  "collect_schemas rt H specs d = Inr d' \<Longrightarrow> tools_by_name rt d \<Longrightarrow> tools_by_name rt d'"
proof (induction specs arbitrary: d)
  case (Cons spec specs)
  from Cons.prems(1) obtain t where t: "normalize_tool_schema rt H spec = Inr t"
    "map_of d (td_name t) = None" "collect_schemas rt H specs (dict_set (td_name t) t d) = Inr d'"
    by (auto simp: config_error_def split: sum.splits if_splits)
  have "dict_set (td_name t) t d = d @ [(td_name t, t)]"
    using t(2) by (intro dict_set_fresh) (simp add: map_of_eq_None_iff)
  moreover have "td_name t \<notin> fst ` set d" using t(2) by (simp add: map_of_eq_None_iff)
  ultimately have "tools_by_name rt (dict_set (td_name t) t d)"
    using Cons.prems(2) normalize_InrD[OF t(1)] by (auto simp: tools_by_name_def tool_ok_def)
  then show ?case using Cons.IH[OF t(3)] by blast
qed simp

lemma normalized_tools_ok:
  assumes "normalize_tool_schemas rt H (Some specs) = Inr tools"
  shows "list_all (tool_ok rt) tools \<and> sorted (map td_name tools) \<and> distinct (map td_name tools)"
proof -
  from assms obtain d where d: "collect_schemas rt H specs [] = Inr d"
    "tools = map (\<lambda>n. the (map_of d n)) (sort (map fst d))"
    by (auto simp: normalize_tool_schemas_def split: sum.splits)
  have ok: "tools_by_name rt d"
    by (rule collect_schemas_ok[OF d(1)]) (simp add: tools_by_name_def)
  have look: "td_name (the (map_of d n)) = n \<and> tool_ok rt (the (map_of d n))"
    if "n \<in> fst ` set d" for n
  proof -
    from that obtain t where "map_of d n = Some t"
      by (metis map_of_eq_None_iff not_None_eq)
    with ok show ?thesis by (auto simp: tools_by_name_def dest!: map_of_SomeD)
  qed
  have "map td_name tools = sort (map fst d)"
    using look by (auto simp: d(2) intro!: map_idI)
  with ok look show ?thesis
    by (auto simp: d(2) list_all_iff tools_by_name_def)
qed

subsection \<open>Properties\<close>

text \<open>
  C18: On every schema that validation accepts, checking a call's arguments never raises and
  accepts exactly the values that conform to the schema: one of the alternatives, the type,
  the required and the declared properties (recursively), the item schema, the inclusive
  length, count and value bounds, and for scalars the enumeration.
\<close>

theorem valid_schema_check_total:
  assumes "valid_schema rt room schema"
  shows "matches_schema v schema = Inr (conforms v schema)"
  by (rule schema_matches) (rule assms)

definition sample_schema :: json where
  "sample_schema = JDict [(lit ''type'', JStr (lit ''object'')),
     (lit ''properties'', JDict [(lit ''n'', JDict [(lit ''type'', JStr (lit ''integer'')),
        (lit ''minimum'', JInt 1)])]),
     (lit ''required'', JList [JStr (lit ''n'')]),
     (lit ''additionalProperties'', JBool False)]"

lemmas schema_run = conforms.simps(1) get_or_def is_finite_number_def declared_def
  required_names_def name_texts_def at_least_def at_most_def in_enum_def

lemma sample_schema_valid: "valid_schema rt (MAX_JSON_DEPTH + 1) sample_schema"
proof -
  obtain k where depth: "MAX_JSON_DEPTH + 1 = Suc (Suc k)"
    by (simp add: MAX_JSON_DEPTH_def numeral_eq_Suc)
  have "property_name_ok rt (lit ''n'')"
    by (simp add: property_name_ok_def utf8_fits_def lit_def utf8_len_def MAX_NAME_UTF8_BYTES_def
        category_C_def is_control_def)
  then show ?thesis unfolding depth
    by (simp add: sample_schema_def valid_schema.simps(2) has_def get_or_def any_key_def
        text_keyword_ok_def enum_ok_def bounds_ok_def required_ok_def required_name_ok_def
        additional_ok_def keywords_fit_type_def is_finite_number_def SCHEMA_KEYS_def
        SCHEMA_TYPES_def)
qed

theorem valid_schema_check_total_witness:
  "matches_schema (JDict [(lit ''n'', JInt 1)]) sample_schema = Inr True \<and>
   matches_schema (JDict [(lit ''n'', JInt 0)]) sample_schema = Inr False \<and>
   matches_schema (JDict []) sample_schema = Inr False"
  unfolding valid_schema_check_total[OF sample_schema_valid[of sample_rt]]
  by (simp add: sample_schema_def schema_run)

text \<open>
  Normalising the host's tool collection either reports a configuration error or returns
  the tools sorted by distinct names, each with a bounded printable name, a bounded
  description and a valid schema of type object.
\<close>

theorem normalized_tools_sorted_valid:
  assumes "normalize_tool_schemas rt H (Some specs) = Inr tools"
  shows "list_all (tool_ok rt) tools \<and> sorted (map td_name tools) \<and> distinct (map td_name tools)"
  by (rule normalized_tools_ok) (rule assms)

theorem normalized_tools_sorted_valid_witness:
  "\<exists>tools. normalize_tool_schemas sample_rt (\<lambda>_. ODict []) (Some []) = Inr tools \<and>
     distinct (map td_name tools)"
  using normalized_tools_sorted_valid[of sample_rt "\<lambda>_. ODict []" "[]" "[]"]
  by (simp add: normalize_tool_schemas_def)

lemma get_dict_del: "lit j \<noteq> k \<Longrightarrow> get_or v (dict_del k d) j = get_or v d j"
  by (simp add: get_or_def)

lemma map_of_dict_del_other: "lit j \<noteq> k \<Longrightarrow> map_of (dict_del k d) (lit j) = map_of d (lit j)"
  by simp

text \<open>
  For a schema of type object or array the keyword \<^verbatim>\<open>enum\<close> has no effect at all: the check
  returns before it is read, so a value outside the enumeration is accepted.
\<close>

theorem enum_ignored_on_containers:
  assumes "get d ''type'' = JStr (lit ''object'') \<or> get d ''type'' = JStr (lit ''array'')"
  shows "matches_schema v (JDict d) = matches_schema v (JDict (dict_del (lit ''enum'') d))"
proof -
  let ?e = "dict_del (lit ''enum'') d"
  have same: "get_or x ?e k = get_or x d k" if "k \<noteq> ''enum''" for x k
    using that by (simp add: get_dict_del)
  have ranges: "in_range x ?e ''minItems'' ''maxItems'' = in_range x d ''minItems'' ''maxItems''"
    "missing_required m ?e = missing_required m d" for x m
    by (simp_all add: fun_eq_iff in_range_def below_def above_def missing_required_def same)
  show ?thesis
    using assms by (cases v) (auto simp: matches_schema.simps(1) same ranges cong: json.case_cong)
qed

theorem enum_ignored_on_containers_witness:
  "matches_schema (JList []) (JDict [(lit ''type'', JStr (lit ''array'')),
     (lit ''enum'', JList [JList [JNull]])]) =
   matches_schema (JList []) (JDict [(lit ''type'', JStr (lit ''array''))])"
  using enum_ignored_on_containers[of "[(lit ''type'', JStr (lit ''array'')),
     (lit ''enum'', JList [JList [JNull]])]" "JList []"]
  by (simp add: get_or_def dict_del_def)

end
