(* ===== verification/Json_Text.thy ===== *)
theory Json_Text
  imports Json_Copy
begin

section \<open>JSON text\<close>

text \<open>
  The part of Python's \<^verbatim>\<open>json\<close> module the sources use: \<open>json_dumps\<close> is
  \<^verbatim>\<open>json.dumps(..., ensure_ascii=False, sort_keys=True)\<close> for the given separators, \<open>json_loads\<close>
  is \<^verbatim>\<open>json.loads\<close> with its two hooks. Nesting beyond the interpreter's limit raises
  \<^verbatim>\<open>RecursionError\<close>; the conversion of a float literal is \<open>rt_float_of\<close>.
\<close>

subsection \<open>Printing\<close>

definition hex_digit :: "nat \<Rightarrow> nat" where
  "hex_digit n = (if n < 10 then 48 + n else 87 + n)"

definition escape_char :: "nat \<Rightarrow> ustr" where
  "escape_char c =
     (if c = 34 then [92, 34] else if c = 92 then [92, 92] else if c = 10 then [92, 110]
      else if c = 13 then [92, 114] else if c = 9 then [92, 116] else if c = 12 then [92, 102]
      else if c = 8 then [92, 98]
      else if c < 32 then [92, 117, 48, 48, hex_digit (c div 16), hex_digit (c mod 16)]
      else [c])"

definition quote_text :: "ustr \<Rightarrow> ustr" where
  "quote_text s = [34] @ concat (map escape_char s) @ [34]"

definition float_text :: "pyrt \<Rightarrow> bool \<Rightarrow> pyfloat \<Rightarrow> exn + ustr" where
  "float_text rt allow_nan f =
     (case f of FFin r \<Rightarrow> Inr (rt_float_repr rt r)
      | _ \<Rightarrow> if \<not> allow_nan then Inl ValueError
             else Inr (case f of FInf neg \<Rightarrow> if neg then lit ''-Infinity'' else lit ''Infinity''
                       | _ \<Rightarrow> lit ''NaN''))"

fun json_dumps :: "pyrt \<Rightarrow> ustr \<Rightarrow> ustr \<Rightarrow> bool \<Rightarrow> json \<Rightarrow> exn + ustr" where
  "json_dumps rt isep ksep allow_nan JNull = Inr (lit ''null'')"
| "json_dumps rt isep ksep allow_nan (JBool b) = Inr (if b then lit ''true'' else lit ''false'')"
| "json_dumps rt isep ksep allow_nan (JInt i) = py_str_int i"
| "json_dumps rt isep ksep allow_nan (JFloat f) = float_text rt allow_nan f"
| "json_dumps rt isep ksep allow_nan (JStr s) = Inr (quote_text s)"
| "json_dumps rt isep ksep allow_nan (JList js) =
     map_sum id (\<lambda>ts. [91] @ py_join isep ts @ [93])
       (map_exn (json_dumps rt isep ksep allow_nan) js)"
| "json_dumps rt isep ksep allow_nan (JDict d) =
     map_sum id (\<lambda>ts. [123] @ py_join isep ts @ [125])
       (map_exn (\<lambda>p. map_sum id (\<lambda>t. quote_text (fst p) @ ksep @ t)
          (json_dumps rt isep ksep allow_nan (snd p))) (sort_key fst d))"

definition dumps_compact :: "pyrt \<Rightarrow> bool \<Rightarrow> json \<Rightarrow> exn + ustr" where
  "dumps_compact rt allow_nan = json_dumps rt [44] [58] allow_nan"

definition dumps_spaced :: "pyrt \<Rightarrow> json \<Rightarrow> exn + ustr" where
  "dumps_spaced rt = json_dumps rt [44, 32] [58, 32] True"

subsection \<open>Scanning\<close>

definition json_space :: "nat \<Rightarrow> bool" where
  "json_space c \<longleftrightarrow> c = 32 \<or> c = 9 \<or> c = 10 \<or> c = 13"

definition skip_ws :: "ustr \<Rightarrow> ustr" where
  "skip_ws s = dropWhile json_space s"

definition hex_value :: "nat \<Rightarrow> nat option" where
  "hex_value c = (if is_digit c then Some (c - 48) else if 97 \<le> c \<and> c \<le> 102 then Some (c - 87)
     else if 65 \<le> c \<and> c \<le> 70 then Some (c - 55) else None)"

fun hex4 :: "ustr \<Rightarrow> (nat \<times> ustr) option" where
  "hex4 (a # b # c # d # s) =
     (case (hex_value a, hex_value b, hex_value c, hex_value d) of
        (Some w, Some x, Some y, Some z) \<Rightarrow> Some (((w * 16 + x) * 16 + y) * 16 + z, s)
      | _ \<Rightarrow> None)"
| "hex4 _ = None"

definition simple_escape :: "nat \<Rightarrow> nat option" where
  "simple_escape c = (if c = 34 \<or> c = 92 \<or> c = 47 then Some c else if c = 98 then Some 8
     else if c = 102 then Some 12 else if c = 110 then Some 10 else if c = 114 then Some 13
     else if c = 116 then Some 9 else None)"

text \<open>The code point after \<^verbatim>\<open>\u\<close>; a surrogate pair in two escapes is joined.\<close>

definition unicode_escape :: "ustr \<Rightarrow> (nat \<times> ustr) option" where
  "unicode_escape s =
     (case hex4 s of None \<Rightarrow> None
      | Some (u, rest) \<Rightarrow>
          if 55296 \<le> u \<and> u \<le> 56319 then
            (case rest of
               b # v # r \<Rightarrow>
                 (if b = 92 \<and> v = 117 then
                    (case hex4 r of
                       Some (w, r') \<Rightarrow>
                         if 56320 \<le> w \<and> w \<le> 57343
                         then Some (65536 + (u - 55296) * 1024 + (w - 56320), r')
                         else Some (u, rest)
                     | None \<Rightarrow> Some (u, rest))
                  else Some (u, rest))
             | _ \<Rightarrow> Some (u, rest))
          else Some (u, rest))"

text \<open>The characters of a string after its opening quote.\<close>

function scan_string :: "ustr \<Rightarrow> (ustr \<times> ustr) option" where
  "scan_string [] = None"
| "scan_string (c # s) =
     (if c = 34 then Some ([], s)
      else if c < 32 then None
      else if c \<noteq> 92 then map_option (\<lambda>(t, r). (c # t, r)) (scan_string s)
      else
        (case s of
           [] \<Rightarrow> None
         | e # s' \<Rightarrow>
             if e = 117 then
               (case unicode_escape s' of None \<Rightarrow> None
                | Some (u, r) \<Rightarrow>
                    if length r < length s' then map_option (\<lambda>(t, r'). (u # t, r')) (scan_string r)
                    else None)
             else
               (case simple_escape e of None \<Rightarrow> None
                | Some u \<Rightarrow> map_option (\<lambda>(t, r). (u # t, r)) (scan_string s'))))"
  by pat_completeness auto
termination
  by (relation "measure length") auto

fun digits_value :: "nat \<Rightarrow> ustr \<Rightarrow> nat" where
  "digits_value n [] = n"
| "digits_value n (c # cs) = digits_value (n * 10 + (c - 48)) cs"

lemma digits_value_append: "digits_value n (xs @ ys) = digits_value (digits_value n xs) ys"
  by (induction n xs rule: digits_value.induct) auto

lemma digits_value_dec_nat: "digits_value 0 (dec_nat n) = n"
proof (induction n rule: dec_nat.induct)
  case (1 n)
  then show ?case by (subst dec_nat.simps) (simp add: digits_value_append)
qed

lemma dec_nat_digits: "list_all is_digit (dec_nat n) \<and> dec_nat n \<noteq> []"
proof (induction n rule: dec_nat.induct)
  case (1 n)
  have d: "is_digit (48 + k)" if "k < 10" for k using that by (simp add: is_digit_def)
  from 1 d show ?case by (subst (1 2) dec_nat.simps) simp
qed

lemma dec_nat_head: "0 < n \<Longrightarrow> hd (dec_nat n) \<noteq> 48"
proof (induction n rule: dec_nat.induct)
  case (1 n)
  then show ?case using dec_nat_digits[of "n div 10"] by (subst dec_nat.simps) auto
qed

text \<open>\<^verbatim>\<open>int(text)\<close> of a literal; more than 4300 digits raise.\<close>

definition int_literal :: "bool \<Rightarrow> ustr \<Rightarrow> exn + json" where
  "int_literal neg ds =
     (if length ds > MAX_INT_STR_DIGITS then Inl ValueError
      else Inr (JInt (if neg then - int (digits_value 0 ds) else int (digits_value 0 ds))))"

definition scan_fraction :: "ustr \<Rightarrow> ustr \<times> ustr" where
  "scan_fraction s =
     (case s of
        c # d # r \<Rightarrow>
          if c = 46 \<and> is_digit d then (c # takeWhile is_digit (d # r), dropWhile is_digit (d # r))
          else ([], s)
      | _ \<Rightarrow> ([], s))"

definition at_digit :: "ustr \<Rightarrow> bool" where
  "at_digit s = (case s of [] \<Rightarrow> False | c # _ \<Rightarrow> is_digit c)"

definition scan_exponent :: "ustr \<Rightarrow> ustr \<times> ustr" where
  "scan_exponent s =
     (case s of
        [] \<Rightarrow> ([], s)
      | c # r \<Rightarrow>
          if c = 101 \<or> c = 69 then
            (let (sign, r1) = (case r of x # r' \<Rightarrow> if x = 43 \<or> x = 45 then ([x], r') else ([], r)
                               | [] \<Rightarrow> ([], r))
             in if at_digit r1 then (c # sign @ takeWhile is_digit r1, dropWhile is_digit r1)
                else ([], s))
          else ([], s))"

record number_parts =
  np_neg :: bool
  np_int :: ustr
  np_frac :: ustr
  np_exp :: ustr
  np_rest :: ustr

definition scan_number :: "ustr \<Rightarrow> number_parts option" where
  "scan_number s =
     (let neg = (case s of c # _ \<Rightarrow> c = 45 | [] \<Rightarrow> False);
          body = (if neg then tl s else s);
          ds = (case body of [] \<Rightarrow> [] | c # _ \<Rightarrow> if c = 48 then [c] else takeWhile is_digit body);
          (frac, r1) = scan_fraction (drop (length ds) body);
          (ex, r2) = scan_exponent r1
      in if ds = [] then None
         else Some \<lparr>np_neg = neg, np_int = ds, np_frac = frac, np_exp = ex, np_rest = r2\<rparr>)"

definition number_value :: "pyrt \<Rightarrow> number_parts \<Rightarrow> exn + json" where
  "number_value rt p =
     (if np_frac p = [] \<and> np_exp p = [] then int_literal (np_neg p) (np_int p)
      else Inr (JFloat (rt_float_of rt
        ((if np_neg p then [45] else []) @ np_int p @ np_frac p @ np_exp p))))"

subsection \<open>Parsing\<close>

text \<open>The two hooks of \<^verbatim>\<open>json.loads\<close>; \<open>dict_of_pairs\<close> is its own construction of an object.\<close>

record hooks =
  hk_pairs :: "(ustr \<times> json) list \<Rightarrow> exn + json"
  hk_constant :: "ustr \<Rightarrow> exn + json"

definition dict_of_pairs :: "(ustr \<times> json) list \<Rightarrow> exn + json" where
  "dict_of_pairs ps = Inr (JDict (fold (\<lambda>p d. dict_set (fst p) (snd p) d) ps []))"

definition plain_constant :: "ustr \<Rightarrow> exn + json" where
  "plain_constant s =
     Inr (JFloat (if s = lit ''NaN'' then FNan else FInf (s = lit ''-Infinity'')))"

definition no_hooks :: hooks where
  "no_hooks = \<lparr>hk_pairs = dict_of_pairs, hk_constant = plain_constant\<rparr>"

type_synonym 'a scanned = "exn + 'a \<times> ustr"

text \<open>The elements of an array after its first bracket; \<open>pv\<close> scans one value.\<close>

function scan_elements :: "(ustr \<Rightarrow> json scanned) \<Rightarrow> ustr \<Rightarrow> json list scanned" where
  "scan_elements pv s =
     (case pv s of Inl e \<Rightarrow> Inl e
      | Inr (v, rest) \<Rightarrow>
          if length rest < length s then
            (case skip_ws rest of
               [] \<Rightarrow> Inl ValueError
             | c # r \<Rightarrow>
                 if c = 93 then Inr ([v], r)
                 else if c = 44 \<and> length (skip_ws r) < length s then
                   map_sum id (\<lambda>(vs, r'). (v # vs, r')) (scan_elements pv (skip_ws r))
                 else Inl ValueError)
          else Inl ValueError)"
  by pat_completeness auto
termination
  by (relation "measure (\<lambda>(pv, s). length s)") auto

text \<open>One member \<^verbatim>\<open>"key" : value\<close>, and the members of an object.\<close>

definition scan_member :: "(ustr \<Rightarrow> json scanned) \<Rightarrow> ustr \<Rightarrow> (ustr \<times> json) scanned" where
  "scan_member pv s =
     (case s of
        [] \<Rightarrow> Inl ValueError
      | c # s1 \<Rightarrow>
          if c \<noteq> 34 then Inl ValueError
          else (case scan_string s1 of None \<Rightarrow> Inl ValueError
            | Some (key, s2) \<Rightarrow>
                (case skip_ws s2 of
                   [] \<Rightarrow> Inl ValueError
                 | d # s3 \<Rightarrow>
                     if d \<noteq> 58 then Inl ValueError
                     else (case pv (skip_ws s3) of Inl e \<Rightarrow> Inl e
                       | Inr (v, s4) \<Rightarrow> Inr ((key, v), s4)))))"

function scan_members :: "(ustr \<Rightarrow> json scanned) \<Rightarrow> ustr \<Rightarrow> (ustr \<times> json) list scanned" where
  "scan_members pv s =
     (case scan_member pv s of Inl e \<Rightarrow> Inl e
      | Inr (p, rest) \<Rightarrow>
          if length rest < length s then
            (case skip_ws rest of
               [] \<Rightarrow> Inl ValueError
             | c # r \<Rightarrow>
                 if c = 125 then Inr ([p], r)
                 else if c = 44 \<and> length (skip_ws r) < length s then
                   map_sum id (\<lambda>(ps, r'). (p # ps, r')) (scan_members pv (skip_ws r))
                 else Inl ValueError)
          else Inl ValueError)"
  by pat_completeness auto
termination
  by (relation "measure (\<lambda>(pv, s). length s)") auto

declare scan_elements.simps [simp del] scan_members.simps [simp del] scan_string.simps [simp del]

definition constants :: "(ustr \<times> json) list" where
  "constants = [(lit ''null'', JNull), (lit ''true'', JBool True), (lit ''false'', JBool False)]"

definition special_constants :: "ustr list" where
  "special_constants = lits [''NaN'', ''Infinity'', ''-Infinity'']"

definition keyword :: "ustr list \<Rightarrow> ustr \<Rightarrow> ustr option" where
  "keyword ws s = find (startswith s) ws"

fun scan_value :: "pyrt \<Rightarrow> hooks \<Rightarrow> nat \<Rightarrow> ustr \<Rightarrow> json scanned" where
  "scan_value rt hk 0 s = Inl RecursionError"
| "scan_value rt hk (Suc room) s =
     (let pv = scan_value rt hk room;
          after = (\<lambda>v rest. map_sum id (\<lambda>x. (x, rest)) v)
      in case s of
           [] \<Rightarrow> Inl ValueError
         | c # s1 \<Rightarrow>
             if c = 34 then
               (case scan_string s1 of None \<Rightarrow> Inl ValueError | Some (t, r) \<Rightarrow> Inr (JStr t, r))
             else if c = 91 then
               (case skip_ws s1 of [] \<Rightarrow> Inl ValueError
                | d # r \<Rightarrow>
                    if d = 93 then Inr (JList [], r)
                    else map_sum id (\<lambda>(vs, r'). (JList vs, r')) (scan_elements pv (d # r)))
             else if c = 123 then
               (case skip_ws s1 of [] \<Rightarrow> Inl ValueError
                | d # r \<Rightarrow>
                    if d = 125 then after (hk_pairs hk []) r
                    else (case scan_members pv (d # r) of Inl e \<Rightarrow> Inl e
                          | Inr (ps, r') \<Rightarrow> after (hk_pairs hk ps) r'))
             else
               (case keyword (map fst constants) s of
                  Some w \<Rightarrow> Inr (the (map_of constants w), drop (length w) s)
                | None \<Rightarrow>
                    (case keyword special_constants s of
                       Some w \<Rightarrow> after (hk_constant hk w) (drop (length w) s)
                     | None \<Rightarrow>
                         (case scan_number s of None \<Rightarrow> Inl ValueError
                          | Some p \<Rightarrow> after (number_value rt p) (np_rest p)))))"

definition json_loads :: "pyrt \<Rightarrow> hooks \<Rightarrow> ustr \<Rightarrow> exn + json" where
  "json_loads rt hk s =
     (if startswith s [65279] then Inl ValueError
      else (case scan_value rt hk (rt_json_depth rt) (skip_ws s) of
              Inl e \<Rightarrow> Inl e
            | Inr (v, rest) \<Rightarrow> if skip_ws rest = [] then Inr v else Inl ValueError))"

end
