(* ===== verification/Tool_Bridge.thy ===== *)
theory Tool_Bridge
  imports Tool_Schema Json_Text
begin

section \<open>The tool bridge (tool\_bridge.py, HostToolBridge)\<close>

text \<open>
  Claude calls a Hermes tool through an in-process MCP handler; the handler validates the
  request and delegates to the host once. The host is not part of the repository, so its
  answers are inputs of the model: what the cancellation probe returns, what calling
  \<^verbatim>\<open>execute_tool\<close> gives and what awaiting it gives. A call has two atomic parts, before and
  after the \<^verbatim>\<open>await\<close>, between which calls of other tasks may run; \<open>bridge_step\<close> interleaves
  them. Every interaction with the host is recorded as an event.
\<close>

subsection \<open>Identifiers\<close>

text \<open>\<^verbatim>\<open>_SAFE_IDENTIFIER_RE.fullmatch\<close>\<close>

definition SAFE_IDENTIFIER_RE :: regex where
  "SAFE_IDENTIFIER_RE = Rep 1 None identifier_char"

definition safe_identifier :: "pyval \<Rightarrow> nat \<Rightarrow> ustr option" where
  "safe_identifier value limit =
     (case value of
        PStr s \<Rightarrow>
          if s = [] \<or> utf8_size s = None then None
          else if \<not> utf8_fits limit s \<or> \<not> fullmatch SAFE_IDENTIFIER_RE s then None else Some s
      | _ \<Rightarrow> None)"

definition safe_text :: "nat \<Rightarrow> ustr \<Rightarrow> bool" where
  "safe_text limit s \<longleftrightarrow> s \<noteq> [] \<and> list_all identifier_char s \<and> length s \<le> limit"

lemma identifier_ascii: "list_all identifier_char s \<Longrightarrow> is_ascii s"
  by (auto simp: is_ascii_def list_all_iff identifier_char_def is_alnum_def is_digit_def
      is_upper_def is_lower_def)

lemma safe_identifier_Some:
  "safe_identifier v limit = Some s \<longleftrightarrow> v = PStr s \<and> safe_text limit s"
proof (cases v)
  case (PStr t)
  have "list_all identifier_char t \<Longrightarrow> utf8_size t = Some (length t)"
    by (rule utf8_size_ascii) (rule identifier_ascii)
  then show ?thesis
    using PStr
    by (auto simp: safe_identifier_def SAFE_IDENTIFIER_RE_def fullmatch_Rep safe_text_def
        utf8_fits_def Suc_le_eq)
qed (simp_all add: safe_identifier_def)

subsection \<open>Host interactions\<close>

text \<open>What the probe \<^verbatim>\<open>cancellation_requested\<close> gives: a value or an exception.\<close>

type_synonym probe = "exn + pyval"

text \<open>What calling \<^verbatim>\<open>execute_tool\<close> gives: an exception, a value that is no awaitable, or an
  awaitable; \<^verbatim>\<open>asyncio.CancelledError\<close> is kept apart.\<close>

datatype execute_answer = ExRaised | ExCancelled | ExNotAwaitable | ExAwaitable

text \<open>What awaiting it gives; the result is an object graph in the heap of that moment.\<close>

datatype await_answer = AwRaised | AwCancelled | AwReturned heap pyval

datatype host_event = Probed probe | Executed ustr json ustr

subsection \<open>State and results\<close>

record HostToolBridge =
  hb_correlation_id :: "ustr option"
  hb_excluded_names :: "ustr list"
  hb_definitions :: "HostToolDefinition list"
  hb_sdk_call_count :: nat
  hb_host_execution_count :: nat

record ToolCallResult =
  tr_request_id :: ustr
  tr_correlation_id :: "ustr option"
  tr_tool_name :: ustr
  tr_text :: ustr
  tr_is_error :: bool

datatype request_error = BadRequestId | BadName | Unknown | BadArguments | Cancelled
  | CancellationUnavailable

definition REQUEST_MESSAGES :: "request_error \<Rightarrow> ustr" where
  "REQUEST_MESSAGES code = lit (case code of
     BadRequestId \<Rightarrow> ''Tool request correlation is malformed''
   | BadName \<Rightarrow> ''Tool name is malformed''
   | Unknown \<Rightarrow> ''Tool is not available''
   | BadArguments \<Rightarrow> ''Tool arguments are malformed''
   | Cancelled \<Rightarrow> ''Tool call cancelled''
   | CancellationUnavailable \<Rightarrow> ''Tool cancellation state unavailable'')"

definition UNSUPPORTED_RESULT :: ustr where "UNSUPPORTED_RESULT = lit ''Host returned unsupported result''"
definition EXECUTION_FAILED :: ustr where "EXECUTION_FAILED = lit ''Host tool execution failed''"
definition CALL_CANCELLED :: ustr where "CALL_CANCELLED = lit ''Tool call cancelled''"

datatype call_outcome = RequestError request_error | Completed ToolCallResult | CancelledError
  | EscapedError exn

subsection \<open>Host results\<close>

definition is_error_dict :: "json \<Rightarrow> bool" where
  "is_error_dict v = (case v of JDict d \<Rightarrow> fst ` set d = {lit ''error''} | _ \<Rightarrow> False)"

definition result_text :: "pyrt \<Rightarrow> heap \<Rightarrow> pyval \<Rightarrow> ustr \<times> bool" where
  "result_text rt H value =
     (case copy_plain_json H (MAX_RESULT_UTF8_BYTES * 4) value of
        None \<Rightarrow> (UNSUPPORTED_RESULT, True)
      | Some copied \<Rightarrow>
          (case (case copied of JStr s \<Rightarrow> Inr s | _ \<Rightarrow> dumps_compact rt False copied) of
             Inl e \<Rightarrow> (UNSUPPORTED_RESULT, True)
           | Inr text \<Rightarrow>
               (case bounded_text rt MAX_RESULT_UTF8_BYTES True text of
                  None \<Rightarrow> (UNSUPPORTED_RESULT, True)
                | Some bounded \<Rightarrow>
                    (bounded,
                     (case copied of
                        JStr s \<Rightarrow> (case json_loads rt no_hooks s of
                            Inl _ \<Rightarrow> False | Inr parsed \<Rightarrow> is_error_dict parsed)
                      | _ \<Rightarrow> is_error_dict copied)))))"

subsection \<open>Construction\<close>

fun excluded_ok :: "pyval list \<Rightarrow> ustr list option" where
  "excluded_ok [] = Some []"
| "excluded_ok (v # vs) =
     (case safe_identifier v MAX_NAME_UTF8_BYTES of None \<Rightarrow> None
      | Some s \<Rightarrow> map_option ((#) s) (excluded_ok vs))"

text \<open>
  \<open>services\<close>: both host methods are callable. \<open>excluded\<close> is what \<^verbatim>\<open>frozenset\<close> makes of the
  argument, \<open>None\<close> when it raises.
\<close>

definition bridge_new ::
    "pyrt \<Rightarrow> heap \<Rightarrow> bool \<Rightarrow> pyval list option \<Rightarrow> pyval list option \<Rightarrow> pyval \<Rightarrow>
     config_error + HostToolBridge" where
  "bridge_new rt H services tool_schemas excluded_names correlation_id =
     (if \<not> services then config_error ''host services are incomplete''
      else if correlation_id \<noteq> PNone \<and> safe_identifier correlation_id MAX_REQUEST_ID_UTF8_BYTES = None
      then config_error ''host correlation is malformed''
      else (case excluded_names of None \<Rightarrow> config_error ''excluded tool names are malformed''
        | Some names \<Rightarrow>
            (case excluded_ok names of None \<Rightarrow> config_error ''excluded tool names are malformed''
             | Some excluded \<Rightarrow>
                 (case normalize_tool_schemas rt H tool_schemas of Inl e \<Rightarrow> Inl e
                  | Inr definitions \<Rightarrow>
                      Inr \<lparr>hb_correlation_id = safe_identifier correlation_id MAX_REQUEST_ID_UTF8_BYTES,
                           hb_excluded_names = excluded,
                           hb_definitions = filter (\<lambda>t. td_name t \<notin> set excluded) definitions,
                           hb_sdk_call_count = 0, hb_host_execution_count = 0\<rparr>))))"

definition tool_names :: "HostToolBridge \<Rightarrow> ustr list" where
  "tool_names b = map td_name (hb_definitions b)"

definition lookup_tool :: "HostToolBridge \<Rightarrow> ustr \<Rightarrow> HostToolDefinition option" where
  "lookup_tool b name = map_of (map (\<lambda>t. (td_name t, t)) (hb_definitions b)) name"

definition begin_turn :: "pyval \<Rightarrow> HostToolBridge \<Rightarrow> config_error + HostToolBridge" where
  "begin_turn correlation_id b =
     (if correlation_id = PNone then Inr (b\<lparr>hb_correlation_id := None\<rparr>)
      else (case safe_identifier correlation_id MAX_REQUEST_ID_UTF8_BYTES of
              None \<Rightarrow> config_error ''host correlation is malformed''
            | Some s \<Rightarrow> Inr (b\<lparr>hb_correlation_id := Some s\<rparr>)))"

subsection \<open>One call\<close>

definition is_cancelled :: "probe \<Rightarrow> request_error + bool" where
  "is_cancelled p =
     (case p of Inr (PBool b) \<Rightarrow> Inr b | _ \<Rightarrow> Inl CancellationUnavailable)"

definition validate_call ::
    "pyrt \<Rightarrow> heap \<Rightarrow> HostToolBridge \<Rightarrow> pyval \<Rightarrow> pyval \<Rightarrow> pyval \<Rightarrow>
     call_outcome + ustr \<times> ustr \<times> json" where
  "validate_call rt H b request_id name arguments =
     (case safe_identifier request_id MAX_REQUEST_ID_UTF8_BYTES of
        None \<Rightarrow> Inl (RequestError BadRequestId)
      | Some rid \<Rightarrow>
          (case name of
             PStr n \<Rightarrow>
               (case lookup_tool b n of None \<Rightarrow> Inl (RequestError Unknown)
                | Some t \<Rightarrow>
                    (case copy_plain_json H MAX_INPUT_UTF8_BYTES arguments of
                       Some (JDict d) \<Rightarrow>
                         (case matches_schema (JDict d) (td_input_schema t) of
                            Inl e \<Rightarrow> Inl (EscapedError e)
                          | Inr ok \<Rightarrow>
                              if ok then Inr (rid, n, JDict d)
                              else Inl (RequestError BadArguments))
                     | _ \<Rightarrow> Inl (RequestError BadArguments)))
           | _ \<Rightarrow> Inl (RequestError BadName)))"

definition failed_result :: "HostToolBridge \<Rightarrow> ustr \<Rightarrow> ustr \<Rightarrow> ustr \<Rightarrow> ToolCallResult" where
  "failed_result b rid name text =
     \<lparr>tr_request_id = rid, tr_correlation_id = hb_correlation_id b, tr_tool_name = name,
      tr_text = text, tr_is_error = True\<rparr>"

datatype started = Done call_outcome | Awaiting ustr ustr

definition start_call ::
    "pyrt \<Rightarrow> heap \<Rightarrow> pyval \<Rightarrow> pyval \<Rightarrow> pyval \<Rightarrow> probe \<Rightarrow> execute_answer \<Rightarrow> HostToolBridge \<Rightarrow>
     started \<times> host_event list \<times> HostToolBridge" where
  "start_call rt H request_id name arguments cancelled answer b =
     (case validate_call rt H b request_id name arguments of
        Inl out \<Rightarrow> (Done out, [], b)
      | Inr (rid, n, args) \<Rightarrow>
          (case is_cancelled cancelled of
             Inl e \<Rightarrow> (Done (RequestError e), [Probed cancelled], b)
           | Inr True \<Rightarrow> (Done (RequestError Cancelled), [Probed cancelled], b)
           | Inr False \<Rightarrow>
               (let b' = b\<lparr>hb_host_execution_count := hb_host_execution_count b + 1\<rparr>;
                    events = [Probed cancelled, Executed n args rid]
                in case answer of
                     ExRaised \<Rightarrow> (Done (Completed (failed_result b' rid n EXECUTION_FAILED)), events, b')
                   | ExNotAwaitable \<Rightarrow>
                       (Done (Completed (failed_result b' rid n EXECUTION_FAILED)), events, b')
                   | ExCancelled \<Rightarrow> (Done CancelledError, events, b')
                   | ExAwaitable \<Rightarrow> (Awaiting rid n, events, b'))))"

definition finish_call ::
    "pyrt \<Rightarrow> ustr \<Rightarrow> ustr \<Rightarrow> await_answer \<Rightarrow> probe \<Rightarrow> HostToolBridge \<Rightarrow>
     call_outcome \<times> host_event list" where
  "finish_call rt rid name answer cancelled b =
     (case answer of
        AwCancelled \<Rightarrow> (CancelledError, [])
      | AwRaised \<Rightarrow> (Completed (failed_result b rid name EXECUTION_FAILED), [])
      | AwReturned H value \<Rightarrow>
          (case is_cancelled cancelled of
             Inl e \<Rightarrow> (RequestError e, [Probed cancelled])
           | Inr True \<Rightarrow> (Completed (failed_result b rid name CALL_CANCELLED), [Probed cancelled])
           | Inr False \<Rightarrow>
               (let (text, is_error) = result_text rt H value
                in (Completed \<lparr>tr_request_id = rid, tr_correlation_id = hb_correlation_id b,
                      tr_tool_name = name, tr_text = text, tr_is_error = is_error\<rparr>,
                    [Probed cancelled]))))"

text \<open>
  The whole handler for a host's answers, with \<open>between\<close> what other tasks do to the bridge
  while the call awaits.
\<close>

record host_answers =
  ha_before :: probe
  ha_execute :: execute_answer
  ha_await :: await_answer
  ha_after :: probe

definition handle_tool_call ::
    "pyrt \<Rightarrow> heap \<Rightarrow> pyval \<Rightarrow> pyval \<Rightarrow> pyval \<Rightarrow> host_answers \<Rightarrow>
     (HostToolBridge \<Rightarrow> HostToolBridge) \<Rightarrow> HostToolBridge \<Rightarrow>
     call_outcome \<times> host_event list \<times> HostToolBridge" where
  "handle_tool_call rt H request_id name arguments host between b =
     (case start_call rt H request_id name arguments (ha_before host) (ha_execute host) b of
        (Done out, events, b1) \<Rightarrow> (out, events, b1)
      | (Awaiting rid n, events, b1) \<Rightarrow>
          (let b2 = between b1; (out, events2) = finish_call rt rid n (ha_await host) (ha_after host) b2
           in (out, events @ events2, b2)))"

text \<open>\<^verbatim>\<open>_next_sdk_request_id\<close>: four digits at least, and the bare counter when the id is too long.\<close>

definition pad4 :: "nat \<Rightarrow> ustr" where
  "pad4 n = replicate (4 - length (dec_nat n)) 48 @ dec_nat n"

definition next_sdk_request_id :: "HostToolBridge \<Rightarrow> ustr \<times> HostToolBridge" where
  "next_sdk_request_id b =
     (let n = hb_sdk_call_count b + 1;
          prefix = (case hb_correlation_id b of None \<Rightarrow> lit ''sdk'' | Some p \<Rightarrow> p);
          candidate = prefix @ lit '':sdk-call-'' @ pad4 n
      in (case safe_identifier (PStr candidate) MAX_REQUEST_ID_UTF8_BYTES of
            Some c \<Rightarrow> c | None \<Rightarrow> lit ''sdk-call-'' @ pad4 n,
          b\<lparr>hb_sdk_call_count := n\<rparr>))"

text \<open>The SDK handler: a rejected request becomes an error result, so nothing is raised but a
  cancellation or the interpreter's own errors.\<close>

definition sdk_handler ::
    "pyrt \<Rightarrow> heap \<Rightarrow> ustr \<Rightarrow> pyval \<Rightarrow> host_answers \<Rightarrow> (HostToolBridge \<Rightarrow> HostToolBridge) \<Rightarrow>
     HostToolBridge \<Rightarrow> call_outcome \<times> host_event list \<times> HostToolBridge" where
  "sdk_handler rt H name arguments host between b =
     (let (rid, b1) = next_sdk_request_id b;
          (out, events, b2) = handle_tool_call rt H (PStr rid) (PStr name) arguments host between b1
      in (case out of RequestError e \<Rightarrow> Completed (failed_result b2 rid name (REQUEST_MESSAGES e))
          | other \<Rightarrow> other, events, b2))"

definition execute_tool ::
    "pyrt \<Rightarrow> heap \<Rightarrow> pyval \<Rightarrow> pyval \<Rightarrow> pyval \<Rightarrow> host_answers \<Rightarrow> (HostToolBridge \<Rightarrow> HostToolBridge) \<Rightarrow>
     HostToolBridge \<Rightarrow> call_outcome \<times> host_event list \<times> HostToolBridge" where
  "execute_tool rt H name arguments request_id host between b =
     (if request_id = PNone then
        (let (rid, b1) = next_sdk_request_id b
         in handle_tool_call rt H (PStr rid) name arguments host between b1)
      else handle_tool_call rt H request_id name arguments host between b)"

text \<open>The SDK server: what \<^verbatim>\<open>sdk.tool\<close> and \<^verbatim>\<open>create_sdk_mcp_server\<close> are given.\<close>

record sdk_server =
  sv_name :: ustr
  sv_version :: ustr
  sv_tools :: "(ustr \<times> ustr \<times> json) list"

definition build_sdk_mcp_server :: "pyval \<Rightarrow> pyval \<Rightarrow> HostToolBridge \<Rightarrow> config_error + sdk_server" where
  "build_sdk_mcp_server server_name version b =
     (case (safe_identifier server_name MAX_NAME_UTF8_BYTES, safe_identifier version MAX_NAME_UTF8_BYTES) of
        (Some n, Some v) \<Rightarrow>
          Inr \<lparr>sv_name = n, sv_version = v,
               sv_tools = map (\<lambda>t. (td_name t, td_description t, td_input_schema t)) (hb_definitions b)\<rparr>
      | _ \<Rightarrow> config_error ''SDK MCP server identity is malformed'')"

subsection \<open>Audited execution\<close>

text \<open>
  The contract the rest of the plugin relies on: whatever is done with the bridge, the
  execution counter counts the host executions, and every execution directly follows a
  cancellation probe that answered \<^verbatim>\<open>False\<close> and is permitted.
\<close>

definition executed :: "host_event list \<Rightarrow> nat" where
  "executed evs = length (filter (\<lambda>e. case e of Executed _ _ _ \<Rightarrow> True | _ \<Rightarrow> False) evs)"

fun probed_first :: "(ustr \<Rightarrow> json \<Rightarrow> ustr \<Rightarrow> bool) \<Rightarrow> bool \<Rightarrow> host_event list \<Rightarrow> bool" where
  "probed_first permitted clear [] = True"
| "probed_first permitted clear (Probed p # evs) =
     probed_first permitted (p = Inr (PBool False)) evs"
| "probed_first permitted clear (Executed n args rid # evs) =
     (clear \<and> permitted n args rid \<and> probed_first permitted False evs)"

lemma executed_append [simp]: "executed (xs @ ys) = executed xs + executed ys"
  by (simp add: executed_def)

lemma executed_simps [simp]:
  "executed [] = 0" "executed (Probed p # evs) = executed evs"
  "executed (Executed n a r # evs) = Suc (executed evs)"
  by (simp_all add: executed_def)

lemma probed_first_clear:
  "probed_first permitted False evs \<Longrightarrow> probed_first permitted clear evs"
  by (cases "(permitted, clear, evs)" rule: probed_first.cases) auto

lemma probed_first_append:
  "probed_first permitted clear xs \<Longrightarrow> probed_first permitted False ys \<Longrightarrow>
   probed_first permitted clear (xs @ ys)"
  by (induction permitted clear xs rule: probed_first.induct) (auto intro: probed_first_clear)

lemma probed_first_nth:
  "probed_first permitted clear evs \<Longrightarrow> i < length evs \<Longrightarrow> evs ! i = Executed n args rid \<Longrightarrow>
   permitted n args rid \<and> (if i = 0 then clear else evs ! (i - 1) = Probed (Inr (PBool False)))"
proof (induction permitted clear evs arbitrary: i rule: probed_first.induct)
  case (2 permitted clear p evs)
  then obtain k where i: "i = Suc k" by (cases i) auto
  with 2 show ?case by (cases k) (fastforce split: if_splits)+
next
  case (3 permitted clear n' args' rid' evs)
  show ?case
  proof (cases i)
    case (Suc k)
    with 3 show ?thesis by (cases k) (fastforce split: if_splits)+
  qed (use 3 in auto)
qed simp

primrec run_ops :: "('op \<Rightarrow> 's \<Rightarrow> host_event list \<times> 's) \<Rightarrow> 'op list \<Rightarrow> 's \<Rightarrow> host_event list \<times> 's" where
  "run_ops perform [] s = ([], s)"
| "run_ops perform (op # ops) s =
     (let (evs, s1) = perform op s; (evs', s2) = run_ops perform ops s1 in (evs @ evs', s2))"

locale audited =
  fixes perform :: "'op \<Rightarrow> 's \<Rightarrow> host_event list \<times> 's"
    and executions :: "'s \<Rightarrow> nat"
    and permitted :: "'s \<Rightarrow> ustr \<Rightarrow> json \<Rightarrow> ustr \<Rightarrow> bool"
    and good :: "'s \<Rightarrow> bool"
  assumes good_kept: "good s \<Longrightarrow> perform op s = (evs, s') \<Longrightarrow> good s'"
    and counted: "good s \<Longrightarrow> perform op s = (evs, s') \<Longrightarrow> executions s' = executions s + executed evs"
    and guarded: "good s \<Longrightarrow> perform op s = (evs, s') \<Longrightarrow> probed_first (permitted s) False evs"
    and permitted_kept: "good s \<Longrightarrow> perform op s = (evs, s') \<Longrightarrow> permitted s' = permitted s"
begin

lemma run_audited:
  "good s \<Longrightarrow> run_ops perform ops s = (evs, s') \<Longrightarrow>
   good s' \<and> executions s' = executions s + executed evs \<and>
   probed_first (permitted s) False evs \<and> permitted s' = permitted s"
proof (induction ops arbitrary: s evs)
  case (Cons op ops)
  obtain e1 s1 where p: "perform op s = (e1, s1)" by fastforce
  obtain e2 s2 where r: "run_ops perform ops s1 = (e2, s2)" by fastforce
  from Cons.prems(2) p r have "evs = e1 @ e2" "s' = s2" by auto
  with Cons.IH[OF good_kept[OF Cons.prems(1) p]] r counted[OF Cons.prems(1) p]
    guarded[OF Cons.prems(1) p] permitted_kept[OF Cons.prems(1) p]
  show ?case by (auto intro: probed_first_append)
qed simp

lemma run_execution_guarded:
  assumes "good s" "run_ops perform ops s = (evs, s')" "i < length evs" "evs ! i = Executed n args rid"
  shows "permitted s n args rid \<and> 0 < i \<and> evs ! (i - 1) = Probed (Inr (PBool False))"
proof -
  have "probed_first (permitted s) False evs" using run_audited[OF assms(1,2)] by blast
  from probed_first_nth[OF this assms(3,4)] show ?thesis by (cases "i = 0") auto
qed

end

subsection \<open>The bridge under interleaved calls\<close>

record bridge_system =
  bs_bridge :: HostToolBridge
  bs_pending :: "(ustr \<times> ustr) list"
  bs_outcomes :: "call_outcome list"

text \<open>What can happen next: a direct or an SDK call starts, the \<open>i\<close>-th awaiting call goes on,
  or the session binds the bridge to another turn.\<close>

datatype bridge_op =
    OpCall heap pyval pyval pyval probe execute_answer
  | OpSdkCall heap ustr pyval probe execute_answer
  | OpResume nat await_answer probe
  | OpBeginTurn pyval

definition after_start :: "started \<times> host_event list \<times> HostToolBridge \<Rightarrow> bridge_system \<Rightarrow>
    host_event list \<times> bridge_system" where
  "after_start r s =
     (case r of
        (Done out, evs, b) \<Rightarrow> (evs, s\<lparr>bs_bridge := b, bs_outcomes := bs_outcomes s @ [out]\<rparr>)
      | (Awaiting rid n, evs, b) \<Rightarrow> (evs, s\<lparr>bs_bridge := b, bs_pending := bs_pending s @ [(rid, n)]\<rparr>))"

fun bridge_do :: "pyrt \<Rightarrow> bridge_op \<Rightarrow> bridge_system \<Rightarrow> host_event list \<times> bridge_system" where
  "bridge_do rt (OpCall H rid name args p a) s =
     after_start (start_call rt H rid name args p a (bs_bridge s)) s"
| "bridge_do rt (OpSdkCall H name args p a) s =
     (let (rid, b) = next_sdk_request_id (bs_bridge s)
      in after_start (start_call rt H (PStr rid) (PStr name) args p a b) s)"
| "bridge_do rt (OpResume i answer p) s =
     (if i < length (bs_pending s) then
        (let (rid, n) = bs_pending s ! i;
             (out, evs) = finish_call rt rid n answer p (bs_bridge s)
         in (evs, s\<lparr>bs_pending := take i (bs_pending s) @ drop (Suc i) (bs_pending s),
                    bs_outcomes := bs_outcomes s @ [out]\<rparr>))
      else ([], s))"
| "bridge_do rt (OpBeginTurn cid) s =
     (case begin_turn cid (bs_bridge s) of Inl _ \<Rightarrow> ([], s) | Inr b \<Rightarrow> ([], s\<lparr>bs_bridge := b\<rparr>))"

definition bridge_ok :: "pyrt \<Rightarrow> HostToolBridge \<Rightarrow> bool" where
  "bridge_ok rt b \<longleftrightarrow> list_all (tool_ok rt) (hb_definitions b) \<and> distinct (tool_names b) \<and>
     pred_option (safe_text MAX_REQUEST_ID_UTF8_BYTES) (hb_correlation_id b)"

text \<open>An execution the bridge may ask for: a known tool, arguments that conform to its schema,
  a safe request id.\<close>

definition permitted_call :: "HostToolBridge \<Rightarrow> ustr \<Rightarrow> json \<Rightarrow> ustr \<Rightarrow> bool" where
  "permitted_call b n args rid \<longleftrightarrow> safe_text MAX_REQUEST_ID_UTF8_BYTES rid \<and>
     (\<exists>t \<in> set (hb_definitions b). td_name t = n \<and> conforms args (td_input_schema t)) \<and>
     (\<exists>d. args = JDict d)"

lemma lookup_tool_Some:
  "lookup_tool b n = Some t \<Longrightarrow> t \<in> set (hb_definitions b) \<and> td_name t = n"
  by (auto simp: lookup_tool_def dest!: map_of_SomeD)

lemma validate_call_Inr:
  assumes "bridge_ok rt b" "validate_call rt H b request_id name arguments = Inr (rid, n, args)"
  shows "permitted_call b n args rid \<and> request_id = PStr rid \<and> name = PStr n"
proof -
  from assms(2) obtain t d where t: "safe_identifier request_id MAX_REQUEST_ID_UTF8_BYTES = Some rid"
    "name = PStr n" "lookup_tool b n = Some t" "args = JDict d"
    "matches_schema args (td_input_schema t) = Inr True"
    by (auto simp: validate_call_def split: option.splits pyval.splits json.splits sum.splits if_splits)
  note mem = lookup_tool_Some[OF t(3)]
  with assms(1) have "valid_schema rt (MAX_JSON_DEPTH + 1) (td_input_schema t)"
    by (auto simp: bridge_ok_def tool_ok_def list_all_iff)
  from schema_matches[OF this, of args] t(5) have "conforms args (td_input_schema t)" by simp
  with t mem show ?thesis by (auto simp: permitted_call_def safe_identifier_Some)
qed

lemma validate_call_Inl:
  "validate_call rt H b request_id name arguments = Inl out \<Longrightarrow>
   (\<exists>e. out = RequestError e) \<or> (\<exists>e. out = EscapedError e)"
  by (auto simp: validate_call_def split: option.splits pyval.splits json.splits sum.splits if_splits)

lemma validate_call_no_escape:
  assumes "bridge_ok rt b"
  shows "validate_call rt H b request_id name arguments \<noteq> Inl (EscapedError e)"
proof
  assume "validate_call rt H b request_id name arguments = Inl (EscapedError e)"
  then obtain n t d where t: "lookup_tool b n = Some t"
    "matches_schema (JDict d) (td_input_schema t) = Inl e"
    by (auto simp: validate_call_def split: option.splits pyval.splits json.splits sum.splits if_splits)
  from lookup_tool_Some[OF t(1)] assms have "valid_schema rt (MAX_JSON_DEPTH + 1) (td_input_schema t)"
    by (auto simp: bridge_ok_def tool_ok_def list_all_iff)
  from schema_matches[OF this] t(2) show False by simp
qed

text \<open>All a start can do, in one fact.\<close>

lemma start_call_effect:
  assumes "bridge_ok rt b" "start_call rt H request_id name args p a b = (st, evs, b')"
  shows "b' = b\<lparr>hb_host_execution_count := hb_host_execution_count b + executed evs\<rparr> \<and>
    probed_first (permitted_call b) False evs \<and>
    (\<forall>rid n. st = Awaiting rid n \<longrightarrow> request_id = PStr rid \<and> name = PStr n \<and> executed evs = 1)"
proof (cases "validate_call rt H b request_id name args")
  case (Inl out)
  with assms(2) show ?thesis by (auto simp: start_call_def)
next
  case (Inr r)
  obtain rid n d where r: "r = (rid, n, d)" by (cases r)
  note ok = validate_call_Inr[OF assms(1) Inr[unfolded r]]
  from assms(2) Inr r ok show ?thesis
    by (cases a)
       (auto simp: start_call_def is_cancelled_def Let_def split: sum.splits pyval.splits bool.splits)
qed

lemma next_id_effect:
  "next_sdk_request_id b = (rid, b') \<Longrightarrow>
   b' = b\<lparr>hb_sdk_call_count := hb_sdk_call_count b + 1\<rparr>"
  by (auto simp: next_sdk_request_id_def Let_def)

lemma bridge_ok_update [simp]:
  "bridge_ok rt (b\<lparr>hb_host_execution_count := k\<rparr>) = bridge_ok rt b"
  "bridge_ok rt (b\<lparr>hb_sdk_call_count := k\<rparr>) = bridge_ok rt b"
  by (simp_all add: bridge_ok_def tool_names_def)

lemma permitted_update [simp]:
  "permitted_call (b\<lparr>hb_host_execution_count := k\<rparr>) = permitted_call b"
  "permitted_call (b\<lparr>hb_sdk_call_count := k\<rparr>) = permitted_call b"
  "permitted_call (b\<lparr>hb_correlation_id := c\<rparr>) = permitted_call b"
  by (simp_all add: permitted_call_def fun_eq_iff)

lemma bridge_do_audited:
  assumes "bridge_ok rt (bs_bridge s)" "bridge_do rt op s = (evs, s')"
  shows "bridge_ok rt (bs_bridge s') \<and>
    hb_host_execution_count (bs_bridge s') = hb_host_execution_count (bs_bridge s) + executed evs \<and>
    probed_first (permitted_call (bs_bridge s)) False evs \<and>
    permitted_call (bs_bridge s') = permitted_call (bs_bridge s)"
proof (cases op)
  case (OpCall H rid name args p a)
  obtain st e b where c: "start_call rt H rid name args p a (bs_bridge s) = (st, e, b)"
    by (rule prod_cases3)
  from start_call_effect[OF assms(1) c] assms OpCall c show ?thesis
    by (cases st) (auto simp: after_start_def)
next
  case (OpSdkCall H name args p a)
  obtain rid b1 where n: "next_sdk_request_id (bs_bridge s) = (rid, b1)" by fastforce
  note b1 = next_id_effect[OF n]
  obtain st e b where c: "start_call rt H (PStr rid) (PStr name) args p a b1 = (st, e, b)"
    by (rule prod_cases3)
  from assms(1) b1 have "bridge_ok rt b1" by simp
  from start_call_effect[OF this c] assms OpSdkCall n c b1 show ?thesis
    by (cases st) (auto simp: after_start_def)
next
  case (OpResume i answer p)
  have "executed (snd (finish_call rt rid n answer p b)) = 0 \<and>
      probed_first q False (snd (finish_call rt rid n answer p b))" for rid n b q
    by (auto simp: finish_call_def is_cancelled_def split: await_answer.splits sum.splits
        pyval.splits bool.splits prod.splits)
  then show ?thesis using assms OpResume
    by (auto simp: Let_def split: prod.splits if_splits) (metis snd_conv)+
next
  case (OpBeginTurn cid)
  then show ?thesis using assms
    by (auto simp: begin_turn_def config_error_def bridge_ok_def tool_names_def safe_identifier_Some
        split: sum.splits if_splits option.splits)
qed

interpretation bridge: audited "bridge_do rt" "\<lambda>s. hb_host_execution_count (bs_bridge s)"
    "\<lambda>s. permitted_call (bs_bridge s)" "\<lambda>s. bridge_ok rt (bs_bridge s)" for rt
  by unfold_locales (use bridge_do_audited in blast)+

lemma bridge_new_ok:
  assumes "bridge_new rt H services schemas excluded cid = Inr b"
  shows "bridge_ok rt b \<and> hb_host_execution_count b = 0 \<and>
    (\<forall>n \<in> set (tool_names b). n \<notin> set (hb_excluded_names b))"
proof -
  from assms obtain tools ns where n: "normalize_tool_schemas rt H schemas = Inr tools"
    "b = \<lparr>hb_correlation_id = safe_identifier cid MAX_REQUEST_ID_UTF8_BYTES, hb_excluded_names = ns,
          hb_definitions = filter (\<lambda>t. td_name t \<notin> set ns) tools,
          hb_sdk_call_count = 0, hb_host_execution_count = 0\<rparr>"
    by (auto simp: bridge_new_def config_error_def split: if_splits option.splits sum.splits)
  then obtain specs where "schemas = Some specs"
    by (auto simp: normalize_tool_schemas_def config_error_def split: option.splits)
  with normalized_tools_ok n(1) have "list_all (tool_ok rt) tools" "distinct (map td_name tools)"
    by auto
  then show ?thesis
    unfolding n(2)
    by (auto simp: bridge_ok_def tool_names_def list_all_iff distinct_map_filter safe_identifier_Some
        pred_option_def)
qed

subsection \<open>Properties\<close>

text \<open>
  C5: Whatever calls, resumptions and turn changes are interleaved on a constructed bridge, the
  host execution counter equals the number of host executions, and every execution directly
  follows a cancellation probe that answered exactly \<^verbatim>\<open>False\<close>, is for a tool the bridge
  exposes, with arguments that conform to that tool's schema and a well-formed request id.
\<close>

theorem host_execution_gated:
  assumes "bridge_new rt H services schemas excluded cid = Inr b"
    and "run_ops (bridge_do rt) ops \<lparr>bs_bridge = b, bs_pending = [], bs_outcomes = []\<rparr> = (evs, s')"
  shows "hb_host_execution_count (bs_bridge s') = executed evs \<and>
    (\<forall>i n args rid. i < length evs \<and> evs ! i = Executed n args rid \<longrightarrow>
       permitted_call b n args rid \<and> 0 < i \<and> evs ! (i - 1) = Probed (Inr (PBool False)))"
proof -
  let ?s = "\<lparr>bs_bridge = b, bs_pending = [], bs_outcomes = []\<rparr>"
  note new = bridge_new_ok[OF assms(1)]
  then have ok: "bridge_ok rt (bs_bridge ?s)" by simp
  show ?thesis
    using bridge.run_audited[OF ok assms(2)] bridge.run_execution_guarded[OF ok assms(2)] new
    by (metis add_0 bridge_system.select_convs(1))
qed

text \<open>A concrete bridge with one tool.\<close>

definition echo_heap :: heap where
  "echo_heap = (\<lambda>_. ODict [])
     (2 := ODict [(PStr (lit ''name''), PStr (lit ''echo'')), (PStr (lit ''input_schema''), PRef 3)],
      3 := ODict [(PStr (lit ''type''), PStr (lit ''object''))])"

definition echo_tool :: HostToolDefinition where
  "echo_tool = \<lparr>td_name = lit ''echo'', td_description = lit ''echo'',
     td_input_schema = JDict [(lit ''type'', JStr (lit ''object''))]\<rparr>"

definition echo_bridge :: HostToolBridge where
  "echo_bridge = \<lparr>hb_correlation_id = None, hb_excluded_names = [], hb_definitions = [echo_tool],
     hb_sdk_call_count = 0, hb_host_execution_count = 0\<rparr>"

lemma ascii_literals:
  "utf8_size (lit ''echo'') = Some 4" "utf8_size (lit ''type'') = Some 4"
  "utf8_size (lit ''object'') = Some 6"
  by (simp_all add: lit_def utf8_len_def)

lemma heap_ok_echo: "heap_ok echo_heap"
  by (auto simp: heap_ok_def echo_heap_def)

lemma echo_schema_copied:
  "copy_plain_json echo_heap MAX_INPUT_UTF8_BYTES (PRef 3) =
     Some (JDict [(lit ''type'', JStr (lit ''object''))])"
proof -
  have "reads echo_heap (PRef 3) (JDict [(lit ''type'', JStr (lit ''object''))])"
    by (rule reads_Dict[of _ _ "[(PStr (lit ''type''), PStr (lit ''object''))]"])
       (auto simp: echo_heap_def intro: reads.intros)
  then show ?thesis
    by (simp add: copy_plain_json_iff[OF heap_ok_echo] ascii_literals bytes_of_def
        MAX_JSON_DEPTH_def MAX_JSON_NODES_def MAX_INPUT_UTF8_BYTES_def)
qed

lemma echo_arguments_copied:
  "copy_plain_json echo_heap MAX_INPUT_UTF8_BYTES (PRef 4) = Some (JDict [])"
proof -
  have "reads echo_heap (PRef 4) (JDict [])"
    by (rule reads_Dict[of _ _ "[]"]) (auto simp: echo_heap_def)
  then show ?thesis
    by (simp add: copy_plain_json_iff[OF heap_ok_echo] MAX_JSON_DEPTH_def MAX_JSON_NODES_def)
qed

lemma echo_schema_valid:
  "valid_schema rt (MAX_JSON_DEPTH + 1) (JDict [(lit ''type'', JStr (lit ''object''))])"
  by (simp add: valid_schema.simps(2) has_def get_or_def any_key_def text_keyword_ok_def
      enum_ok_def bounds_ok_def required_ok_def additional_ok_def keywords_fit_type_def
      SCHEMA_KEYS_def SCHEMA_TYPES_def)

lemma echo_tool_normalized: "normalize_tool_schema rt echo_heap (PRef 2) = Inr echo_tool"
proof -
  have "one_line rt (lit ''echo'') = lit ''echo''"
    by (simp add: one_line_def lit_def category_C_def is_control_def py_words_def py_isspace_def)
  then have "bounded_text rt MAX_DESCRIPTION_UTF8_BYTES False (lit ''echo'') = Some (lit ''echo'')"
    by (simp add: bounded_text_def ascii_literals MAX_DESCRIPTION_UTF8_BYTES_def)
  moreover have "tool_name_ok rt (lit ''echo'')"
    by (simp add: tool_name_ok_def utf8_fits_def ascii_literals MAX_NAME_UTF8_BYTES_def)
       (simp add: lit_def category_C_def is_control_def py_isspace_def)
  moreover have "spec_parts echo_heap (PRef 2) = Inr (PStr (lit ''echo''), PNone, PRef 3)"
    by (simp add: spec_parts_def spec_get_def mapping_find_def mapping_items_def echo_heap_def)
  moreover have "is_mapping echo_heap (PRef 2)"
    by (simp add: is_mapping_def echo_heap_def)
  ultimately show ?thesis
    using echo_schema_copied echo_schema_valid[of rt]
    by (simp add: normalize_tool_schema_def echo_tool_def get_or_def)
qed

lemma echo_bridge_new:
  "bridge_new rt echo_heap True (Some [PRef 2]) (Some []) PNone = Inr echo_bridge"
  by (simp add: bridge_new_def normalize_tool_schemas_def echo_tool_normalized safe_identifier_def
      echo_bridge_def)

lemma echo_call_starts:
  "validate_call rt echo_heap echo_bridge (PStr (lit ''r1'')) (PStr (lit ''echo'')) (PRef 4) =
     Inr (lit ''r1'', lit ''echo'', JDict [])"
proof -
  have "safe_identifier (PStr (lit ''r1'')) MAX_REQUEST_ID_UTF8_BYTES = Some (lit ''r1'')"
    by (simp add: safe_identifier_Some safe_text_def MAX_REQUEST_ID_UTF8_BYTES_def)
       (simp add: lit_def identifier_char_def is_alnum_def is_digit_def is_lower_def)
  moreover have "lookup_tool echo_bridge (lit ''echo'') = Some echo_tool"
    by (simp add: lookup_tool_def echo_bridge_def echo_tool_def)
  moreover have "matches_schema (JDict []) (td_input_schema echo_tool) = Inr True"
    using schema_matches[OF echo_schema_valid]
    by (simp add: echo_tool_def conforms.simps(1) get_or_def required_names_def)
  ultimately show ?thesis
    by (simp add: validate_call_def echo_arguments_copied)
qed

theorem host_execution_gated_witness:
  "let r = run_ops (bridge_do sample_rt)
       [OpCall echo_heap (PStr (lit ''r1'')) (PStr (lit ''echo'')) (PRef 4) (Inr (PBool False)) ExAwaitable]
       \<lparr>bs_bridge = echo_bridge, bs_pending = [], bs_outcomes = []\<rparr>
   in executed (fst r) = 1 \<and> hb_host_execution_count (bs_bridge (snd r)) = 1"
proof -
  let ?ops = "[OpCall echo_heap (PStr (lit ''r1'')) (PStr (lit ''echo'')) (PRef 4)
    (Inr (PBool False)) ExAwaitable]"
  let ?s = "\<lparr>bs_bridge = echo_bridge, bs_pending = [], bs_outcomes = []\<rparr>"
  obtain evs s' where r: "run_ops (bridge_do sample_rt) ?ops ?s = (evs, s')" by fastforce
  then have "executed evs = 1"
    by (auto simp: start_call_def echo_call_starts is_cancelled_def after_start_def Let_def)
  with host_execution_gated[OF echo_bridge_new r] r show ?thesis by simp
qed

lemma handle_tool_call_cases:
  assumes "bridge_ok rt b"
    and "handle_tool_call rt H request_id name arguments host between b = (out, evs, b')"
  shows "case validate_call rt H b request_id name arguments of
      Inl o1 \<Rightarrow> out = o1 \<and> evs = [] \<and> b' = b \<and> (\<exists>e. o1 = RequestError e)
    | Inr (rid, n, args) \<Rightarrow>
        (case ha_before host of
           Inr (PBool False) \<Rightarrow> executed evs = 1
         | Inr (PBool True) \<Rightarrow> out = RequestError Cancelled \<and> executed evs = 0 \<and> b' = b
         | _ \<Rightarrow> out = RequestError CancellationUnavailable \<and> executed evs = 0 \<and> b' = b)"
proof (cases "validate_call rt H b request_id name arguments")
  case (Inl o1)
  with assms have "out = o1" "evs = []" "b' = b" by (auto simp: handle_tool_call_def start_call_def)
  moreover have "\<exists>e. o1 = RequestError e"
    using validate_call_Inl[OF Inl] validate_call_no_escape[OF assms(1)] Inl by blast
  ultimately show ?thesis using Inl by simp
next
  case (Inr r)
  obtain rid n args where r: "r = (rid, n, args)" by (cases r)
  have fin: "executed (snd (finish_call rt x y answer p c)) = 0" for x y answer p c
    by (auto simp: finish_call_def is_cancelled_def split: await_answer.splits sum.splits
        pyval.splits bool.splits prod.splits)
  show ?thesis
  proof (cases "ha_before host = Inr (PBool False)")
    case True
    with assms(2) Inr r fin[of _ _ "ha_await host" "ha_after host"] show ?thesis
      by (auto simp: handle_tool_call_def start_call_def is_cancelled_def Let_def
          split: execute_answer.splits prod.splits) (metis snd_conv)
  next
    case False
    with assms(2) Inr r show ?thesis
      by (auto simp: handle_tool_call_def start_call_def is_cancelled_def
          split: sum.splits pyval.splits bool.splits)
  qed
qed

text \<open>
  C6: A tool call reaches the host exactly once or not at all: exactly once when the request is
  well formed and the cancellation probe answers \<^verbatim>\<open>False\<close>; otherwise the call is rejected, the
  host executes nothing and the bridge is unchanged. A probe that raises or answers anything
  but a boolean counts as a refusal.
\<close>

theorem tool_call_executes_once_or_rejects:
  assumes "bridge_new rt H0 services schemas excluded cid = Inr b"
    and "handle_tool_call rt H request_id name arguments host between b = (out, evs, b')"
  shows "case validate_call rt H b request_id name arguments of
      Inl o1 \<Rightarrow> out = o1 \<and> evs = [] \<and> b' = b \<and> (\<exists>e. o1 = RequestError e)
    | Inr (rid, n, args) \<Rightarrow>
        (case ha_before host of
           Inr (PBool False) \<Rightarrow> executed evs = 1
         | Inr (PBool True) \<Rightarrow> out = RequestError Cancelled \<and> executed evs = 0 \<and> b' = b
         | _ \<Rightarrow> out = RequestError CancellationUnavailable \<and> executed evs = 0 \<and> b' = b)"
  by (rule handle_tool_call_cases[OF _ assms(2)]) (use bridge_new_ok[OF assms(1)] in blast)

theorem tool_call_executes_once_or_rejects_witness:
  "let r = handle_tool_call sample_rt echo_heap (PStr (lit ''r1'')) (PStr (lit ''echo'')) (PRef 4)
       \<lparr>ha_before = Inl OtherError, ha_execute = ExAwaitable, ha_await = AwRaised,
        ha_after = Inr (PBool False)\<rparr> id echo_bridge
   in fst r = RequestError CancellationUnavailable \<and> executed (fst (snd r)) = 0"
proof -
  let ?h = "\<lparr>ha_before = Inl OtherError, ha_execute = ExAwaitable, ha_await = AwRaised,
    ha_after = Inr (PBool False)\<rparr>"
  obtain out evs b' where r: "handle_tool_call sample_rt echo_heap (PStr (lit ''r1'')) (PStr (lit ''echo''))
    (PRef 4) ?h id echo_bridge = (out, evs, b')" by (rule prod_cases3)
  from tool_call_executes_once_or_rejects[OF echo_bridge_new r] show ?thesis
    by (simp add: r echo_call_starts)
qed

definition result_ok :: "pyrt \<Rightarrow> ustr \<Rightarrow> ustr \<Rightarrow> ToolCallResult \<Rightarrow> bool" where
  "result_ok rt rid name r \<longleftrightarrow> tr_request_id r = rid \<and> tr_tool_name r = name \<and>
     utf8_fits MAX_RESULT_UTF8_BYTES (tr_text r) \<and> list_all (clean_char rt) (tr_text r)"

lemma short_literal_ok:
  assumes "is_ascii s" "length s \<le> MAX_RESULT_UTF8_BYTES" "list_all (\<lambda>c. 32 \<le> c \<and> c \<noteq> 127) s"
  shows "utf8_fits MAX_RESULT_UTF8_BYTES s \<and> list_all (clean_char rt) s"
proof -
  have "clean_char rt c" if "c < 128" "32 \<le> c" "c \<noteq> 127" for c
    using that by (auto simp: clean_char_def py_isspace_def category_C_def is_control_def)
  with assms show ?thesis
    by (auto simp: utf8_fits_def utf8_size_ascii is_ascii_def list_all_iff)
qed

lemma bridge_texts_ok:
  "utf8_fits MAX_RESULT_UTF8_BYTES UNSUPPORTED_RESULT \<and> list_all (clean_char rt) UNSUPPORTED_RESULT"
  "utf8_fits MAX_RESULT_UTF8_BYTES EXECUTION_FAILED \<and> list_all (clean_char rt) EXECUTION_FAILED"
  "utf8_fits MAX_RESULT_UTF8_BYTES CALL_CANCELLED \<and> list_all (clean_char rt) CALL_CANCELLED"
  "utf8_fits MAX_RESULT_UTF8_BYTES (REQUEST_MESSAGES e) \<and> list_all (clean_char rt) (REQUEST_MESSAGES e)"
proof -
  show "utf8_fits MAX_RESULT_UTF8_BYTES UNSUPPORTED_RESULT \<and> list_all (clean_char rt) UNSUPPORTED_RESULT"
    by (rule short_literal_ok) (simp_all add: UNSUPPORTED_RESULT_def lit_def is_ascii_def MAX_RESULT_UTF8_BYTES_def)
  show "utf8_fits MAX_RESULT_UTF8_BYTES EXECUTION_FAILED \<and> list_all (clean_char rt) EXECUTION_FAILED"
    by (rule short_literal_ok) (simp_all add: EXECUTION_FAILED_def lit_def is_ascii_def MAX_RESULT_UTF8_BYTES_def)
  show "utf8_fits MAX_RESULT_UTF8_BYTES CALL_CANCELLED \<and> list_all (clean_char rt) CALL_CANCELLED"
    by (rule short_literal_ok) (simp_all add: CALL_CANCELLED_def lit_def is_ascii_def MAX_RESULT_UTF8_BYTES_def)
  show "utf8_fits MAX_RESULT_UTF8_BYTES (REQUEST_MESSAGES e) \<and> list_all (clean_char rt) (REQUEST_MESSAGES e)"
    by (rule short_literal_ok)
       (cases e; simp add: REQUEST_MESSAGES_def lit_def is_ascii_def MAX_RESULT_UTF8_BYTES_def)+
qed

lemma result_text_ok:
  assumes "unicode_facts rt"
  shows "utf8_fits MAX_RESULT_UTF8_BYTES (fst (result_text rt H v)) \<and>
    list_all (clean_char rt) (fst (result_text rt H v))"
proof -
  have "\<not> category_C rt 8230" using assms by (simp add: unicode_facts_def category_C_def)
  then show ?thesis
    using bounded_text_fits bounded_text_clean bridge_texts_ok(1)
    by (auto simp: result_text_def split: option.splits sum.splits)
qed

lemma finish_call_result:
  assumes "unicode_facts rt" "finish_call rt rid n answer p b = (Completed r, evs)"
  shows "result_ok rt rid n r"
  using assms(2) result_text_ok[OF assms(1)] bridge_texts_ok(2,3)
  by (auto simp: finish_call_def result_ok_def failed_result_def split: await_answer.splits
      sum.splits bool.splits prod.splits) (metis fst_conv)+

lemma start_call_result:
  assumes "bridge_ok rt b" "start_call rt H request_id name args p a b = (Done (Completed r), evs, b')"
  shows "\<exists>rid n. request_id = PStr rid \<and> name = PStr n \<and> result_ok rt rid n r"
proof (cases "validate_call rt H b request_id name args")
  case (Inl out)
  with assms(2) validate_call_Inl[OF Inl] show ?thesis by (auto simp: start_call_def)
next
  case (Inr x)
  obtain rid n d where x: "x = (rid, n, d)" by (cases x)
  from validate_call_Inr[OF assms(1) Inr[unfolded x]] assms(2) Inr x bridge_texts_ok(2) show ?thesis
    by (auto simp: start_call_def result_ok_def failed_result_def Let_def
        split: sum.splits bool.splits execute_answer.splits)
qed

lemma handle_tool_call_result:
  assumes "unicode_facts rt" "bridge_ok rt b"
    "handle_tool_call rt H request_id name args host between b = (Completed r, evs, b')"
  shows "\<exists>rid n. request_id = PStr rid \<and> name = PStr n \<and> result_ok rt rid n r"
proof -
  obtain st e1 b1 where st:
    "start_call rt H request_id name args (ha_before host) (ha_execute host) b = (st, e1, b1)"
    by (rule prod_cases3)
  show ?thesis
  proof (cases st)
    case (Done out)
    with assms st start_call_result[OF assms(2)] show ?thesis
      by (auto simp: handle_tool_call_def)
  next
    case (Awaiting rid n)
    from start_call_effect[OF assms(2) st] Awaiting have "request_id = PStr rid" "name = PStr n" by auto
    with assms st Awaiting finish_call_result[OF assms(1)] show ?thesis
      by (auto simp: handle_tool_call_def Let_def split: prod.splits)
  qed
qed

text \<open>
  C19: The SDK's tool handler never raises a request error: every call of it ends in a bounded
  result that carries the call's own request id and tool name and one clean line of at most
  64 KiB (and nothing of a host exception), or in the cancellation of the task.
\<close>

theorem sdk_handler_bounded_result:
  assumes "unicode_facts rt" and "bridge_new rt H0 services schemas excluded cid = Inr b"
    and "sdk_handler rt H name arguments host between b = (out, evs, b')"
  shows "out = CancelledError \<or>
    (\<exists>r. out = Completed r \<and> result_ok rt (fst (next_sdk_request_id b)) name r)"
proof -
  obtain rid b1 where n: "next_sdk_request_id b = (rid, b1)" by fastforce
  note ok = bridge_new_ok[OF assms(2)]
  with next_id_effect[OF n] have b1: "bridge_ok rt b1" by simp
  obtain o1 e1 b2 where h: "handle_tool_call rt H (PStr rid) (PStr name) arguments host between b1 =
    (o1, e1, b2)" by (rule prod_cases3)
  have out: "out = (case o1 of RequestError e \<Rightarrow> Completed (failed_result b2 rid name (REQUEST_MESSAGES e))
      | other \<Rightarrow> other)"
    using assms(3) n h by (simp add: sdk_handler_def)
  have "\<not> (\<exists>e. o1 = EscapedError e)"
    using handle_tool_call_cases[OF b1 h] h
    by (auto simp: handle_tool_call_def start_call_def finish_call_def is_cancelled_def Let_def
        split: sum.splits prod.splits pyval.splits bool.splits execute_answer.splits await_answer.splits)
  moreover have "result_ok rt rid name r" if "o1 = Completed r" for r
    using handle_tool_call_result[OF assms(1) b1 h[unfolded that]] by auto
  moreover have "result_ok rt rid name (failed_result b2 rid name (REQUEST_MESSAGES e))" for e
    using bridge_texts_ok(4) by (simp add: result_ok_def failed_result_def)
  ultimately show ?thesis using out n by (cases o1) auto
qed

theorem sdk_handler_bounded_result_witness:
  "\<exists>r. fst (sdk_handler sample_rt echo_heap (lit ''nope'') (PRef 4)
      \<lparr>ha_before = Inr (PBool False), ha_execute = ExAwaitable, ha_await = AwRaised,
       ha_after = Inr (PBool False)\<rparr> id echo_bridge) = Completed r \<and> tr_tool_name r = lit ''nope''"
proof -
  let ?h = "\<lparr>ha_before = Inr (PBool False), ha_execute = ExAwaitable, ha_await = AwRaised,
    ha_after = Inr (PBool False)\<rparr>"
  obtain out evs b' where h: "sdk_handler sample_rt echo_heap (lit ''nope'') (PRef 4) ?h id echo_bridge =
    (out, evs, b')" by (rule prod_cases3)
  have "lookup_tool b (lit ''nope'') = None" if "snd (next_sdk_request_id echo_bridge) = b" for b
    using that by (auto simp: next_sdk_request_id_def Let_def lookup_tool_def echo_bridge_def echo_tool_def)
  then have "out \<noteq> CancelledError"
    using h by (auto simp: sdk_handler_def handle_tool_call_def start_call_def validate_call_def
        split: prod.splits option.splits)
  with sdk_handler_bounded_result[OF sample_rt_facts echo_bridge_new h] show ?thesis
    by (auto simp: h result_ok_def)
qed

lemma digits_value_zeros: "digits_value 0 (replicate k 48 @ ds) = digits_value 0 ds"
  by (induction k) auto

lemma pad4_digits: "list_all is_digit (pad4 n)" and pad4_value: "digits_value 0 (pad4 n) = n"
  using dec_nat_digits[of n] digits_value_dec_nat[of n]
  by (auto simp: pad4_def digits_value_zeros list_all_iff is_digit_def)

text \<open>The number a request id ends with.\<close>

definition id_number :: "ustr \<Rightarrow> nat" where
  "id_number s = digits_value 0 (rev (takeWhile is_digit (rev s)))"

lemma id_number_suffix: "id_number (p @ lit ''sdk-call-'' @ pad4 n) = n"
proof -
  have "takeWhile is_digit (rev (pad4 n) @ 45 # xs) = rev (pad4 n)" for xs
    using pad4_digits[of n] by (subst takeWhile_append2) (auto simp: list_all_iff is_digit_def)
  moreover have "rev (p @ lit ''sdk-call-'' @ pad4 n) =
      rev (pad4 n) @ 45 # rev (p @ lit ''sdk-call'')"
    by (simp add: lit_def)
  ultimately show ?thesis by (simp add: id_number_def pad4_value del: rev_append)
qed

lemma next_id_number: "id_number (fst (next_sdk_request_id b)) = hb_sdk_call_count b + 1"
proof -
  let ?n = "hb_sdk_call_count b + 1"
  obtain p where "fst (next_sdk_request_id b) = p @ lit ''sdk-call-'' @ pad4 ?n"
  proof -
    define prefix where "prefix = (case hb_correlation_id b of None \<Rightarrow> lit ''sdk'' | Some p \<Rightarrow> p)"
    have split: "lit '':sdk-call-'' = lit '':'' @ lit ''sdk-call-''" by (simp add: lit_def)
    have "fst (next_sdk_request_id b) = (prefix @ lit '':'') @ lit ''sdk-call-'' @ pad4 ?n \<or>
        fst (next_sdk_request_id b) = [] @ lit ''sdk-call-'' @ pad4 ?n"
      by (auto simp: next_sdk_request_id_def Let_def prefix_def safe_identifier_Some split split: option.splits)
    with that show ?thesis by blast
  qed
  then show ?thesis by (simp add: id_number_suffix)
qed

text \<open>The ids of the SDK calls in a run, in order.\<close>

fun sdk_call_ids :: "pyrt \<Rightarrow> bridge_op list \<Rightarrow> bridge_system \<Rightarrow> ustr list" where
  "sdk_call_ids rt [] s = []"
| "sdk_call_ids rt (op # ops) s =
     (case op of OpSdkCall _ _ _ _ _ \<Rightarrow> [fst (next_sdk_request_id (bs_bridge s))] | _ \<Rightarrow> [])
     @ sdk_call_ids rt ops (snd (bridge_do rt op s))"

lemma start_call_count:
  "start_call rt H rid name args p a b = (st, evs, b') \<Longrightarrow> hb_sdk_call_count b' = hb_sdk_call_count b"
  by (auto simp: start_call_def Let_def split: sum.splits prod.splits bool.splits execute_answer.splits)

lemma bridge_do_count:
  "hb_sdk_call_count (bs_bridge (snd (bridge_do rt op s))) =
     hb_sdk_call_count (bs_bridge s) + (case op of OpSdkCall _ _ _ _ _ \<Rightarrow> 1 | _ \<Rightarrow> 0)"
proof -
  have after: "hb_sdk_call_count (bs_bridge (snd (after_start (start_call rt H rid name args p a b) s))) =
      hb_sdk_call_count b" for H rid name args p a b
  proof -
    obtain st e b' where c: "start_call rt H rid name args p a b = (st, e, b')" by (rule prod_cases3)
    with start_call_count[OF c] show ?thesis by (cases st) (auto simp: after_start_def)
  qed
  show ?thesis
  proof (cases op)
    case (OpSdkCall H name args p a)
    obtain rid b1 where n: "next_sdk_request_id (bs_bridge s) = (rid, b1)" by fastforce
    with next_id_effect[OF n] OpSdkCall show ?thesis by (simp add: after)
  next
    case (OpBeginTurn cid)
    then show ?thesis
      by (auto simp: begin_turn_def config_error_def split: sum.splits if_splits option.splits)
  qed (auto simp: after Let_def split: prod.splits)
qed

lemma sdk_call_ids_numbers:
  "id_number ` set (sdk_call_ids rt ops s) \<subseteq> {hb_sdk_call_count (bs_bridge s) <..} \<and>
   distinct (map id_number (sdk_call_ids rt ops s))"
proof (induction ops arbitrary: s)
  case (Cons op ops)
  let ?s1 = "snd (bridge_do rt op s)"
  note IH = Cons.IH[of ?s1, unfolded bridge_do_count]
  show ?case
  proof (cases op)
    case (OpSdkCall H name args p a)
    with IH show ?thesis
      by (fastforce simp: next_id_number simp del: bridge_do.simps)
  qed (use IH in \<open>auto simp del: bridge_do.simps\<close>)
qed simp

text \<open>
  No two SDK tool calls of a bridge share a request id, in any interleaving and across any
  changes of the turn correlation, also when an id falls back to the bare counter because the
  correlation is long.
\<close>

theorem sdk_request_ids_unique:
  "distinct (sdk_call_ids rt ops s)"
  using sdk_call_ids_numbers[of rt ops s] by (simp add: distinct_map)

end
