(* ===== verification/Zero_Native.thy ===== *)
theory Zero_Native
  imports Json_Text
begin

section \<open>The zero-native boundary (content\_events.py)\<close>

text \<open>
  Before an SDK message is projected, \<^verbatim>\<open>zero_native_violation\<close> decides whether it shows use of a
  tool other than Hermes' own MCP tools. The check reads provider-controlled objects, so a
  property that raises counts as absent; a key of a set that cannot be hashed raises
  \<^verbatim>\<open>TypeError\<close>. For stream events the check keeps a map from block index to tool name.
\<close>

definition MAX_TEXT_CHARS :: nat where "MAX_TEXT_CHARS = 4000"
definition MAX_IDENTIFIER_CHARS :: nat where "MAX_IDENTIFIER_CHARS = 128"
definition MAX_ARGUMENT_STRING_CHARS :: nat where "MAX_ARGUMENT_STRING_CHARS = 2000"
definition MAX_ARGUMENT_KEYS :: nat where "MAX_ARGUMENT_KEYS = 32"
definition MAX_ARGUMENT_ITEMS :: nat where "MAX_ARGUMENT_ITEMS = 32"
definition MAX_ARGUMENT_DEPTH :: nat where "MAX_ARGUMENT_DEPTH = 4"
definition MAX_USAGE_TOKENS :: int where "MAX_USAGE_TOKENS = 10 ^ 12"
definition STREAM_TOOL_INDEX_LIMIT :: int where "STREAM_TOOL_INDEX_LIMIT = 128"

subsection \<open>Reading untrusted objects\<close>

definition safe_attr :: "heap \<Rightarrow> pyval \<Rightarrow> string \<Rightarrow> pyval" where
  "safe_attr H v name = (case attr_of H v (lit name) of Present x \<Rightarrow> x | _ \<Rightarrow> PNone)"

text \<open>\<open>None\<close> is the sentinel \<^verbatim>\<open>_MISSING\<close>.\<close>

fun mapping_value :: "heap \<Rightarrow> pyval \<Rightarrow> string list \<Rightarrow> pyval option" where
  "mapping_value H source [] = None"
| "mapping_value H source (k # ks) =
     (if \<not> is_mapping H source then None
      else (case mapping_find H source (lit k) of
              Inl _ \<Rightarrow> None
            | Inr (Some v) \<Rightarrow> Some v
            | Inr None \<Rightarrow> mapping_value H source ks))"

text \<open>
  \<^verbatim>\<open>x in {...}\<close> hashes \<open>x\<close>: lists, sets and mappings raise, a tuple hashes its elements.
  \<open>k\<close> bounds the nesting of tuples.
\<close>

fun hashable :: "nat \<Rightarrow> heap \<Rightarrow> pyval \<Rightarrow> bool" where
  "hashable 0 H v = True"
| "hashable (Suc k) H v =
     (case v of PRef a \<Rightarrow>
        (case H a of OList _ \<Rightarrow> False | OSet _ \<Rightarrow> False | ODict _ \<Rightarrow> False | OMapping _ \<Rightarrow> False
         | OTuple xs \<Rightarrow> list_all (hashable k H) xs | _ \<Rightarrow> True)
      | _ \<Rightarrow> True)"

definition in_names :: "heap \<Rightarrow> pyval option \<Rightarrow> string list \<Rightarrow> exn + bool" where
  "in_names H v names =
     (case v of None \<Rightarrow> Inr False
      | Some x \<Rightarrow> if hashable 1000 H x then Inr (str_in x names) else Inl TypeError)"

definition NATIVE_BLOCK_TYPES :: "string list" where
  "NATIVE_BLOCK_TYPES = [''server_tool_use'', ''server_tool_result'', ''tool_result'']"

subsection \<open>Stream events\<close>

type_synonym tool_indexes = "(int \<times> ustr) list"

definition stream_index :: "pyval option \<Rightarrow> int option" where
  "stream_index v =
     (case v of Some (PInt i) \<Rightarrow> if 0 \<le> i \<and> i < STREAM_TOOL_INDEX_LIMIT then Some i else None
      | _ \<Rightarrow> None)"

text \<open>The exact name of an allowed tool, read from a block or a delta.\<close>

definition allowed_name :: "ustr list \<Rightarrow> pyval option \<Rightarrow> ustr option" where
  "allowed_name allowed v =
     (case v of Some (PStr n) \<Rightarrow> if n \<in> set allowed then Some n else None | _ \<Rightarrow> None)"

definition note_tool :: "int option \<Rightarrow> ustr \<Rightarrow> tool_indexes \<Rightarrow> tool_indexes" where
  "note_tool index name ixs = (case index of None \<Rightarrow> ixs | Some i \<Rightarrow> dict_set i name ixs)"

type_synonym verdict = "exn + bool \<times> tool_indexes"

text \<open>The test of a block or delta; \<open>None\<close> when it does not decide.\<close>

definition block_verdict ::
    "heap \<Rightarrow> ustr list \<Rightarrow> int option \<Rightarrow> pyval option \<Rightarrow> tool_indexes \<Rightarrow> verdict option" where
  "block_verdict H allowed index block ixs =
     (case block of None \<Rightarrow> None
      | Some b \<Rightarrow>
          if \<not> is_mapping H b then None
          else (let block_type = mapping_value H b [''type'']
                in case in_names H block_type NATIVE_BLOCK_TYPES of
                     Inl e \<Rightarrow> Some (Inl e)
                   | Inr True \<Rightarrow> Some (Inr (True, ixs))
                   | Inr False \<Rightarrow>
                       if block_type = Some (PStr (lit ''tool_use'')) then
                         (case allowed_name allowed (mapping_value H b [''name'']) of
                            None \<Rightarrow> Some (Inr (True, ixs))
                          | Some n \<Rightarrow> Some (Inr (False, note_tool index n ixs)))
                       else None))"

definition delta_verdict ::
    "heap \<Rightarrow> ustr list \<Rightarrow> int option \<Rightarrow> pyval option \<Rightarrow> tool_indexes \<Rightarrow> verdict option" where
  "delta_verdict H allowed index delta ixs =
     (case delta of None \<Rightarrow> None
      | Some b \<Rightarrow>
          if \<not> is_mapping H b then None
          else (let delta_type = mapping_value H b [''type'']
                in case in_names H delta_type NATIVE_BLOCK_TYPES of
                     Inl e \<Rightarrow> Some (Inl e)
                   | Inr True \<Rightarrow> Some (Inr (True, ixs))
                   | Inr False \<Rightarrow>
                       if delta_type = Some (PStr (lit ''tool_use'')) \<or>
                          delta_type = Some (PStr (lit ''tool_use_delta'')) then
                         (case allowed_name allowed (mapping_value H b [''name'']) of
                            None \<Rightarrow> Some (Inr (True, ixs))
                          | Some n \<Rightarrow> Some (Inr (False, note_tool index n ixs)))
                       else if delta_type = Some (PStr (lit ''input_json_delta'')) then
                         Some (Inr (case index of None \<Rightarrow> True | Some i \<Rightarrow> map_of ixs i = None, ixs))
                       else None))"

definition stream_tool_violation :: "heap \<Rightarrow> ustr list \<Rightarrow> pyval \<Rightarrow> tool_indexes \<Rightarrow> verdict" where
  "stream_tool_violation H allowed message ixs =
     (let event = safe_attr H message ''event''
      in if \<not> is_mapping H event then Inr (False, ixs)
         else
           (let index = stream_index (mapping_value H event [''index'']);
                event_type = mapping_value H event [''type''];
                block = mapping_value H event [''content_block'', ''contentBlock''];
                delta = mapping_value H event [''delta'']
            in case block_verdict H allowed index block ixs of
                 Some v \<Rightarrow> v
               | None \<Rightarrow>
                   (case delta_verdict H allowed index delta ixs of
                      Some v \<Rightarrow> v
                    | None \<Rightarrow>
                        if event_type \<in> {Some (PStr (lit ''content_block_stop'')),
                                          Some (PStr (lit ''contentBlockStop''))} then
                          Inr (False, case index of None \<Rightarrow> ixs | Some i \<Rightarrow> dict_del i ixs)
                        else if event_type \<in> {Some (PStr (lit ''content_block_start'')),
                                               Some (PStr (lit ''contentBlockStart''))} then
                          (case block of
                             None \<Rightarrow> Inr (False, ixs)
                           | Some b \<Rightarrow>
                               if \<not> is_mapping H b then Inr (False, ixs)
                               else (case in_names H (mapping_value H b [''type'']) [''text'', ''thinking''] of
                                       Inl e \<Rightarrow> Inl e | Inr ok \<Rightarrow> Inr (\<not> ok, ixs)))
                        else Inr (False, ixs))))"

subsection \<open>Whole messages\<close>

definition block_violation :: "heap \<Rightarrow> ustr list \<Rightarrow> pyval \<Rightarrow> bool" where
  "block_violation H allowed block =
     (let block_name = type_name H block
      in if block_name \<in> {lit ''ServerToolUseBlock'', lit ''ServerToolResultBlock''} then True
         else if block_name = lit ''ToolUseBlock'' then
           (case attr_of H block (lit ''name'') of
              Present (PStr n) \<Rightarrow> n \<notin> set allowed \<or> safe_attr H block ''parent_tool_use_id'' \<noteq> PNone
            | _ \<Rightarrow> True)
         else False)"

definition zero_native_violation :: "heap \<Rightarrow> ustr list \<Rightarrow> pyval \<Rightarrow> tool_indexes \<Rightarrow> verdict" where
  "zero_native_violation H allowed message ixs =
     (let message_name = type_name H message
      in if startswith message_name (lit ''Task'') then Inr (True, ixs)
         else if (case safe_attr H message ''subtype'' of PStr s \<Rightarrow> startswith s (lit ''task_'') | _ \<Rightarrow> False)
         then Inr (True, ixs)
         else if safe_attr H message ''parent_tool_use_id'' \<noteq> PNone then Inr (True, ixs)
         else if message_name = lit ''ResultMessage'' \<and> safe_attr H message ''deferred_tool_use'' \<noteq> PNone
         then Inr (True, ixs)
         else if message_name = lit ''StreamEvent'' then stream_tool_violation H allowed message ixs
         else (case seq_items H (safe_attr H message ''content'') of
                 None \<Rightarrow> Inr (False, ixs)
               | Some blocks \<Rightarrow>
                   Inr (list_ex (block_violation H allowed) (take MAX_ARGUMENT_ITEMS blocks), ixs)))"

subsection \<open>The proved tool indexes\<close>

text \<open>Every remembered index belongs to an allowed tool.\<close>

definition indexes_ok :: "ustr list \<Rightarrow> tool_indexes \<Rightarrow> bool" where
  "indexes_ok allowed ixs \<longleftrightarrow>
     (\<forall>(i, n) \<in> set ixs. 0 \<le> i \<and> i < STREAM_TOOL_INDEX_LIMIT \<and> n \<in> set allowed) \<and>
     distinct (map fst ixs)"

lemma indexes_ok_note:
  assumes "indexes_ok allowed ixs" "stream_index v = index" "n \<in> set allowed"
  shows "indexes_ok allowed (note_tool index n ixs)"
  using assms set_dict_set_subset[of _ n ixs]
  by (fastforce simp: indexes_ok_def note_tool_def stream_index_def distinct_dict_set
      split: option.splits pyval.splits if_splits)

lemma indexes_ok_del: "indexes_ok allowed ixs \<Longrightarrow> indexes_ok allowed (dict_del i ixs)"
  by (auto simp: indexes_ok_def dict_del_def distinct_map_filter)

lemma allowed_name_Some: "allowed_name allowed v = Some n \<Longrightarrow> n \<in> set allowed"
  by (auto simp: allowed_name_def split: option.splits pyval.splits if_splits)

lemma block_verdict_ok:
  "block_verdict H allowed index block ixs = Some (Inr (bad, ixs')) \<Longrightarrow> indexes_ok allowed ixs \<Longrightarrow>
   index = stream_index v \<Longrightarrow> indexes_ok allowed ixs'"
  by (auto simp: block_verdict_def Let_def intro: indexes_ok_note allowed_name_Some
      split: option.splits if_splits sum.splits bool.splits)

lemma delta_verdict_ok:
  "delta_verdict H allowed index delta ixs = Some (Inr (bad, ixs')) \<Longrightarrow> indexes_ok allowed ixs \<Longrightarrow>
   index = stream_index v \<Longrightarrow> indexes_ok allowed ixs'"
  by (auto simp: delta_verdict_def Let_def intro: indexes_ok_note allowed_name_Some
      split: option.splits if_splits sum.splits bool.splits)

lemma stream_tool_violation_ok:
  assumes "stream_tool_violation H allowed message ixs = Inr (bad, ixs')" "indexes_ok allowed ixs"
  shows "indexes_ok allowed ixs'"
proof -
  define event where "event = safe_attr H message ''event''"
  define index where "index = stream_index (mapping_value H event [''index''])"
  show ?thesis
    using assms
      block_verdict_ok[of H allowed index "mapping_value H event [''content_block'', ''contentBlock'']" ixs bad ixs',
        OF _ assms(2) index_def]
      delta_verdict_ok[of H allowed index "mapping_value H event [''delta'']" ixs bad ixs',
        OF _ assms(2) index_def]
      indexes_ok_del[OF assms(2)]
    by (auto simp: stream_tool_violation_def Let_def event_def[symmetric] index_def[symmetric]
        simp del: mapping_value.simps split: if_splits option.splits sum.splits)
qed

lemma zero_native_violation_ok:
  "zero_native_violation H allowed message ixs = Inr (bad, ixs') \<Longrightarrow> indexes_ok allowed ixs \<Longrightarrow>
   indexes_ok allowed ixs'"
  by (auto simp: zero_native_violation_def Let_def intro: stream_tool_violation_ok
      split: if_splits option.splits)

subsection \<open>A turn's messages\<close>

text \<open>The reader's use of the check: one map for all messages of a turn.\<close>

fun zero_native_run ::
    "heap \<Rightarrow> ustr list \<Rightarrow> pyval list \<Rightarrow> tool_indexes \<Rightarrow> exn + bool list \<times> tool_indexes" where
  "zero_native_run H allowed [] ixs = Inr ([], ixs)"
| "zero_native_run H allowed (m # ms) ixs =
     (case zero_native_violation H allowed m ixs of Inl e \<Rightarrow> Inl e
      | Inr (bad, ixs1) \<Rightarrow>
          (case zero_native_run H allowed ms ixs1 of Inl e \<Rightarrow> Inl e
           | Inr (bads, ixs2) \<Rightarrow> Inr (bad # bads, ixs2)))"

lemma zero_native_run_ok:
  "zero_native_run H allowed ms ixs = Inr (bads, ixs') \<Longrightarrow> indexes_ok allowed ixs \<Longrightarrow>
   indexes_ok allowed ixs'"
proof (induction ms arbitrary: ixs bads)
  case (Cons m ms)
  from Cons.prems(1) obtain bad ixs1 bads1 where
    "zero_native_violation H allowed m ixs = Inr (bad, ixs1)"
    "zero_native_run H allowed ms ixs1 = Inr (bads1, ixs')"
    by (auto split: sum.splits)
  with Cons.IH Cons.prems(2) zero_native_violation_ok show ?case by blast
qed simp

text \<open>A stream event that carries a JSON fragment of a tool's input, and its index.\<close>

definition is_json_delta :: "heap \<Rightarrow> pyval \<Rightarrow> bool" where
  "is_json_delta H message =
     (let event = safe_attr H message ''event''
      in type_name H message = lit ''StreamEvent'' \<and> is_mapping H event \<and>
         (\<forall>b. mapping_value H event [''content_block'', ''contentBlock''] = Some b \<longrightarrow> \<not> is_mapping H b) \<and>
         (\<exists>d. mapping_value H event [''delta''] = Some d \<and> is_mapping H d \<and>
              mapping_value H d [''type''] = Some (PStr (lit ''input_json_delta''))))"

definition event_index :: "heap \<Rightarrow> pyval \<Rightarrow> int option" where
  "event_index H message = stream_index (mapping_value H (safe_attr H message ''event'') [''index''])"

lemma json_delta_accepted:
  assumes "is_json_delta H m" "zero_native_violation H allowed m ixs = Inr (False, ixs')"
  shows "\<exists>i n. event_index H m = Some i \<and> map_of ixs i = Some n"
proof -
  define event where "event = safe_attr H m ''event''"
  from assms(1) obtain d where d: "type_name H m = lit ''StreamEvent''" "is_mapping H event"
    "\<And>b. mapping_value H event [''content_block'', ''contentBlock''] = Some b \<Longrightarrow> \<not> is_mapping H b"
    "mapping_value H event [''delta''] = Some d" "is_mapping H d"
    "mapping_value H d [''type''] = Some (PStr (lit ''input_json_delta''))"
    by (auto simp: is_json_delta_def Let_def event_def[symmetric] simp del: mapping_value.simps)
  have "block_verdict H allowed k (mapping_value H event [''content_block'', ''contentBlock'']) ixs = None" for k
    using d(3) by (auto simp: block_verdict_def simp del: mapping_value.simps split: option.split)
  moreover have "delta_verdict H allowed k (Some d) ixs =
      Some (Inr (case k of None \<Rightarrow> True | Some i \<Rightarrow> map_of ixs i = None, ixs))" for k
    using d(5,6) by (simp add: delta_verdict_def in_names_def NATIVE_BLOCK_TYPES_def numeral_eq_Suc
        del: mapping_value.simps)
  moreover have "\<not> startswith (lit ''StreamEvent'') (lit ''Task'')"
    by (simp add: startswith_def lit_def)
  ultimately have "(case event_index H m of None \<Rightarrow> True | Some i \<Rightarrow> map_of ixs i = None) = False"
    using assms(2) d(1,2,4)
    by (auto simp: zero_native_violation_def stream_tool_violation_def Let_def event_def[symmetric]
        event_index_def simp del: mapping_value.simps split: if_splits)
  then show ?thesis by (auto split: option.splits)
qed

subsection \<open>Properties\<close>

text \<open>
  In a turn's stream a fragment of tool input is accepted only for a block index in
  [0, 128) that an earlier event of the turn proved to belong to an allowed Hermes tool; the
  map of proved indexes never holds anything else.
\<close>

theorem json_delta_only_for_proved_tools:
  assumes "zero_native_run H allowed earlier [] = Inr (bads, ixs)"
    and "is_json_delta H m" and "zero_native_violation H allowed m ixs = Inr (False, ixs')"
  shows "indexes_ok allowed ixs \<and>
    (\<exists>i n. event_index H m = Some i \<and> 0 \<le> i \<and> i < STREAM_TOOL_INDEX_LIMIT \<and>
       map_of ixs i = Some n \<and> n \<in> set allowed)"
proof -
  have ok: "indexes_ok allowed ixs"
    by (rule zero_native_run_ok[OF assms(1)]) (simp add: indexes_ok_def)
  moreover from json_delta_accepted[OF assms(2,3)] obtain i n where
    "event_index H m = Some i" "map_of ixs i = Some n" by blast
  ultimately show ?thesis by (auto simp: indexes_ok_def dest!: map_of_SomeD)
qed

text \<open>A stream that opens an allowed tool at index 5 and then sends a fragment for it.\<close>

definition stream_heap :: heap where
  "stream_heap = (\<lambda>_. ODict [])
     (2 := OInst (lit ''StreamEvent'') [(lit ''event'', Some (PRef 3))],
      3 := ODict [(PStr (lit ''type''), PStr (lit ''content_block_start'')),
                  (PStr (lit ''index''), PInt 5), (PStr (lit ''content_block''), PRef 4)],
      4 := ODict [(PStr (lit ''type''), PStr (lit ''tool_use'')),
                  (PStr (lit ''name''), PStr (lit ''mcp__hermes-tools__echo''))],
      5 := OInst (lit ''StreamEvent'') [(lit ''event'', Some (PRef 6))],
      6 := ODict [(PStr (lit ''index''), PInt 5), (PStr (lit ''delta''), PRef 7)],
      7 := ODict [(PStr (lit ''type''), PStr (lit ''input_json_delta''))])"

definition echo_allowed :: "ustr list" where
  "echo_allowed = [lit ''mcp__hermes-tools__echo'']"

lemmas zero_native_run_simps = zero_native_violation_def stream_tool_violation_def Let_def
  type_name_def safe_attr_def attr_of_def is_mapping_def mapping_find_def mapping_items_def
  stream_index_def STREAM_TOOL_INDEX_LIMIT_def block_verdict_def delta_verdict_def in_names_def
  NATIVE_BLOCK_TYPES_def allowed_name_def note_tool_def startswith_def

lemma hashable_PStr [simp]: "hashable k H (PStr s)"
  by (cases k) auto

lemma not_Task [simp]: "\<not> startswith (lit ''StreamEvent'') (lit ''Task'')"
  by (simp add: startswith_def lit_def)

theorem json_delta_only_for_proved_tools_witness:
  "event_index stream_heap (PRef 5) = Some 5 \<and>
   zero_native_run stream_heap echo_allowed [PRef 2] [] =
     Inr ([False], [(5, lit ''mcp__hermes-tools__echo'')]) \<and>
   indexes_ok echo_allowed [(5, lit ''mcp__hermes-tools__echo'')]"
proof -
  have run: "zero_native_run stream_heap echo_allowed [PRef 2] [] =
      Inr ([False], [(5, lit ''mcp__hermes-tools__echo'')])"
    by (simp add: stream_heap_def zero_native_violation_def stream_tool_violation_def Let_def
        type_name_def safe_attr_def attr_of_def is_mapping_def mapping_find_def mapping_items_def
        stream_index_def STREAM_TOOL_INDEX_LIMIT_def block_verdict_def in_names_def
        NATIVE_BLOCK_TYPES_def allowed_name_def note_tool_def echo_allowed_def)
  have delta: "is_json_delta stream_heap (PRef 5)"
    by (simp add: is_json_delta_def stream_heap_def type_name_def safe_attr_def attr_of_def
        is_mapping_def mapping_find_def mapping_items_def)
  have ok: "zero_native_violation stream_heap echo_allowed (PRef 5)
      [(5, lit ''mcp__hermes-tools__echo'')] =
      Inr (False, [(5, lit ''mcp__hermes-tools__echo'')])"
    by (simp add: stream_heap_def zero_native_violation_def stream_tool_violation_def Let_def
        type_name_def safe_attr_def attr_of_def is_mapping_def mapping_find_def mapping_items_def
        stream_index_def STREAM_TOOL_INDEX_LIMIT_def block_verdict_def delta_verdict_def in_names_def
        NATIVE_BLOCK_TYPES_def)
  from json_delta_only_for_proved_tools[OF run delta ok] run show ?thesis
    by (auto split: if_splits simp del: zero_native_run.simps)
qed


definition assistant_heap :: "pyval list \<Rightarrow> heap" where
  "assistant_heap blocks = (\<lambda>_. OInst (lit ''TextBlock'') [])
     (2 := OInst (lit ''AssistantMessage'') [(lit ''content'', Some (PRef 3))],
      3 := OList blocks,
      4 := OInst (lit ''ServerToolUseBlock'') [])"

lemma assistant_heap_simps [simp]:
  "type_name (assistant_heap bs) (PRef 2) = lit ''AssistantMessage''"
  "safe_attr (assistant_heap bs) (PRef 2) ''content'' = PRef 3"
  "safe_attr (assistant_heap bs) (PRef 2) ''subtype'' = PNone"
  "safe_attr (assistant_heap bs) (PRef 2) ''parent_tool_use_id'' = PNone"
  "seq_items (assistant_heap bs) (PRef 3) = Some bs"
  "type_name (assistant_heap bs) (PRef 5) = lit ''TextBlock''"
  "type_name (assistant_heap bs) (PRef 4) = lit ''ServerToolUseBlock''"
  "\<not> startswith (lit ''AssistantMessage'') (lit ''Task'')"
  by (simp_all add: assistant_heap_def type_name_def safe_attr_def attr_of_def seq_items_def
      startswith_def) (simp add: lit_def)


text \<open>
  The boundary inspects no block after the 32nd: a message whose content ends in a native
  server tool block passes when 32 harmless blocks precede it.
\<close>

theorem native_block_after_limit_passes:
  "block_violation (assistant_heap (replicate 32 (PRef 5) @ [PRef 4])) allowed (PRef 4) \<and>
   zero_native_violation (assistant_heap (replicate 32 (PRef 5) @ [PRef 4])) allowed (PRef 2) ixs =
     Inr (False, ixs)"
proof -
  have "\<not> block_violation (assistant_heap bs) allowed (PRef 5)" for bs
    by (simp add: block_violation_def)
  then have "\<not> list_ex (block_violation (assistant_heap bs) allowed) (replicate n (PRef 5))" for bs n
    by (simp add: list_ex_iff)
  then show ?thesis
    by (simp add: zero_native_violation_def MAX_ARGUMENT_ITEMS_def block_violation_def[of _ _ "PRef 4"]
        del: replicate.simps)
qed

end
