(* ===== verification/Safe_Values.thy ===== *)
theory Safe_Values
  imports Zero_Native Regex
begin

section \<open>Bounded public values (content\_events.py)\<close>

text \<open>
  What the projector makes of provider-controlled data before it enters an event: texts cut to
  a length, identifiers, model identifiers, JSON-like values of bounded size, token counts.
  The lemmas bound every result and show that data within the bounds is passed unchanged.
\<close>

subsection \<open>Text and identifiers\<close>

definition ce_text :: "nat \<Rightarrow> pyval \<Rightarrow> ustr" where
  "ce_text limit value = (case value of PStr s \<Rightarrow> take limit s | _ \<Rightarrow> [])"

definition UNSAFE_IDENTIFIER :: regex where
  "UNSAFE_IDENTIFIER = Rep 1 None (\<lambda>c. \<not> identifier_char c)"

definition ce_identifier :: "ustr \<Rightarrow> pyval \<Rightarrow> ustr" where
  "ce_identifier dflt value =
     (let text = py_strip (ce_text MAX_IDENTIFIER_CHARS value)
      in if text = [] then dflt
         else (let text = re_sub UNSAFE_IDENTIFIER [95] text in if text = [] then dflt else text))"

definition model_char :: "nat \<Rightarrow> bool" where
  "model_char c \<longleftrightarrow> identifier_char c \<or> c = 47"

definition SAFE_MODEL_IDENTIFIER :: regex where
  "SAFE_MODEL_IDENTIFIER = Seq (Cls is_alnum) (Rep 0 None model_char)"

definition safe_model_identifier :: "pyrt \<Rightarrow> pyval \<Rightarrow> ustr option" where
  "safe_model_identifier rt value =
     (case value of
        PStr s \<Rightarrow>
          (let text = py_strip s
           in if text = [] \<or> length text > MAX_IDENTIFIER_CHARS \<or> list_ex is_control text then None
              else if py_casefold rt text = lit ''unknown'' \<or> \<not> fullmatch SAFE_MODEL_IDENTIFIER text
              then None else Some text)
      | _ \<Rightarrow> None)"

subsection \<open>JSON-like values\<close>

definition UNAVAILABLE :: json where "UNAVAILABLE = JStr (lit ''[unavailable]'')"
definition UNAVAILABLE_TOOL_INPUT :: json where
  "UNAVAILABLE_TOOL_INPUT = JStr (lit ''[unavailable tool input]'')"
definition UNAVAILABLE_TOOL_RESULT :: ustr where
  "UNAVAILABLE_TOOL_RESULT = lit ''[unavailable tool result]''"

fun safe_items :: "(pyval \<Rightarrow> json) \<Rightarrow> (pyval \<times> pyval) list \<Rightarrow> (ustr \<times> json) list \<Rightarrow> (ustr \<times> json) list" where
  "safe_items f [] out = out"
| "safe_items f ((key, item) # items) out =
     (case key of
        PStr k \<Rightarrow> safe_items f items (dict_set (take MAX_IDENTIFIER_CHARS k) (f item) out)
      | _ \<Rightarrow> safe_items f items out)"

text \<open>\<open>room\<close> is \<open>MAX_ARGUMENT_DEPTH - depth\<close>, \<open>seen\<close> the containers on the current path.\<close>

fun safe_json_value :: "heap \<Rightarrow> nat \<Rightarrow> addr list \<Rightarrow> pyval \<Rightarrow> json" where
  "safe_json_value H room seen value =
     (case value of
        PNone \<Rightarrow> JNull
      | PStr s \<Rightarrow> JStr (take MAX_ARGUMENT_STRING_CHARS s)
      | PBool b \<Rightarrow> JBool b
      | PInt i \<Rightarrow> if \<bar>i\<bar> \<le> MAX_USAGE_TOKENS then JInt i else UNAVAILABLE
      | PFloat f \<Rightarrow> (case f of FFin r \<Rightarrow> JFloat f | _ \<Rightarrow> UNAVAILABLE)
      | PRef a \<Rightarrow>
          (case room of 0 \<Rightarrow> UNAVAILABLE
           | Suc room' \<Rightarrow>
               if a \<in> set seen then UNAVAILABLE
               else
                 (let child = safe_json_value H room' (a # seen);
                      seq = (\<lambda>xs. JList (map child (take MAX_ARGUMENT_ITEMS xs)));
                      items = (\<lambda>kvs. JDict (safe_items child (take MAX_ARGUMENT_KEYS kvs) []))
                  in (case H a of
                        ODict kvs \<Rightarrow> items kvs
                      | OMapping (Some kvs) \<Rightarrow> items kvs
                      | OList xs \<Rightarrow> seq xs
                      | OTuple xs \<Rightarrow> seq xs
                      | _ \<Rightarrow> UNAVAILABLE))))"

declare safe_json_value.simps [simp del]

definition safe_json :: "heap \<Rightarrow> pyval \<Rightarrow> json" where
  "safe_json H value = safe_json_value H MAX_ARGUMENT_DEPTH [] value"

definition safe_tool_arguments :: "heap \<Rightarrow> pyval \<Rightarrow> json" where
  "safe_tool_arguments H value =
     (if value = PNone then JDict []
      else if is_mapping H value then
        (case safe_json H value of JDict d \<Rightarrow> JDict d
         | _ \<Rightarrow> JDict [(lit ''input'', UNAVAILABLE_TOOL_INPUT)])
      else (let normalized = safe_json H value
            in JDict [(lit ''input'', if normalized = UNAVAILABLE then UNAVAILABLE_TOOL_INPUT
                                     else normalized)]))"

definition dumped :: "pyrt \<Rightarrow> json \<Rightarrow> ustr" where
  "dumped rt j = (case dumps_spaced rt j of Inl _ \<Rightarrow> UNAVAILABLE_TOOL_RESULT | Inr t \<Rightarrow> t)"

definition result_part :: "pyrt \<Rightarrow> heap \<Rightarrow> pyval \<Rightarrow> ustr" where
  "result_part rt H item =
     (case (if is_mapping H item
            then (case (mapping_find H item (lit ''type''), mapping_find H item (lit ''text'')) of
                    (Inr (Some t), Inr (Some (PStr x))) \<Rightarrow>
                      if t = PStr (lit ''text'') \<and> x \<noteq> [] then Some x else None
                  | _ \<Rightarrow> None)
            else None) of
        Some x \<Rightarrow> take MAX_TEXT_CHARS x
      | None \<Rightarrow> dumped rt (safe_json H item))"

definition flatten_tool_result_content :: "pyrt \<Rightarrow> heap \<Rightarrow> pyval \<Rightarrow> ustr" where
  "flatten_tool_result_content rt H content =
     (case content of
        PNone \<Rightarrow> []
      | PStr s \<Rightarrow> take MAX_TEXT_CHARS s
      | _ \<Rightarrow>
          if is_mapping H content then
            (case dumps_spaced rt (safe_json H content) of
               Inl _ \<Rightarrow> UNAVAILABLE_TOOL_RESULT | Inr t \<Rightarrow> take MAX_TEXT_CHARS t)
          else (case seq_items H content of
                  Some xs \<Rightarrow>
                    take MAX_TEXT_CHARS
                      (py_join [10] (map (result_part rt H) (take MAX_ARGUMENT_ITEMS xs)))
                | None \<Rightarrow> UNAVAILABLE_TOOL_RESULT))"

subsection \<open>Numbers\<close>

definition decimal_digit :: "pyrt \<Rightarrow> nat \<Rightarrow> nat option" where
  "decimal_digit rt c =
     (if is_digit c then Some (c - 48) else if c < 128 then None else rt_decimal rt c)"

definition decimal_number :: "pyrt \<Rightarrow> ustr \<Rightarrow> nat" where
  "decimal_number rt s =
     foldl (\<lambda>n c. n * 10 + (case decimal_digit rt c of None \<Rightarrow> 0 | Some d \<Rightarrow> d)) 0 s"

definition clamp_tokens :: "int \<Rightarrow> int" where
  "clamp_tokens i = min (max i 0) MAX_USAGE_TOKENS"

text \<open>\<^verbatim>\<open>int(text)\<close> of more than 4300 digits raises \<^verbatim>\<open>ValueError\<close>.\<close>

definition coerce_usage_int :: "pyrt \<Rightarrow> pyval \<Rightarrow> exn + int" where
  "coerce_usage_int rt value =
     (case value of
        PInt i \<Rightarrow> Inr (clamp_tokens i)
      | PFloat (FFin r) \<Rightarrow> Inr (clamp_tokens \<lfloor>r\<rfloor>)
      | PStr s \<Rightarrow>
          (let text = py_strip s
           in if text \<noteq> [] \<and> list_all (\<lambda>c. decimal_digit rt c \<noteq> None) text then
                (if length text > MAX_INT_STR_DIGITS then Inl ValueError
                 else Inr (min (int (decimal_number rt text)) MAX_USAGE_TOKENS))
              else Inr 0)
      | _ \<Rightarrow> Inr 0)"

definition known_value :: "heap \<Rightarrow> pyval \<Rightarrow> string \<Rightarrow> pyval" where
  "known_value H source key =
     (if is_mapping H source then
        (case mapping_find H source (lit key) of Inr (Some v) \<Rightarrow> v | _ \<Rightarrow> PNone)
      else safe_attr H source key)"

definition nonneg_float :: "pyfloat option \<Rightarrow> bool" where
  "nonneg_float f = (case f of Some (FFin r) \<Rightarrow> 0 \<le> r | _ \<Rightarrow> False)"

text \<open>\<^verbatim>\<open>float(i)\<close> of an integer beyond the doubles raises \<^verbatim>\<open>OverflowError\<close>.\<close>

definition safe_cost_status :: "pyrt \<Rightarrow> ustr \<Rightarrow> pyval \<Rightarrow> ustr" where
  "safe_cost_status rt billing_mode total_cost_usd =
     (if billing_mode = lit ''subscription_included'' then lit ''included''
      else if billing_mode = lit ''sdk_reported_metered'' then
        (let ok = (case total_cost_usd of
             PInt i \<Rightarrow> 0 \<le> i \<and> i < 2 ^ 1024 - 2 ^ 970
           | PFloat f \<Rightarrow> nonneg_float (Some f)
           | PStr s \<Rightarrow> nonneg_float (rt_parse_float rt s)
           | _ \<Rightarrow> False)
         in if ok then lit ''reported'' else lit ''unknown'')
      else lit ''unknown'')"

subsection \<open>Bounds\<close>

lemma length_ce_text [py_bounds]: "length (ce_text limit v) \<le> limit"
  by (auto simp: ce_text_def split: pyval.split)

lemma unsafe_match:
  "re_match UNSAFE_IDENTIFIER (b, c # s) =
     (if identifier_char c then None
      else Some (rev (takeWhile (\<lambda>x. \<not> identifier_char x) (c # s)) @ b,
                 dropWhile (\<lambda>x. \<not> identifier_char x) (c # s)))"
proof (cases "identifier_char c")
  case False
  let ?P = "\<lambda>x. \<not> identifier_char x"
  let ?n = "length (takeWhile ?P s)"
  have "ends UNSAFE_IDENTIFIER (b, c # s) =
      advance (Suc ?n) (b, c # s) # map (\<lambda>k. advance k (b, c # s)) (rev [1 ..< Suc ?n])"
    using False by (simp add: UNSAFE_IDENTIFIER_def run_length_def)
  then show ?thesis using False
    by (simp add: re_match_def advance_def takeWhile_eq_take[symmetric] dropWhile_eq_drop[symmetric])
qed (simp add: re_match_def UNSAFE_IDENTIFIER_def run_length_def)

lemma re_sub_unsafe:
  "list_all identifier_char (re_sub_from UNSAFE_IDENTIFIER [95] b s) \<and>
   length (re_sub_from UNSAFE_IDENTIFIER [95] b s) \<le> length s \<and>
   (s \<noteq> [] \<longrightarrow> re_sub_from UNSAFE_IDENTIFIER [95] b s \<noteq> [])"
proof (induction UNSAFE_IDENTIFIER "[95::nat]" b s rule: re_sub_from.induct)
  case (2 b c s)
  show ?case
  proof (cases "identifier_char c")
    case True
    then show ?thesis using 2 by (simp add: unsafe_match)
  next
    case False
    let ?a = "dropWhile (\<lambda>x. \<not> identifier_char x) s"
    have le: "length ?a \<le> length s" by (rule length_dropWhile_le)
    with False 2(2)[of "(rev (takeWhile (\<lambda>x. \<not> identifier_char x) (c # s)) @ b, ?a)"
        "rev (takeWhile (\<lambda>x. \<not> identifier_char x) (c # s)) @ b" ?a]
    show ?thesis by (auto simp: unsafe_match identifier_char_def)
  qed
qed simp

lemma ce_identifier_ok:
  "ce_identifier dflt v = dflt \<or>
   (ce_identifier dflt v \<noteq> [] \<and> list_all identifier_char (ce_identifier dflt v) \<and>
    length (ce_identifier dflt v) \<le> MAX_IDENTIFIER_CHARS)"
proof -
  let ?t = "py_strip (ce_text MAX_IDENTIFIER_CHARS v)"
  have "length ?t \<le> MAX_IDENTIFIER_CHARS"
    using length_py_strip[of "ce_text MAX_IDENTIFIER_CHARS v"] length_ce_text[of MAX_IDENTIFIER_CHARS v]
    by simp
  with re_sub_unsafe[of "[]" ?t] show ?thesis
    by (auto simp: ce_identifier_def Let_def re_sub_def)
qed

fun small_json :: "nat \<Rightarrow> json \<Rightarrow> bool" where
  "small_json room (JStr s) = (length s \<le> MAX_ARGUMENT_STRING_CHARS)"
| "small_json room (JInt i) = (\<bar>i\<bar> \<le> MAX_USAGE_TOKENS)"
| "small_json room (JFloat f) = (\<exists>r. f = FFin r)"
| "small_json (Suc room) (JList js) = (length js \<le> MAX_ARGUMENT_ITEMS \<and> list_all (small_json room) js)"
| "small_json (Suc room) (JDict d) =
     (length d \<le> MAX_ARGUMENT_KEYS \<and>
      list_all (\<lambda>p. length (fst p) \<le> MAX_IDENTIFIER_CHARS \<and> small_json room (snd p)) d)"
| "small_json 0 (JList js) = False"
| "small_json 0 (JDict d) = False"
| "small_json room _ = True"

lemma small_UNAVAILABLE [simp]: "small_json room UNAVAILABLE"
  by (simp add: UNAVAILABLE_def MAX_ARGUMENT_STRING_CHARS_def)

definition small_items :: "nat \<Rightarrow> (ustr \<times> json) list \<Rightarrow> bool" where
  "small_items room d =
     list_all (\<lambda>p. length (fst p) \<le> MAX_IDENTIFIER_CHARS \<and> small_json room (snd p)) d"

lemma small_items_set:
  "small_items room d \<Longrightarrow> length k \<le> MAX_IDENTIFIER_CHARS \<Longrightarrow> small_json room j \<Longrightarrow>
   small_items room (dict_set k j d)"
  using set_dict_set_subset[of k j d] by (auto simp: small_items_def list_all_iff)

lemma safe_items_small:
  assumes "\<And>x. small_json room (f x)"
  shows "small_items room out \<Longrightarrow>
    small_items room (safe_items f kvs out) \<and> length (safe_items f kvs out) \<le> length kvs + length out"
proof (induction kvs arbitrary: out)
  case (Cons kv kvs)
  obtain key item where kv: "kv = (key, item)" by (cases kv)
  show ?case
  proof (cases key)
    case (PStr k)
    let ?out = "dict_set (take MAX_IDENTIFIER_CHARS k) (f item) out"
    have "small_items room ?out" by (rule small_items_set) (use Cons.prems assms in auto)
    with Cons.IH[of ?out] PStr kv length_dict_set[of "take MAX_IDENTIFIER_CHARS k" "f item" out]
    show ?thesis by auto
  qed (use Cons kv in \<open>auto simp: le_SucI\<close>)
qed simp

lemma safe_json_value_small: "small_json room (safe_json_value H room seen v)"
proof (induction room arbitrary: seen v)
  case 0
  show ?case by (subst safe_json_value.simps) (auto split: pyval.split pyfloat.split)
next
  case (Suc room)
  have "length (safe_items (safe_json_value H room s) (take MAX_ARGUMENT_KEYS kvs) []) \<le> MAX_ARGUMENT_KEYS \<and>
      small_items room (safe_items (safe_json_value H room s) (take MAX_ARGUMENT_KEYS kvs) [])" for s kvs
    using safe_items_small[of room "safe_json_value H room s" "[]" "take MAX_ARGUMENT_KEYS kvs"] Suc
    by (auto simp: small_items_def)
  then show ?case
    by (subst safe_json_value.simps)
       (auto simp: Let_def list_all_iff small_items_def Suc
          split: pyval.split pyfloat.split pyobj.split option.split)
qed

subsection \<open>Data within the bounds is unchanged\<close>

lemma safe_items_exact:
  "list_all2 (\<lambda>kv p. fst kv = PStr (fst p) \<and> length (fst p) \<le> MAX_IDENTIFIER_CHARS \<and>
      f (snd kv) = snd p) kvs d \<Longrightarrow> distinct (map fst (out @ d)) \<Longrightarrow> safe_items f kvs out = out @ d"
proof (induction kvs d arbitrary: out rule: list_all2_induct)
  case (Cons kv kvs p d)
  then have "dict_set (fst p) (snd p) out = out @ [p]"
    using dict_set_fresh[of "fst p" out "snd p"] by auto
  with Cons show ?case by (cases kv) auto
qed simp

lemma safe_json_value_exact:
  assumes ok: "heap_ok H"
  shows "reads H v j \<Longrightarrow> small_json room j \<Longrightarrow> path_above H seen j \<Longrightarrow>
    safe_json_value H room seen v = j"
proof (induction room arbitrary: seen v j)
  case 0
  from 0(1) show ?case
    by (cases rule: reads.cases) (use 0(2) in \<open>auto simp: safe_json_value.simps\<close>)
next
  case (Suc room)
  show ?case
  proof (cases "\<exists>a. v = PRef a")
    case True
    then obtain a where v: "v = PRef a" by blast
    let ?f = "safe_json_value H room (a # seen)"
    have a: "a \<notin> set seen" using path_above_fresh Suc.prems(1,3) v by blast
    have IH: "?f c = jc" if "reads H c jc" "small_json room jc" "json_nodes jc < json_nodes j" for c jc
      using Suc.IH that path_above_child Suc.prems(1,3) v by blast
    from Suc.prems(1)[unfolded v] show ?thesis
    proof (cases rule: reads.cases)
      case (reads_Seq xs js)
      have "map ?f xs = js"
      proof (rule nth_equalityI)
        show len: "length (map ?f xs) = length js" using list_all2_lengthD[OF reads_Seq(3)] by simp
        fix i assume i: "i < length (map ?f xs)"
        with reads_Seq(3) len have "reads H (xs ! i) (js ! i)" "js ! i \<in> set js"
          by (auto simp: list_all2_conv_all_nth)
        with Suc.prems(2) reads_Seq(1) nodes_child_list[of "js ! i" js] i
        show "map ?f xs ! i = js ! i" by (auto simp: list_all_iff intro: IH)
      qed
      moreover have "length xs \<le> MAX_ARGUMENT_ITEMS"
        using Suc.prems(2) reads_Seq(1) list_all2_lengthD[OF reads_Seq(3)] by simp
      ultimately show ?thesis using reads_Seq a v
        by (subst safe_json_value.simps) auto
    next
      case (reads_Dict kvs d)
      have dist: "distinct (map fst kvs)" using ok reads_Dict(2) by (auto simp: heap_ok_def)
      have "list_all2 (\<lambda>kv p. fst kv = PStr (fst p) \<and> length (fst p) \<le> MAX_IDENTIFIER_CHARS \<and>
          ?f (snd kv) = snd p) kvs d"
        unfolding list_all2_conv_all_nth
      proof (intro conjI allI impI)
        show "length kvs = length d" using reads_Dict(3) by (rule list_all2_lengthD)
        fix i assume i: "i < length kvs"
        with reads_Dict(3) have mem: "reads H (snd (kvs ! i)) (snd (d ! i))" "d ! i \<in> set d"
          "fst (kvs ! i) = PStr (fst (d ! i))"
          by (auto simp: list_all2_conv_all_nth)
        then show "fst (kvs ! i) = PStr (fst (d ! i))" by simp
        from mem(2) Suc.prems(2) reads_Dict(1) show "length (fst (d ! i)) \<le> MAX_IDENTIFIER_CHARS"
          by (auto simp: list_all_iff)
        from mem Suc.prems(2) reads_Dict(1) nodes_child_dict[of "d ! i" d]
        show "?f (snd (kvs ! i)) = snd (d ! i)"
          by (intro IH) (auto simp: list_all_iff)
      qed
      from safe_items_exact[OF this, of "[]"] copied_keys_distinct[OF reads_Dict(3) dist]
      have "safe_items ?f kvs [] = d" by simp
      moreover have "length kvs \<le> MAX_ARGUMENT_KEYS"
        using Suc.prems(2) reads_Dict(1) list_all2_lengthD[OF reads_Dict(3)] by simp
      ultimately show ?thesis using reads_Dict a v
        by (subst safe_json_value.simps) auto
    qed
  next
    case False
    from Suc.prems(1) False show ?thesis
      by (cases rule: reads.cases) (use Suc.prems(2) in \<open>auto simp: safe_json_value.simps\<close>)
  qed
qed

subsection \<open>Properties\<close>

text \<open>
  The public form of a provider-controlled value always exists and is small: at most four
  levels of containers, 32 entries each, keys of 128 and texts of 2000 characters, integers of
  magnitude at most 10 to the 12, finite floats. A plain acyclic value within these bounds is
  passed unchanged.
\<close>

theorem safe_json_bounded_and_exact:
  "small_json MAX_ARGUMENT_DEPTH (safe_json H v) \<and>
   (heap_ok H \<and> reads H v j \<and> small_json MAX_ARGUMENT_DEPTH j \<longrightarrow> safe_json H v = j)"
  using safe_json_value_small safe_json_value_exact[of H v j MAX_ARGUMENT_DEPTH "[]"]
  by (auto simp: safe_json_def path_above_def)

theorem safe_json_bounded_and_exact_witness:
  "safe_json shared_heap (PRef 2) =
     JList [JDict [(lit ''a'', JNull)], JDict [(lit ''a'', JNull)], JInt 7]"
proof -
  have ok: "heap_ok shared_heap" by (auto simp: heap_ok_def shared_heap_def)
  have r3: "reads shared_heap (PRef 3) (JDict [(lit ''a'', JNull)])"
    by (rule reads_Dict[of _ _ "[(PStr (lit ''a''), PNone)]"])
       (auto simp: shared_heap_def intro: reads.intros)
  have r: "reads shared_heap (PRef 2)
      (JList [JDict [(lit ''a'', JNull)], JDict [(lit ''a'', JNull)], JInt 7])"
    by (rule reads_Seq[of _ _ "[PRef 3, PRef 3, PInt 7]"])
       (auto simp: shared_heap_def intro: reads.intros r3[unfolded shared_heap_def])
  have "small_json MAX_ARGUMENT_DEPTH (JList [JDict [(lit ''a'', JNull)], JDict [(lit ''a'', JNull)], JInt 7])"
    by (simp add: MAX_ARGUMENT_DEPTH_def numeral_eq_Suc MAX_ARGUMENT_ITEMS_def MAX_ARGUMENT_KEYS_def
        MAX_IDENTIFIER_CHARS_def MAX_USAGE_TOKENS_def)
  with safe_json_bounded_and_exact ok r show ?thesis by blast
qed

end
