(* ===== verification/Runtime_Events.thy ===== *)
theory Runtime_Events
  imports Compaction Json_Copy
begin

section \<open>The public events of the runtime\<close>

text \<open>
  The event types belong to the host's \<^verbatim>\<open>agent.runtime_api\<close>, which is not part of the
  repository; here they are plain data, with the fields the sources fill in. The sources
  compare events by class only.
\<close>

record usage_receipt =
  ur_runtime_id :: ustr
  ur_provider :: ustr
  ur_model :: ustr
  ur_billing_mode :: ustr
  ur_cost_status :: ustr
  ur_input_tokens :: int
  ur_output_tokens :: int
  ur_cache_read_tokens :: int
  ur_cache_write_tokens :: int
  ur_reasoning_tokens :: int
  ur_replay_safe :: bool
  ur_correlation_id :: "ustr option"
  ur_selected_model :: "ustr option"
  ur_effective_model :: "ustr option"
  ur_canonical_model :: "ustr option"
  ur_model_resolution :: ustr

datatype failure_phase = PREFLIGHT | BEFORE_VISIBLE_OUTPUT | AFTER_VISIBLE_OUTPUT | AFTER_SIDE_EFFECTS

record runtime_failure =
  rf_code :: ustr
  rf_message :: ustr
  rf_phase :: failure_phase
  rf_replay_safe :: bool
  rf_retryable :: bool

text \<open>
  Values of a completion: \<open>CMessages ms t\<close> is the list of the request's messages followed by
  the assistant message with text \<open>t\<close>.
\<close>

datatype completion_value =
    CNull
  | CText ustr
  | CInt int
  | CFlag bool
  | CMessages "pyval list" ustr

type_synonym completion = "(ustr \<times> completion_value) list"

datatype runtime_event =
    ContentEvent ustr
  | ToolRequestEvent ustr ustr json
  | UsageEvent usage_receipt
  | CompletedEvent completion
  | FailedEvent runtime_failure
  | CancelledEvent ustr
  | StateEvent ustr
  | CompactionEvent SessionCompactionPhase "rat option"

definition is_terminal :: "runtime_event \<Rightarrow> bool" where
  "is_terminal e = (case e of CompletedEvent _ \<Rightarrow> True | FailedEvent _ \<Rightarrow> True | CancelledEvent _ \<Rightarrow> True
     | _ \<Rightarrow> False)"

definition is_tool_request :: "runtime_event \<Rightarrow> bool" where
  "is_tool_request e = (case e of ToolRequestEvent _ _ _ \<Rightarrow> True | _ \<Rightarrow> False)"

end
