(* ===== verification/Content_Events.thy ===== *)
theory Content_Events
  imports Safe_Values Runtime_Events
begin

section \<open>The message projector (content\_events.py, ClaudeSdkEventProjector)\<close>

text \<open>
  The projector turns SDK messages, in arrival order, into public events and keeps the
  evidence of which model answered. Its sets of model names are lists without duplicates.
  Only the conversion of a decimal text and the iteration over a message's content can raise;
  the evidence observed before is kept then, as in the source.
\<close>

subsection \<open>State and results\<close>

record projector =
  pj_runtime_id :: ustr
  pj_provider :: ustr
  pj_selected_model :: "ustr option"
  pj_reported_models :: "ustr list"
  pj_usage_models :: "ustr list"
  pj_usage_canonical :: "(ustr \<times> ustr option) list"
  pj_usage_malformed :: bool
  pj_session_model :: "ustr option"
  pj_session_model_malformed :: bool
  pj_session_model_conflict :: bool
  pj_billing_mode :: ustr
  pj_correlation_id :: "ustr option"

record ToolResultMetadata =
  tm_tool_use_id :: ustr
  tm_text :: ustr
  tm_is_error :: bool

record ProjectionResult =
  pr_events :: "runtime_event list"
  pr_tool_results :: "ToolResultMetadata list"
  pr_is_tool_iteration :: bool
  pr_final_text :: "ustr option"
  pr_is_result :: bool
  pr_selected_model :: "ustr option"
  pr_effective_model :: "ustr option"
  pr_canonical_model :: "ustr option"
  pr_model_resolution :: ustr

definition empty_projection :: ProjectionResult where
  "empty_projection = \<lparr>pr_events = [], pr_tool_results = [], pr_is_tool_iteration = False,
     pr_final_text = None, pr_is_result = False, pr_selected_model = None,
     pr_effective_model = None, pr_canonical_model = None, pr_model_resolution = lit ''unknown''\<rparr>"

definition some_text :: "ustr \<Rightarrow> ustr option" where
  "some_text t = (if t = [] then None else Some t)"

definition projector_new :: "pyrt \<Rightarrow> pyval \<Rightarrow> pyval \<Rightarrow> pyval \<Rightarrow> pyval \<Rightarrow> pyval \<Rightarrow> projector" where
  "projector_new rt runtime_id provider model billing_mode correlation_id =
     \<lparr>pj_runtime_id = ce_identifier (lit ''hermes-claude-agent-sdk'') runtime_id,
      pj_provider = ce_identifier (lit ''claude-agent-sdk'') provider,
      pj_selected_model = safe_model_identifier rt model,
      pj_reported_models = [], pj_usage_models = [], pj_usage_canonical = [],
      pj_usage_malformed = False, pj_session_model = None, pj_session_model_malformed = False,
      pj_session_model_conflict = False,
      pj_billing_mode =
        (case billing_mode of
           PStr b \<Rightarrow> if b \<in> set (lits [''subscription_included'', ''sdk_reported_metered'']) then b
                     else lit ''unknown''
         | _ \<Rightarrow> lit ''unknown''),
      pj_correlation_id = some_text (ce_identifier [] correlation_id)\<rparr>"

definition pj_begin_turn :: "pyval \<Rightarrow> projector \<Rightarrow> projector" where
  "pj_begin_turn correlation_id p =
     p\<lparr>pj_reported_models := [], pj_usage_models := [], pj_usage_canonical := [],
       pj_usage_malformed := False,
       pj_correlation_id := some_text (ce_identifier [] correlation_id)\<rparr>"

subsection \<open>Model evidence\<close>

definition observe_init_model :: "pyrt \<Rightarrow> heap \<Rightarrow> pyval \<Rightarrow> projector \<Rightarrow> projector" where
  "observe_init_model rt H message p =
     (if safe_attr H message ''subtype'' \<noteq> PStr (lit ''init'') then p
      else (let data = safe_attr H message ''data''
            in if \<not> is_mapping H data then p\<lparr>pj_session_model_malformed := True\<rparr>
               else (case mapping_find H data (lit ''model'') of
                       Inl _ \<Rightarrow> p\<lparr>pj_session_model_malformed := True\<rparr>
                     | Inr None \<Rightarrow> p
                     | Inr (Some model) \<Rightarrow>
                         (case safe_model_identifier rt model of
                            None \<Rightarrow> p\<lparr>pj_session_model_malformed := True\<rparr>
                          | Some m \<Rightarrow>
                              (case pj_session_model p of
                                 None \<Rightarrow> p\<lparr>pj_session_model := Some m\<rparr>
                               | Some m' \<Rightarrow> if m' \<noteq> m then p\<lparr>pj_session_model_conflict := True\<rparr> else p)))))"

text \<open>One entry of \<^verbatim>\<open>model_usage\<close>.\<close>

definition observe_usage_entry :: "pyrt \<Rightarrow> heap \<Rightarrow> pyval \<times> pyval \<Rightarrow> projector \<Rightarrow> projector" where
  "observe_usage_entry rt H entry p =
     (case safe_model_identifier rt (fst entry) of
        None \<Rightarrow> p\<lparr>pj_usage_malformed := True\<rparr>
      | Some m \<Rightarrow>
          if \<not> is_mapping H (snd entry) then p\<lparr>pj_usage_malformed := True\<rparr>
          else
            (let canonical = known_value H (snd entry) ''canonicalModel'';
                 absent = canonical = PNone \<or>
                   (case canonical of PStr s \<Rightarrow> py_casefold rt (py_strip s) = lit ''unknown'' | _ \<Rightarrow> False);
                 safe_canonical = (if absent then None else safe_model_identifier rt canonical)
             in if \<not> absent \<and> safe_canonical = None then p\<lparr>pj_usage_malformed := True\<rparr>
                else
                  (let known = map_of (pj_usage_canonical p) m
                   in case (known, safe_canonical) of
                        (Some (Some old), Some new) \<Rightarrow>
                          if old \<noteq> new then p\<lparr>pj_usage_malformed := True\<rparr>
                          else p\<lparr>pj_usage_models := List.insert m (pj_usage_models p),
                                 pj_usage_canonical := dict_set m (Some new) (pj_usage_canonical p)\<rparr>
                      | (_, Some new) \<Rightarrow>
                          p\<lparr>pj_usage_models := List.insert m (pj_usage_models p),
                            pj_usage_canonical := dict_set m (Some new) (pj_usage_canonical p)\<rparr>
                      | (Some _, None) \<Rightarrow> p\<lparr>pj_usage_models := List.insert m (pj_usage_models p)\<rparr>
                      | (None, None) \<Rightarrow>
                          p\<lparr>pj_usage_models := List.insert m (pj_usage_models p),
                            pj_usage_canonical := dict_set m None (pj_usage_canonical p)\<rparr>)))"

definition observe_model_evidence :: "pyrt \<Rightarrow> heap \<Rightarrow> pyval \<Rightarrow> projector \<Rightarrow> projector" where
  "observe_model_evidence rt H message p =
     (let p = (case safe_model_identifier rt (safe_attr H message ''model'') of
                 Some m \<Rightarrow>
                   if safe_attr H message ''parent_tool_use_id'' \<in> {PNone, PStr []}
                   then p\<lparr>pj_reported_models := List.insert m (pj_reported_models p)\<rparr> else p
               | None \<Rightarrow> p);
          usage = safe_attr H message ''model_usage''
      in if usage = PNone then p
         else if \<not> is_mapping H usage then p\<lparr>pj_usage_malformed := True\<rparr>
         else (case mapping_items H usage of
                 Inl _ \<Rightarrow> p\<lparr>pj_usage_malformed := True\<rparr>
               | Inr items \<Rightarrow>
                   if length items > MAX_ARGUMENT_ITEMS then p\<lparr>pj_usage_malformed := True\<rparr>
                   else fold (observe_usage_entry rt H) items p))"

definition SYNTHETIC_MODEL_IDENTIFIERS :: "string list" where
  "SYNTHETIC_MODEL_IDENTIFIERS = [''synthetic'', ''claude-fable-synthetic'']"

type_synonym provenance = "ustr option \<times> ustr option \<times> ustr"

definition ambiguous :: provenance where "ambiguous = (None, None, lit ''ambiguous'')"

text \<open>The last lines of \<^verbatim>\<open>_model_provenance\<close>.\<close>

definition resolve_model :: "projector \<Rightarrow> ustr option \<Rightarrow> ustr option \<Rightarrow> provenance" where
  "resolve_model p effective canonical =
     (case effective of
        None \<Rightarrow> (None, canonical, lit ''unknown'')
      | Some e \<Rightarrow>
          if canonical \<noteq> None \<and> canonical \<noteq> Some e then (Some e, canonical, lit ''canonicalized'')
          else if pj_selected_model p \<noteq> None \<and> pj_selected_model p \<noteq> Some e
          then (Some e, canonical, lit ''mismatch'')
          else (Some e, canonical, if pj_selected_model p \<noteq> None then lit ''exact'' else lit ''reported''))"

definition canonical_of :: "projector \<Rightarrow> ustr \<Rightarrow> ustr option" where
  "canonical_of p m = (case map_of (pj_usage_canonical p) m of Some (Some c) \<Rightarrow> Some c | _ \<Rightarrow> None)"

text \<open>Several usage models: one independently reported identity must be among them.\<close>

definition resolve_many :: "projector \<Rightarrow> ustr list \<Rightarrow> provenance" where
  "resolve_many p reported_models =
     (case (case pj_session_model p of
              Some s \<Rightarrow> Some s
            | None \<Rightarrow> (case reported_models of [r] \<Rightarrow> Some r | _ \<Rightarrow> None)) of
        None \<Rightarrow> ambiguous
      | Some reported \<Rightarrow>
          if reported \<in> set (pj_usage_models p)
          then resolve_model p (Some reported) (canonical_of p reported)
          else if length (filter (\<lambda>q. snd q = Some reported) (pj_usage_canonical p)) \<noteq> 1 then ambiguous
          else resolve_model p (Some reported) (Some reported))"

definition resolve_one :: "projector \<Rightarrow> ustr list \<Rightarrow> ustr \<Rightarrow> provenance" where
  "resolve_one p reported_models usage_model =
     (let canonical = canonical_of p usage_model
      in case pj_session_model p of
           Some s \<Rightarrow>
             if usage_model = s then resolve_model p (Some s) canonical
             else if canonical = Some s then resolve_model p (Some s) (Some s)
             else ambiguous
         | None \<Rightarrow>
             if list_all (\<lambda>m. m = usage_model \<or> canonical = Some m) reported_models
             then resolve_model p (Some usage_model) canonical
             else ambiguous)"

definition model_provenance :: "pyrt \<Rightarrow> projector \<Rightarrow> provenance" where
  "model_provenance rt p =
     (if pj_usage_malformed p \<or> pj_session_model_malformed p \<or> pj_session_model_conflict p then ambiguous
      else
        (let conflicting = (case pj_session_model p of
               None \<Rightarrow> False
             | Some s \<Rightarrow> list_ex (\<lambda>m. m \<noteq> s \<and> py_casefold rt m \<notin> set (lits SYNTHETIC_MODEL_IDENTIFIERS))
                          (pj_reported_models p));
             reported_models = (case pj_session_model p of
               None \<Rightarrow> pj_reported_models p
             | Some s \<Rightarrow> filter (\<lambda>m. m = s) (pj_reported_models p))
         in if conflicting then ambiguous
            else (case pj_usage_models p of
                    [] \<Rightarrow>
                      (case pj_session_model p of
                         Some s \<Rightarrow> resolve_model p (Some s) None
                       | None \<Rightarrow>
                           (case reported_models of
                              [] \<Rightarrow> resolve_model p None None
                            | [r] \<Rightarrow> resolve_model p (Some r) None
                            | _ \<Rightarrow> ambiguous))
                  | [u] \<Rightarrow> resolve_one p reported_models u
                  | _ \<Rightarrow> resolve_many p reported_models)))"

subsection \<open>Projection\<close>

definition project_tool_use :: "heap \<Rightarrow> pyval \<Rightarrow> runtime_event" where
  "project_tool_use H block =
     ToolRequestEvent (ce_identifier (lit ''unknown-tool-request'') (safe_attr H block ''id''))
       (ce_identifier (lit ''unknown'') (safe_attr H block ''name''))
       (safe_tool_arguments H (safe_attr H block ''input''))"

definition block_text :: "heap \<Rightarrow> pyval \<Rightarrow> ustr" where
  "block_text H block =
     (if type_name H block = lit ''TextBlock'' then ce_text MAX_TEXT_CHARS (safe_attr H block ''text'') else [])"

definition project_assistant ::
    "pyrt \<Rightarrow> heap \<Rightarrow> pyval \<Rightarrow> projector \<Rightarrow> (exn + ProjectionResult) \<times> projector" where
  "project_assistant rt H message p =
     (let p = observe_model_evidence rt H message p
      in case (case py_or H (safe_attr H message ''content'') PNone of
                 Inl e \<Rightarrow> Inl e | Inr c \<Rightarrow> if c = PNone then Inr [] else py_iter H c) of
           Inl e \<Rightarrow> (Inl e, p)
         | Inr blocks \<Rightarrow>
             (let text_parts = filter (\<lambda>t. t \<noteq> []) (map (block_text H) blocks);
                  tool_events = map (project_tool_use H)
                    (filter (\<lambda>b. type_name H b = lit ''ToolUseBlock'') blocks);
                  text = some_text (take MAX_TEXT_CHARS (py_join [10] text_parts));
                  (effective, canonical, resolution) = model_provenance rt p
              in (Inr \<lparr>pr_events = (case text of None \<Rightarrow> [] | Some t \<Rightarrow> [ContentEvent t]) @ tool_events,
                       pr_tool_results = [], pr_is_tool_iteration = False, pr_final_text = text,
                       pr_is_result = False, pr_selected_model = pj_selected_model p,
                       pr_effective_model = effective, pr_canonical_model = canonical,
                       pr_model_resolution = resolution\<rparr>, p)))"

definition project_user :: "pyrt \<Rightarrow> heap \<Rightarrow> pyval \<Rightarrow> ProjectionResult" where
  "project_user rt H message =
     (case seq_items H (safe_attr H message ''content'') of
        None \<Rightarrow> empty_projection
      | Some blocks \<Rightarrow>
          (let results = map (\<lambda>b. \<lparr>tm_tool_use_id = ce_identifier (lit ''unknown-tool-use'') (safe_attr H b ''tool_use_id''),
                 tm_text = flatten_tool_result_content rt H (safe_attr H b ''content''),
                 tm_is_error = (safe_attr H b ''is_error'' = PBool True)\<rparr>)
                 (filter (\<lambda>b. type_name H b = lit ''ToolResultBlock'') blocks)
           in empty_projection\<lparr>pr_tool_results := results, pr_is_tool_iteration := (results \<noteq> [])\<rparr>))"

text \<open>\<^verbatim>\<open>_coerce_usage_int(a or b)\<close>\<close>

definition coerce_either :: "pyrt \<Rightarrow> heap \<Rightarrow> pyval \<Rightarrow> string \<Rightarrow> string \<Rightarrow> exn + int" where
  "coerce_either rt H usage a b =
     (case py_or H (known_value H usage a) (known_value H usage b) of
        Inl e \<Rightarrow> Inl e | Inr v \<Rightarrow> coerce_usage_int rt v)"

definition usage_counts :: "pyrt \<Rightarrow> heap \<Rightarrow> pyval \<Rightarrow> exn + int list" where
  "usage_counts rt H usage =
     map_exn id
       [coerce_usage_int rt (known_value H usage ''input_tokens''),
        coerce_usage_int rt (known_value H usage ''output_tokens''),
        coerce_either rt H usage ''cache_read_input_tokens'' ''cache_read_tokens'',
        coerce_either rt H usage ''cache_creation_input_tokens'' ''cache_write_tokens'',
        coerce_usage_int rt (known_value H usage ''reasoning_tokens'')]"

definition usage_receipt_of ::
    "pyrt \<Rightarrow> heap \<Rightarrow> pyval \<Rightarrow> projector \<Rightarrow> provenance \<Rightarrow> int list \<Rightarrow> usage_receipt" where
  "usage_receipt_of rt H message p prov counts =
     (let (effective, canonical, resolution) = prov
      in \<lparr>ur_runtime_id = pj_runtime_id p, ur_provider = pj_provider p,
          ur_model = (case canonical of Some c \<Rightarrow> c | None \<Rightarrow>
                       (case effective of Some e \<Rightarrow> e | None \<Rightarrow> lit ''unknown'')),
          ur_billing_mode = pj_billing_mode p,
          ur_cost_status = safe_cost_status rt (pj_billing_mode p) (safe_attr H message ''total_cost_usd''),
          ur_input_tokens = counts ! 0, ur_output_tokens = counts ! 1,
          ur_cache_read_tokens = counts ! 2, ur_cache_write_tokens = counts ! 3,
          ur_reasoning_tokens = counts ! 4, ur_replay_safe = False,
          ur_correlation_id = pj_correlation_id p, ur_selected_model = pj_selected_model p,
          ur_effective_model = effective, ur_canonical_model = canonical,
          ur_model_resolution = resolution\<rparr>)"

definition or_unknown :: "ustr option \<Rightarrow> ustr" where
  "or_unknown t = (case t of None \<Rightarrow> lit ''unknown'' | Some x \<Rightarrow> x)"

definition result_counters :: "pyrt \<Rightarrow> heap \<Rightarrow> pyval \<Rightarrow> exn + completion" where
  "result_counters rt H message =
     map_sum id (filter (\<lambda>q. snd q \<noteq> CInt 0))
       (map_exn (\<lambda>k. map_sum id (\<lambda>n. (lit k, CInt n)) (coerce_usage_int rt (safe_attr H message k)))
          [''num_turns'', ''duration_ms'', ''duration_api_ms''])"

definition project_result ::
    "pyrt \<Rightarrow> heap \<Rightarrow> pyval \<Rightarrow> projector \<Rightarrow> (exn + ProjectionResult) \<times> projector" where
  "project_result rt H message p =
     (let p = observe_model_evidence rt H message p;
          failed = safe_attr H message ''is_error'' = PBool True;
          final = (if failed then None
                   else some_text (ce_text MAX_TEXT_CHARS (safe_attr H message ''result'')));
          (effective, canonical, resolution) = model_provenance rt p;
          usage = safe_attr H message ''usage''
      in case (if usage = PNone then Inr [] else
                 map_sum id (\<lambda>counts. [UsageEvent (usage_receipt_of rt H message p
                     (effective, canonical, resolution) counts)])
                   (usage_counts rt H usage)) of
           Inl e \<Rightarrow> (Inl e, p)
         | Inr usage_events \<Rightarrow>
             (case result_counters rt H message of
                Inl e \<Rightarrow> (Inl e, p)
              | Inr counters \<Rightarrow>
                  (let subtype = ce_text 64 (safe_attr H message ''subtype'');
                       completion =
                         (case final of None \<Rightarrow> [] | Some t \<Rightarrow> [(lit ''text'', CText t)]) @
                         [(lit ''model'', CText (case canonical of Some c \<Rightarrow> c | None \<Rightarrow> or_unknown effective)),
                          (lit ''selected_model'', CText (or_unknown (pj_selected_model p))),
                          (lit ''effective_model'', CText (or_unknown effective)),
                          (lit ''canonical_model'', CText (or_unknown canonical)),
                          (lit ''model_resolution'', CText resolution)] @
                         (if failed then [(lit ''is_error'', CFlag True)] else []) @
                         (if subtype = [] then [] else [(lit ''subtype'', CText subtype)]) @ counters
                   in (Inr \<lparr>pr_events = (case final of None \<Rightarrow> [] | Some t \<Rightarrow> [ContentEvent t]) @
                              usage_events @ [CompletedEvent completion],
                            pr_tool_results = [], pr_is_tool_iteration = False,
                            pr_final_text = final, pr_is_result = True,
                            pr_selected_model = pj_selected_model p, pr_effective_model = effective,
                            pr_canonical_model = canonical, pr_model_resolution = resolution\<rparr>, p))))"

definition project :: "pyrt \<Rightarrow> heap \<Rightarrow> pyval \<Rightarrow> projector \<Rightarrow> (exn + ProjectionResult) \<times> projector" where
  "project rt H message p =
     (let name = type_name H message
      in if name = lit ''AssistantMessage'' then project_assistant rt H message p
         else if name = lit ''UserMessage'' then (Inr (project_user rt H message), p)
         else if name = lit ''ResultMessage'' then project_result rt H message p
         else if name = lit ''SystemMessage'' then (Inr empty_projection, observe_init_model rt H message p)
         else (Inr empty_projection, p))"

subsection \<open>Bounds of events\<close>

definition token_count :: "int \<Rightarrow> bool" where
  "token_count n \<longleftrightarrow> 0 \<le> n \<and> n \<le> MAX_USAGE_TOKENS"

lemma clamp_token_count: "token_count (clamp_tokens i)"
  by (auto simp: token_count_def clamp_tokens_def MAX_USAGE_TOKENS_def)

lemma coerce_token_count: "coerce_usage_int rt v = Inr n \<Longrightarrow> token_count n"
  by (auto simp: coerce_usage_int_def Let_def clamp_token_count split: pyval.splits pyfloat.splits if_splits)
     (auto simp: token_count_def MAX_USAGE_TOKENS_def)

lemma coerce_either_token_count: "coerce_either rt H u a b = Inr n \<Longrightarrow> token_count n"
  by (auto simp: coerce_either_def dest: coerce_token_count split: sum.splits)

lemma usage_counts_ok:
  "usage_counts rt H u = Inr ns \<Longrightarrow> length ns = 5 \<and> list_all token_count ns"
  by (auto simp: usage_counts_def dest: coerce_token_count coerce_either_token_count split: sum.splits)

definition identifier_ok :: "ustr \<Rightarrow> bool" where
  "identifier_ok s \<longleftrightarrow> s \<noteq> [] \<and> list_all identifier_char s \<and> length s \<le> MAX_IDENTIFIER_CHARS"

lemma ce_identifier_identifier_ok: "identifier_ok d \<Longrightarrow> identifier_ok (ce_identifier d v)"
  using ce_identifier_ok[of d v] by (auto simp: identifier_ok_def)

definition receipt_ok :: "usage_receipt \<Rightarrow> bool" where
  "receipt_ok r \<longleftrightarrow> list_all token_count [ur_input_tokens r, ur_output_tokens r,
     ur_cache_read_tokens r, ur_cache_write_tokens r, ur_reasoning_tokens r] \<and> \<not> ur_replay_safe r"

fun event_ok :: "runtime_event \<Rightarrow> bool" where
  "event_ok (ContentEvent t) = (t \<noteq> [] \<and> length t \<le> MAX_TEXT_CHARS)"
| "event_ok (ToolRequestEvent i n args) =
     (identifier_ok i \<and> identifier_ok n \<and> (\<exists>d. args = JDict d) \<and> small_json (Suc MAX_ARGUMENT_DEPTH) args)"
| "event_ok (UsageEvent r) = receipt_ok r"
| "event_ok (CompletedEvent c) = list_all (\<lambda>q. case snd q of CInt n \<Rightarrow> token_count n \<and> n \<noteq> 0 | _ \<Rightarrow> True) c"
| "event_ok _ = False"

lemma small_json_Suc: "small_json room j \<Longrightarrow> small_json (Suc room) j"
proof (induction room j rule: small_json.induct)
  case (4 room js)
  then show ?case by (auto simp: list_all_iff)
next
  case (5 room d)
  then show ?case by (fastforce simp: list_all_iff)
qed auto

lemma safe_tool_arguments_ok:
  "(\<exists>d. safe_tool_arguments H v = JDict d) \<and> small_json (Suc MAX_ARGUMENT_DEPTH) (safe_tool_arguments H v)"
proof -
  have small: "small_json MAX_ARGUMENT_DEPTH (safe_json H v)"
    by (simp add: safe_json_def safe_json_value_small)
  have "small_json MAX_ARGUMENT_DEPTH UNAVAILABLE_TOOL_INPUT"
    by (simp add: UNAVAILABLE_TOOL_INPUT_def MAX_ARGUMENT_STRING_CHARS_def)
  with small small_json_Suc[OF small] show ?thesis
    by (auto simp: safe_tool_arguments_def Let_def MAX_ARGUMENT_KEYS_def MAX_IDENTIFIER_CHARS_def
        split: json.split)
qed

lemma default_identifiers_ok:
  "identifier_ok (lit ''unknown-tool-request'')" "identifier_ok (lit ''unknown'')"
  by (simp_all add: identifier_ok_def lit_def MAX_IDENTIFIER_CHARS_def identifier_char_def
      is_alnum_def is_lower_def is_upper_def is_digit_def)

lemma project_tool_use_ok: "event_ok (project_tool_use H b)"
  using safe_tool_arguments_ok
  by (simp add: project_tool_use_def ce_identifier_identifier_ok default_identifiers_ok)

lemma project_tool_use_request: "is_tool_request (project_tool_use H b)"
  by (simp add: project_tool_use_def is_tool_request_def)

lemma some_text_Some: "some_text t = Some u \<longleftrightarrow> u = t \<and> t \<noteq> []"
  by (auto simp: some_text_def)

lemma result_counters_ok:
  "result_counters rt H m = Inr c \<Longrightarrow>
   list_all (\<lambda>q. case snd q of CInt n \<Rightarrow> token_count n \<and> n \<noteq> 0 | _ \<Rightarrow> True) c"
  by (auto simp: result_counters_def dest: coerce_token_count split: sum.splits if_splits)

lemma result_counters_keys:
  "result_counters rt H m = Inr c \<Longrightarrow> map_of c (lit ''text'') = None"
  by (auto simp: result_counters_def split: sum.splits if_splits)

subsection \<open>What each kind of message projects to\<close>

lemma project_assistant_InrD:
  assumes "project_assistant rt H m p = (Inr r, p')"
  shows "\<exists>content tools. pr_events r = content @ tools \<and>
    (content = [] \<or> (\<exists>t. content = [ContentEvent t] \<and> pr_final_text r = Some t)) \<and>
    list_all is_tool_request tools \<and> list_all event_ok (pr_events r) \<and> \<not> pr_is_result r"
proof -
  let ?content = "case py_or H (safe_attr H m ''content'') PNone of
     Inl e \<Rightarrow> Inl e | Inr c \<Rightarrow> if c = PNone then Inr [] else py_iter H c"
  from assms obtain blocks where b: "?content = Inr blocks"
    by (cases ?content) (auto simp: project_assistant_def)
  with assms have r: "pr_events r =
      (case pr_final_text r of None \<Rightarrow> [] | Some t \<Rightarrow> [ContentEvent t]) @
      map (project_tool_use H) (filter (\<lambda>b. type_name H b = lit ''ToolUseBlock'') blocks)"
    "pr_final_text r = some_text (take MAX_TEXT_CHARS (py_join [10] (filter (\<lambda>t. t \<noteq> []) (map (block_text H) blocks))))"
    "\<not> pr_is_result r"
    by (auto simp: project_assistant_def Let_def split: prod.splits)
  define tools where "tools = map (project_tool_use H) (filter (\<lambda>b. type_name H b = lit ''ToolUseBlock'') blocks)"
  have tools: "list_all event_ok tools" "list_all is_tool_request tools"
    unfolding tools_def by (simp_all add: list_all_iff project_tool_use_ok project_tool_use_request)
  show ?thesis
  proof (cases "pr_final_text r")
    case None
    then show ?thesis using r tools by (intro exI[of _ "[]"] exI[of _ tools]) (simp add: tools_def)
  next
    case (Some t)
    then have "event_ok (ContentEvent t)" using r(2) by (auto simp: some_text_Some)
    with Some show ?thesis using r tools
      by (intro exI[of _ "[ContentEvent t]"] exI[of _ tools]) (simp add: tools_def)
  qed
qed

lemma project_result_InrD:
  assumes "project_result rt H m p = (Inr r, p')"
  shows "\<exists>content usage c. pr_events r = content @ usage @ [CompletedEvent c] \<and>
    (content = [] \<or> (\<exists>t. content = [ContentEvent t] \<and> pr_final_text r = Some t)) \<and>
    (usage = [] \<or> (\<exists>u. usage = [UsageEvent u])) \<and> list_all event_ok (pr_events r) \<and> pr_is_result r \<and>
    (safe_attr H m ''is_error'' = PBool True \<longrightarrow>
       content = [] \<and> pr_final_text r = None \<and> map_of c (lit ''text'') = None)"
proof -
  let ?p = "observe_model_evidence rt H m p"
  let ?usage = "safe_attr H m ''usage''"
  obtain eff can res where prov: "model_provenance rt ?p = (eff, can, res)" by (rule prod_cases3)
  from assms obtain us counters where us:
    "(if ?usage = PNone then Inr [] else
        map_sum id (\<lambda>counts. [UsageEvent (usage_receipt_of rt H m ?p (eff, can, res) counts)])
          (usage_counts rt H ?usage)) = Inr us"
    "result_counters rt H m = Inr counters"
    by (auto simp: project_result_def Let_def prov split: sum.splits if_splits)
  define final where "final = (if safe_attr H m ''is_error'' = PBool True then None
    else some_text (ce_text MAX_TEXT_CHARS (safe_attr H m ''result'')))"
  have usage: "us = [] \<or> (\<exists>u. us = [UsageEvent u] \<and> receipt_ok u)"
  proof (cases "?usage = PNone")
    case False
    with us(1) obtain ns where ns: "usage_counts rt H ?usage = Inr ns"
      "us = [UsageEvent (usage_receipt_of rt H m ?p (eff, can, res) ns)]"
      by (cases "usage_counts rt H ?usage") auto
    from usage_counts_ok[OF ns(1)] have "receipt_ok (usage_receipt_of rt H m ?p (eff, can, res) ns)"
      by (auto simp: receipt_ok_def usage_receipt_of_def list_all_iff)
    with ns(2) show ?thesis by blast
  qed (use us in auto)
  from assms us prov obtain c where r: "pr_events r =
      (case final of None \<Rightarrow> [] | Some t \<Rightarrow> [ContentEvent t]) @ us @ [CompletedEvent c]"
    "pr_final_text r = final" "pr_is_result r" "event_ok (CompletedEvent c)"
    "final = None \<Longrightarrow> map_of c (lit ''text'') = None"
    using result_counters_ok[OF us(2)] result_counters_keys[OF us(2)]
    by (auto simp: project_result_def Let_def final_def[symmetric] split: option.splits if_splits)
  have fin: "final = Some t \<Longrightarrow> t \<noteq> [] \<and> length t \<le> MAX_TEXT_CHARS" for t
    by (auto simp: final_def some_text_Some length_ce_text split: if_splits)
  show ?thesis
    using r usage fin
    by (intro exI[of _ "case final of None \<Rightarrow> [] | Some t \<Rightarrow> [ContentEvent t]"] exI[of _ us] exI[of _ c])
       (auto simp: final_def split: option.splits if_splits)
qed

definition root_models :: "projector \<Rightarrow> ustr set" where
  "root_models p = set (pj_reported_models p) \<union> set (pj_usage_models p) \<union> set_option (pj_session_model p)"

lemma resolve_model_effective:
  "resolve_model p e c = (Some m, c', r) \<Longrightarrow>
   e = Some m \<and> (r = lit ''exact'' \<longrightarrow> pj_selected_model p = Some m) \<and>
   (r = lit ''reported'' \<longrightarrow> pj_selected_model p = None) \<and>
   r \<noteq> lit ''ambiguous'' \<and> r \<noteq> lit ''unknown''"
  by (auto simp: resolve_model_def split: option.splits if_splits)

lemma resolve_model_None:
  "resolve_model p e c = (None, c', r) \<Longrightarrow> r = lit ''unknown''"
  by (auto simp: resolve_model_def split: option.splits if_splits)

lemma model_provenance_cases:
  obtains "model_provenance rt p = ambiguous"
  | e c where "model_provenance rt p = resolve_model p e c" "\<And>m. e = Some m \<Longrightarrow> m \<in> root_models p"
      "\<not> pj_usage_malformed p \<and> \<not> pj_session_model_malformed p \<and> \<not> pj_session_model_conflict p"
proof (cases "pj_usage_malformed p \<or> pj_session_model_malformed p \<or> pj_session_model_conflict p")
  case True
  then show ?thesis using that(1) by (simp add: model_provenance_def)
next
  case clean: False
  define rep where "rep = (case pj_session_model p of None \<Rightarrow> pj_reported_models p
    | Some s \<Rightarrow> filter (\<lambda>m. m = s) (pj_reported_models p))"
  have rep: "set rep \<subseteq> root_models p"
    by (auto simp: rep_def root_models_def split: option.splits)
  have one: "resolve_one p rep u = ambiguous \<or>
      (\<exists>e c. resolve_one p rep u = resolve_model p (Some e) c \<and> e \<in> root_models p)"
    if "pj_usage_models p = [u]" for u
    using that by (auto simp: resolve_one_def Let_def root_models_def split: option.splits)
  have many: "resolve_many p rep = ambiguous \<or>
      (\<exists>e c. resolve_many p rep = resolve_model p (Some e) c \<and> e \<in> root_models p)"
    using rep by (auto simp: resolve_many_def root_models_def split: option.splits list.splits)
  define conf where "conf = (case pj_session_model p of None \<Rightarrow> False
    | Some s \<Rightarrow> list_ex (\<lambda>m. m \<noteq> s \<and> py_casefold rt m \<notin> set (lits SYNTHETIC_MODEL_IDENTIFIERS))
        (pj_reported_models p))"
  have eq: "model_provenance rt p = (if conf then ambiguous
      else (case pj_usage_models p of
              [] \<Rightarrow> (case pj_session_model p of
                       Some s \<Rightarrow> resolve_model p (Some s) None
                     | None \<Rightarrow> (case rep of [] \<Rightarrow> resolve_model p None None
                                | [r] \<Rightarrow> resolve_model p (Some r) None | _ \<Rightarrow> ambiguous))
            | [u] \<Rightarrow> resolve_one p rep u
            | _ \<Rightarrow> resolve_many p rep))"
    using clean unfolding model_provenance_def rep_def conf_def by (simp only: Let_def if_False)
  consider (amb) "model_provenance rt p = ambiguous"
    | (res) e c where "model_provenance rt p = resolve_model p e c" "\<And>m. e = Some m \<Longrightarrow> m \<in> root_models p"
  proof (cases "conf")
    case True
    then show ?thesis using amb eq by simp
  next
    case False
    show ?thesis
    proof (cases "pj_usage_models p")
      case Nil
      show ?thesis
      proof (cases "pj_session_model p")
        case (Some s)
        then show ?thesis using res[of "Some s" None] eq False Nil by (simp add: root_models_def)
      next
        case None
        show ?thesis
        proof (cases rep)
          case Nil2: Nil
          then show ?thesis using res[of None None] eq False Nil None by simp
        next
          case (Cons r rs)
          then show ?thesis
            using res[of "Some r" None] amb eq False Nil None rep by (cases rs) auto
        qed
      qed
    next
      case (Cons u us)
      show ?thesis
      proof (cases us)
        case Nil
        with one[of u] Cons eq False amb res show ?thesis by (auto simp del: One_nat_def)
      next
        case Cons2: (Cons v vs)
        with many Cons eq False amb res show ?thesis by auto
      qed
    qed
  qed
  then show ?thesis using that clean by cases blast+
qed

subsection \<open>Properties\<close>

text \<open>
  The model a turn reports as effective was named by SDK evidence (an assistant message,
  the usage table or the session's init message), never by the request; it is reported only
  while no evidence is malformed or conflicting; and the resolution says "exact" only when it
  equals the selected model. Ambiguous or missing evidence yields no model.
\<close>

theorem effective_model_evidenced:
  "case model_provenance rt p of
     (Some m, c, r) \<Rightarrow> m \<in> root_models p \<and> r \<notin> {lit ''ambiguous'', lit ''unknown''} \<and>
       \<not> pj_usage_malformed p \<and> \<not> pj_session_model_malformed p \<and> \<not> pj_session_model_conflict p \<and>
       (r = lit ''exact'' \<longrightarrow> pj_selected_model p = Some m) \<and>
       (r = lit ''reported'' \<longrightarrow> pj_selected_model p = None)
   | (None, c, r) \<Rightarrow> r \<in> {lit ''ambiguous'', lit ''unknown''}"
proof (rule model_provenance_cases[of rt p])
  assume "model_provenance rt p = ambiguous"
  then show ?thesis by (simp add: ambiguous_def)
next
  fix e c
  assume a: "model_provenance rt p = resolve_model p e c" "\<And>m. e = Some m \<Longrightarrow> m \<in> root_models p"
    "\<not> pj_usage_malformed p \<and> \<not> pj_session_model_malformed p \<and> \<not> pj_session_model_conflict p"
  obtain eff can r where res: "resolve_model p e c = (eff, can, r)" by (rule prod_cases3)
  show ?thesis
  proof (cases eff)
    case None
    then show ?thesis using a(1) res resolve_model_None[of p e c can r] by simp
  next
    case (Some m)
    then show ?thesis using a res resolve_model_effective[of p e c m can r] by simp
  qed
qed

definition reporting_projector :: projector where
  "reporting_projector = (projector_new sample_rt PNone PNone PNone PNone PNone)
     \<lparr>pj_selected_model := Some (lit ''claude''), pj_session_model := Some (lit ''claude'')\<rparr>"

theorem effective_model_evidenced_witness:
  "model_provenance sample_rt reporting_projector = (Some (lit ''claude''), None, lit ''exact'') \<and>
   lit ''claude'' \<in> root_models reporting_projector"
proof -
  have "model_provenance sample_rt reporting_projector = (Some (lit ''claude''), None, lit ''exact'')"
    by (simp add: model_provenance_def reporting_projector_def projector_new_def resolve_model_def Let_def)
  with effective_model_evidenced[where rt = sample_rt and p = reporting_projector] show ?thesis by simp
qed


definition result_message :: "bool \<Rightarrow> heap" where
  "result_message failed = (\<lambda>_. OInst (lit ''ResultMessage'')
     [(lit ''is_error'', Some (PBool failed)), (lit ''result'', Some (PStr (lit ''done'')))])"

definition sample_projector :: projector where
  "sample_projector = projector_new sample_rt PNone PNone PNone PNone PNone"

lemma result_message_simps [simp]:
  "type_name (result_message f) (PRef 2) = lit ''ResultMessage''"
  "safe_attr (result_message f) (PRef 2) ''is_error'' = PBool f"
  "safe_attr (result_message f) (PRef 2) ''result'' = PStr (lit ''done'')"
  "safe_attr (result_message f) (PRef 2) ''usage'' = PNone"
  "safe_attr (result_message f) (PRef 2) ''num_turns'' = PNone"
  "safe_attr (result_message f) (PRef 2) ''duration_ms'' = PNone"
  "safe_attr (result_message f) (PRef 2) ''duration_api_ms'' = PNone"
  by (simp_all add: result_message_def type_name_def safe_attr_def attr_of_def)

lemma result_message_projects:
  "\<exists>r p'. project sample_rt (result_message f) (PRef 2) sample_projector = (Inr r, p')"
  by (simp add: project_def project_result_def Let_def result_counters_def coerce_usage_int_def
      split: prod.split)


text \<open>
  A failed result message yields no public text: neither a content event nor a final text
  nor the text of the completion, whatever its fields hold.
\<close>

theorem failed_result_yields_no_text:
  assumes "project rt H message p = (Inr r, p')" and "type_name H message = lit ''ResultMessage''"
    and "safe_attr H message ''is_error'' = PBool True"
  shows "pr_final_text r = None \<and> (\<forall>t. ContentEvent t \<notin> set (pr_events r)) \<and>
    (\<forall>c. CompletedEvent c \<in> set (pr_events r) \<longrightarrow> map_of c (lit ''text'') = None)"
proof -
  have "project_result rt H message p = (Inr r, p')" using assms by (simp add: project_def)
  from project_result_InrD[OF this] assms(3) show ?thesis by auto
qed

theorem failed_result_yields_no_text_witness:
  "\<exists>r p'. project sample_rt (result_message True) (PRef 2) sample_projector = (Inr r, p') \<and>
     pr_final_text r = None"
proof -
  obtain r p' where r: "project sample_rt (result_message True) (PRef 2) sample_projector = (Inr r, p')"
    using result_message_projects by blast
  from failed_result_yields_no_text[OF r] r show ?thesis by auto
qed

text \<open>
  A new turn starts without the previous turn's evidence: what it can report about the
  model before its own messages arrive is the session's init model or nothing.
\<close>

theorem begin_turn_drops_turn_evidence:
  "fst (model_provenance rt (pj_begin_turn cid p)) =
     (if pj_session_model_malformed p \<or> pj_session_model_conflict p then None else pj_session_model p)"
  by (auto simp: model_provenance_def pj_begin_turn_def ambiguous_def resolve_model_def Let_def
      split: option.splits)

end
