(* ===== verification/Base64.thy ===== *)
theory Base64
  imports Py_Base
begin

section \<open>Base64\<close>

text \<open>
  The two functions of Python's \<^verbatim>\<open>base64\<close> the turn input uses: \<open>b64encode\<close>, and \<open>b64decode\<close> with
  \<^verbatim>\<open>validate=True\<close>. The strict decoder of CPython 3.11 to 3.13 accepts any number of \<^verbatim>\<open>=\<close>
  after complete groups and does not look at the unused bits of the last character.
\<close>

definition b64_char :: "nat \<Rightarrow> nat" where
  "b64_char n = (if n < 26 then 65 + n else if n < 52 then 71 + n else if n < 62 then n - 4
     else if n = 62 then 43 else 47)"

definition b64_value :: "nat \<Rightarrow> nat option" where
  "b64_value c = (if is_upper c then Some (c - 65) else if is_lower c then Some (c - 71)
     else if is_digit c then Some (c + 4) else if c = 43 then Some 62 else if c = 47 then Some 63
     else None)"

fun b64encode :: "nat list \<Rightarrow> ustr" where
  "b64encode [] = []"
| "b64encode [a] = [b64_char (a div 4), b64_char (a mod 4 * 16), 61, 61]"
| "b64encode [a, b] =
     [b64_char (a div 4), b64_char (a mod 4 * 16 + b div 16), b64_char (b mod 16 * 4), 61]"
| "b64encode (a # b # c # bs) =
     [b64_char (a div 4), b64_char (a mod 4 * 16 + b div 16), b64_char (b mod 16 * 4 + c div 64),
      b64_char (c mod 64)] @ b64encode bs"

definition group_bytes :: "nat \<Rightarrow> nat \<Rightarrow> nat \<Rightarrow> nat \<Rightarrow> nat list" where
  "group_bytes w x y z = [w * 4 + x div 16, x mod 16 * 16 + y div 4, y mod 4 * 64 + z]"

text \<open>The characters of the alphabet, then the padding; \<open>None\<close> is \<^verbatim>\<open>binascii.Error\<close>.\<close>

fun b64_groups :: "ustr \<Rightarrow> nat list option" where
  "b64_groups s =
     (case s of
        [] \<Rightarrow> Some []
      | [a] \<Rightarrow> None
      | [a, b] \<Rightarrow> None
      | [a, b, c] \<Rightarrow> None
      | a # b # c # d # r \<Rightarrow>
          (case (b64_value a, b64_value b) of
             (Some w, Some x) \<Rightarrow>
               (case (b64_value c, b64_value d) of
                  (Some y, Some z) \<Rightarrow>
                    (if list_all (\<lambda>e. e = 61) r then Some (group_bytes w x y z)
                     else map_option ((@) (group_bytes w x y z)) (b64_groups r))
                | (Some y, None) \<Rightarrow>
                    if d = 61 \<and> r = [] then Some (take 2 (group_bytes w x y 0)) else None
                | (None, _) \<Rightarrow>
                    if c = 61 \<and> d = 61 \<and> r = [] then Some (take 1 (group_bytes w x 0 0)) else None)
           | _ \<Rightarrow> None))"

declare b64_groups.simps [simp del]

definition b64decode_strict :: "ustr \<Rightarrow> nat list option" where
  "b64decode_strict s = b64_groups s"

subsection \<open>Round trip\<close>

lemma b64_value_char: "n < 64 \<Longrightarrow> b64_value (b64_char n) = Some n"
  by (auto simp: b64_value_def b64_char_def is_upper_def is_lower_def is_digit_def)

lemma b64_char_not_pad: "n < 64 \<Longrightarrow> b64_char n \<noteq> 61"
  by (auto simp: b64_char_def)

lemma b64_value_pad [simp]: "b64_value 61 = None"
  by (simp add: b64_value_def is_upper_def is_lower_def is_digit_def)

definition bytes :: "nat list \<Rightarrow> bool" where
  "bytes bs = list_all (\<lambda>b. b < 256) bs"

lemma byte_parts:
  "a < 256 \<Longrightarrow> a div 4 < (64::nat)"
  "a < 256 \<Longrightarrow> b < 256 \<Longrightarrow> a mod 4 * 16 + b div 16 < (64::nat)"
  "b < 256 \<Longrightarrow> c < 256 \<Longrightarrow> b mod 16 * 4 + c div 64 < (64::nat)"
  "a mod 4 * 16 < (64::nat)" "b mod 16 * 4 < (64::nat)"
  by linarith+

lemma group_bytes_parts:
  assumes "a < 256" "b < 256" "c < (256::nat)"
  shows "group_bytes (a div 4) (a mod 4 * 16 + b div 16) (b mod 16 * 4 + c div 64) (c mod 64) = [a, b, c]"
proof -
  have "(a mod 4 * 16 + b div 16) div 16 = a mod 4" "(a mod 4 * 16 + b div 16) mod 16 = b div 16"
    "(b mod 16 * 4 + c div 64) div 4 = b mod 16" "(b mod 16 * 4 + c div 64) mod 4 = c div 64"
    using assms by auto
  then show ?thesis by (simp add: group_bytes_def)
qed

lemma b64encode_head_not_pad:
  "bytes bs \<Longrightarrow> bs \<noteq> [] \<Longrightarrow> \<not> list_all (\<lambda>e. e = 61) (b64encode bs)"
  by (cases bs rule: b64encode.cases) (auto simp: bytes_def b64_char_not_pad byte_parts)

lemma b64_roundtrip: "bytes bs \<Longrightarrow> b64decode_strict (b64encode bs) = Some bs"
  unfolding b64decode_strict_def
proof (induction bs rule: b64encode.induct)
  case 1
  show ?case by (simp add: b64_groups.simps)
next
  case (2 a)
  then have "a < 256" by (simp add: bytes_def)
  then show ?case
    by (subst b64_groups.simps) (simp add: b64_value_char byte_parts group_bytes_def)
next
  case (3 a b)
  then have ab: "a < 256" "b < 256" by (simp_all add: bytes_def)
  have "take 2 (group_bytes (a div 4) (a mod 4 * 16 + b div 16) (b mod 16 * 4) 0) = [a, b]"
    using group_bytes_parts[of a b 0] ab by (simp add: group_bytes_def)
  with ab show ?case
    by (subst b64_groups.simps) (simp add: b64_value_char byte_parts)
next
  case (4 a b c bs)
  then have abc: "a < 256" "b < 256" "c < 256" "bytes bs" by (simp_all add: bytes_def)
  have vals: "b64_value (b64_char (a div 4)) = Some (a div 4)"
    "b64_value (b64_char (a mod 4 * 16 + b div 16)) = Some (a mod 4 * 16 + b div 16)"
    "b64_value (b64_char (b mod 16 * 4 + c div 64)) = Some (b mod 16 * 4 + c div 64)"
    "b64_value (b64_char (c mod 64)) = Some (c mod 64)"
    using abc by (simp_all add: b64_value_char byte_parts)
  show ?case
  proof (cases "bs = []")
    case True
    then show ?thesis
      by (subst b64_groups.simps) (simp add: vals group_bytes_parts[OF abc(1,2,3)])
  next
    case False
    with b64encode_head_not_pad[OF abc(4)] 4(1)[OF abc(4)] show ?thesis
      by (subst b64_groups.simps) (simp add: vals group_bytes_parts[OF abc(1,2,3)])
  qed
qed

lemma length_b64encode: "length (b64encode bs) = 4 * ((length bs + 2) div 3)"
proof (induction bs rule: b64encode.induct)
  case (4 a b c bs)
  have "(length (a # b # c # bs) + 2) div 3 = (length bs + 2) div 3 + 1" by simp
  with 4 show ?case by simp
qed auto

lemma length_group_bytes [simp]: "length (group_bytes w x y z) = 3"
  by (simp add: group_bytes_def)

lemma b64_value_less: "b64_value c = Some n \<Longrightarrow> n < 64"
  by (auto simp: b64_value_def is_upper_def is_lower_def is_digit_def split: if_splits)

lemma bytes_group: "w < 64 \<Longrightarrow> x < 64 \<Longrightarrow> y < 64 \<Longrightarrow> z < 64 \<Longrightarrow> bytes (group_bytes w x y z)"
  by (auto simp: bytes_def group_bytes_def)

lemma bytes_take: "bytes l \<Longrightarrow> bytes (take k l)"
  by (auto simp: bytes_def list_all_iff dest: in_set_takeD)

text \<open>A decoded group and what follows it.\<close>

lemma b64_groups_Cons:
  assumes "b64_groups (a # b # c # d # r) = Some bs"
  obtains g where "bs = g" "bytes g" "length g \<le> 3" "g \<noteq> []"
  | g bs' where "bs = g @ bs'" "bytes g" "length g = 3" "b64_groups r = Some bs'"
proof -
  from assms obtain w x where wx: "b64_value a = Some w" "b64_value b = Some x"
    by (subst (asm) b64_groups.simps) (auto split: option.splits)
  note lt = b64_value_less[OF wx(1)] b64_value_less[OF wx(2)]
  show ?thesis
  proof (cases "b64_value c")
    case None
    with assms wx have bs: "bs = take 1 (group_bytes w x 0 0)"
      by (subst (asm) b64_groups.simps) (auto split: if_splits)
    show ?thesis
    proof (rule that(1)[OF bs])
      show "bytes (take 1 (group_bytes w x 0 0))" using bytes_take[OF bytes_group] lt by simp
    qed (simp_all add: group_bytes_def)
  next
    case (Some y)
    note lty = b64_value_less[OF Some]
    show ?thesis
    proof (cases "b64_value d")
      case None
      with assms wx Some have bs: "bs = take 2 (group_bytes w x y 0)"
        by (subst (asm) b64_groups.simps) (auto split: if_splits)
      show ?thesis
      proof (rule that(1)[OF bs])
        show "bytes (take 2 (group_bytes w x y 0))" using bytes_take[OF bytes_group] lt lty by simp
      qed (simp_all add: group_bytes_def)
    next
      case z: (Some z)
      have g: "bytes (group_bytes w x y z)" using bytes_group lt lty b64_value_less[OF z] by simp
      from assms wx Some z have "bs = group_bytes w x y z \<or>
          (\<exists>bs'. bs = group_bytes w x y z @ bs' \<and> b64_groups r = Some bs')"
        by (subst (asm) b64_groups.simps) (auto split: if_splits)
      with g show ?thesis
        using that(1)[of "group_bytes w x y z"] that(2)[of "group_bytes w x y z"]
        by (auto simp: group_bytes_def)
    qed
  qed
qed

lemma quad_cases:
  obtains "s = []" | a where "s = [a]" | a b where "s = [a, b]" | a b c where "s = [a, b, c]"
  | a b c d r where "s = a # b # c # d # r"
  by (metis list.exhaust)

lemma b64_groups_decoded:
  "b64_groups s = Some bs \<Longrightarrow> bytes bs \<and> 4 * length bs \<le> 3 * length s"
proof (induction "length s" arbitrary: s bs rule: less_induct)
  case less
  consider "s = []" | "length s \<in> {1, 2, 3}" | a b c d r where "s = a # b # c # d # r"
    by (cases s rule: quad_cases) auto
  then show ?case
  proof cases
    case 1
    with less(2) show ?thesis by (simp add: b64_groups.simps bytes_def)
  next
    case 2
    with less(2) show ?thesis by (subst (asm) b64_groups.simps) (auto split: list.splits)
  next
    case 3
    from less(2)[unfolded 3] show ?thesis
    proof (cases rule: b64_groups_Cons)
      case (1 g)
      with 3 show ?thesis by simp
    next
      case (2 g bs')
      with less(1)[of r bs'] 3 show ?thesis by (simp add: bytes_def)
    qed
  qed
qed

lemmas bytes_b64_groups = b64_groups_decoded[THEN conjunct1]
lemmas length_b64_groups = b64_groups_decoded[THEN conjunct2]

end
