(* ===== verification/Turn_Input.thy ===== *)
theory Turn_Input
  imports Zero_Native Base64 Regex
begin

section \<open>Turn input (turn\_input.py)\<close>

text \<open>
  The conversion of a host request into the prompt given to the SDK: a text, or a text with
  bounded image sources. \<open>ImageError\<close> is \<^verbatim>\<open>TurnInputValidationError\<close> with its code; an
  exception that the source does not turn into one is \<open>Escaped\<close>.
\<close>

definition MAX_TURN_TEXT :: nat where "MAX_TURN_TEXT = 32000"
definition MAX_IMAGES_PER_TURN :: nat where "MAX_IMAGES_PER_TURN = 4"
definition MAX_IMAGE_BYTES :: nat where "MAX_IMAGE_BYTES = 5 * 1024 * 1024"
definition MAX_TOTAL_IMAGE_BYTES :: nat where "MAX_TOTAL_IMAGE_BYTES = 8 * 1024 * 1024"
definition MAX_IMAGE_URL_LENGTH :: nat where "MAX_IMAGE_URL_LENGTH = 2048"

definition ALLOWED_MEDIA_TYPES :: "string list" where
  "ALLOWED_MEDIA_TYPES = [''image/gif'', ''image/jpeg'', ''image/png'', ''image/webp'']"

datatype turn_error = ImageError string | Escaped exn

definition raising :: "exn + 'a \<Rightarrow> turn_error + 'a" where
  "raising x = map_sum Escaped id x"

record SDKImageSource =
  is_source_type :: string
  is_media_type :: "ustr option"
  is_value :: ustr
  is_decoded_bytes :: nat

record SDKTurnInput =
  ti_text :: ustr
  ti_images :: "SDKImageSource list"

datatype turn_prompt = PlainPrompt ustr | RichPrompt SDKTurnInput

subsection \<open>The message given to the SDK\<close>

definition obj :: "(string \<times> json) list \<Rightarrow> json" where
  "obj d = JDict (map (\<lambda>(k, v). (lit k, v)) d)"

definition as_content_block :: "SDKImageSource \<Rightarrow> json" where
  "as_content_block src =
     (if is_source_type src = ''base64''
      then obj [(''type'', JStr (lit ''image'')),
                (''source'', obj [(''type'', JStr (lit ''base64'')),
                   (''media_type'', case is_media_type src of None \<Rightarrow> JNull | Some m \<Rightarrow> JStr m),
                   (''data'', JStr (is_value src))])]
      else obj [(''type'', JStr (lit ''image'')),
                (''source'', obj [(''type'', JStr (lit ''url'')), (''url'', JStr (is_value src))])])"

definition as_sdk_message :: "SDKTurnInput \<Rightarrow> json" where
  "as_sdk_message t =
     obj [(''type'', JStr (lit ''user'')),
          (''message'', obj [(''role'', JStr (lit ''user'')),
             (''content'', JList (obj [(''type'', JStr (lit ''text'')), (''text'', JStr (ti_text t))]
                # map as_content_block (ti_images t)))]),
          (''parent_tool_use_id'', JNull)]"

subsection \<open>Text\<close>

text \<open>
  The text parts of a block list; \<open>used\<close> counts the characters taken so far, and the loop
  stops at a non-empty text once the limit is used up.
\<close>

fun text_parts :: "heap \<Rightarrow> nat \<Rightarrow> pyval list \<Rightarrow> exn + ustr list" where
  "text_parts H used [] = Inr []"
| "text_parts H used (block # blocks) =
     (if \<not> is_mapping H block then text_parts H used blocks
      else and_then (mapping_get H block ''type'') (\<lambda>kind.
        if kind \<noteq> PStr (lit ''text'') then text_parts H used blocks
        else and_then (mapping_get H block ''text'') (\<lambda>v.
          case v of
            PStr s \<Rightarrow>
              (let value = py_strip s
               in if value = [] then text_parts H used blocks
                  else if used \<ge> MAX_TURN_TEXT then Inr []
                  else (let part = take (MAX_TURN_TEXT - used) value
                        in map_sum id ((#) part) (text_parts H (used + length part) blocks)))
          | _ \<Rightarrow> text_parts H used blocks)))"

definition nonempty :: "ustr \<Rightarrow> ustr option" where
  "nonempty t = (if t = [] then None else Some t)"

definition turn_text :: "heap \<Rightarrow> pyval \<Rightarrow> exn + ustr option" where
  "turn_text H content =
     (case content of
        PStr s \<Rightarrow> Inr (nonempty (take MAX_TURN_TEXT (py_strip s)))
      | _ \<Rightarrow>
          (case seq_items H content of
             None \<Rightarrow> Inr None
           | Some blocks \<Rightarrow>
               map_sum id (\<lambda>parts. nonempty (py_strip (py_join [10] parts))) (text_parts H 0 blocks)))"

subsection \<open>Images\<close>

definition base64_source :: "heap \<Rightarrow> pyval \<Rightarrow> pyval \<Rightarrow> turn_error + SDKImageSource" where
  "base64_source H media_type v =
     and_then (raising (in_names H (Some media_type) ALLOWED_MEDIA_TYPES)) (\<lambda>known.
       case (known, media_type, v) of
         (True, PStr m, PStr s) \<Rightarrow>
           if s = [] then Inl (ImageError ''claude_runtime_image_invalid'')
           else if length s > (MAX_IMAGE_BYTES + 2) div 3 * 4
           then Inl (ImageError ''claude_runtime_image_too_large'')
           else (case b64decode_strict s of
                   None \<Rightarrow> Inl (ImageError ''claude_runtime_image_invalid'')
                 | Some decoded \<Rightarrow>
                     if decoded = [] then Inl (ImageError ''claude_runtime_image_invalid'')
                     else if length decoded > MAX_IMAGE_BYTES
                     then Inl (ImageError ''claude_runtime_image_too_large'')
                     else Inr \<lparr>is_source_type = ''base64'', is_media_type = Some m,
                               is_value = b64encode decoded, is_decoded_bytes = length decoded\<rparr>)
       | _ \<Rightarrow> Inl (ImageError ''claude_runtime_image_invalid''))"

text \<open>
  \<^verbatim>\<open>urllib.parse.urlsplit\<close>, as far as the source looks at it: the scheme (empty when there is
  none) and the network location. Unbalanced brackets raise; what else is rejected in a
  bracketed host or a host that is not ASCII is \<open>rt_netloc_rejected\<close>.
\<close>

definition url_cleaned :: "ustr \<Rightarrow> ustr" where
  "url_cleaned url = filter (\<lambda>c. c \<notin> {9, 10, 13}) (dropWhile (\<lambda>c. c \<le> 32) url)"

definition scheme_char :: "nat \<Rightarrow> bool" where
  "scheme_char c \<longleftrightarrow> is_alnum c \<or> c = 43 \<or> c = 45 \<or> c = 46"

definition url_scheme :: "ustr \<Rightarrow> ustr \<times> ustr" where
  "url_scheme url =
     (let s = takeWhile (\<lambda>c. c \<noteq> 58) url
      in if length s < length url \<and> s \<noteq> [] \<and> (is_upper (hd s) \<or> is_lower (hd s)) \<and> list_all scheme_char s
         then (map ascii_lower s, drop (Suc (length s)) url) else ([], url))"

definition url_netloc :: "ustr \<Rightarrow> ustr" where
  "url_netloc rest =
     (if take 2 rest = [47, 47] then takeWhile (\<lambda>c. c \<notin> {47, 63, 35}) (drop 2 rest) else [])"

definition urlsplit :: "pyrt \<Rightarrow> ustr \<Rightarrow> exn + ustr \<times> ustr" where
  "urlsplit rt url =
     (let (scheme, rest) = url_scheme (url_cleaned url);
          netloc = url_netloc rest
      in if (91 \<in> set netloc) \<noteq> (93 \<in> set netloc) then Inl ValueError
         else if (91 \<in> set netloc \<or> \<not> is_ascii netloc) \<and> rt_netloc_rejected rt netloc then Inl ValueError
         else Inr (scheme, netloc))"

text \<open>A user name or password is present exactly when the network location has an \<^verbatim>\<open>@\<close>.\<close>

definition url_source :: "pyrt \<Rightarrow> pyval \<Rightarrow> turn_error + SDKImageSource" where
  "url_source rt v =
     (case v of
        PStr s \<Rightarrow>
          if s = [] \<or> length s > MAX_IMAGE_URL_LENGTH then Inl (ImageError ''claude_runtime_image_invalid'')
          else and_then (raising (urlsplit rt s)) (\<lambda>(scheme, netloc).
                 if scheme \<noteq> lit ''https'' \<or> netloc = [] \<or> 64 \<in> set netloc
                 then Inl (ImageError ''claude_runtime_image_invalid'')
                 else Inr \<lparr>is_source_type = ''url'', is_media_type = None, is_value = s,
                           is_decoded_bytes = 0\<rparr>)
      | _ \<Rightarrow> Inl (ImageError ''claude_runtime_image_invalid''))"

text \<open>
  \<^verbatim>\<open>_DATA_URL.fullmatch\<close> with its two groups: the media type up to the first semicolon, and
  the payload.
\<close>

definition base64_char :: "nat \<Rightarrow> bool" where
  "base64_char c \<longleftrightarrow> is_alnum c \<or> c = 43 \<or> c = 47"

definition data_url :: "ustr \<Rightarrow> (ustr \<times> ustr) option" where
  "data_url s =
     (let body = drop 5 s; media = takeWhile (\<lambda>c. c \<noteq> 59) body; rest = drop (length media) body;
          payload = drop 8 rest
      in if startswith s (lit ''data:'') \<and> media \<in> set (lits ALLOWED_MEDIA_TYPES) \<and>
            startswith rest (lit '';base64,'') \<and>
            fullmatch (Seq (Rep 0 None base64_char) (Rep 0 (Some 2) (\<lambda>c. c = 61))) payload
         then Some (media, payload) else None)"

definition image_url_source :: "pyrt \<Rightarrow> heap \<Rightarrow> pyval \<Rightarrow> turn_error + SDKImageSource" where
  "image_url_source rt H image_url =
     (case image_url of
        PStr s \<Rightarrow>
          (case data_url s of
             Some (media, payload) \<Rightarrow> base64_source H (PStr media) (PStr payload)
           | None \<Rightarrow> url_source rt (PStr s))
      | _ \<Rightarrow> Inl (ImageError ''claude_runtime_image_invalid''))"

definition image_block_source :: "pyrt \<Rightarrow> heap \<Rightarrow> pyval \<Rightarrow> turn_error + SDKImageSource" where
  "image_block_source rt H source =
     (if \<not> is_mapping H source then Inl (ImageError ''claude_runtime_image_invalid'')
      else and_then (raising (mapping_get H source ''type'')) (\<lambda>kind.
        if kind = PStr (lit ''base64'') then
          and_then (raising (mapping_get H source ''media_type'')) (\<lambda>media.
          and_then (raising (mapping_get H source ''data'')) (\<lambda>data. base64_source H media data))
        else if kind = PStr (lit ''url'') then
          and_then (raising (mapping_get H source ''url'')) (\<lambda>url. url_source rt url)
        else Inl (ImageError ''claude_runtime_image_invalid'')))"

definition image_source :: "pyrt \<Rightarrow> heap \<Rightarrow> pyval \<Rightarrow> turn_error + SDKImageSource option" where
  "image_source rt H block =
     and_then (raising (mapping_get H block ''type'')) (\<lambda>block_type.
     and_then (raising (in_names H (Some block_type) [''image_url'', ''input_image''])) (\<lambda>is_url.
       if is_url then
         and_then (raising (mapping_get H block ''image_url'')) (\<lambda>image_url.
         and_then (raising (if is_mapping H image_url then mapping_get H image_url ''url'' else Inr image_url))
           (\<lambda>url. map_sum id Some (image_url_source rt H url)))
       else if block_type \<noteq> PStr (lit ''image'') then Inr None
       else and_then (raising (mapping_get H block ''source''))
              (\<lambda>source. map_sum id Some (image_block_source rt H source))))"

fun collect_images ::
    "pyrt \<Rightarrow> heap \<Rightarrow> SDKImageSource list \<Rightarrow> nat \<Rightarrow> pyval list \<Rightarrow> turn_error + SDKImageSource list" where
  "collect_images rt H images sofar [] = Inr images"
| "collect_images rt H images sofar (block # blocks) =
     (if \<not> is_mapping H block then collect_images rt H images sofar blocks
      else and_then (image_source rt H block) (\<lambda>found.
        case found of
          None \<Rightarrow> collect_images rt H images sofar blocks
        | Some img \<Rightarrow>
            (let images' = images @ [img]; sofar' = sofar + is_decoded_bytes img
             in if length images' > MAX_IMAGES_PER_TURN then Inl (ImageError ''claude_runtime_too_many_images'')
                else if sofar' > MAX_TOTAL_IMAGE_BYTES then Inl (ImageError ''claude_runtime_images_too_large'')
                else collect_images rt H images' sofar' blocks)))"

subsection \<open>The last user message\<close>

definition message_prompt :: "pyrt \<Rightarrow> heap \<Rightarrow> pyval \<Rightarrow> turn_error + turn_prompt option" where
  "message_prompt rt H content =
     and_then (raising (turn_text H content)) (\<lambda>text.
       case content of
         PStr _ \<Rightarrow> Inr (map_option PlainPrompt text)
       | _ \<Rightarrow>
           (case seq_items H content of
              None \<Rightarrow> Inr None
            | Some blocks \<Rightarrow>
                and_then (collect_images rt H [] 0 blocks) (\<lambda>images.
                  if images = [] then Inr (map_option PlainPrompt text)
                  else Inr (Some (RichPrompt
                    \<lparr>ti_text = (case text of Some t \<Rightarrow> t | None \<Rightarrow> lit ''What do you see in this image?''),
                     ti_images = images\<rparr>)))))"

text \<open>The messages in the order the loop visits them, the last one first.\<close>

fun latest_prompt :: "pyrt \<Rightarrow> heap \<Rightarrow> pyval list \<Rightarrow> turn_error + turn_prompt option" where
  "latest_prompt rt H [] = Inr None"
| "latest_prompt rt H (message # earlier) =
     (if \<not> is_mapping H message then latest_prompt rt H earlier
      else and_then (raising (mapping_get H message ''role'')) (\<lambda>role.
        if role \<noteq> PStr (lit ''user'') then latest_prompt rt H earlier
        else and_then (raising (mapping_get H message ''content'')) (message_prompt rt H)))"

definition build_sdk_turn_input :: "pyrt \<Rightarrow> heap \<Rightarrow> pyval \<Rightarrow> turn_error + turn_prompt option" where
  "build_sdk_turn_input rt H request =
     (case attr_of H request (lit ''messages'') of
        Raising \<Rightarrow> Inl (Escaped OtherError)
      | Absent \<Rightarrow> Inr None
      | Present messages \<Rightarrow>
          (case seq_items H messages of
             None \<Rightarrow> Inr None
           | Some ms \<Rightarrow> latest_prompt rt H (rev ms)))"

subsection \<open>What an accepted turn is\<close>

definition base64_image_ok :: "SDKImageSource \<Rightarrow> bool" where
  "base64_image_ok i \<longleftrightarrow>
     (\<exists>m bs. is_media_type i = Some m \<and> m \<in> set (lits ALLOWED_MEDIA_TYPES) \<and> bytes bs \<and> bs \<noteq> [] \<and>
        length bs \<le> MAX_IMAGE_BYTES \<and> is_value i = b64encode bs \<and> is_decoded_bytes i = length bs)"

definition url_image_ok :: "pyrt \<Rightarrow> SDKImageSource \<Rightarrow> bool" where
  "url_image_ok rt i \<longleftrightarrow> is_media_type i = None \<and> is_decoded_bytes i = 0 \<and>
     length (is_value i) \<le> MAX_IMAGE_URL_LENGTH \<and>
     (\<exists>netloc. urlsplit rt (is_value i) = Inr (lit ''https'', netloc) \<and> netloc \<noteq> [] \<and> 64 \<notin> set netloc)"

definition image_ok :: "pyrt \<Rightarrow> SDKImageSource \<Rightarrow> bool" where
  "image_ok rt i \<longleftrightarrow> (is_source_type i = ''base64'' \<and> base64_image_ok i) \<or>
     (is_source_type i = ''url'' \<and> url_image_ok rt i)"

definition total_bytes :: "SDKImageSource list \<Rightarrow> nat" where
  "total_bytes images = sum_list (map is_decoded_bytes images)"

definition text_ok :: "ustr \<Rightarrow> bool" where
  "text_ok t \<longleftrightarrow> t \<noteq> [] \<and> length t < 2 * MAX_TURN_TEXT"

fun prompt_ok :: "pyrt \<Rightarrow> turn_prompt \<Rightarrow> bool" where
  "prompt_ok rt (PlainPrompt t) = text_ok t"
| "prompt_ok rt (RichPrompt t) =
     (text_ok (ti_text t) \<and> ti_images t \<noteq> [] \<and> length (ti_images t) \<le> MAX_IMAGES_PER_TURN \<and>
      total_bytes (ti_images t) \<le> MAX_TOTAL_IMAGE_BYTES \<and> list_all (image_ok rt) (ti_images t))"

subsection \<open>Lemmas on text\<close>

lemma text_parts_bounded:
  "text_parts H used blocks = Inr ps \<Longrightarrow> used \<le> MAX_TURN_TEXT \<Longrightarrow>
   list_all (\<lambda>p. p \<noteq> []) ps \<and> used + sum_list (map length ps) \<le> MAX_TURN_TEXT"
proof (induction blocks arbitrary: used ps)
  case (Cons b bs)
  show ?case
  proof (cases "text_parts H used bs = Inr ps")
    case True
    with Cons.IH[OF True Cons.prems(2)] show ?thesis by simp
  next
    case False
    with Cons.prems obtain v where v: "(case v of PStr s \<Rightarrow>
          (let value = py_strip s
           in if value = [] then text_parts H used bs
              else if used \<ge> MAX_TURN_TEXT then Inr []
              else (let part = take (MAX_TURN_TEXT - used) value
                    in map_sum id ((#) part) (text_parts H (used + length part) bs)))
        | _ \<Rightarrow> text_parts H used bs) = Inr ps"
      by (auto simp only: text_parts.simps and_then_Inr split: if_splits)
    with False obtain s where s: "py_strip s \<noteq> []"
      "(if used \<ge> MAX_TURN_TEXT then Inr []
        else map_sum id ((#) (take (MAX_TURN_TEXT - used) (py_strip s)))
          (text_parts H (used + length (take (MAX_TURN_TEXT - used) (py_strip s))) bs)) = Inr ps"
      by (cases v) (auto simp only: Let_def pyval.case split: if_splits)
    show ?thesis
    proof (cases "used \<ge> MAX_TURN_TEXT")
      case True
      with s Cons.prems show ?thesis by auto
    next
      case room: False
      define part where "part = take (MAX_TURN_TEXT - used) (py_strip s)"
      have part: "part \<noteq> []" "used + length part \<le> MAX_TURN_TEXT"
        using s(1) room by (auto simp: part_def)
      from s(2) room obtain ps' where ps: "ps = part # ps'" "text_parts H (used + length part) bs = Inr ps'"
        by (auto simp: part_def[symmetric])
      from Cons.IH[OF ps(2) part(2)] ps(1) part show ?thesis by simp
    qed
  qed
qed simp

lemma length_py_join: "length (py_join [c] ws) + 1 \<le> sum_list (map length ws) + max 1 (length ws)"
  by (induction "[c]" ws rule: py_join.induct) auto

lemma length_le_sum: "list_all (\<lambda>p. p \<noteq> []) ps \<Longrightarrow> length ps \<le> sum_list (map length ps)"
proof (induction ps)
  case (Cons p ps)
  then show ?case by (cases p) auto
qed simp

lemma turn_text_ok: "turn_text H content = Inr (Some t) \<Longrightarrow> text_ok t"
proof -
  assume a: "turn_text H content = Inr (Some t)"
  show ?thesis
  proof (cases "\<exists>s. content = PStr s")
    case True
    with a show ?thesis
      by (auto simp: turn_text_def nonempty_def text_ok_def MAX_TURN_TEXT_def split: if_splits)
  next
    case False
    with a obtain blocks ps where ps: "text_parts H 0 blocks = Inr ps"
      "t = py_strip (py_join [10] ps)" "t \<noteq> []"
      by (cases content) (auto simp: turn_text_def nonempty_def split: option.splits if_splits)
    from text_parts_bounded[OF ps(1)] length_le_sum[of ps] length_py_join[of 10 ps]
      length_py_strip[of "py_join [10] ps"] ps(2,3)
    show ?thesis by (auto simp: text_ok_def MAX_TURN_TEXT_def)
  qed
qed

subsection \<open>Lemmas on images\<close>

lemma raising_Inr [simp]: "raising x = Inr y \<longleftrightarrow> x = Inr y"
  by (cases x) (auto simp: raising_def)

lemma raising_simps [simp]: "raising (Inr y) = Inr y" "raising (Inl e) = Inl (Escaped e)"
  by (simp_all add: raising_def)

lemma in_names_Inr_True: "in_names H (Some v) names = Inr True \<Longrightarrow> str_in v names"
  by (auto simp: in_names_def split: if_splits)

lemma base64_source_ok: "base64_source H m v = Inr i \<Longrightarrow> image_ok rt i"
proof -
  assume a: "base64_source H m v = Inr i"
  then obtain known where k: "in_names H (Some m) ALLOWED_MEDIA_TYPES = Inr known"
    by (auto simp: base64_source_def and_then_Inr)
  with a obtain mt s where ms: "m = PStr mt" "v = PStr s" "known"
    by (cases known; cases m; cases v) (simp_all add: base64_source_def)
  with a k obtain d where d: "b64decode_strict s = Some d" "d \<noteq> []" "length d \<le> MAX_IMAGE_BYTES"
    "i = \<lparr>is_source_type = ''base64'', is_media_type = Some mt, is_value = b64encode d,
          is_decoded_bytes = length d\<rparr>"
    by (simp add: base64_source_def split: if_splits option.splits)
  moreover have "mt \<in> set (lits ALLOWED_MEDIA_TYPES)"
    using in_names_Inr_True[of H m ALLOWED_MEDIA_TYPES] k ms by simp
  ultimately show ?thesis
    using bytes_b64_groups[of s d]
    by (auto simp: image_ok_def base64_image_ok_def b64decode_strict_def intro!: exI[of _ d])
qed

lemma url_source_ok: "url_source rt v = Inr i \<Longrightarrow> image_ok rt i"
  by (auto simp: url_source_def and_then_Inr image_ok_def url_image_ok_def
      split: pyval.splits if_splits)

lemma image_url_source_ok: "image_url_source rt H v = Inr i \<Longrightarrow> image_ok rt i"
  by (auto simp: image_url_source_def base64_source_ok url_source_ok split: pyval.splits option.splits)

lemma image_block_source_ok: "image_block_source rt H v = Inr i \<Longrightarrow> image_ok rt i"
  by (auto simp: image_block_source_def and_then_Inr base64_source_ok url_source_ok split: if_splits)

lemma image_source_ok: "image_source rt H b = Inr (Some i) \<Longrightarrow> image_ok rt i"
  by (auto simp: image_source_def and_then_Inr image_url_source_ok image_block_source_ok split: if_splits)

lemma collect_images_ok:
  "collect_images rt H images sofar blocks = Inr out \<Longrightarrow>
   list_all (image_ok rt) images \<and> length images \<le> MAX_IMAGES_PER_TURN \<and>
   sofar = total_bytes images \<and> sofar \<le> MAX_TOTAL_IMAGE_BYTES \<Longrightarrow>
   list_all (image_ok rt) out \<and> length out \<le> MAX_IMAGES_PER_TURN \<and>
   total_bytes out \<le> MAX_TOTAL_IMAGE_BYTES"
proof (induction blocks arbitrary: images sofar)
  case (Cons b bs)
  show ?case
  proof (cases "collect_images rt H images sofar bs = Inr out")
    case True
    from Cons.IH[OF this Cons.prems(2)] show ?thesis .
  next
    case False
    with Cons.prems(1) obtain i where i: "image_source rt H b = Inr (Some i)"
      "length images < MAX_IMAGES_PER_TURN" "sofar + is_decoded_bytes i \<le> MAX_TOTAL_IMAGE_BYTES"
      "collect_images rt H (images @ [i]) (sofar + is_decoded_bytes i) bs = Inr out"
      by (auto simp: and_then_Inr Let_def split: if_splits option.splits)
    from Cons.IH[OF i(4)] Cons.prems(2) i image_source_ok[OF i(1)] show ?thesis
      by (simp add: total_bytes_def)
  qed
qed auto

lemma message_prompt_ok: "message_prompt rt H content = Inr (Some p) \<Longrightarrow> prompt_ok rt p"
proof -
  assume a: "message_prompt rt H content = Inr (Some p)"
  then obtain tx where t: "turn_text H content = Inr tx"
    by (auto simp: message_prompt_def and_then_Inr)
  have txt_ok: "tx = Some t \<Longrightarrow> text_ok t" for t using t turn_text_ok by simp
  have question: "text_ok (lit ''What do you see in this image?'')"
    by (simp add: text_ok_def MAX_TURN_TEXT_def)
  show ?thesis
  proof (cases "map_option PlainPrompt tx = Some p")
    case True
    with txt_ok show ?thesis by auto
  next
    case False
    with a t obtain blocks images where i: "collect_images rt H [] 0 blocks = Inr images" "images \<noteq> []"
      "p = RichPrompt \<lparr>ti_text = (case tx of Some t \<Rightarrow> t | None \<Rightarrow> lit ''What do you see in this image?''),
                     ti_images = images\<rparr>"
      by (cases content) (auto simp: message_prompt_def and_then_Inr split: option.splits if_splits)
    from collect_images_ok[OF i(1)] i(2,3) txt_ok question show ?thesis
      by (auto simp: total_bytes_def split: option.splits)
  qed
qed

lemma latest_prompt_ok: "latest_prompt rt H ms = Inr (Some p) \<Longrightarrow> prompt_ok rt p"
  by (induction ms) (auto simp: and_then_Inr message_prompt_ok split: if_splits)

lemma in_names_str [simp]: "in_names H (Some (PStr s)) names = Inr (str_in (PStr s) names)"
  by (simp add: in_names_def)

lemma b64encode_shape:
  "bytes bs \<Longrightarrow> \<exists>p k. b64encode bs = p @ replicate k 61 \<and> list_all base64_char p \<and> k \<le> 2"
proof -
  have char: "n < 64 \<Longrightarrow> base64_char (b64_char n)" for n
    by (auto simp: base64_char_def b64_char_def is_alnum_def is_upper_def is_lower_def is_digit_def)
  show "bytes bs \<Longrightarrow> ?thesis"
  proof (induction bs rule: b64encode.induct)
    case 1
    show ?case by (auto intro: exI[of _ "[]"] exI[of _ 0])
  next
    case (2 a)
    then show ?case
      by (intro exI[of _ "[b64_char (a div 4), b64_char (a mod 4 * 16)]"] exI[of _ 2])
         (simp add: numeral_2_eq_2 bytes_def char byte_parts)
  next
    case (3 a b)
    then show ?case
      by (intro exI[of _ "[b64_char (a div 4), b64_char (a mod 4 * 16 + b div 16), b64_char (b mod 16 * 4)]"]
            exI[of _ 1]) (simp add: bytes_def char byte_parts)
  next
    case (4 a b c bs)
    then obtain p k where p: "b64encode bs = p @ replicate k 61" "list_all base64_char p" "k \<le> 2"
      by (auto simp: bytes_def)
    with 4(2) show ?case
      by (intro exI[of _ "[b64_char (a div 4), b64_char (a mod 4 * 16 + b div 16),
            b64_char (b mod 16 * 4 + c div 64), b64_char (c mod 64)] @ p"] exI[of _ k])
         (simp add: bytes_def char byte_parts)
  qed
qed

lemma fullmatch_payload:
  assumes "list_all P p" "\<not> P c" "k \<le> 2"
  shows "fullmatch (Seq (Rep 0 None P) (Rep 0 (Some 2) (\<lambda>x. x = c))) (p @ replicate k c)"
proof -
  let ?pads = "Rep 0 (Some 2) (\<lambda>x. x = c)"
  have run: "takeWhile P (p @ replicate k c) = p"
    using assms by (auto simp: takeWhile_append list_all_iff)
  have pads: "takeWhile (\<lambda>x. x = c) (replicate k c) = replicate k c"
    by (auto simp: takeWhile_eq_all_conv)
  have "advance (length p) ([], p @ replicate k c) \<in> set (ends (Rep 0 None P) ([], p @ replicate k c))"
    by (auto simp: run_length_def run)
  then have body: "(rev p, replicate k c) \<in> set (ends (Rep 0 None P) ([], p @ replicate k c))"
    by (simp add: advance_def)
  have "advance k (rev p, replicate k c) \<in> set (ends ?pads (rev p, replicate k c))"
    using assms(3) by (auto simp: run_length_def pads)
  then have tail: "(rev (replicate k c) @ rev p, []) \<in> set (ends ?pads (rev p, replicate k c))"
    by (simp add: advance_def)
  have "(rev (replicate k c) @ rev p, []) \<in> set (ends (Seq (Rep 0 None P) ?pads) ([], p @ replicate k c))"
    unfolding ends.simps(3) set_concat set_map
    by (rule UnionI, rule imageI, rule imageI, rule body, rule tail)
  then show ?thesis
    unfolding fullmatch_def list_ex_iff by (rule bexI[rotated]) (simp only: snd_conv)
qed

lemma media_no_semicolon:
  "m \<in> set (lits ALLOWED_MEDIA_TYPES) \<Longrightarrow> takeWhile (\<lambda>c. c \<noteq> 59) (m @ lit '';base64,'' @ x) = m"
  by (auto simp: ALLOWED_MEDIA_TYPES_def lit_def)

subsection \<open>Properties\<close>

text \<open>
  C40: Every prompt the conversion accepts is bounded and valid: its text is non-empty and
  shorter than 64000 characters; a rich prompt has one to four images of at most 8 MiB decoded
  in total; a base64 image has an allowed media type and carries the canonical encoding of
  between 1 byte and 5 MiB; a URL image is an https URL of at most 2048 characters whose host
  part is present and holds no user name or password.
\<close>

theorem turn_prompt_bounded:
  assumes "build_sdk_turn_input rt H request = Inr (Some prompt)"
  shows "prompt_ok rt prompt"
proof -
  from assms obtain ms where "latest_prompt rt H (rev ms) = Inr (Some prompt)"
    by (auto simp: build_sdk_turn_input_def split: attr.splits option.splits)
  then show ?thesis by (rule latest_prompt_ok)
qed

text \<open>A request whose only message is a text and a PNG data URL of three bytes.\<close>

definition image_request :: "ustr \<Rightarrow> heap" where
  "image_request url = (\<lambda>_. ODict [])
     (6 := OInst (lit ''Request'') [(lit ''messages'', Some (PRef 2))],
      2 := OList [PRef 3],
      3 := ODict [(PStr (lit ''role''), PStr (lit ''user'')), (PStr (lit ''content''), PRef 4)],
      4 := OList [PRef 5],
      5 := ODict [(PStr (lit ''type''), PStr (lit ''image_url'')), (PStr (lit ''image_url''), PStr url)])"

lemma image_request_eval:
  "build_sdk_turn_input rt (image_request url) (PRef 6) =
     map_sum id (\<lambda>i. Some (RichPrompt \<lparr>ti_text = lit ''What do you see in this image?'', ti_images = [i]\<rparr>))
       (and_then (image_url_source rt (image_request url) (PStr url)) (\<lambda>i.
          if is_decoded_bytes i > MAX_TOTAL_IMAGE_BYTES then Inl (ImageError ''claude_runtime_images_too_large'')
          else Inr i))"
  by (cases "image_url_source rt (image_request url) (PStr url)")
     (simp_all add: build_sdk_turn_input_def attr_of_def image_request_def seq_items_def
        is_mapping_def mapping_get_def mapping_find_def mapping_items_def message_prompt_def turn_text_def
        nonempty_def image_source_def py_strip_def MAX_IMAGES_PER_TURN_def)

text \<open>
  A data URL holding the base64 form of an allowed image of at most 5 MiB is accepted and
  passed on byte for byte: media type, encoded value and decoded size are those of the image.
\<close>

theorem data_url_roundtrip:
  assumes "m \<in> set (lits ALLOWED_MEDIA_TYPES)" "bytes bs" "bs \<noteq> []" "length bs \<le> MAX_IMAGE_BYTES"
  shows "image_url_source rt H (PStr (lit ''data:'' @ m @ lit '';base64,'' @ b64encode bs)) =
    Inr \<lparr>is_source_type = ''base64'', is_media_type = Some m, is_value = b64encode bs,
         is_decoded_bytes = length bs\<rparr>"
proof -
  obtain p k where shape: "b64encode bs = p @ replicate k 61" "list_all base64_char p" "k \<le> 2"
    using b64encode_shape[OF assms(2)] by blast
  have "\<not> base64_char 61" by (simp add: base64_char_def is_alnum_def is_upper_def is_lower_def is_digit_def)
  from fullmatch_payload[OF shape(2) this shape(3)] shape(1)
  have full: "fullmatch (Seq (Rep 0 None base64_char) (Rep 0 (Some 2) (\<lambda>c. c = 61))) (b64encode bs)" by simp
  have url: "data_url (lit ''data:'' @ m @ lit '';base64,'' @ b64encode bs) = Some (m, b64encode bs)"
    using full assms(1) media_no_semicolon[OF assms(1)]
    by (simp add: data_url_def Let_def startswith_def)
  have "(length bs + 2) div 3 \<le> (MAX_IMAGE_BYTES + 2) div 3"
    using assms(4) by (intro div_le_mono) simp
  then have len: "\<not> length (b64encode bs) > (MAX_IMAGE_BYTES + 2) div 3 * 4"
    by (simp add: length_b64encode)
  have ne: "b64encode bs \<noteq> []" using assms(3) by (cases bs rule: b64encode.cases) auto
  show ?thesis
    using url len ne assms b64_roundtrip[OF assms(2)]
    by (simp add: image_url_source_def base64_source_def)
qed

theorem data_url_roundtrip_witness:
  "image_url_source sample_rt (\<lambda>_. ODict []) (PStr (lit ''data:image/png;base64,AQID'')) =
    Inr \<lparr>is_source_type = ''base64'', is_media_type = Some (lit ''image/png''), is_value = lit ''AQID'',
         is_decoded_bytes = 3\<rparr>"
proof -
  have e: "b64encode [1, 2, 3] = lit ''AQID''" by (simp add: b64_char_def lit_def)
  have u: "lit ''data:'' @ lit ''image/png'' @ lit '';base64,'' @ lit ''AQID'' = lit ''data:image/png;base64,AQID''"
    by (simp add: lit_def)
  show ?thesis
    using data_url_roundtrip[of "lit ''image/png''" "[1, 2, 3]" sample_rt "\<lambda>_. ODict []", unfolded e u]
    by (simp add: ALLOWED_MEDIA_TYPES_def bytes_def MAX_IMAGE_BYTES_def)
qed

theorem turn_prompt_bounded_witness:
  "\<exists>prompt. build_sdk_turn_input sample_rt (image_request (lit ''data:image/png;base64,AQID'')) (PRef 6) =
     Inr (Some prompt) \<and> prompt_ok sample_rt prompt"
proof -
  let ?H = "image_request (lit ''data:image/png;base64,AQID'')"
  have e: "b64decode_strict (lit ''AQID'') = Some [1, 2, 3]"
    using b64_roundtrip[of "[1, 2, 3]"] by (simp add: bytes_def b64_char_def lit_def)
  have d: "data_url (lit ''data:image/png;base64,AQID'') = Some (lit ''image/png'', lit ''AQID'')"
    by (simp add: data_url_def Let_def startswith_def lit_def lits_def ALLOWED_MEDIA_TYPES_def fullmatch_def
        run_length_def advance_def base64_char_def is_alnum_def is_upper_def is_lower_def is_digit_def
        list_ex_iff)
  have "\<exists>i. image_url_source sample_rt ?H (PStr (lit ''data:image/png;base64,AQID'')) = Inr i \<and>
      is_decoded_bytes i = 3"
    using d e by (simp add: image_url_source_def base64_source_def ALLOWED_MEDIA_TYPES_def MAX_IMAGE_BYTES_def)
  then obtain prompt where "build_sdk_turn_input sample_rt ?H (PRef 6) = Inr (Some prompt)"
    by (auto simp: image_request_eval MAX_TOTAL_IMAGE_BYTES_def)
  with turn_prompt_bounded show ?thesis by blast
qed

text \<open>
  Only the last user message is converted: earlier messages and later messages of other
  roles have no influence on the prompt or on the error.
\<close>

theorem last_user_message_decides:
  assumes "attr_of H request (lit ''messages'') = Present messages"
    and "seq_items H messages = Some (earlier @ [message] @ later)"
    and "is_mapping H message" "mapping_get H message ''role'' = Inr (PStr (lit ''user''))"
      "mapping_get H message ''content'' = Inr content"
    and "list_all (\<lambda>m. is_mapping H m \<longrightarrow>
           (\<exists>role. mapping_get H m ''role'' = Inr role \<and> role \<noteq> PStr (lit ''user''))) later"
  shows "build_sdk_turn_input rt H request = message_prompt rt H content"
proof -
  have "list_all (\<lambda>m. is_mapping H m \<longrightarrow>
           (\<exists>role. mapping_get H m ''role'' = Inr role \<and> role \<noteq> PStr (lit ''user''))) ms \<Longrightarrow>
        latest_prompt rt H (ms @ message # rev earlier) = message_prompt rt H content" for ms
    using assms(3-5) by (induction ms) auto
  from this[of "rev later"] assms show ?thesis
    by (simp add: build_sdk_turn_input_def)
qed

theorem last_user_message_decides_witness:
  "build_sdk_turn_input sample_rt (image_request []) (PRef 6) =
     message_prompt sample_rt (image_request []) (PRef 4)"
  by (rule last_user_message_decides[where messages = "PRef 2" and earlier = "[]" and later = "[]"
        and message = "PRef 3"])
     (simp_all add: attr_of_def image_request_def seq_items_def is_mapping_def mapping_get_def
        mapping_find_def mapping_items_def)

text \<open>
  Not every rejected image is a validation error: for a URL whose host part opens a bracket
  that is never closed, the \<^verbatim>\<open>ValueError\<close> of \<^verbatim>\<open>urlsplit\<close> leaves the conversion as it is,
  where any other malformed URL is answered with \<open>claude_runtime_image_invalid\<close>.
\<close>

theorem unbalanced_bracket_escapes:
  "build_sdk_turn_input rt (image_request (lit ''https://['')) (PRef 6) = Inl (Escaped ValueError) \<and>
   build_sdk_turn_input rt (image_request (lit ''https://'')) (PRef 6) =
     Inl (ImageError ''claude_runtime_image_invalid'')"
proof -
  have "data_url (lit ''https://['') = None" "data_url (lit ''https://'') = None"
    by (simp_all add: data_url_def startswith_def lit_def)
  moreover have "urlsplit rt (lit ''https://['') = Inl ValueError"
    "urlsplit rt (lit ''https://'') = Inr (lit ''https'', [])"
    by (simp_all add: urlsplit_def url_scheme_def url_cleaned_def url_netloc_def lit_def Let_def
        is_alnum_def is_upper_def is_lower_def is_digit_def scheme_char_def ascii_lower_def is_ascii_def)
  ultimately show ?thesis
    by (simp add: image_request_eval image_url_source_def url_source_def MAX_IMAGE_URL_LENGTH_def)
qed

end
