(* ===== verification/Transitions.thy ===== *)
theory Transitions
  imports Main
begin

section \<open>Reachable states and invariants\<close>

text \<open>
  Components whose coroutines interleave are step relations. \<open>reach\<close> is reachability from
  the initial states, and the locale gives an inductive invariant for every reachable state.
\<close>

inductive reach :: "('s \<Rightarrow> bool) \<Rightarrow> ('s \<Rightarrow> 's \<Rightarrow> bool) \<Rightarrow> 's \<Rightarrow> bool" for start step where
  first: "start s \<Longrightarrow> reach start step s"
| further: "reach start step s \<Longrightarrow> step s t \<Longrightarrow> reach start step t"

locale inductive_invariant =
  fixes start :: "'s \<Rightarrow> bool" and step :: "'s \<Rightarrow> 's \<Rightarrow> bool" and inv :: "'s \<Rightarrow> bool"
  assumes holds_first: "start s \<Longrightarrow> inv s"
    and preserved: "inv s \<Longrightarrow> step s t \<Longrightarrow> inv t"
begin

lemma always: "reach start step s \<Longrightarrow> inv s"
  by (induction rule: reach.induct) (auto intro: holds_first preserved)

end

locale two_invariants = inductive_invariant start step inv
  for start :: "'s \<Rightarrow> bool" and step :: "'s \<Rightarrow> 's \<Rightarrow> bool" and inv :: "'s \<Rightarrow> bool" +
  fixes inv2 :: "'s \<Rightarrow> bool"
  assumes holds_first2: "start s \<Longrightarrow> inv2 s"
    and preserved2: "inv s \<Longrightarrow> inv2 s \<Longrightarrow> step s t \<Longrightarrow> inv2 t"
begin

text \<open>A second invariant may use the first.\<close>

lemma always2: "reach start step s \<Longrightarrow> inv2 s"
proof (induction rule: reach.induct)
  case (further s t)
  with always[of s] show ?case by (auto intro: preserved2)
qed (rule holds_first2)

end

end
