(* ===== verification/Sdk_Session.thy ===== *)
theory Sdk_Session
  imports Billing Content_Events Turn_Input Transitions
begin

section \<open>The SDK session (sdk\_session.py)\<close>

text \<open>
  One SDK client, one reader task and one serialised turn. The coroutines of the session are
  functions on its state, cut at the \<^verbatim>\<open>await\<close>s at which what other tasks do matters: the turn
  can be waiting for the client to connect, for the query, for an inbox item, or at the
  scheduling point after a result (\<open>turn_pc\<close>). Between them the reader, a cancellation, a
  close, a compaction hook or the watchdog may run; \<open>session_step\<close> is that interleaving.
  Processing one inbox item, and interrupting and closing, are one step each: nothing another
  task changes meanwhile is read by them. The deadline is not a clock: a time-out may happen
  whenever the source waits with one. A callback returns or raises, as the step says.

  \<open>ss_log\<close> lists what the session does to its client and callbacks. The messages live in one
  heap; that the SDK sends instances of the plugin's own evidence class is excluded.
\<close>

subsection \<open>Data\<close>

datatype SessionOutcome = COMPLETE | CANCELLED | BILLING_BLOCKED | TIMED_OUT | FAILED | CLOSED

record SessionTurnResult =
  sr_outcome :: SessionOutcome
  sr_final_text :: "ustr option"
  sr_external_session_id :: "ustr option"
  sr_billing_decision :: "BillingDecision option"
  sr_error_code :: "ustr option"
  sr_retryable :: bool

definition turn_result :: "SessionOutcome \<Rightarrow> string \<Rightarrow> SessionTurnResult" where
  "turn_result outcome code =
     \<lparr>sr_outcome = outcome, sr_final_text = None, sr_external_session_id = None,
      sr_billing_decision = None, sr_error_code = (if code = [] then None else Some (lit code)),
      sr_retryable = False\<rparr>"

datatype inbox_item =
    Message pyval
  | CancelledItem
  | StreamEnded bool
  | WatchdogExpired
  | PostTerminalOutput
  | NativeToolViolation

datatype session_output =
    Connecting
  | Queried turn_prompt
  | Delivered pyval ProjectionResult
  | BillingReported BillingDecision
  | Interrupted
  | Disconnected

record sdk_session =
  ss_client :: bool
  ss_reader :: bool
  ss_inbox :: "inbox_item list option"
  ss_terminal_seen :: bool
  ss_post_output :: bool
  ss_post_native :: bool
  ss_indexes :: tool_indexes
  ss_compaction :: NativeCompactionLifecycle
  ss_closed :: bool
  ss_cancel :: bool
  ss_projector :: projector
  ss_log :: "session_output list"

definition session_new :: "NativeCompactionLifecycle \<Rightarrow> projector \<Rightarrow> sdk_session" where
  "session_new compaction p =
     \<lparr>ss_client = False, ss_reader = False, ss_inbox = None, ss_terminal_seen = False,
      ss_post_output = False, ss_post_native = False, ss_indexes = [], ss_compaction = compaction,
      ss_closed = False, ss_cancel = False, ss_projector = p, ss_log = []\<rparr>"

definition can_restart_after_cancel :: "sdk_session \<Rightarrow> bool" where
  "can_restart_after_cancel s \<longleftrightarrow> ss_closed s \<and> ss_cancel s"

text \<open>The local variables of a running turn.\<close>

record turn =
  tu_evidence :: "SDKBillingEvidence option"
  tu_final_text :: "ustr option"
  tu_session_id :: "ustr option"

definition turn_new :: turn where
  "turn_new = \<lparr>tu_evidence = None, tu_final_text = None, tu_session_id = None\<rparr>"

datatype turn_end = Returned SessionTurnResult | RaisedRuntimeError | RaisedCancelled

datatype turn_pc =
    Finished "turn_end option"
  | Starting turn_prompt "nat option"
  | Querying
  | Reading turn
  | Draining pyval BillingDecision turn

subsection \<open>Classification of results and evidence\<close>

definition IMMEDIATE_BILLING_BLOCKS :: "BillingBlockReason list" where
  "IMMEDIATE_BILLING_BLOCKS = [API_KEY_SOURCE, EXTRA_USAGE, OVERAGE, CONFLICTING_EVIDENCE]"

definition TERMINAL_FAILURE_CODES :: "(ustr \<times> ustr) list" where
  "TERMINAL_FAILURE_CODES =
     [(lit ''api_error'', lit ''sdk_terminal_api_error''), (lit ''max_turns'', lit ''sdk_terminal_max_turns'')]"

definition SUBTYPE_FAILURE_CODES :: "(ustr \<times> ustr) list" where
  "SUBTYPE_FAILURE_CODES =
     [(lit ''error_during_execution'', lit ''sdk_result_error_during_execution''),
      (lit ''error_max_turns'', lit ''sdk_result_error_max_turns'')]"

definition code_lookup :: "(ustr \<times> ustr) list \<Rightarrow> pyval \<Rightarrow> ustr option" where
  "code_lookup codes v = (case v of PStr s \<Rightarrow> map_of codes s | _ \<Rightarrow> None)"

definition api_status_failure :: "int \<Rightarrow> ustr \<times> bool" where
  "api_status_failure status =
     (if status \<in> {401, 403} then (lit ''sdk_api_auth_'' @ dec_int status, False)
      else if status = 402 then (lit ''sdk_api_billing_402'', False)
      else if status = 408 then (lit ''sdk_api_timeout_408'', True)
      else if status = 429 then (lit ''sdk_api_rate_limit_429'', True)
      else if status \<in> {503, 529} then (lit ''sdk_api_overloaded_'' @ dec_int status, True)
      else if status \<ge> 500 then (lit ''sdk_api_server_error_'' @ dec_int status, True)
      else (lit ''sdk_api_error_'' @ dec_int status, False))"

definition classify_result_failure :: "heap \<Rightarrow> pyval \<Rightarrow> exn + ustr \<times> bool" where
  "classify_result_failure H message =
     and_then (attr_or_none H message ''api_error_status'') (\<lambda>status.
       case (case status of PInt i \<Rightarrow> if 400 \<le> i \<and> i \<le> 599 then Some i else None | _ \<Rightarrow> None) of
         Some i \<Rightarrow> Inr (api_status_failure i)
       | None \<Rightarrow>
           and_then (attr_or_none H message ''terminal_reason'') (\<lambda>reason.
             case code_lookup TERMINAL_FAILURE_CODES reason of
               Some code \<Rightarrow> Inr (code, False)
             | None \<Rightarrow>
                 and_then (attr_or_none H message ''subtype'') (\<lambda>subtype.
                   case code_lookup SUBTYPE_FAILURE_CODES subtype of
                     Some code \<Rightarrow> Inr (code, False)
                   | None \<Rightarrow> Inr (lit ''sdk_result_failed'', False))))"

definition newer :: "pyval \<Rightarrow> pyval \<Rightarrow> pyval" where
  "newer update current = (if update \<noteq> PNone then update else current)"

definition merge_evidence ::
    "SDKBillingEvidence option \<Rightarrow> SDKBillingEvidence \<Rightarrow> exn + SDKBillingEvidence" where
  "merge_evidence current update =
     (case current of
        None \<Rightarrow> Inr update
      | Some c \<Rightarrow>
          (case (ev_malformed_fields c, ev_malformed_fields update) of
             (Names xs, Names ys) \<Rightarrow>
               Inr \<lparr>ev_api_key_source = newer (ev_api_key_source update) (ev_api_key_source c),
                    ev_is_using_overage = newer (ev_is_using_overage update) (ev_is_using_overage c),
                    ev_overage_status = newer (ev_overage_status update) (ev_overage_status c),
                    ev_rate_limit_type = newer (ev_rate_limit_type update) (ev_rate_limit_type c),
                    ev_malformed_fields = Names (sort (remdups (xs @ ys)))\<rparr>
           | _ \<Rightarrow> Inl TypeError))"

definition evidence_arg_of :: "SDKBillingEvidence option \<Rightarrow> evidence_arg" where
  "evidence_arg_of e = (case e of None \<Rightarrow> RawArg PNone | Some x \<Rightarrow> TypedArg x)"

definition external_session_id :: "pyval \<Rightarrow> ustr option" where
  "external_session_id v =
     (case v of PStr s \<Rightarrow> if s \<noteq> [] \<and> length s \<le> 512 \<and> \<not> list_ex is_control s then Some s else None
      | _ \<Rightarrow> None)"

subsection \<open>Reader, cancel and close\<close>

definition put :: "inbox_item \<Rightarrow> sdk_session \<Rightarrow> sdk_session" where
  "put item s = s\<lparr>ss_inbox := map_option (\<lambda>items. items @ [item]) (ss_inbox s)\<rparr>"

definition emit :: "session_output \<Rightarrow> sdk_session \<Rightarrow> sdk_session" where
  "emit out s = s\<lparr>ss_log := ss_log s @ [out]\<rparr>"

definition reader_end :: "bool \<Rightarrow> sdk_session \<Rightarrow> sdk_session" where
  "reader_end failed s = put (StreamEnded failed) (s\<lparr>ss_reader := False\<rparr>)"

text \<open>One message of the stream; an exception of the boundary check ends the reader.\<close>

definition reader_receive :: "heap \<Rightarrow> ustr list \<Rightarrow> pyval \<Rightarrow> sdk_session \<Rightarrow> sdk_session" where
  "reader_receive H allowed message s =
     (case zero_native_violation H allowed message (ss_indexes s) of
        Inl e \<Rightarrow> reader_end True s
      | Inr (bad, ixs) \<Rightarrow>
          (let s = s\<lparr>ss_indexes := ixs\<rparr>
           in if bad then
                (if ss_inbox s \<noteq> None then put NativeToolViolation s else s\<lparr>ss_post_native := True\<rparr>)
              else if ss_inbox s \<noteq> None then
                (if ss_terminal_seen s then put PostTerminalOutput s
                 else (let s = put (Message message) s
                       in if type_name H message = lit ''ResultMessage''
                          then s\<lparr>ss_terminal_seen := True\<rparr> else s))
              else s\<lparr>ss_post_output := True\<rparr>))"

definition session_close :: "sdk_session \<Rightarrow> sdk_session" where
  "session_close s =
     (if ss_closed s then s
      else (let s = s\<lparr>ss_closed := True, ss_compaction := cp_end_turn False (ss_compaction s)\<rparr>;
                s = put CancelledItem s;
                s = (if ss_client s then emit Disconnected (s\<lparr>ss_client := False\<rparr>) else s)
            in if ss_reader s then reader_end False s else s))"

definition interrupt_then_close :: "sdk_session \<Rightarrow> sdk_session" where
  "interrupt_then_close s = session_close (if ss_client s then emit Interrupted s else s)"

definition session_cancel :: "sdk_session \<Rightarrow> sdk_session" where
  "session_cancel s =
     (if ss_closed s then s
      else interrupt_then_close (put CancelledItem (s\<lparr>ss_cancel := True\<rparr>)))"

text \<open>The compaction hook and the watchdog, whose notification goes to the turn's inbox.\<close>

definition session_hook :: "heap \<Rightarrow> pyval \<Rightarrow> sdk_session \<Rightarrow> sdk_session" where
  "session_hook H input s = s\<lparr>ss_compaction := on_pre_compact H input (ss_compaction s)\<rparr>"

definition session_watchdog :: "sdk_session \<Rightarrow> sdk_session" where
  "session_watchdog s =
     (let c = ss_compaction s; s = s\<lparr>ss_compaction := watchdog_fire c\<rparr>
      in if cp_watchdog c \<and> cp_active c \<and> cp_on_watchdog c \<noteq> None then put WatchdogExpired s else s)"

subsection \<open>A turn\<close>

definition finish_turn :: "bool \<Rightarrow> sdk_session \<Rightarrow> sdk_session" where
  "finish_turn completed s =
     s\<lparr>ss_inbox := None, ss_terminal_seen := False, ss_indexes := [],
       ss_compaction := cp_end_turn completed (ss_compaction s)\<rparr>"

type_synonym config = "sdk_session \<times> turn_pc"

definition return_turn :: "SessionTurnResult \<Rightarrow> sdk_session \<Rightarrow> config" where
  "return_turn r s = (finish_turn (sr_outcome r = COMPLETE) s, Finished (Some (Returned r)))"

definition turn_failed :: "turn \<Rightarrow> sdk_session \<Rightarrow> config" where
  "turn_failed t s =
     return_turn ((turn_result FAILED ''sdk_turn_failed'')\<lparr>sr_final_text := tu_final_text t,
       sr_external_session_id := tu_session_id t\<rparr>) (interrupt_then_close s)"

text \<open>Before the \<^verbatim>\<open>try\<close>: what is returned there skips the cleanup of \<open>finish_turn\<close>.\<close>

definition refuse :: "SessionTurnResult \<Rightarrow> sdk_session \<Rightarrow> config" where
  "refuse r s = (s, Finished (Some (Returned r)))"

definition prompt_valid :: "turn_prompt \<Rightarrow> bool" where
  "prompt_valid prompt = (case prompt of PlainPrompt t \<Rightarrow> py_strip t \<noteq> [] | RichPrompt _ \<Rightarrow> True)"

text \<open>From the check of the cancellation to the call of \<^verbatim>\<open>query\<close>; without a client that call raises.\<close>

definition turn_query :: "turn_prompt \<Rightarrow> nat option \<Rightarrow> sdk_session \<Rightarrow> config" where
  "turn_query prompt on_event s =
     (if ss_cancel s then refuse (turn_result CANCELLED []) s
      else (let s = s\<lparr>ss_inbox := Some [], ss_terminal_seen := False, ss_indexes := []\<rparr>
            in case cp_bind on_event (Some 0) (ss_compaction s) of
                 Inl _ \<Rightarrow> (s, Finished (Some RaisedRuntimeError))
               | Inr c \<Rightarrow>
                   (let s = s\<lparr>ss_compaction := c\<rparr>
                    in if ss_client s then (emit (Queried prompt) s, Querying)
                       else turn_failed turn_new s)))"

definition turn_begin :: "turn_prompt \<Rightarrow> projector \<Rightarrow> nat option \<Rightarrow> bool \<Rightarrow> sdk_session \<Rightarrow> config" where
  "turn_begin prompt p on_event constructs s =
     (if \<not> prompt_valid prompt then refuse (turn_result FAILED ''invalid_prompt'') s
      else if ss_closed s then refuse (turn_result CLOSED ''session_closed'') s
      else if ss_post_native s then
        refuse (turn_result FAILED ''sdk_native_tool_unsupported'')
          (interrupt_then_close (s\<lparr>ss_post_native := False, ss_post_output := False\<rparr>))
      else if ss_post_output s then
        refuse (turn_result FAILED ''sdk_post_terminal_output'')
          (interrupt_then_close (s\<lparr>ss_post_output := False\<rparr>))
      else (let s = s\<lparr>ss_projector := p\<rparr>
            in if ss_client s then turn_query prompt on_event s
               else if \<not> constructs then refuse (turn_result FAILED ''sdk_start_failed'') s
               else (emit Connecting (s\<lparr>ss_client := True\<rparr>), Starting prompt on_event)))"

text \<open>The client has connected, or has failed to; the reader of a client closed meanwhile ends at once.\<close>

definition turn_connected :: "bool \<Rightarrow> turn_prompt \<Rightarrow> nat option \<Rightarrow> sdk_session \<Rightarrow> config" where
  "turn_connected ok prompt on_event s =
     (if ok then turn_query prompt on_event (s\<lparr>ss_reader := ss_client s\<rparr>)
      else refuse (turn_result FAILED ''sdk_start_failed'') (session_close s))"

datatype query_answer = QueryOk | QueryTimeout | QueryRaised

definition turn_queried :: "query_answer \<Rightarrow> sdk_session \<Rightarrow> config" where
  "turn_queried answer s =
     (case answer of
        QueryOk \<Rightarrow> (s, Reading turn_new)
      | QueryTimeout \<Rightarrow> return_turn (turn_result TIMED_OUT ''sdk_turn_timeout'') (interrupt_then_close s)
      | QueryRaised \<Rightarrow> turn_failed turn_new s)"

definition turn_timeout :: "turn \<Rightarrow> sdk_session \<Rightarrow> config" where
  "turn_timeout t s =
     (if cp_active (ss_compaction s) then (s, Reading t)
      else return_turn (turn_result TIMED_OUT ''sdk_turn_timeout'') (interrupt_then_close s))"

subsection \<open>One item of the inbox\<close>

definition with_text :: "turn \<Rightarrow> SessionTurnResult \<Rightarrow> SessionTurnResult" where
  "with_text t r = r\<lparr>sr_final_text := tu_final_text t, sr_external_session_id := tu_session_id t\<rparr>"

definition newer_text :: "ProjectionResult \<Rightarrow> turn \<Rightarrow> turn" where
  "newer_text r t = (case pr_final_text r of None \<Rightarrow> t | Some _ \<Rightarrow> t\<lparr>tu_final_text := pr_final_text r\<rparr>)"

text \<open>\<open>delivers\<close>: the projection callback returns.\<close>

definition deliver ::
    "pyrt \<Rightarrow> heap \<Rightarrow> bool \<Rightarrow> pyval \<Rightarrow> turn \<Rightarrow> (turn \<Rightarrow> turn_pc) \<Rightarrow> sdk_session \<Rightarrow> config" where
  "deliver rt H delivers message t next_pc s =
     (case project rt H message (ss_projector s) of
        (Inl e, p) \<Rightarrow> turn_failed t (s\<lparr>ss_projector := p\<rparr>)
      | (Inr r, p) \<Rightarrow>
          (let s = emit (Delivered message r) (s\<lparr>ss_projector := p\<rparr>)
           in if delivers then (s, next_pc (newer_text r t)) else turn_failed t s))"

text \<open>The result message, after the immediate checks. \<open>reports\<close>: the billing callback returns.\<close>

definition process_result ::
    "pyrt \<Rightarrow> heap \<Rightarrow> bool \<Rightarrow> bool \<Rightarrow> pyval \<Rightarrow> turn \<Rightarrow> sdk_session \<Rightarrow> config" where
  "process_result rt H reports delivers message t s =
     (case attr_or_none H message ''session_id'' of
        Inl e \<Rightarrow> turn_failed t s
      | Inr sid \<Rightarrow>
          (let t = (case external_session_id sid of None \<Rightarrow> t | Some i \<Rightarrow> t\<lparr>tu_session_id := Some i\<rparr>);
               decision = classify_sdk_billing rt H (evidence_arg_of (tu_evidence t));
               s = emit (BillingReported decision) s
           in if \<not> reports then turn_failed t s
              else if \<not> bd_allowed decision then
                return_turn (with_text t ((turn_result BILLING_BLOCKED ''sdk_billing_blocked'')
                  \<lparr>sr_billing_decision := Some decision\<rparr>)) (session_close s)
              else deliver rt H delivers message t (Draining message decision) s))"

definition process_message ::
    "pyrt \<Rightarrow> heap \<Rightarrow> bool \<Rightarrow> bool \<Rightarrow> pyval \<Rightarrow> turn \<Rightarrow> sdk_session \<Rightarrow> config" where
  "process_message rt H reports delivers message t s =
     (case cp_handle_message H message (ss_compaction s) of
        Inl e \<Rightarrow> turn_failed t s
      | Inr (completed, c) \<Rightarrow>
          (let s = s\<lparr>ss_compaction := c\<rparr>
           in case and_then (extract_sdk_billing_evidence rt H (EventObject message)) (\<lambda>update.
                     case update of
                       None \<Rightarrow> Inr (False, tu_evidence t)
                     | Some u \<Rightarrow> map_sum id (\<lambda>e. (True, Some e)) (merge_evidence (tu_evidence t) u)) of
                Inl e \<Rightarrow> turn_failed t s
              | Inr (updated, evidence) \<Rightarrow>
                  (let t = t\<lparr>tu_evidence := evidence\<rparr>;
                       decision = classify_sdk_billing rt H (evidence_arg_of evidence)
                   in if updated \<and> bd_block_reason decision \<in> Some ` set IMMEDIATE_BILLING_BLOCKS then
                        (let s = emit (BillingReported decision) s
                         in if \<not> reports then turn_failed t s
                            else return_turn (with_text t ((turn_result BILLING_BLOCKED ''sdk_billing_blocked'')
                                   \<lparr>sr_billing_decision := Some decision\<rparr>)) (interrupt_then_close s))
                      else if type_name H message \<noteq> lit ''ResultMessage''
                      then deliver rt H delivers message t Reading s
                      else process_result rt H reports delivers message t s)))"

definition process_item ::
    "pyrt \<Rightarrow> heap \<Rightarrow> bool \<Rightarrow> bool \<Rightarrow> inbox_item \<Rightarrow> turn \<Rightarrow> sdk_session \<Rightarrow> config" where
  "process_item rt H reports delivers item t s =
     (if item = CancelledItem \<or> ss_cancel s then return_turn (turn_result CANCELLED []) s
      else (case item of
        NativeToolViolation \<Rightarrow>
          return_turn (with_text t (turn_result FAILED ''sdk_native_tool_unsupported'')) (interrupt_then_close s)
      | PostTerminalOutput \<Rightarrow>
          return_turn (with_text t (turn_result FAILED ''sdk_post_terminal_output'')) (interrupt_then_close s)
      | WatchdogExpired \<Rightarrow>
          return_turn (turn_result FAILED ''sdk_compaction_watchdog'') (interrupt_then_close s)
      | StreamEnded failed \<Rightarrow>
          return_turn (with_text t (turn_result FAILED
            (if failed then ''sdk_stream_failed'' else ''sdk_stream_ended''))) s
      | Message message \<Rightarrow> process_message rt H reports delivers message t s
      | CancelledItem \<Rightarrow> return_turn (turn_result CANCELLED []) s))"

text \<open>After the scheduling point that follows a result: the first marker behind it decides.\<close>

fun trailing_marker :: "inbox_item list \<Rightarrow> inbox_item option" where
  "trailing_marker [] = None"
| "trailing_marker (i # is) =
     (if i = PostTerminalOutput \<or> i = NativeToolViolation then Some i else trailing_marker is)"

definition ABORT_REASONS :: "string list" where
  "ABORT_REASONS = [''aborted_streaming'', ''aborted_tools'']"

definition turn_drain :: "heap \<Rightarrow> pyval \<Rightarrow> BillingDecision \<Rightarrow> turn \<Rightarrow> sdk_session \<Rightarrow> config" where
  "turn_drain H message decision t s =
     (let items = (case ss_inbox s of None \<Rightarrow> [] | Some is \<Rightarrow> is);
          with_decision = (\<lambda>r. (with_text t r)\<lparr>sr_billing_decision := Some decision\<rparr>)
      in if trailing_marker items = Some NativeToolViolation then
           return_turn (with_text t (turn_result FAILED ''sdk_native_tool_unsupported'')) (interrupt_then_close s)
         else if trailing_marker items = Some PostTerminalOutput then
           return_turn (with_text t (turn_result FAILED ''sdk_post_terminal_output'')) (interrupt_then_close s)
         else (case and_then (attr_or_none H message ''terminal_reason'')
                      (\<lambda>reason. in_names H (Some reason) ABORT_REASONS) of
                 Inl e \<Rightarrow> turn_failed t s
               | Inr True \<Rightarrow> return_turn (with_decision (turn_result CANCELLED [])) s
               | Inr False \<Rightarrow>
                   (case attr_or_none H message ''is_error'' of
                      Inl e \<Rightarrow> turn_failed t s
                    | Inr is_error \<Rightarrow>
                        if is_error = PBool True then
                          (case classify_result_failure H message of
                             Inl e \<Rightarrow> turn_failed t s
                           | Inr (code, retryable) \<Rightarrow>
                               return_turn ((with_decision (turn_result FAILED []))
                                 \<lparr>sr_error_code := Some code, sr_retryable := retryable\<rparr>) s)
                        else return_turn (with_decision (turn_result COMPLETE [])) s)))"

text \<open>The task that runs the turn is cancelled.\<close>

definition turn_cancelled :: "turn_pc \<Rightarrow> sdk_session \<Rightarrow> config" where
  "turn_cancelled pc s =
     (case pc of
        Starting _ _ \<Rightarrow> (session_close s, Finished (Some RaisedCancelled))
      | _ \<Rightarrow> (finish_turn False (session_cancel s), Finished (Some RaisedCancelled)))"

subsection \<open>Interleaving\<close>

definition with_pc :: "turn_pc \<Rightarrow> sdk_session \<Rightarrow> config" where
  "with_pc pc s = (s, pc)"

definition take_item :: "sdk_session \<Rightarrow> (inbox_item \<times> sdk_session) option" where
  "take_item s =
     (case ss_inbox s of Some (i # is) \<Rightarrow> Some (i, s\<lparr>ss_inbox := Some is\<rparr>) | _ \<Rightarrow> None)"

inductive session_step :: "pyrt \<Rightarrow> heap \<Rightarrow> ustr list \<Rightarrow> config \<Rightarrow> config \<Rightarrow> bool"
  for rt :: pyrt and H :: heap and allowed :: "ustr list" where
  receives: "ss_reader s \<Longrightarrow> session_step rt H allowed (s, pc) (reader_receive H allowed m s, pc)"
| stream_ends: "ss_reader s \<Longrightarrow> session_step rt H allowed (s, pc) (reader_end failed s, pc)"
| hook: "ss_client s \<Longrightarrow> session_step rt H allowed (s, pc) (session_hook H input s, pc)"
| watchdog: "session_step rt H allowed (s, pc) (session_watchdog s, pc)"
| cancels: "session_step rt H allowed (s, pc) (session_cancel s, pc)"
| closes: "session_step rt H allowed (s, pc) (session_close s, pc)"
| begins: "session_step rt H allowed (s, Finished e) (turn_begin prompt p on_event constructs s)"
| connects: "session_step rt H allowed (s, Starting prompt on_event) (turn_connected ok prompt on_event s)"
| queries: "session_step rt H allowed (s, Querying) (turn_queried answer s)"
| reads: "take_item s = Some (item, s') \<Longrightarrow>
    session_step rt H allowed (s, Reading t) (process_item rt H reports delivers item t s')"
| times_out: "ss_inbox s = Some [] \<Longrightarrow> session_step rt H allowed (s, Reading t) (turn_timeout t s)"
| drains: "session_step rt H allowed (s, Draining m d t) (turn_drain H m d t s)"
| task_cancelled: "pc \<notin> range Finished \<Longrightarrow> session_step rt H allowed (s, pc) (turn_cancelled pc s)"

definition session_start :: "config \<Rightarrow> bool" where
  "session_start cfg \<longleftrightarrow>
     (\<exists>seconds c p. new_lifecycle seconds = Inr c \<and> cfg = (session_new c p, Finished None))"

abbreviation session_reach :: "pyrt \<Rightarrow> heap \<Rightarrow> ustr list \<Rightarrow> config \<Rightarrow> bool" where
  "session_reach rt H allowed \<equiv> reach session_start (session_step rt H allowed)"

end
