(* ===== verification/Session_Protocol.thy ===== *)
theory Session_Protocol
  imports Sdk_Session
begin

section \<open>What the session does to its client and its callbacks\<close>

text \<open>
  The abstract protocol of a session is an automaton over the entries of its log: the client
  connects at most once and is disconnected at most once; a query needs a live client and no
  refused decision; a billing decision ends the reading of a turn, an allowed one clears
  exactly one result for delivery, and a refused one nothing. The session refines it: no
  interleaving of its tasks leaves the automaton without a move.
\<close>

subsection \<open>The automaton\<close>

datatype gate_phase = NoTurn | Asking | Cleared | Done | Refused
datatype client_phase = Fresh | Live | Retired

type_synonym gate = "gate_phase \<times> client_phase"

definition is_result :: "heap \<Rightarrow> pyval \<Rightarrow> bool" where
  "is_result H m \<longleftrightarrow> type_name H m = lit ''ResultMessage''"

fun gate_step :: "heap \<Rightarrow> session_output \<Rightarrow> gate \<Rightarrow> gate option" where
  "gate_step H Connecting (g, c) = (if c = Fresh \<and> g = NoTurn then Some (g, Live) else None)"
| "gate_step H (Queried _) (g, c) =
     (if c = Live \<and> g \<in> {NoTurn, Asking, Done} then Some (Asking, c) else None)"
| "gate_step H (Delivered m _) (g, c) =
     (if g = (if is_result H m then Cleared else Asking)
      then Some (if is_result H m then Done else Asking, c) else None)"
| "gate_step H (BillingReported d) (g, c) =
     (if g = Asking then Some (if bd_allowed d then Cleared else Refused, c) else None)"
| "gate_step H Interrupted (g, c) = (if c = Live then Some (g, c) else None)"
| "gate_step H Disconnected (g, c) = (if c = Live then Some (g, Retired) else None)"

fun gate_from :: "heap \<Rightarrow> session_output list \<Rightarrow> gate \<Rightarrow> gate option" where
  "gate_from H [] q = Some q"
| "gate_from H (out # outs) q = Option.bind (gate_step H out q) (gate_from H outs)"

definition gate_run :: "heap \<Rightarrow> session_output list \<Rightarrow> gate option" where
  "gate_run H outs = gate_from H outs (NoTurn, Fresh)"

lemma gate_from_append:
  "gate_from H (xs @ ys) q = Option.bind (gate_from H xs q) (gate_from H ys)"
proof (induction xs arbitrary: q)
  case (Cons x xs)
  then have "gate_from H (xs @ ys) = (\<lambda>q. Option.bind (gate_from H xs q) (gate_from H ys))" by (rule ext)
  then show ?case by simp
qed simp

lemma gate_from_single: "gate_from H [out] = gate_step H out"
proof (rule ext)
  show "gate_from H [out] q = gate_step H out q" for q by (cases "gate_step H out q") simp_all
qed

lemma gate_run_snoc: "gate_run H (outs @ [out]) = Option.bind (gate_run H outs) (gate_step H out)"
  by (simp add: gate_run_def gate_from_append gate_from_single del: gate_from.simps)

lemma gate_fresh: "gate_run H outs = Some (g, Fresh) \<Longrightarrow> g = NoTurn"
proof (induction outs arbitrary: g rule: rev_induct)
  case (snoc out outs)
  then obtain g0 c0 where "gate_run H outs = Some (g0, c0)" "gate_step H out (g0, c0) = Some (g, Fresh)"
    by (auto simp: gate_run_snoc Option.bind_eq_Some_conv)
  with snoc.IH[of g0] show ?case by (cases out) (auto split: if_splits)
qed (simp add: gate_run_def)

subsection \<open>The automaton and the state of the session\<close>

definition gate_ok :: "heap \<Rightarrow> gate_phase \<Rightarrow> sdk_session \<Rightarrow> bool" where
  "gate_ok H g s \<longleftrightarrow>
     (\<exists>c. gate_run H (ss_log s) = Some (g, c) \<and> (ss_client s \<longleftrightarrow> c = Live) \<and>
          (c = Retired \<longrightarrow> ss_closed s) \<and> (ss_closed s \<longrightarrow> \<not> ss_client s))"

lemma gate_ok_cong:
  "ss_log s' = ss_log s \<Longrightarrow> ss_client s' = ss_client s \<Longrightarrow> ss_closed s' = ss_closed s \<Longrightarrow>
   gate_ok H g s' = gate_ok H g s"
  by (simp add: gate_ok_def)

named_theorems session_view \<open>the parts of the state the protocol sees\<close>

lemma put_view [session_view]:
  "ss_log (put i s) = ss_log s" "ss_client (put i s) = ss_client s" "ss_closed (put i s) = ss_closed s"
  "ss_cancel (put i s) = ss_cancel s"
  by (simp_all add: put_def)

lemma reader_end_view [session_view]:
  "ss_log (reader_end b s) = ss_log s" "ss_client (reader_end b s) = ss_client s"
  "ss_closed (reader_end b s) = ss_closed s" "ss_cancel (reader_end b s) = ss_cancel s"
  by (simp_all add: reader_end_def session_view)

lemma reader_receive_view [session_view]:
  "ss_log (reader_receive H a m s) = ss_log s" "ss_client (reader_receive H a m s) = ss_client s"
  "ss_closed (reader_receive H a m s) = ss_closed s" "ss_cancel (reader_receive H a m s) = ss_cancel s"
  by (auto simp: reader_receive_def Let_def session_view split: sum.split)

lemma session_watchdog_view [session_view]:
  "ss_log (session_watchdog s) = ss_log s" "ss_client (session_watchdog s) = ss_client s"
  "ss_closed (session_watchdog s) = ss_closed s" "ss_cancel (session_watchdog s) = ss_cancel s"
  by (simp_all add: session_watchdog_def Let_def session_view)

lemma session_hook_view [session_view]:
  "ss_log (session_hook H i s) = ss_log s" "ss_client (session_hook H i s) = ss_client s"
  "ss_closed (session_hook H i s) = ss_closed s" "ss_cancel (session_hook H i s) = ss_cancel s"
  by (simp_all add: session_hook_def)

lemma finish_turn_view [session_view]:
  "ss_log (finish_turn b s) = ss_log s" "ss_client (finish_turn b s) = ss_client s"
  "ss_closed (finish_turn b s) = ss_closed s" "ss_cancel (finish_turn b s) = ss_cancel s"
  by (simp_all add: finish_turn_def)

lemma emit_view [session_view]:
  "ss_log (emit out s) = ss_log s @ [out]" "ss_client (emit out s) = ss_client s"
  "ss_closed (emit out s) = ss_closed s" "ss_cancel (emit out s) = ss_cancel s"
  by (simp_all add: emit_def)

lemma session_close_view [session_view]:
  "ss_log (session_close s) =
     ss_log s @ (if \<not> ss_closed s \<and> ss_client s then [Disconnected] else [])"
  "ss_closed (session_close s)"
  "ss_client (session_close s) = (ss_closed s \<and> ss_client s)"
  "ss_cancel (session_close s) = ss_cancel s"
  by (auto simp: session_close_def Let_def session_view)

lemma gate_ok_close: "gate_ok H g s \<Longrightarrow> gate_ok H g (session_close s)"
  by (cases "ss_closed s"; cases "ss_client s") (auto simp: gate_ok_def session_view gate_run_snoc)

lemma gate_ok_interrupt: "gate_ok H g s \<Longrightarrow> gate_ok H g (interrupt_then_close s)"
  unfolding interrupt_then_close_def
  by (rule gate_ok_close) (auto simp: gate_ok_def session_view gate_run_snoc)

lemma interrupt_closed [session_view]: "ss_closed (interrupt_then_close s)"
  by (simp add: interrupt_then_close_def session_view)

lemma gate_ok_cancel: "gate_ok H g s \<Longrightarrow> gate_ok H g (session_cancel s)"
proof -
  assume a: "gate_ok H g s"
  have "gate_ok H g (put CancelledItem (s\<lparr>ss_cancel := True\<rparr>))"
    by (subst gate_ok_cong[of _ s]) (simp_all add: session_view a)
  with a show ?thesis by (simp add: session_cancel_def gate_ok_interrupt)
qed

lemma session_cancel_closed [session_view]: "ss_closed (session_cancel s)"
  by (auto simp: session_cancel_def session_view)

definition pc_ok :: "gate_phase \<Rightarrow> turn_pc \<Rightarrow> bool \<Rightarrow> bool" where
  "pc_ok g pc shut \<longleftrightarrow>
     (case pc of
        Finished _ \<Rightarrow> g \<in> {Cleared, Refused} \<longrightarrow> shut
      | Starting _ _ \<Rightarrow> g \<notin> {Cleared, Refused}
      | Querying \<Rightarrow> g = Asking
      | Reading _ \<Rightarrow> g = Asking
      | Draining _ _ _ \<Rightarrow> g = Done)"

definition protocol_inv :: "heap \<Rightarrow> config \<Rightarrow> bool" where
  "protocol_inv H cfg \<longleftrightarrow> (\<exists>g. gate_ok H g (fst cfg) \<and> pc_ok g (snd cfg) (ss_closed (fst cfg)))"

lemma protocol_invI:
  "gate_ok H g s \<Longrightarrow> pc_ok g pc (ss_closed s) \<Longrightarrow> protocol_inv H (s, pc)"
  by (auto simp: protocol_inv_def)

lemma pc_ok_closed: "pc_ok g pc b \<Longrightarrow> pc_ok g pc True"
  by (auto simp: pc_ok_def split: turn_pc.splits)

text \<open>A turn that ends, with the session closed or not after a refused or used decision.\<close>

lemma return_turn_inv:
  "gate_ok H g s \<Longrightarrow> g \<in> {Cleared, Refused} \<longrightarrow> ss_closed s \<Longrightarrow> protocol_inv H (return_turn r s)"
  unfolding return_turn_def
  by (rule protocol_invI[of _ g]) (auto simp: pc_ok_def session_view gate_ok_def)

lemma turn_failed_inv: "gate_ok H g s \<Longrightarrow> protocol_inv H (turn_failed t s)"
  unfolding turn_failed_def by (rule return_turn_inv[OF gate_ok_interrupt]) (simp_all add: session_view)

lemma interrupted_turn_inv: "gate_ok H g s \<Longrightarrow> protocol_inv H (return_turn r (interrupt_then_close s))"
  by (rule return_turn_inv[OF gate_ok_interrupt]) (simp_all add: session_view)

lemma refuse_inv:
  "gate_ok H g s \<Longrightarrow> g \<in> {Cleared, Refused} \<longrightarrow> ss_closed s \<Longrightarrow> protocol_inv H (refuse r s)"
  unfolding refuse_def by (rule protocol_invI[of _ g]) (auto simp: pc_ok_def)

lemma turn_query_inv:
  assumes "gate_ok H g s" "g \<notin> {Cleared, Refused}"
  shows "protocol_inv H (turn_query prompt on_event s)"
proof -
  let ?s = "s\<lparr>ss_inbox := Some [], ss_terminal_seen := False, ss_indexes := []\<rparr>"
  have ok: "gate_ok H g (?s\<lparr>ss_compaction := c\<rparr>)" "gate_ok H g ?s" for c
    using assms(1) by (simp_all add: gate_ok_def)
  have ask: "gate_ok H Asking (emit (Queried prompt) (?s\<lparr>ss_compaction := c\<rparr>))" if "ss_client s" for c
    using assms that by (cases g) (auto simp: gate_ok_def session_view gate_run_snoc)
  show ?thesis
  proof (cases "ss_cancel s")
    case True
    then show ?thesis using refuse_inv[OF assms(1)] assms(2) by (simp add: turn_query_def)
  next
    case False
    show ?thesis
    proof (cases "cp_bind on_event (Some 0) (ss_compaction s)")
      case (Inl e)
      with False ok(2) assms(2) show ?thesis
        by (auto simp: turn_query_def Let_def pc_ok_def intro: protocol_invI[of H g])
    next
      case (Inr c)
      show ?thesis
      proof (cases "ss_client s")
        case True
        with False Inr ask show ?thesis
          by (auto simp: turn_query_def Let_def pc_ok_def intro!: protocol_invI)
      next
        case no: False
        with False Inr turn_failed_inv[OF ok(1)] show ?thesis by (simp add: turn_query_def Let_def)
      qed
    qed
  qed
qed

lemma turn_begin_inv:
  assumes "protocol_inv H (s, Finished e)"
  shows "protocol_inv H (turn_begin prompt p on_event constructs s)"
proof -
  from assms obtain g where g: "gate_ok H g s" "g \<in> {Cleared, Refused} \<longrightarrow> ss_closed s"
    by (auto simp: protocol_inv_def pc_ok_def)
  have flags: "gate_ok H g (s\<lparr>ss_post_native := a, ss_post_output := b\<rparr>)"
    "gate_ok H g (s\<lparr>ss_post_output := b\<rparr>)" "gate_ok H g (s\<lparr>ss_projector := p\<rparr>)" for a b
    using g(1) by (simp_all add: gate_ok_def)
  have connecting: "gate_ok H g (emit Connecting (s\<lparr>ss_projector := p, ss_client := True\<rparr>))"
    if "\<not> ss_closed s" "\<not> ss_client s"
  proof -
    from g(1) that obtain c where c: "gate_run H (ss_log s) = Some (g, c)" "c = Fresh"
      by (auto simp: gate_ok_def) (metis client_phase.exhaust)
    with gate_fresh[of H "ss_log s" g] that show ?thesis by (auto simp: gate_ok_def session_view gate_run_snoc)
  qed
  show ?thesis
  proof (cases "\<not> prompt_valid prompt \<or> ss_closed s")
    case True
    then show ?thesis using g by (auto simp: turn_begin_def intro: refuse_inv)
  next
    case open_: False
    then have ng: "g \<notin> {Cleared, Refused}" using g(2) by auto
    show ?thesis
    proof (cases "ss_post_native s \<or> ss_post_output s")
      case True
      with open_ flags show ?thesis
        by (auto simp: turn_begin_def session_view intro!: refuse_inv[OF gate_ok_interrupt])
    next
      case clean: False
      show ?thesis
      proof (cases "ss_client s")
        case True
        with open_ clean turn_query_inv[OF flags(3) ng] show ?thesis by (simp add: turn_begin_def Let_def)
      next
        case False
        with open_ clean ng flags(3) connecting show ?thesis
          by (auto simp: turn_begin_def Let_def pc_ok_def intro!: refuse_inv protocol_invI[of H g])
      qed
    qed
  qed
qed

lemma turn_connected_inv:
  assumes "protocol_inv H (s, Starting prompt on_event)"
  shows "protocol_inv H (turn_connected ok prompt on_event s)"
proof -
  from assms obtain g where g: "gate_ok H g s" "g \<notin> {Cleared, Refused}"
    by (auto simp: protocol_inv_def pc_ok_def)
  have "gate_ok H g (s\<lparr>ss_reader := b\<rparr>)" for b using g(1) by (simp add: gate_ok_def)
  with g show ?thesis
    by (auto simp: turn_connected_def session_view intro!: turn_query_inv refuse_inv gate_ok_close)
qed

lemma deliver_inv:
  assumes "gate_ok H (if is_result H m then Cleared else Asking) s"
    and "\<And>t. next_pc t \<in> (if is_result H m then range (Draining m d) else range Reading)"
  shows "protocol_inv H (deliver rt H delivers m t next_pc s)"
proof -
  obtain r p where pr: "project rt H m (ss_projector s) = (r, p)" by (rule prod.exhaust)
  have p: "gate_ok H (if is_result H m then Cleared else Asking) (s\<lparr>ss_projector := p\<rparr>)"
    using assms(1) by (simp add: gate_ok_def)
  have out: "gate_ok H (if is_result H m then Done else Asking) (emit (Delivered m x) (s\<lparr>ss_projector := p\<rparr>))" for x
    using assms(1) by (auto simp: gate_ok_def session_view gate_run_snoc)
  have "pc_ok (if is_result H m then Done else Asking) (next_pc t) b" for t b
    using assms(2)[of t] by (auto simp: pc_ok_def split: if_splits)
  with p out pr show ?thesis
    by (cases r) (auto simp: deliver_def Let_def intro!: turn_failed_inv[OF p] turn_failed_inv[OF out]
        protocol_invI[OF out])
qed

lemma billing_reported:
  assumes "gate_ok H Asking s"
  shows "gate_ok H (if bd_allowed d then Cleared else Refused) (emit (BillingReported d) s)"
  using assms by (auto simp: gate_ok_def session_view gate_run_snoc)

lemma process_result_inv:
  assumes "gate_ok H Asking s" "is_result H m"
  shows "protocol_inv H (process_result rt H reports delivers m t s)"
proof -
  let ?t = "\<lambda>sid. case external_session_id sid of None \<Rightarrow> t | Some i \<Rightarrow> t\<lparr>tu_session_id := Some i\<rparr>"
  let ?d = "\<lambda>sid. classify_sdk_billing rt H (evidence_arg_of (tu_evidence (?t sid)))"
  let ?s = "\<lambda>sid. emit (BillingReported (?d sid)) s"
  note out = billing_reported[OF assms(1)]
  show ?thesis
  proof (cases "attr_or_none H m ''session_id''")
    case (Inl e)
    then show ?thesis using turn_failed_inv[OF assms(1)] by (simp add: process_result_def)
  next
    case (Inr sid)
    consider "\<not> reports" | "reports" "\<not> bd_allowed (?d sid)" | "reports" "bd_allowed (?d sid)" by blast
    then show ?thesis
    proof cases
      case 1
      then show ?thesis using Inr turn_failed_inv[OF out] by (simp add: process_result_def Let_def)
    next
      case 2
      then show ?thesis using Inr return_turn_inv[OF gate_ok_close[OF out]]
        by (simp add: process_result_def Let_def session_view)
    next
      case 3
      then have "gate_ok H Cleared (?s sid)" using out[of "?d sid"] by simp
      with 3 Inr assms(2) show ?thesis
        by (auto simp: process_result_def Let_def intro!: deliver_inv[where d = "?d sid"])
    qed
  qed
qed

lemma process_message_inv:
  assumes "gate_ok H Asking s"
  shows "protocol_inv H (process_message rt H reports delivers m t s)"
proof (cases "cp_handle_message H m (ss_compaction s)")
  case (Inl e)
  then show ?thesis using turn_failed_inv[OF assms] by (simp add: process_message_def)
next
  case (Inr cc)
  then obtain b c where c: "cp_handle_message H m (ss_compaction s) = Inr (b, c)" by (cases cc) auto
  let ?s = "s\<lparr>ss_compaction := c\<rparr>"
  have ok: "gate_ok H Asking ?s" using assms by (simp add: gate_ok_def)
  let ?ev = "and_then (extract_sdk_billing_evidence rt H (EventObject m)) (\<lambda>update.
     case update of None \<Rightarrow> Inr (False, tu_evidence t)
     | Some u \<Rightarrow> map_sum id (\<lambda>e. (True, Some e)) (merge_evidence (tu_evidence t) u))"
  show ?thesis
  proof (cases ?ev)
    case (Inl e)
    then show ?thesis using turn_failed_inv[OF ok] c by (simp add: process_message_def Let_def)
  next
    case (Inr ue)
    then obtain u e where e: "?ev = Inr (u, e)" by (cases ue) auto
    let ?d = "classify_sdk_billing rt H (evidence_arg_of e)"
    show ?thesis
    proof (cases "u \<and> bd_block_reason ?d \<in> Some ` set IMMEDIATE_BILLING_BLOCKS")
      case True
      let ?s' = "emit (BillingReported ?d) ?s"
      have failed: "protocol_inv H (turn_failed t' ?s')" for t'
        by (rule turn_failed_inv[OF billing_reported[OF ok]])
      have blocked: "protocol_inv H (return_turn r (interrupt_then_close ?s'))" for r
        by (rule interrupted_turn_inv[OF billing_reported[OF ok]])
      show ?thesis
        unfolding process_message_def c e Let_def sum.case prod.case using True
        by (simp only: if_True) (simp add: failed blocked)
    next
      case False
      have "protocol_inv H (deliver rt H delivers m (t\<lparr>tu_evidence := e\<rparr>) Reading ?s)" if "\<not> is_result H m"
        using that ok by (intro deliver_inv[where d = ?d]) auto
      with process_result_inv[OF ok] show ?thesis
        unfolding process_message_def c e Let_def sum.case prod.case if_not_P[OF False]
        by (simp add: is_result_def)
    qed
  qed
qed

lemma process_item_inv:
  assumes "gate_ok H Asking s"
  shows "protocol_inv H (process_item rt H reports delivers item t s)"
  using assms interrupted_turn_inv[OF assms] process_message_inv[OF assms]
  by (auto simp: process_item_def return_turn_inv split: inbox_item.split)

lemma turn_drain_inv:
  assumes "gate_ok H Done s"
  shows "protocol_inv H (turn_drain H m d t s)"
  using assms interrupted_turn_inv[OF assms] turn_failed_inv[OF assms]
  by (auto simp: turn_drain_def Let_def return_turn_inv split: sum.split bool.split)

lemma turn_cancelled_inv:
  assumes "protocol_inv H (s, pc)" "pc \<notin> range Finished"
  shows "protocol_inv H (turn_cancelled pc s)"
proof -
  from assms obtain g where g: "gate_ok H g s" by (auto simp: protocol_inv_def)
  have "gate_ok H g (finish_turn False (session_cancel s))"
    using gate_ok_cancel[OF g] by (simp add: gate_ok_def session_view)
  then show ?thesis
    using gate_ok_close[OF g]
    by (auto simp: turn_cancelled_def pc_ok_def session_view intro!: protocol_invI[of H g] split: turn_pc.split)
qed

lemma environment_inv:
  assumes "protocol_inv H (s, pc)"
  shows "protocol_inv H (reader_receive H a m s, pc)" "protocol_inv H (reader_end b s, pc)"
    "protocol_inv H (session_hook H i s, pc)" "protocol_inv H (session_watchdog s, pc)"
    "protocol_inv H (session_cancel s, pc)" "protocol_inv H (session_close s, pc)"
proof -
  from assms obtain g where g: "gate_ok H g s" "pc_ok g pc (ss_closed s)" by (auto simp: protocol_inv_def)
  note keep = protocol_invI[of H g]
  show "protocol_inv H (reader_receive H a m s, pc)" "protocol_inv H (reader_end b s, pc)"
    "protocol_inv H (session_hook H i s, pc)" "protocol_inv H (session_watchdog s, pc)"
    using g by (auto intro!: keep simp: session_view cong: gate_ok_cong simp: gate_ok_def)
  show "protocol_inv H (session_cancel s, pc)" "protocol_inv H (session_close s, pc)"
    using g by (auto intro!: keep gate_ok_cancel gate_ok_close pc_ok_closed simp: session_view)
qed

lemma session_step_protocol:
  assumes "protocol_inv H cfg" "session_step rt H allowed cfg cfg'"
  shows "protocol_inv H cfg'"
  using assms(2,1)
proof cases
  case (reads s item s' t reports delivers)
  then have "gate_ok H Asking s'"
    using assms(1) by (auto simp: take_item_def protocol_inv_def pc_ok_def gate_ok_def
        split: option.splits list.splits)
  with reads show ?thesis by (simp add: process_item_inv)
next
  case (drains s m d t)
  with assms(1) have "gate_ok H Done s" by (auto simp: protocol_inv_def pc_ok_def)
  with drains show ?thesis by (simp add: turn_drain_inv)
next
  case (queries s answer)
  with assms(1) have "gate_ok H Asking s" by (auto simp: protocol_inv_def pc_ok_def)
  with queries show ?thesis
    by (auto simp: turn_queried_def pc_ok_def interrupted_turn_inv turn_failed_inv
        intro: protocol_invI split: query_answer.split)
next
  case (times_out s t)
  with assms(1) have "gate_ok H Asking s" by (auto simp: protocol_inv_def pc_ok_def)
  with times_out show ?thesis
    by (auto simp: turn_timeout_def pc_ok_def interrupted_turn_inv intro: protocol_invI)
qed (use assms(1) in \<open>auto simp: environment_inv turn_begin_inv turn_connected_inv turn_cancelled_inv\<close>)

lemma session_start_protocol: "session_start cfg \<Longrightarrow> protocol_inv H cfg"
  by (auto simp: session_start_def session_new_def gate_ok_def gate_run_def pc_ok_def
      intro!: protocol_invI[of H NoTurn])

interpretation protocol: inductive_invariant session_start "session_step rt H allowed" "protocol_inv H"
  for rt H allowed
  by unfold_locales (auto intro: session_start_protocol session_step_protocol)

subsection \<open>What the automaton says about a log\<close>

definition closing :: "session_output \<Rightarrow> bool" where
  "closing out \<longleftrightarrow> out \<in> {Interrupted, Disconnected}"

definition asks :: "session_output \<Rightarrow> bool" where
  "asks out \<longleftrightarrow> (case out of Queried _ \<Rightarrow> True | _ \<Rightarrow> False)"

lemma gate_run_split:
  "gate_run H (xs @ out # ys) = Some q \<Longrightarrow>
   \<exists>q1 q2. gate_run H xs = Some q1 \<and> gate_step H out q1 = Some q2 \<and> gate_from H ys q2 = Some q"
  by (auto simp: gate_run_def gate_from_append Option.bind_eq_Some_conv)

lemma gate_cleared:
  "gate_run H xs = Some (Cleared, c) \<Longrightarrow>
   \<exists>zs d ws. xs = zs @ BillingReported d # ws \<and> bd_allowed d \<and> list_all closing ws"
proof (induction xs arbitrary: c rule: rev_induct)
  case Nil
  then show ?case by (simp add: gate_run_def)
next
  case (snoc out xs)
  then obtain g c0 where q: "gate_run H xs = Some (g, c0)" "gate_step H out (g, c0) = Some (Cleared, c)"
    by (auto simp: gate_run_snoc Option.bind_eq_Some_conv)
  show ?case
  proof (cases "closing out")
    case True
    with q(2) have "g = Cleared" by (auto simp: closing_def split: if_splits)
    from snoc.IH[OF q(1)[unfolded this]] obtain zs d ws where
      "xs = zs @ BillingReported d # ws" "bd_allowed d" "list_all closing ws" by blast
    with True show ?thesis by (intro exI[of _ zs] exI[of _ d] exI[of _ "ws @ [out]"]) simp
  next
    case False
    with q(2) obtain d where "out = BillingReported d" "bd_allowed d"
      by (cases out) (auto simp: closing_def split: if_splits)
    then show ?thesis by (intro exI[of _ xs] exI[of _ d] exI[of _ "[]"]) simp
  qed
qed

lemma gate_refused: "gate_from H ys (Refused, c) = Some q \<Longrightarrow> list_all closing ys"
proof (induction ys arbitrary: c)
  case (Cons y ys)
  then obtain g c' where "gate_step H y (Refused, c) = Some (g, c')" "gate_from H ys (g, c') = Some q"
    by (auto simp: Option.bind_eq_Some_conv)
  with Cons.IH[of c'] show ?case by (cases y) (auto simp: closing_def split: if_splits)
qed simp

lemma gate_done:
  "gate_from H ys (Done, c) = Some q \<Longrightarrow> list_all closing (takeWhile (\<lambda>out. \<not> asks out) ys)"
proof (induction ys arbitrary: c)
  case (Cons y ys)
  then obtain g c' where "gate_step H y (Done, c) = Some (g, c')" "gate_from H ys (g, c') = Some q"
    by (auto simp: Option.bind_eq_Some_conv)
  then show ?case using Cons.IH[of c'] by (cases y) (auto simp: closing_def asks_def split: if_splits)
qed simp

subsection \<open>A concrete turn\<close>

text \<open>
  A session whose client sends its init message, which names no API key, and a result. The
  same heap without the init message gives a turn with no billing evidence.
\<close>

definition turn_heap :: heap where
  "turn_heap = (\<lambda>_. ODict [])
     (2 := OInst (lit ''SystemMessage'') [(lit ''subtype'', Some (PStr (lit ''init''))), (lit ''data'', Some (PRef 3))],
      3 := ODict [(PStr (lit ''apiKeySource''), PStr (lit ''none''))],
      4 := OInst (lit ''ResultMessage'') [(lit ''result'', Some (PStr (lit ''done'')))])"

definition lifecycle0 :: NativeCompactionLifecycle where
  "lifecycle0 = \<lparr>cp_watchdog_seconds = 600, cp_on_event = None, cp_on_watchdog = None,
     cp_depth = 0, cp_trigger = TAuto, cp_watchdog = False, cp_log = []\<rparr>"

definition hello :: turn_prompt where "hello = PlainPrompt (lit ''hi'')"

definition asked_session :: sdk_session where
  "asked_session = (session_new lifecycle0 sample_projector)
     \<lparr>ss_client := True, ss_reader := True, ss_inbox := Some [],
      ss_compaction := lifecycle0\<lparr>cp_on_watchdog := Some 0\<rparr>,
      ss_log := [Connecting, Queried hello]\<rparr>"

lemma asked_reached: "session_reach rt H a (asked_session, Reading turn_new)"
proof -
  let ?s0 = "session_new lifecycle0 sample_projector"
  let ?s1 = "emit Connecting (?s0\<lparr>ss_client := True\<rparr>)"
  have "new_lifecycle (FFin 600) = Inr lifecycle0" by (simp add: new_lifecycle_def lifecycle0_def)
  then have r0: "session_reach rt H a (?s0, Finished None)"
    by (intro reach.first) (auto simp: session_start_def)
  have "turn_begin hello sample_projector None True ?s0 = (?s1, Starting hello None)"
    by (simp add: turn_begin_def hello_def prompt_valid_def py_strip_def lit_def py_isspace_def
        session_new_def Let_def emit_def)
  with reach.further[OF r0 session_step.begins] have r1: "session_reach rt H a (?s1, Starting hello None)" by metis
  have "turn_connected True hello None ?s1 = (asked_session, Querying)"
    by (simp add: turn_connected_def turn_query_def Let_def cp_bind_def cp_active_def lifecycle0_def
        asked_session_def session_new_def emit_def)
  with reach.further[OF r1 session_step.connects] have "session_reach rt H a (asked_session, Querying)" by metis
  from reach.further[OF this session_step.queries[of rt H a _ QueryOk]] show ?thesis
    by (simp add: turn_queried_def)
qed

lemma read_message:
  assumes "session_reach rt H a (s, Reading t)" "ss_reader s" "ss_inbox s = Some []" "\<not> ss_cancel s"
    and "\<not> ss_terminal_seen s" "zero_native_violation H a m (ss_indexes s) = Inr (False, ss_indexes s)"
  shows "session_reach rt H a (process_message rt H True True m t
    (s\<lparr>ss_terminal_seen := (type_name H m = lit ''ResultMessage'')\<rparr>))"
proof -
  let ?s' = "s\<lparr>ss_inbox := Some [Message m], ss_terminal_seen := (type_name H m = lit ''ResultMessage'')\<rparr>"
  have "reader_receive H a m s = ?s'"
    using assms by (simp add: reader_receive_def Let_def put_def)
  with reach.further[OF assms(1) session_step.receives[OF assms(2)]]
  have "session_reach rt H a (?s', Reading t)" by metis
  moreover have "take_item ?s' = Some (Message m, s\<lparr>ss_terminal_seen := (type_name H m = lit ''ResultMessage'')\<rparr>)"
    using assms(3) by (simp add: take_item_def)
  ultimately have "session_reach rt H a (process_item rt H True True (Message m) t
      (s\<lparr>ss_terminal_seen := (type_name H m = lit ''ResultMessage'')\<rparr>))"
    by (blast intro: reach.further session_step.reads)
  then show ?thesis using assms(4) by (simp add: process_item_def)
qed

lemmas turn_heap_simps = turn_heap_def type_name_def attr_of_def attr_or_none_def safe_attr_def
  is_mapping_def mapping_find_def mapping_items_def exact_dict_def seq_items_def

definition init_evidence :: SDKBillingEvidence where
  "init_evidence = no_evidence\<lparr>ev_api_key_source := PStr (lit ''none'')\<rparr>"

lemma turn_heap_boundary:
  "zero_native_violation turn_heap a (PRef 2) ixs = Inr (False, ixs)"
  "zero_native_violation turn_heap a (PRef 4) ixs = Inr (False, ixs)"
  by (simp_all add: zero_native_violation_def Let_def turn_heap_simps startswith_def)
     (simp_all add: lit_def)

lemma turn_heap_compaction:
  "cp_handle_message turn_heap (PRef 2) c = Inr (False, c)"
  "cp_handle_message turn_heap (PRef 4) c = Inr (False, c)"
  by (simp_all add: cp_handle_message_def turn_heap_simps)

lemma turn_heap_types:
  "type_name turn_heap (PRef 2) = lit ''SystemMessage''"
  "type_name turn_heap (PRef 4) = lit ''ResultMessage''"
  by (simp_all add: turn_heap_simps)

lemma turn_heap_evidence:
  "extract_sdk_billing_evidence sample_rt turn_heap (EventObject (PRef 2)) = Inr (Some init_evidence)"
  "extract_sdk_billing_evidence sample_rt turn_heap (EventObject (PRef 4)) = Inr None"
proof -
  have k: "event_kind sample_rt turn_heap (PRef 2) = lit ''systemmessage''"
    "event_kind sample_rt turn_heap (PRef 4) = lit ''resultmessage''"
    by (simp_all add: event_kind_def turn_heap_simps py_lower_def is_ascii_def ascii_lower_def lit_def)
  show "extract_sdk_billing_evidence sample_rt turn_heap (EventObject (PRef 2)) = Inr (Some init_evidence)"
    by (simp add: extract_sdk_billing_evidence_def k Let_def)
       (simp add: turn_heap_simps read_field_def system_evidence_def init_evidence_def lits_def)
  show "extract_sdk_billing_evidence sample_rt turn_heap (EventObject (PRef 4)) = Inr None"
    by (simp add: extract_sdk_billing_evidence_def k Let_def)
       (simp add: turn_heap_simps read_field_def)
qed

lemma init_evidence_allowed:
  "bd_allowed (classify_sdk_billing sample_rt turn_heap (TypedArg init_evidence))"
  "bd_block_reason (classify_sdk_billing sample_rt turn_heap (TypedArg init_evidence)) = None"
proof -
  have w: "plain_word (lit ''none'')" by (simp add: plain_word_def plain_char_def lit_def)
  have "normalize_evidence sample_rt init_evidence = (init_evidence, [])"
    by (simp add: normalize_evidence_def init_evidence_def no_evidence_def Let_def
        canonical_api_key_source_def canonical_overage_status_def canonical_rate_limit_type_def
        bounded_signal_text_def plain_word_simps[OF w] add_if_def of_signal_def MAX_EVIDENCE_TEXT_LENGTH_def
        METERED_API_KEY_SOURCES_def lits_def)
  then show "bd_allowed (classify_sdk_billing sample_rt turn_heap (TypedArg init_evidence))"
    "bd_block_reason (classify_sdk_billing sample_rt turn_heap (TypedArg init_evidence)) = None"
    by (simp_all add: classify_sdk_billing_def coerce_evidence_def classify_normalized_def
        init_evidence_def no_evidence_def Let_def)
qed

lemma no_evidence_refused:
  "\<not> bd_allowed (classify_sdk_billing rt H (RawArg PNone))"
  by (simp add: classify_sdk_billing_def coerce_evidence_def is_mapping_def blocked_def)

lemma turn_heap_projection:
  "\<exists>p'. project sample_rt turn_heap (PRef 2) p = (Inr empty_projection, p')"
  "\<exists>r p'. project sample_rt turn_heap (PRef 4) p = (Inr r, p')"
  by (simp_all add: project_def turn_heap_types project_result_def Let_def result_counters_def
      coerce_usage_int_def turn_heap_simps split: prod.split)

lemma asked_session_simps [simp]:
  "ss_reader asked_session" "ss_inbox asked_session = Some []" "\<not> ss_cancel asked_session"
  "\<not> ss_terminal_seen asked_session" "ss_indexes asked_session = []" "ss_client asked_session"
  "\<not> ss_closed asked_session" "ss_log asked_session = [Connecting, Queried hello]"
  by (simp_all add: asked_session_def session_new_def)

lemma init_read:
  "\<exists>s t. session_reach sample_rt turn_heap a (s, Reading t) \<and> tu_evidence t = Some init_evidence \<and>
     ss_log s = [Connecting, Queried hello, Delivered (PRef 2) empty_projection] \<and> ss_reader s \<and>
     ss_inbox s = Some [] \<and> \<not> ss_cancel s \<and> \<not> ss_terminal_seen s \<and> ss_indexes s = []"
proof -
  obtain p' where p: "project sample_rt turn_heap (PRef 2) (ss_projector asked_session) = (Inr empty_projection, p')"
    using turn_heap_projection(1) by blast
  have "session_reach sample_rt turn_heap a
      (process_message sample_rt turn_heap True True (PRef 2) turn_new asked_session)"
    using read_message[OF asked_reached[of sample_rt turn_heap a], of "PRef 2"]
    by (simp add: turn_heap_boundary turn_heap_types asked_session_def session_new_def)
  moreover have "process_message sample_rt turn_heap True True (PRef 2) turn_new asked_session =
      (emit (Delivered (PRef 2) empty_projection) (asked_session\<lparr>ss_projector := p'\<rparr>),
       Reading (turn_new\<lparr>tu_evidence := Some init_evidence\<rparr>))"
    using p init_evidence_allowed
    by (simp add: process_message_def turn_heap_compaction turn_heap_evidence merge_evidence_def turn_new_def
        Let_def evidence_arg_of_def turn_heap_types deliver_def newer_text_def empty_projection_def)
  ultimately show ?thesis
    by (intro exI[of _ "emit (Delivered (PRef 2) empty_projection) (asked_session\<lparr>ss_projector := p'\<rparr>)"]
          exI[of _ "turn_new\<lparr>tu_evidence := Some init_evidence\<rparr>"]) (simp add: emit_def)
qed

lemma result_read:
  "\<exists>s t d r. session_reach sample_rt turn_heap a (s, Draining (PRef 4) d t) \<and> bd_allowed d \<and>
     ss_log s = [Connecting, Queried hello, Delivered (PRef 2) empty_projection, BillingReported d,
       Delivered (PRef 4) r] \<and> \<not> ss_closed s \<and> ss_inbox s = Some []"
proof -
  obtain s t where s: "session_reach sample_rt turn_heap a (s, Reading t)" "tu_evidence t = Some init_evidence"
     "ss_log s = [Connecting, Queried hello, Delivered (PRef 2) empty_projection]" "ss_reader s"
     "ss_inbox s = Some []" "\<not> ss_cancel s" "\<not> ss_terminal_seen s" "ss_indexes s = []"
    using init_read by blast
  obtain r p' where p: "project sample_rt turn_heap (PRef 4) (ss_projector s) = (Inr r, p')"
    using turn_heap_projection(2) by blast
  let ?s = "s\<lparr>ss_terminal_seen := True\<rparr>"
  let ?d = "classify_sdk_billing sample_rt turn_heap (TypedArg init_evidence)"
  have sid: "attr_or_none turn_heap (PRef 4) ''session_id'' = Inr PNone" by (simp add: turn_heap_simps)
  have "session_reach sample_rt turn_heap a (process_message sample_rt turn_heap True True (PRef 4) t ?s)"
    using read_message[OF s(1,4-7), of "PRef 4"] s(8) by (simp add: turn_heap_boundary turn_heap_types)
  moreover have "process_message sample_rt turn_heap True True (PRef 4) t ?s =
      (emit (Delivered (PRef 4) r) (emit (BillingReported ?d) (?s\<lparr>ss_projector := p'\<rparr>)),
       Draining (PRef 4) ?d (newer_text r (t\<lparr>tu_evidence := Some init_evidence\<rparr>)))"
    using p s(2) init_evidence_allowed sid
    by (simp add: process_message_def turn_heap_compaction turn_heap_evidence turn_heap_types Let_def
        process_result_def external_session_id_def evidence_arg_of_def deliver_def emit_def)
  moreover have "\<not> ss_closed s"
  proof
    assume "ss_closed s"
    with protocol.always[OF s(1)] s(3) show False
      by (auto simp: protocol_inv_def gate_ok_def gate_run_def hello_def turn_heap_types is_result_def)
  qed
  ultimately show ?thesis
    using s init_evidence_allowed
    by (intro exI[of _ "emit (Delivered (PRef 4) r) (emit (BillingReported ?d) (?s\<lparr>ss_projector := p'\<rparr>))"]
          exI[of _ "newer_text r (t\<lparr>tu_evidence := Some init_evidence\<rparr>)"] exI[of _ ?d] exI[of _ r]) (simp add: emit_def)
qed

lemma refused_read:
  "\<exists>s e d. session_reach sample_rt turn_heap a (s, Finished e) \<and> \<not> bd_allowed d \<and>
     ss_log s = [Connecting, Queried hello, BillingReported d, Disconnected]"
proof -
  let ?s = "asked_session\<lparr>ss_terminal_seen := True\<rparr>"
  let ?d = "classify_sdk_billing sample_rt turn_heap (RawArg PNone)"
  have sid: "attr_or_none turn_heap (PRef 4) ''session_id'' = Inr PNone" by (simp add: turn_heap_simps)
  have "session_reach sample_rt turn_heap a (process_message sample_rt turn_heap True True (PRef 4) turn_new ?s)"
    using read_message[OF asked_reached[of sample_rt turn_heap a], of "PRef 4"]
    by (simp add: turn_heap_boundary turn_heap_types)
  moreover have "\<exists>r. process_message sample_rt turn_heap True True (PRef 4) turn_new ?s =
      return_turn r (session_close (emit (BillingReported ?d) ?s))"
    using sid no_evidence_refused
    by (simp add: process_message_def turn_heap_compaction turn_heap_evidence turn_heap_types Let_def
        process_result_def external_session_id_def evidence_arg_of_def turn_new_def) blast
  ultimately obtain s e where "session_reach sample_rt turn_heap a (s, Finished e)"
    "ss_log s = [Connecting, Queried hello, BillingReported ?d, Disconnected]"
    by (auto simp: return_turn_def session_view)
  then show ?thesis using no_evidence_refused by blast
qed

subsection \<open>Properties\<close>

text \<open>
  C3: Whatever the interleaving of the turn, the reader, cancellations, closes, hooks and the
  watchdog, what a session does to its SDK client and to its callbacks is a run of the
  protocol automaton: the session refines the automaton.
\<close>

theorem session_refines_protocol:
  assumes "session_reach rt H allowed (s, pc)"
  shows "\<exists>q. gate_run H (ss_log s) = Some q"
  using protocol.always[OF assms] by (auto simp: protocol_inv_def gate_ok_def)

theorem session_refines_protocol_witness:
  "\<exists>s pc q. session_reach sample_rt turn_heap [] (s, pc) \<and> length (ss_log s) = 5 \<and>
     gate_run turn_heap (ss_log s) = Some q"
proof -
  obtain s t d r where s: "session_reach sample_rt turn_heap [] (s, Draining (PRef 4) d t)"
    "ss_log s = [Connecting, Queried hello, Delivered (PRef 2) empty_projection, BillingReported d,
       Delivered (PRef 4) r]"
    using result_read by blast
  from session_refines_protocol[OF s(1)] s show ?thesis by force
qed

text \<open>
  C4: A result message, whose projection carries the completion of the turn, is released to
  the projection callback only right after a billing decision that allows the turn: between
  the two the client is at most interrupted or disconnected.
\<close>

theorem result_released_after_allowed_billing:
  assumes "session_reach rt H allowed (s, pc)"
    and "ss_log s = xs @ Delivered m r # ys" "is_result H m"
  shows "\<exists>zs d ws. xs = zs @ BillingReported d # ws \<and> bd_allowed d \<and> list_all closing ws"
proof -
  from protocol.always[OF assms(1)] obtain q where "gate_run H (xs @ Delivered m r # ys) = Some q"
    by (auto simp: protocol_inv_def gate_ok_def assms(2))
  from gate_run_split[OF this] obtain g c q2 where
    "gate_run H xs = Some (g, c)" "gate_step H (Delivered m r) (g, c) = Some q2" by auto
  with assms(3) gate_cleared[of H xs c] show ?thesis by (auto split: if_splits)
qed

theorem result_released_after_allowed_billing_witness:
  "\<exists>s pc d r zs. session_reach sample_rt turn_heap [] (s, pc) \<and> bd_allowed d \<and>
     ss_log s = zs @ [BillingReported d] @ [Delivered (PRef 4) r]"
proof -
  obtain s t d r where s: "session_reach sample_rt turn_heap [] (s, Draining (PRef 4) d t)"
    "ss_log s = [Connecting, Queried hello, Delivered (PRef 2) empty_projection, BillingReported d,
       Delivered (PRef 4) r]"
    using result_read by blast
  from result_released_after_allowed_billing[OF s(1), of
      "[Connecting, Queried hello, Delivered (PRef 2) empty_projection, BillingReported d]" "PRef 4" r "[]"] s
  obtain zs d' ws where "[Connecting, Queried hello, Delivered (PRef 2) empty_projection, BillingReported d] =
      zs @ BillingReported d' # ws" "bd_allowed d'" "list_all closing ws"
    by (auto simp: is_result_def turn_heap_types)
  moreover from this(1,3) have "d' = d"
    by (cases ws rule: rev_cases) (auto simp: closing_def)
  ultimately show ?thesis using s
    by (intro exI[of _ s] exI[of _ "Draining (PRef 4) d t"] exI[of _ d] exI[of _ r]
         exI[of _ "[Connecting, Queried hello, Delivered (PRef 2) empty_projection]"]) simp
qed

text \<open>
  After a billing decision that refuses the turn, the session only interrupts or
  disconnects its client: no query, no delivery, no other decision and no new connection ever
  follow, in this turn or a later one.
\<close>

theorem refused_billing_retires_session:
  assumes "session_reach rt H allowed (s, pc)"
    and "ss_log s = xs @ BillingReported d # ys" "\<not> bd_allowed d"
  shows "list_all closing ys"
proof -
  from protocol.always[OF assms(1)] obtain q where "gate_run H (xs @ BillingReported d # ys) = Some q"
    by (auto simp: protocol_inv_def gate_ok_def assms(2))
  from gate_run_split[OF this] obtain g c q2 where
    "gate_step H (BillingReported d) (g, c) = Some q2" "gate_from H ys q2 = Some q" by auto
  with assms(3) gate_refused[of H ys c q] show ?thesis by (auto split: if_splits)
qed

theorem refused_billing_retires_session_witness:
  "\<exists>s pc d. session_reach sample_rt turn_heap [] (s, pc) \<and> \<not> bd_allowed d \<and>
     BillingReported d \<in> set (ss_log s) \<and> list_all closing [Disconnected]"
proof -
  obtain s e d where s: "session_reach sample_rt turn_heap [] (s, Finished e)" "\<not> bd_allowed d"
    "ss_log s = [Connecting, Queried hello, BillingReported d, Disconnected]"
    using refused_read by blast
  from refused_billing_retires_session[OF s(1), of "[Connecting, Queried hello]" d "[Disconnected]"] s
  show ?thesis by auto
qed

text \<open>
  A turn releases at most one result, and it is the last thing the turn releases: until
  the next query nothing is delivered and no billing decision is reported.
\<close>

theorem one_result_per_turn:
  assumes "session_reach rt H allowed (s, pc)"
    and "ss_log s = xs @ Delivered m r # ys" "is_result H m"
  shows "list_all closing (takeWhile (\<lambda>out. \<not> asks out) ys)"
proof -
  from protocol.always[OF assms(1)] obtain q where "gate_run H (xs @ Delivered m r # ys) = Some q"
    by (auto simp: protocol_inv_def gate_ok_def assms(2))
  from gate_run_split[OF this] obtain g c q2 where
    "gate_step H (Delivered m r) (g, c) = Some q2" "gate_from H ys q2 = Some q" by auto
  with assms(3) gate_done[of H ys c q] show ?thesis by (auto split: if_splits)
qed

theorem one_result_per_turn_witness:
  "\<exists>s pc r xs ys. session_reach sample_rt turn_heap [] (s, pc) \<and> ss_log s = xs @ Delivered (PRef 4) r # ys \<and>
     list_all closing (takeWhile (\<lambda>out. \<not> asks out) ys)"
proof -
  obtain s t d r where s: "session_reach sample_rt turn_heap [] (s, Draining (PRef 4) d t)"
    "ss_log s = [Connecting, Queried hello, Delivered (PRef 2) empty_projection, BillingReported d,
       Delivered (PRef 4) r]"
    using result_read by blast
  from s(2) have log: "ss_log s = [Connecting, Queried hello, Delivered (PRef 2) empty_projection,
      BillingReported d] @ Delivered (PRef 4) r # []" by simp
  have "is_result turn_heap (PRef 4)" by (simp add: is_result_def turn_heap_types)
  from one_result_per_turn[OF s(1) log this] s(1) log show ?thesis by blast
qed

end
