(* ===== verification/Session_Turns.thy ===== *)
theory Session_Turns
  imports Session_Protocol
begin

section \<open>Turns of the session\<close>

text \<open>
  Two more invariants of the interleaved session: what reaches the projection callback passed
  the zero-native boundary, and a closed session never leaves its turn waiting. Then what a
  finished turn says: a completed turn is justified by its log, a failed result gets a code of
  a closed list, and the one way a turn ends in an exception.
\<close>

subsection \<open>Everything delivered passed the boundary\<close>

definition passed :: "heap \<Rightarrow> ustr list \<Rightarrow> pyval \<Rightarrow> bool" where
  "passed H allowed m \<longleftrightarrow>
     (\<exists>ixs ixs'. indexes_ok allowed ixs \<and> zero_native_violation H allowed m ixs = Inr (False, ixs'))"

definition item_passed :: "heap \<Rightarrow> ustr list \<Rightarrow> inbox_item \<Rightarrow> bool" where
  "item_passed H allowed i = (case i of Message m \<Rightarrow> passed H allowed m | _ \<Rightarrow> True)"

definition output_passed :: "heap \<Rightarrow> ustr list \<Rightarrow> session_output \<Rightarrow> bool" where
  "output_passed H allowed out = (case out of Delivered m _ \<Rightarrow> passed H allowed m | _ \<Rightarrow> True)"

definition boundary :: "heap \<Rightarrow> ustr list \<Rightarrow> sdk_session \<Rightarrow> bool" where
  "boundary H allowed s \<longleftrightarrow> indexes_ok allowed (ss_indexes s) \<and>
     (\<forall>is. ss_inbox s = Some is \<longrightarrow> list_all (item_passed H allowed) is) \<and>
     list_all (output_passed H allowed) (ss_log s)"

lemma boundary_put: "item_passed H a i \<Longrightarrow> boundary H a s \<Longrightarrow> boundary H a (put i s)"
  by (auto simp: boundary_def put_def)

lemma boundary_emit: "output_passed H a out \<Longrightarrow> boundary H a s \<Longrightarrow> boundary H a (emit out s)"
  by (auto simp: boundary_def emit_def)

lemma item_passed_simps [simp]:
  "item_passed H a CancelledItem" "item_passed H a (StreamEnded b)" "item_passed H a WatchdogExpired"
  "item_passed H a PostTerminalOutput" "item_passed H a NativeToolViolation"
  "item_passed H a (Message m) = passed H a m"
  by (simp_all add: item_passed_def)

lemma output_passed_simps [simp]:
  "output_passed H a Connecting" "output_passed H a (Queried p)" "output_passed H a (BillingReported d)"
  "output_passed H a Interrupted" "output_passed H a Disconnected"
  "output_passed H a (Delivered m r) = passed H a m"
  by (simp_all add: output_passed_def)

text \<open>Updates of fields the boundary does not look at.\<close>

lemma boundary_updates [simp]:
  "boundary H a (s\<lparr>ss_client := b\<rparr>) = boundary H a s" "boundary H a (s\<lparr>ss_reader := b\<rparr>) = boundary H a s"
  "boundary H a (s\<lparr>ss_terminal_seen := b\<rparr>) = boundary H a s"
  "boundary H a (s\<lparr>ss_post_output := b\<rparr>) = boundary H a s"
  "boundary H a (s\<lparr>ss_post_native := b\<rparr>) = boundary H a s"
  "boundary H a (s\<lparr>ss_compaction := c\<rparr>) = boundary H a s" "boundary H a (s\<lparr>ss_closed := b\<rparr>) = boundary H a s"
  "boundary H a (s\<lparr>ss_cancel := b\<rparr>) = boundary H a s" "boundary H a (s\<lparr>ss_projector := p\<rparr>) = boundary H a s"
  by (simp_all add: boundary_def)

lemma boundary_reset:
  "boundary H a s \<Longrightarrow> boundary H a (s\<lparr>ss_inbox := Some [], ss_terminal_seen := b, ss_indexes := []\<rparr>)"
  "boundary H a s \<Longrightarrow> boundary H a (finish_turn c s)"
  by (simp_all add: boundary_def indexes_ok_def finish_turn_def)

lemma boundary_reader_end: "boundary H a s \<Longrightarrow> boundary H a (reader_end b s)"
  by (simp add: reader_end_def boundary_put)

lemma boundary_close: "boundary H a s \<Longrightarrow> boundary H a (session_close s)"
  by (auto simp: session_close_def Let_def intro!: boundary_reader_end boundary_emit boundary_put)

lemma boundary_interrupt: "boundary H a s \<Longrightarrow> boundary H a (interrupt_then_close s)"
  by (auto simp: interrupt_then_close_def intro!: boundary_close boundary_emit)

lemma boundary_cancel: "boundary H a s \<Longrightarrow> boundary H a (session_cancel s)"
  by (auto simp: session_cancel_def intro!: boundary_interrupt boundary_put)

lemma boundary_receive:
  assumes "boundary H a s"
  shows "boundary H a (reader_receive H a m s)"
proof (cases "zero_native_violation H a m (ss_indexes s)")
  case (Inl e)
  then show ?thesis using boundary_reader_end[OF assms] by (simp add: reader_receive_def)
next
  case (Inr v)
  obtain bad ixs where v: "v = (bad, ixs)" by (cases v)
  have ok: "indexes_ok a (ss_indexes s)" using assms by (simp add: boundary_def)
  from zero_native_violation_ok[OF Inr[unfolded v] ok] assms
  have b: "boundary H a (s\<lparr>ss_indexes := ixs\<rparr>)" by (simp add: boundary_def)
  have p: "\<not> bad \<Longrightarrow> passed H a m" using Inr v ok by (auto simp: passed_def)
  show ?thesis using Inr v b p by (auto simp: reader_receive_def Let_def intro!: boundary_put)
qed

lemma boundary_watchdog: "boundary H a s \<Longrightarrow> boundary H a (session_watchdog s)"
  by (auto simp: session_watchdog_def Let_def intro!: boundary_put)

lemma boundary_return: "boundary H a s \<Longrightarrow> boundary H a (fst (return_turn r s))"
  by (simp add: return_turn_def boundary_reset)

lemma boundary_failed: "boundary H a s \<Longrightarrow> boundary H a (fst (turn_failed t s))"
  by (simp add: turn_failed_def boundary_return boundary_interrupt)

lemmas boundary_intros = boundary_return boundary_failed boundary_interrupt boundary_close boundary_emit
  boundary_cancel boundary_reset

lemma boundary_query: "boundary H a s \<Longrightarrow> boundary H a (fst (turn_query prompt e s))"
  by (auto simp: turn_query_def refuse_def Let_def intro!: boundary_intros split: sum.split)

lemma boundary_begin: "boundary H a s \<Longrightarrow> boundary H a (fst (turn_begin prompt p e c s))"
  by (auto simp: turn_begin_def refuse_def Let_def intro!: boundary_intros boundary_query)

lemma boundary_deliver:
  "boundary H a s \<Longrightarrow> passed H a m \<Longrightarrow> boundary H a (fst (deliver rt H d m t next s))"
  by (auto simp: deliver_def Let_def intro!: boundary_intros split: prod.split sum.split)

lemma boundary_result:
  "boundary H a s \<Longrightarrow> passed H a m \<Longrightarrow> boundary H a (fst (process_result rt H r d m t s))"
  by (auto simp: process_result_def Let_def intro!: boundary_intros boundary_deliver split: sum.split)

lemma boundary_message:
  assumes "boundary H a s" "passed H a m"
  shows "boundary H a (fst (process_message rt H r d m t s))"
  using assms unfolding process_message_def Let_def
  by (simp split: sum.split prod.split add: boundary_intros boundary_deliver boundary_result)

lemma boundary_item:
  "boundary H a s \<Longrightarrow> item_passed H a i \<Longrightarrow> boundary H a (fst (process_item rt H r d i t s))"
  by (cases i) (auto simp: process_item_def boundary_message intro!: boundary_intros)

lemma boundary_drain: "boundary H a s \<Longrightarrow> boundary H a (fst (turn_drain H m d t s))"
  by (auto simp: turn_drain_def Let_def intro!: boundary_intros split: sum.split bool.split)

lemma boundary_cancelled: "boundary H a s \<Longrightarrow> boundary H a (fst (turn_cancelled pc s))"
  by (auto simp: turn_cancelled_def intro!: boundary_intros split: turn_pc.split)

lemma take_item_boundary:
  "take_item s = Some (i, s') \<Longrightarrow> boundary H a s \<Longrightarrow> boundary H a s' \<and> item_passed H a i"
  by (auto simp: take_item_def boundary_def split: option.splits list.splits)

lemma boundary_step:
  assumes "boundary H a (fst cfg)" "session_step rt H a cfg cfg'"
  shows "boundary H a (fst cfg')"
  using assms(2,1)
proof cases
  case (reads s item s' t reports delivers)
  with take_item_boundary[OF reads(3)] assms(1) show ?thesis by (simp add: boundary_item)
qed (auto simp: boundary_receive boundary_reader_end session_hook_def boundary_watchdog boundary_cancel
      boundary_close boundary_begin turn_connected_def refuse_def boundary_query turn_queried_def
      turn_timeout_def boundary_return boundary_interrupt boundary_failed boundary_drain boundary_cancelled
      split: query_answer.split)

lemma boundary_start: "session_start cfg \<Longrightarrow> boundary H a (fst cfg)"
  by (auto simp: session_start_def session_new_def boundary_def indexes_ok_def)

interpretation bounded: inductive_invariant session_start "session_step rt H a" "\<lambda>cfg. boundary H a (fst cfg)"
  for rt H a
  by unfold_locales (rule boundary_start boundary_step; assumption)+

subsection \<open>A closed session does not leave its turn waiting\<close>

definition cancel_closed :: "sdk_session \<Rightarrow> bool" where
  "cancel_closed s \<longleftrightarrow> (ss_cancel s \<longrightarrow> ss_closed s)"

text \<open>A turn that waits has an inbox, with a cancellation in it once the session is closed.\<close>

definition wakes :: "sdk_session \<Rightarrow> bool" where
  "wakes s \<longleftrightarrow> (\<exists>is. ss_inbox s = Some is \<and> (ss_closed s \<longrightarrow> CancelledItem \<in> set is))"

definition live_inv :: "config \<Rightarrow> bool" where
  "live_inv cfg \<longleftrightarrow> cancel_closed (fst cfg) \<and>
     (snd cfg = Querying \<or> (\<exists>t. snd cfg = Reading t) \<longrightarrow> wakes (fst cfg))"

lemma wakes_put: "wakes s \<Longrightarrow> wakes (put i s)"
  by (auto simp: wakes_def put_def)

lemma wakes_updates [simp]:
  "wakes (s\<lparr>ss_client := b\<rparr>) = wakes s" "wakes (s\<lparr>ss_reader := b\<rparr>) = wakes s"
  "wakes (s\<lparr>ss_terminal_seen := b\<rparr>) = wakes s" "wakes (s\<lparr>ss_post_output := b\<rparr>) = wakes s"
  "wakes (s\<lparr>ss_post_native := b\<rparr>) = wakes s" "wakes (s\<lparr>ss_compaction := c\<rparr>) = wakes s"
  "wakes (s\<lparr>ss_projector := p\<rparr>) = wakes s" "wakes (s\<lparr>ss_cancel := b\<rparr>) = wakes s"
  "wakes (s\<lparr>ss_indexes := ixs\<rparr>) = wakes s" "wakes (emit out s) = wakes s"
  by (simp_all add: wakes_def emit_def)

lemma wakes_reader_end: "wakes s \<Longrightarrow> wakes (reader_end b s)"
  by (simp add: reader_end_def wakes_put)

lemma wakes_receive: "wakes s \<Longrightarrow> wakes (reader_receive H a m s)"
  by (auto simp: reader_receive_def Let_def intro!: wakes_put wakes_reader_end split: sum.split)

lemma wakes_watchdog: "wakes s \<Longrightarrow> wakes (session_watchdog s)"
  by (auto simp: session_watchdog_def Let_def intro!: wakes_put)

lemma wakes_close:
  assumes "wakes s"
  shows "wakes (session_close s)"
proof (cases "ss_closed s")
  case False
  let ?s = "put CancelledItem (s\<lparr>ss_closed := True, ss_compaction := cp_end_turn False (ss_compaction s)\<rparr>)"
  have "wakes ?s" using assms by (auto simp: wakes_def put_def)
  with False show ?thesis by (simp add: session_close_def Let_def wakes_reader_end)
qed (simp add: session_close_def assms)

lemma wakes_cancel: "wakes s \<Longrightarrow> wakes (session_cancel s)"
  by (auto simp: session_cancel_def interrupt_then_close_def intro!: wakes_close wakes_put)

lemma cancel_closed_view:
  "ss_cancel s' = ss_cancel s \<Longrightarrow> (ss_closed s \<longrightarrow> ss_closed s') \<Longrightarrow> cancel_closed s \<Longrightarrow> cancel_closed s'"
  by (simp add: cancel_closed_def)

lemma interrupt_cancel_view [session_view]: "ss_cancel (interrupt_then_close s) = ss_cancel s"
  by (simp add: interrupt_then_close_def session_view)

lemma live_returned: "cancel_closed s \<Longrightarrow> live_inv (return_turn r s)"
  by (simp add: live_inv_def return_turn_def cancel_closed_def session_view)

lemma live_interrupted: "live_inv (return_turn r (interrupt_then_close s))"
  by (rule live_returned) (simp add: cancel_closed_def session_view)

lemma live_failed: "live_inv (turn_failed t s)"
  by (simp add: turn_failed_def live_interrupted)

lemma live_refuse: "cancel_closed s \<Longrightarrow> live_inv (refuse r s)"
  by (simp add: live_inv_def refuse_def)

lemma live_query: "cancel_closed s \<Longrightarrow> ss_client s \<longrightarrow> \<not> ss_closed s \<Longrightarrow> live_inv (turn_query prompt e s)"
  by (auto simp: turn_query_def Let_def live_refuse live_failed split: sum.split)
     (auto simp: live_inv_def wakes_def emit_def cancel_closed_def)

lemma live_deliver:
  assumes "cancel_closed s" "wakes s"
  shows "live_inv (deliver rt H d m t next s)"
proof -
  have "live_inv (emit out (s\<lparr>ss_projector := p\<rparr>), pc)" for out p pc
    using assms by (simp add: live_inv_def cancel_closed_def session_view)
  then show ?thesis by (auto simp: deliver_def Let_def live_failed split: prod.split sum.split)
qed

lemma live_result: "cancel_closed s \<Longrightarrow> wakes s \<Longrightarrow> live_inv (process_result rt H r d m t s)"
  by (auto simp: process_result_def Let_def live_failed cancel_closed_def session_view
      intro!: live_returned live_deliver split: sum.split)

lemma live_message:
  assumes "cancel_closed s" "wakes s"
  shows "live_inv (process_message rt H r d m t s)"
proof -
  have "cancel_closed (s\<lparr>ss_compaction := c\<rparr>)" for c using assms(1) by (simp add: cancel_closed_def)
  with assms show ?thesis
    unfolding process_message_def Let_def
    by (simp split: sum.split prod.split add: live_failed live_interrupted live_deliver live_result)
qed

lemma live_item:
  assumes "cancel_closed s" "i \<noteq> CancelledItem \<Longrightarrow> wakes s"
  shows "live_inv (process_item rt H r d i t s)"
  using assms by (cases i) (auto simp: process_item_def live_returned live_interrupted live_message)

lemma live_drain: "cancel_closed s \<Longrightarrow> live_inv (turn_drain H m d t s)"
  by (auto simp: turn_drain_def Let_def live_failed live_interrupted live_returned split: sum.split bool.split)

lemma take_item_wakes:
  assumes "take_item s = Some (i, s')" "wakes s" "cancel_closed s"
  shows "cancel_closed s' \<and> (i \<noteq> CancelledItem \<longrightarrow> wakes s')"
  using assms by (auto simp: take_item_def wakes_def cancel_closed_def split: option.splits list.splits)

lemma live_environment:
  assumes "live_inv (s, pc)"
  shows "live_inv (reader_receive H a m s, pc)" "live_inv (reader_end b s, pc)"
    "live_inv (session_hook H i s, pc)" "live_inv (session_watchdog s, pc)"
    "live_inv (session_cancel s, pc)" "live_inv (session_close s, pc)"
  using assms
  by (auto simp: live_inv_def cancel_closed_def session_view wakes_receive wakes_reader_end
      wakes_watchdog wakes_cancel wakes_close session_hook_def)

lemma live_step:
  assumes "protocol_inv H cfg" "live_inv cfg" "session_step rt H a cfg cfg'"
  shows "live_inv cfg'"
  using assms(3,1,2)
proof cases
  case (reads s item s' t reports delivers)
  with assms(2) have "cancel_closed s' \<and> (item \<noteq> CancelledItem \<longrightarrow> wakes s')"
    by (intro take_item_wakes[OF reads(3)]) (auto simp: live_inv_def)
  with reads show ?thesis by (auto intro!: live_item)
next
  case (begins s e prompt p on_event constructs)
  have "ss_client s \<longrightarrow> \<not> ss_closed s"
    using assms(1) begins by (auto simp: protocol_inv_def gate_ok_def)
  with begins assms(2) show ?thesis
    by (auto simp: turn_begin_def Let_def intro!: live_refuse live_query)
       (auto simp: live_inv_def cancel_closed_def session_view)
next
  case (connects s prompt on_event ok)
  have "ss_client s \<longrightarrow> \<not> ss_closed s"
    using assms(1) connects by (auto simp: protocol_inv_def gate_ok_def)
  with connects assms(2) show ?thesis
    by (auto simp: turn_connected_def intro!: live_refuse live_query)
       (auto simp: live_inv_def cancel_closed_def session_view)
next
  case (queries s answer)
  with assms(2) show ?thesis
    by (auto simp: turn_queried_def live_interrupted live_failed split: query_answer.split)
       (simp add: live_inv_def)
next
  case (times_out s t)
  with assms(2) show ?thesis by (simp add: turn_timeout_def live_interrupted)
next
  case (drains s m d t)
  from assms(2) have "cancel_closed s" by (simp add: drains live_inv_def)
  with drains show ?thesis by (simp add: live_drain)
next
  case (task_cancelled pc s)
  show ?thesis
    unfolding task_cancelled(2)
    by (auto simp: turn_cancelled_def live_inv_def cancel_closed_def session_view split: turn_pc.split)
qed (use assms(2) live_environment in auto)

interpretation waiting: two_invariants session_start "session_step rt H a" "protocol_inv H" live_inv
  for rt H a
proof unfold_locales
  show "session_start cfg \<Longrightarrow> live_inv cfg" for cfg
    by (auto simp: session_start_def session_new_def live_inv_def cancel_closed_def)
qed (rule live_step; assumption)

subsection \<open>A completed turn is justified by its log\<close>

definition justified :: "heap \<Rightarrow> BillingDecision \<Rightarrow> pyval \<Rightarrow> session_output list \<Rightarrow> bool" where
  "justified H d m outs \<longleftrightarrow> bd_allowed d \<and> is_result H m \<and>
     (\<exists>xs p ys. outs = xs @ [BillingReported d, Delivered m p] @ ys \<and> list_all closing ys)"

lemma justified_append: "justified H d m outs \<Longrightarrow> list_all closing zs \<Longrightarrow> justified H d m (outs @ zs)"
  unfolding justified_def by (metis append.assoc list_all_append)

definition complete_inv :: "heap \<Rightarrow> config \<Rightarrow> bool" where
  "complete_inv H cfg =
     (case snd cfg of
        Draining m d _ \<Rightarrow> justified H d m (ss_log (fst cfg))
      | Finished (Some (Returned r)) \<Rightarrow> sr_outcome r = COMPLETE \<longrightarrow>
          (\<exists>d m. sr_billing_decision r = Some d \<and> justified H d m (ss_log (fst cfg)))
      | _ \<Rightarrow> True)"

lemma complete_append:
  assumes "complete_inv H (s, pc)" "ss_log s' = ss_log s @ zs" "list_all closing zs"
  shows "complete_inv H (s', pc)"
  using assms justified_append[OF _ assms(3)]
  by (fastforce simp: complete_inv_def split: turn_pc.splits option.splits turn_end.splits)

lemma outcome_simps [simp]:
  "sr_outcome (turn_result c code) = c" "sr_outcome (with_text t r) = sr_outcome r"
  "sr_billing_decision (with_text t r) = sr_billing_decision r"
  by (simp_all add: turn_result_def with_text_def)

lemma complete_return: "sr_outcome r \<noteq> COMPLETE \<Longrightarrow> complete_inv H (return_turn r s)"
  by (simp add: complete_inv_def return_turn_def)

lemma complete_failed: "complete_inv H (turn_failed t s)"
  by (simp add: turn_failed_def complete_return)

lemma complete_refuse: "sr_outcome r \<noteq> COMPLETE \<Longrightarrow> complete_inv H (refuse r s)"
  by (simp add: complete_inv_def refuse_def)

lemma complete_query: "complete_inv H (turn_query prompt e s)"
  by (auto simp: turn_query_def Let_def complete_refuse complete_failed split: sum.split)
     (simp_all add: complete_inv_def)

lemma complete_begin: "complete_inv H (turn_begin prompt p e c s)"
  by (auto simp: turn_begin_def Let_def complete_refuse complete_query) (simp_all add: complete_inv_def)

lemma complete_deliver_reading: "complete_inv H (deliver rt H b m t Reading s)"
  by (auto simp: deliver_def Let_def complete_failed split: prod.split sum.split) (simp add: complete_inv_def)

lemma complete_deliver_draining:
  assumes "bd_allowed d" "is_result H m" "ss_log s = xs @ [BillingReported d]"
  shows "complete_inv H (deliver rt H b m t (Draining m d) s)"
proof -
  have "justified H d m ((xs @ [BillingReported d]) @ [Delivered m p])" for p
    using assms(1,2) unfolding justified_def
    by (intro conjI exI[of _ xs] exI[of _ p] exI[of _ "[]"]) simp_all
  then show ?thesis
    using assms(3)
    by (auto simp: deliver_def Let_def complete_failed split: prod.split sum.split)
       (simp add: complete_inv_def emit_def)
qed

lemma complete_result:
  assumes "is_result H m"
  shows "complete_inv H (process_result rt H r d m t s)"
proof (cases "attr_or_none H m ''session_id''")
  case (Inr sid)
  let ?t = "case external_session_id sid of None \<Rightarrow> t | Some i \<Rightarrow> t\<lparr>tu_session_id := Some i\<rparr>"
  let ?d = "classify_sdk_billing rt H (evidence_arg_of (tu_evidence ?t))"
  have "complete_inv H (deliver rt H d m ?t (Draining m ?d) (emit (BillingReported ?d) s))" if "bd_allowed ?d"
    using complete_deliver_draining[OF that assms, of "emit (BillingReported ?d) s" "ss_log s"]
    by (simp add: emit_def)
  with Inr show ?thesis
    by (simp add: process_result_def Let_def complete_failed complete_return)
qed (simp add: process_result_def complete_failed)

lemma complete_message: "complete_inv H (process_message rt H r d m t s)"
  unfolding process_message_def Let_def
  by (simp split: sum.split prod.split
      add: complete_failed complete_return complete_deliver_reading complete_result is_result_def)

lemma complete_item: "complete_inv H (process_item rt H r d i t s)"
  by (cases i) (simp_all add: process_item_def complete_return complete_message)

lemma complete_drain:
  assumes "justified H d m (ss_log s)"
  shows "complete_inv H (turn_drain H m d t s)"
proof -
  have "complete_inv H (return_turn ((with_text t (turn_result COMPLETE []))\<lparr>sr_billing_decision := Some d\<rparr>) s)"
    using assms by (auto simp: complete_inv_def return_turn_def session_view)
  then show ?thesis
    unfolding turn_drain_def Let_def
    by (simp split: sum.split prod.split bool.split add: complete_return complete_failed)
qed

lemma closing_simps [simp]: "closing Interrupted" "closing Disconnected"
  by (simp_all add: closing_def)

lemma interrupt_log: "\<exists>zs. ss_log (interrupt_then_close s) = ss_log s @ zs \<and> list_all closing zs"
  by (auto simp: interrupt_then_close_def session_view)

lemma cancel_log: "\<exists>zs. ss_log (session_cancel s) = ss_log s @ zs \<and> list_all closing zs"
  using interrupt_log[of "put CancelledItem (s\<lparr>ss_cancel := True\<rparr>)"]
  by (auto simp: session_cancel_def session_view)

lemma complete_step:
  assumes "complete_inv H cfg" "session_step rt H a cfg cfg'"
  shows "complete_inv H cfg'"
  using assms(2,1)
proof cases
  case (cancels s pc)
  obtain zs where "ss_log (session_cancel s) = ss_log s @ zs" "list_all closing zs" using cancel_log by blast
  with cancels assms(1) show ?thesis by (auto intro: complete_append)
next
  case (closes s pc)
  with assms(1) show ?thesis
    by (auto intro!: complete_append[of H s pc "session_close s"] simp: session_view)
next
  case (task_cancelled pc s)
  then show ?thesis by (auto simp: turn_cancelled_def complete_inv_def split: turn_pc.split)
next
  case (drains s m d t)
  from assms(1) have "justified H d m (ss_log s)" by (simp add: drains complete_inv_def)
  with drains show ?thesis by (simp add: complete_drain)
next
  case (queries s answer)
  then show ?thesis
    by (auto simp: turn_queried_def complete_return complete_failed split: query_answer.split)
       (simp add: complete_inv_def)
next
  case (times_out s t)
  then show ?thesis by (auto simp: turn_timeout_def complete_return) (simp add: complete_inv_def)
next
  case (connects s prompt e ok)
  then show ?thesis by (simp add: turn_connected_def complete_query complete_refuse)
qed (use assms(1) in \<open>auto simp: complete_begin complete_item session_view
      intro: complete_append[where zs = "[]"]\<close>)

interpretation completion: inductive_invariant session_start "session_step rt H a" "complete_inv H"
  for rt H a
proof unfold_locales
  show "session_start cfg \<Longrightarrow> complete_inv H cfg" for cfg
    by (auto simp: session_start_def complete_inv_def)
qed (rule complete_step; assumption)

subsection \<open>Codes of a failed result\<close>

definition FAILURE_CODES :: "string list" where
  "FAILURE_CODES = [''sdk_terminal_api_error'', ''sdk_terminal_max_turns'',
     ''sdk_result_error_during_execution'', ''sdk_result_error_max_turns'', ''sdk_result_failed'']"

lemma code_lookup_known:
  "code_lookup TERMINAL_FAILURE_CODES v = Some c \<Longrightarrow> c \<in> set (lits FAILURE_CODES)"
  "code_lookup SUBTYPE_FAILURE_CODES v = Some c \<Longrightarrow> c \<in> set (lits FAILURE_CODES)"
  by (auto simp: code_lookup_def TERMINAL_FAILURE_CODES_def SUBTYPE_FAILURE_CODES_def FAILURE_CODES_def lits_def
      split: pyval.splits if_splits)

definition api_status :: "heap \<Rightarrow> pyval \<Rightarrow> int option" where
  "api_status H m =
     (case attr_or_none H m ''api_error_status'' of
        Inr (PInt i) \<Rightarrow> if 400 \<le> i \<and> i \<le> 599 then Some i else None
      | _ \<Rightarrow> None)"

definition status_prefix :: "int \<Rightarrow> string" where
  "status_prefix i =
     (if i \<in> {401, 403} then ''sdk_api_auth_'' else if i = 402 then ''sdk_api_billing_''
      else if i = 408 then ''sdk_api_timeout_'' else if i = 429 then ''sdk_api_rate_limit_''
      else if i \<in> {503, 529} then ''sdk_api_overloaded_''
      else if i \<ge> 500 then ''sdk_api_server_error_'' else ''sdk_api_error_'')"

lemma api_status_code:
  assumes "400 \<le> i" "i \<le> 599"
  shows "api_status_failure i = (lit (status_prefix i) @ dec_int i, i \<in> {408, 429} \<or> i \<ge> 500)"
proof -
  have d: "dec_int 402 = lit ''402''" "dec_int 408 = lit ''408''" "dec_int 429 = lit ''429''"
    by (simp_all add: dec_int_def dec_nat.simps lit_def)
  show ?thesis
    using assms by (auto simp: api_status_failure_def status_prefix_def d) (simp_all add: lit_def)
qed

subsection \<open>Properties\<close>

text \<open>
  Every message whose projection reaches the callback passed the zero-native boundary, at
  a state of the stream in which every remembered tool index belongs to an allowed tool; no
  interleaving with cancellations or other turns delivers anything else.
\<close>

theorem delivered_passed_boundary:
  assumes "session_reach rt H allowed (s, pc)" "Delivered m r \<in> set (ss_log s)"
  shows "\<exists>ixs ixs'. indexes_ok allowed ixs \<and> zero_native_violation H allowed m ixs = Inr (False, ixs')"
  using bounded.always[OF assms(1)] assms(2) by (auto simp: boundary_def list_all_iff passed_def)

theorem delivered_passed_boundary_witness:
  "\<exists>s pc r. session_reach sample_rt turn_heap [] (s, pc) \<and> Delivered (PRef 4) r \<in> set (ss_log s) \<and>
     (\<exists>ixs ixs'. indexes_ok [] ixs \<and> zero_native_violation turn_heap [] (PRef 4) ixs = Inr (False, ixs'))"
proof -
  obtain s t d r where s: "session_reach sample_rt turn_heap [] (s, Draining (PRef 4) d t)"
    "Delivered (PRef 4) r \<in> set (ss_log s)"
    using result_read[of "[]"] by (metis list.set_intros(1) list.set_intros(2))
  from delivered_passed_boundary[OF s] s show ?thesis by blast
qed

text \<open>
  C20: A cancelled or closed session never leaves a turn waiting. While a turn reads and the
  session is closed its inbox has an item, so it neither blocks nor times out; and once the
  session is cancelled, the very next item, whatever it is, ends the turn as cancelled and
  delivers nothing.
\<close>

theorem cancelled_turn_ends:
  assumes "session_reach rt H allowed (s, Reading t)" "ss_cancel s \<or> ss_closed s"
  shows "\<exists>item s'. take_item s = Some (item, s') \<and> ss_inbox s \<noteq> Some [] \<and>
    (ss_cancel s \<longrightarrow> (\<forall>reports delivers.
       process_item rt H reports delivers item t s' = return_turn (turn_result CANCELLED []) s'))"
proof -
  from waiting.always2[OF assms(1)] assms(2) obtain items where
    "ss_inbox s = Some items" "CancelledItem \<in> set items"
    by (auto simp: live_inv_def wakes_def cancel_closed_def)
  then obtain i rest where "ss_inbox s = Some (i # rest)" by (cases items) auto
  then show ?thesis by (simp add: take_item_def process_item_def)
qed

theorem cancelled_turn_ends_witness:
  "\<exists>s. session_reach sample_rt turn_heap [] (s, Reading turn_new) \<and> ss_cancel s \<and> (\<exists>item s'. take_item s = Some (item, s'))"
proof -
  let ?s = "session_cancel asked_session"
  have r: "session_reach sample_rt turn_heap [] (?s, Reading turn_new)"
    by (rule reach.further[OF asked_reached session_step.cancels])
  have c: "ss_cancel ?s"
    by (simp add: session_cancel_def session_view)
  from cancelled_turn_ends[OF r] r c show ?thesis by blast
qed

lemma complete_reached:
  "\<exists>s r. session_reach sample_rt turn_heap [] (s, Finished (Some (Returned r))) \<and> sr_outcome r = COMPLETE"
proof -
  obtain s t d where s: "session_reach sample_rt turn_heap [] (s, Draining (PRef 4) d t)" "ss_inbox s = Some []"
    using result_read by blast
  have a: "attr_or_none turn_heap (PRef 4) ''terminal_reason'' = Inr PNone"
    "attr_or_none turn_heap (PRef 4) ''is_error'' = Inr PNone"
    "in_names turn_heap (Some PNone) ABORT_REASONS = Inr False"
    by (simp_all add: turn_heap_simps in_names_def eval_nat_numeral)
  let ?r = "(with_text t (turn_result COMPLETE []))\<lparr>sr_billing_decision := Some d\<rparr>"
  have "turn_drain turn_heap (PRef 4) d t s = return_turn ?r s"
    using s(2) a by (simp add: turn_drain_def Let_def)
  with reach.further[OF s(1) session_step.drains]
  have "session_reach sample_rt turn_heap [] (finish_turn True s, Finished (Some (Returned ?r)))"
    by (simp add: return_turn_def)
  then show ?thesis by (intro exI[of _ "finish_turn True s"] exI[of _ ?r]) simp
qed



text \<open>
  The code of a failed result is built from fields that are safe to log: an HTTP status
  from 400 to 599 gives a fixed prefix with its decimal digits, anything else one of five fixed
  codes; and the failure is retryable exactly for the statuses 408, 429 and 500 to 599.
\<close>

theorem result_failure_code_closed:
  assumes "classify_result_failure H m = Inr (code, retryable)"
  shows "case api_status H m of
      Some i \<Rightarrow> code = lit (status_prefix i) @ dec_int i \<and> (retryable \<longleftrightarrow> i \<in> {408, 429} \<or> i \<ge> 500)
    | None \<Rightarrow> code \<in> set (lits FAILURE_CODES) \<and> \<not> retryable"
proof (cases "api_status H m")
  case (Some i)
  then have i: "attr_or_none H m ''api_error_status'' = Inr (PInt i)" "400 \<le> i" "i \<le> 599"
    by (auto simp: api_status_def split: sum.splits pyval.splits if_splits)
  with assms Some show ?thesis by (auto simp: classify_result_failure_def api_status_code)
next
  case None
  have last: "lit ''sdk_result_failed'' \<in> set (lits FAILURE_CODES)" by (simp add: FAILURE_CODES_def)
  from assms obtain st where st: "attr_or_none H m ''api_error_status'' = Inr st"
    by (auto simp: classify_result_failure_def and_then_Inr)
  with None have "(case st of PInt i \<Rightarrow> if 400 \<le> i \<and> i \<le> 599 then Some i else None | _ \<Rightarrow> None) = None"
    by (auto simp: api_status_def split: pyval.splits)
  with assms st None last show ?thesis
    by (auto simp: classify_result_failure_def and_then_Inr dest: code_lookup_known[unfolded set_lits]
        split: option.splits)
qed

definition overloaded_heap :: heap where
  "overloaded_heap = (\<lambda>_. OInst (lit ''ResultMessage'') [(lit ''api_error_status'', Some (PInt 529))])"

theorem result_failure_code_closed_witness:
  "classify_result_failure overloaded_heap (PRef 2) = Inr (lit ''sdk_api_overloaded_529'', True) \<and>
   (case api_status overloaded_heap (PRef 2) of
      Some i \<Rightarrow> lit ''sdk_api_overloaded_529'' = lit (status_prefix i) @ dec_int i | None \<Rightarrow> False)"
proof -
  have c: "classify_result_failure overloaded_heap (PRef 2) = Inr (lit ''sdk_api_overloaded_529'', True)"
    by (simp add: classify_result_failure_def overloaded_heap_def attr_or_none_def attr_of_def
        api_status_failure_def dec_int_def dec_nat.simps) (simp add: lit_def)
  moreover have "api_status overloaded_heap (PRef 2) = Some 529"
    by (simp add: api_status_def overloaded_heap_def attr_or_none_def attr_of_def)
  ultimately show ?thesis using result_failure_code_closed[OF c] by simp
qed

text \<open>
  A compaction hook that fires between two turns makes the next turn raise: binding the
  callbacks of the new turn is refused while a compaction is active, outside the part of
  \<^verbatim>\<open>run_turn\<close> that turns exceptions into results, and the inbox of the turn that never ran
  stays registered.
\<close>

theorem hook_between_turns_raises:
  "\<exists>s. session_reach sample_rt turn_heap [] (s, Finished (Some RaisedRuntimeError)) \<and> ss_inbox s = Some []"
proof -
  let ?s1 = "reader_end False asked_session"
  have r1: "session_reach sample_rt turn_heap [] (?s1, Reading turn_new)"
    by (rule reach.further[OF asked_reached session_step.stream_ends]) simp
  let ?s2 = "?s1\<lparr>ss_inbox := Some []\<rparr>"
  let ?r = "with_text turn_new (turn_result FAILED ''sdk_stream_ended'')"
  have "take_item ?s1 = Some (StreamEnded False, ?s2)"
    by (simp add: take_item_def reader_end_def put_def)
  from reach.further[OF r1 session_step.reads[OF this]]
  have r2: "session_reach sample_rt turn_heap [] (finish_turn False ?s2, Finished (Some (Returned ?r)))"
    by (simp add: process_item_def session_view return_turn_def reader_end_def put_def)
  let ?s3 = "session_hook turn_heap PNone (finish_turn False ?s2)"
  have r3: "session_reach sample_rt turn_heap [] (?s3, Finished (Some (Returned ?r)))"
    by (rule reach.further[OF r2 session_step.hook]) (simp add: session_view reader_end_def put_def finish_turn_def)
  have active: "cp_active (ss_compaction ?s3)"
    by (simp add: session_hook_def on_pre_compact_def exact_dict_def cp_start_def cp_active_def cp_emit_def)
  have flags: "\<not> ss_closed ?s3" "\<not> ss_post_native ?s3" "\<not> ss_post_output ?s3" "ss_client ?s3" "\<not> ss_cancel ?s3"
    by (simp_all add: session_hook_def finish_turn_def reader_end_def put_def asked_session_def session_new_def)
  let ?s4 = "?s3\<lparr>ss_projector := sample_projector, ss_inbox := Some [], ss_terminal_seen := False, ss_indexes := []\<rparr>"
  have "turn_begin hello sample_projector None True ?s3 = (?s4, Finished (Some RaisedRuntimeError))"
    using active flags
    by (simp add: turn_begin_def hello_def prompt_valid_def py_strip_def lit_def py_isspace_def Let_def
        turn_query_def cp_bind_def)
  with reach.further[OF r3 session_step.begins]
  have "session_reach sample_rt turn_heap [] (?s4, Finished (Some RaisedRuntimeError))" by metis
  then show ?thesis by (intro exI[of _ ?s4]) simp
qed

end
