(* ===== verification/Utf8.thy ===== *)
theory Utf8
  imports Py_Base
begin

section \<open>UTF-8 as the codec writes and reads it\<close>

text \<open>
  \<^verbatim>\<open>str.encode("utf-8")\<close> and the strict \<^verbatim>\<open>bytes.decode("utf-8")\<close>: overlong forms, surrogates,
  code points beyond 10FFFF and truncated sequences are rejected.
\<close>

definition continuation :: "nat \<Rightarrow> bool" where
  "continuation b \<longleftrightarrow> 128 \<le> b \<and> b < 192"

definition encode_char :: "nat \<Rightarrow> nat list option" where
  "encode_char c =
     (if c < 128 then Some [c]
      else if c < 2048 then Some [192 + c div 64, 128 + c mod 64]
      else if 55296 \<le> c \<and> c \<le> 57343 then None
      else if c < 65536 then Some [224 + c div 4096, 128 + c div 64 mod 64, 128 + c mod 64]
      else Some [240 + c div 262144, 128 + c div 4096 mod 64, 128 + c div 64 mod 64, 128 + c mod 64])"

fun utf8_encode :: "ustr \<Rightarrow> nat list option" where
  "utf8_encode [] = Some []"
| "utf8_encode (c # cs) =
     (case (encode_char c, utf8_encode cs) of (Some b, Some bs) \<Rightarrow> Some (b @ bs) | _ \<Rightarrow> None)"

text \<open>The first character of a byte sequence and what follows it.\<close>

definition decode_two :: "nat \<Rightarrow> nat list \<Rightarrow> (nat \<times> nat list) option" where
  "decode_two a r =
     (case r of
        b # r' \<Rightarrow> if continuation b then Some (a * 64 + (b - 128), r') else None
      | _ \<Rightarrow> None)"

definition decode_three :: "nat \<Rightarrow> nat list \<Rightarrow> (nat \<times> nat list) option" where
  "decode_three a r =
     (case r of
        b # c # r' \<Rightarrow>
          (let u = (a * 64 + (b - 128)) * 64 + (c - 128)
           in if continuation b \<and> continuation c \<and> 2048 \<le> u \<and> \<not> (55296 \<le> u \<and> u \<le> 57343)
              then Some (u, r') else None)
      | _ \<Rightarrow> None)"

definition decode_four :: "nat \<Rightarrow> nat list \<Rightarrow> (nat \<times> nat list) option" where
  "decode_four a r =
     (case r of
        b # c # d # r' \<Rightarrow>
          (let u = ((a * 64 + (b - 128)) * 64 + (c - 128)) * 64 + (d - 128)
           in if continuation b \<and> continuation c \<and> continuation d \<and> 65536 \<le> u \<and> u < 1114112
              then Some (u, r') else None)
      | _ \<Rightarrow> None)"

definition decode_char :: "nat list \<Rightarrow> (nat \<times> nat list) option" where
  "decode_char bs =
     (case bs of
        [] \<Rightarrow> None
      | a # r \<Rightarrow>
          if a < 128 then Some (a, r)
          else if a < 194 then None
          else if a < 224 then decode_two (a - 192) r
          else if a < 240 then decode_three (a - 224) r
          else if a < 245 then decode_four (a - 240) r
          else None)"

lemma decode_tail_Some:
  "decode_two a r = Some (c, r') \<Longrightarrow>
     \<exists>b. r = b # r' \<and> continuation b \<and> c = a * 64 + (b - 128)"
  "decode_three a r = Some (c, r') \<Longrightarrow>
     \<exists>b d. r = b # d # r' \<and> continuation b \<and> continuation d \<and> c = (a * 64 + (b - 128)) * 64 + (d - 128) \<and>
       2048 \<le> c \<and> \<not> (55296 \<le> c \<and> c \<le> 57343)"
  "decode_four a r = Some (c, r') \<Longrightarrow>
     \<exists>b d e. r = b # d # e # r' \<and> continuation b \<and> continuation d \<and> continuation e \<and>
       c = ((a * 64 + (b - 128)) * 64 + (d - 128)) * 64 + (e - 128) \<and> 65536 \<le> c \<and> c < 1114112"
  by (auto simp: decode_two_def decode_three_def decode_four_def Let_def split: list.splits if_splits)

lemma decode_char_shorter: "decode_char bs = Some (c, r) \<Longrightarrow> length r < length bs"
  by (cases bs) (auto simp: decode_char_def split: if_splits dest!: decode_tail_Some)

function utf8_decode :: "nat list \<Rightarrow> ustr option" where
  "utf8_decode bs =
     (if bs = [] then Some []
      else case decode_char bs of None \<Rightarrow> None
        | Some (c, r) \<Rightarrow> map_option ((#) c) (utf8_decode r))"
  by pat_completeness auto
termination
  by (relation "measure length") (auto dest: decode_char_shorter)

declare utf8_decode.simps [simp del]

lemma utf8_decode_Nil [simp]: "utf8_decode [] = Some []"
  by (simp add: utf8_decode.simps)

subsection \<open>Sizes and the round trip\<close>

lemma encode_char_len: "map_option length (encode_char c) = utf8_len c"
  by (simp add: encode_char_def utf8_len_def)

lemma utf8_encode_size: "map_option length (utf8_encode s) = utf8_size s"
proof (induction s)
  case (Cons c s)
  from encode_char_len[of c, symmetric] Cons.IH[symmetric] show ?case
    by (cases "encode_char c"; cases "utf8_encode s") auto
qed simp

lemma encode_char_not_Nil: "encode_char c \<noteq> Some []"
  by (simp add: encode_char_def)

text \<open>The digits of a number in base 64, as the shifts of the encoder give them.\<close>

lemma digits64:
  fixes c :: nat
  shows "c div 64 * 64 + c mod 64 = c"
    and "(c div 4096 * 64 + c div 64 mod 64) * 64 + c mod 64 = c"
    and "((c div 262144 * 64 + c div 4096 mod 64) * 64 + c div 64 mod 64) * 64 + c mod 64 = c"
proof -
  have q: "c div 4096 = c div 64 div 64" "c div 262144 = c div 64 div 64 div 64"
    by (simp_all add: div_mult2_eq[symmetric])
  show "c div 64 * 64 + c mod 64 = c"
    "(c div 4096 * 64 + c div 64 mod 64) * 64 + c mod 64 = c"
    "((c div 262144 * 64 + c div 4096 mod 64) * 64 + c div 64 mod 64) * 64 + c mod 64 = c"
    unfolding q by (simp_all only: div_mult_mod_eq)
qed

lemma decode_encode_char:
  assumes "encode_char c = Some b" "c < 1114112"
  shows "decode_char (b @ r) = Some (c, r)"
proof -
  have k: "continuation (128 + x mod 64)" for x by (simp add: continuation_def)
  consider "c < 128" | "128 \<le> c" "c < 2048" | "2048 \<le> c" "c < 65536" | "65536 \<le> c" by linarith
  then show ?thesis
  proof cases
    case 1
    then have "b = [c]" using assms by (simp add: encode_char_def)
    with 1 show ?thesis by (simp add: decode_char_def)
  next
    case 2
    then have b: "b = [192 + c div 64, 128 + c mod 64]" using assms by (simp add: encode_char_def)
    have "2 \<le> c div 64" "c div 64 < 32" using 2 by auto
    then show ?thesis unfolding b by (simp add: decode_char_def decode_two_def k digits64)
  next
    case 3
    then have b: "b = [224 + c div 4096, 128 + c div 64 mod 64, 128 + c mod 64]"
      and s: "\<not> (55296 \<le> c \<and> c \<le> 57343)"
      using assms by (auto simp: encode_char_def split: if_splits)
    have "c div 4096 < 16" using 3 by auto
    then show ?thesis
      unfolding b using 3 s by (simp add: decode_char_def decode_three_def k digits64 del: distrib_right_numeral)
  next
    case 4
    then have b: "b = [240 + c div 262144, 128 + c div 4096 mod 64, 128 + c div 64 mod 64, 128 + c mod 64]"
      using assms by (simp add: encode_char_def split: if_splits)
    have "c div 262144 < 5" using assms by auto
    then show ?thesis
      unfolding b using 4 assms by (simp add: decode_char_def decode_four_def k digits64 del: distrib_right_numeral)
  qed
qed

definition code_points :: "ustr \<Rightarrow> bool" where
  "code_points s = list_all (\<lambda>c. c < 1114112) s"

lemma utf8_roundtrip: "utf8_encode s = Some bs \<Longrightarrow> code_points s \<Longrightarrow> utf8_decode bs = Some s"
proof (induction s arbitrary: bs)
  case (Cons c s)
  then obtain b r where br: "encode_char c = Some b" "utf8_encode s = Some r" "bs = b @ r"
    by (auto split: option.splits)
  from Cons.prems have c: "c < 1114112" "code_points s" by (simp_all add: code_points_def)
  have "bs \<noteq> []" using br encode_char_not_Nil[of c] by auto
  with Cons.IH[OF br(2) c(2)] decode_encode_char[OF br(1) c(1), of r] br(3)
  show ?case by (subst utf8_decode.simps) simp
qed simp

lemma split64:
  "y < 64 \<Longrightarrow> (w * 64 + y) div 64 = w" "y < 64 \<Longrightarrow> (w * 64 + y) mod 64 = (y :: nat)"
  by simp_all

lemma three_digits_bound: "x < 16 \<Longrightarrow> y < 64 \<Longrightarrow> z < 64 \<Longrightarrow> (x * 64 + y) * 64 + z < (65536 :: nat)"
  by simp

lemma encode_char_digits:
  "y < 64 \<Longrightarrow> 2 \<le> x \<Longrightarrow> x < 32 \<Longrightarrow> encode_char (x * 64 + y) = Some [192 + x, 128 + y]"
  "y < 64 \<Longrightarrow> z < 64 \<Longrightarrow> c = (x * 64 + y) * 64 + z \<Longrightarrow> 2048 \<le> c \<Longrightarrow> \<not> (55296 \<le> c \<and> c \<le> 57343) \<Longrightarrow> c < 65536 \<Longrightarrow>
     encode_char c = Some [224 + x, 128 + y, 128 + z]"
  "y < 64 \<Longrightarrow> z < 64 \<Longrightarrow> w < 64 \<Longrightarrow> c = ((x * 64 + y) * 64 + z) * 64 + w \<Longrightarrow> 65536 \<le> c \<Longrightarrow>
     encode_char c = Some [240 + x, 128 + y, 128 + z, 128 + w]"
proof -
  assume "y < 64" "2 \<le> x" "x < 32"
  then show "encode_char (x * 64 + y) = Some [192 + x, 128 + y]" by (simp add: encode_char_def)
next
  assume a: "y < 64" "z < 64" "c = (x * 64 + y) * 64 + z" "2048 \<le> c" "\<not> (55296 \<le> c \<and> c \<le> 57343)" "c < 65536"
  have "c div 64 = x * 64 + y" "c mod 64 = z" "(x * 64 + y) div 64 = x" "(x * 64 + y) mod 64 = y"
    unfolding a(3) using split64 a(1,2) by blast+
  moreover have "c div 4096 = c div 64 div 64" by (simp add: div_mult2_eq[symmetric])
  ultimately have "c div 4096 = x" "c div 64 mod 64 = y" "c mod 64 = z" by simp_all
  with a(1,2,4-6) show "encode_char c = Some [224 + x, 128 + y, 128 + z]" by (simp add: encode_char_def)
next
  assume a: "y < 64" "z < 64" "w < 64" "c = ((x * 64 + y) * 64 + z) * 64 + w" "65536 \<le> c"
  have "c div 64 = (x * 64 + y) * 64 + z" "c mod 64 = w" "((x * 64 + y) * 64 + z) div 64 = x * 64 + y"
    "((x * 64 + y) * 64 + z) mod 64 = z" "(x * 64 + y) div 64 = x" "(x * 64 + y) mod 64 = y"
    unfolding a(4) using split64 a(1-3) by blast+
  moreover have "c div 4096 = c div 64 div 64" "c div 262144 = c div 64 div 64 div 64"
    by (simp_all add: div_mult2_eq[symmetric])
  ultimately have "c div 262144 = x" "c div 4096 mod 64 = y" "c div 64 mod 64 = z" "c mod 64 = w"
    by simp_all
  with a(1-3,5) show "encode_char c = Some [240 + x, 128 + y, 128 + z, 128 + w]"
    by (simp add: encode_char_def)
qed

lemma decode_char_encode:
  assumes "decode_char bs = Some (c, r)"
  shows "\<exists>b. encode_char c = Some b \<and> bs = b @ r"
proof -
  have k: "b - 128 < 64 \<and> 128 + (b - 128) = b" if "continuation b" for b
    using that by (auto simp: continuation_def)
  obtain a s where bs: "bs = a # s" using assms(1) by (cases bs) (auto simp: decode_char_def)
  consider "a < 128" | "194 \<le> a" "a < 224" "decode_two (a - 192) s = Some (c, r)"
    | "224 \<le> a" "a < 240" "decode_three (a - 224) s = Some (c, r)"
    | "240 \<le> a" "decode_four (a - 240) s = Some (c, r)"
    using assms bs by (auto simp: decode_char_def split: if_splits)
  then show ?thesis
  proof cases
    case 1
    with assms bs show ?thesis by (auto simp: decode_char_def encode_char_def)
  next
    case 2
    from decode_tail_Some(1)[OF 2(3)] obtain b where b: "s = b # r" "continuation b"
      "c = (a - 192) * 64 + (b - 128)" by blast
    from 2 have "2 \<le> a - 192" "a - 192 < 32" "192 + (a - 192) = a" by auto
    with encode_char_digits(1)[of "b - 128" "a - 192"] b k[OF b(2)] bs show ?thesis by simp
  next
    case 3
    from decode_tail_Some(2)[OF 3(3)] obtain b d where b: "s = b # d # r" "continuation b" "continuation d"
      "c = ((a - 224) * 64 + (b - 128)) * 64 + (d - 128)" "2048 \<le> c" "\<not> (55296 \<le> c \<and> c \<le> 57343)" by blast
    from 3 have a: "a - 224 < 16" "224 + (a - 224) = a" by auto
    have "c < 65536" unfolding b(4) using three_digits_bound a(1) k[OF b(2)] k[OF b(3)] by blast
    with encode_char_digits(2)[of "b - 128" "d - 128" c "a - 224"] b k[OF b(2)] k[OF b(3)] bs a
    show ?thesis by simp
  next
    case 4
    from decode_tail_Some(3)[OF 4(2)] obtain b d e where b: "s = b # d # e # r" "continuation b"
      "continuation d" "continuation e"
      "c = (((a - 240) * 64 + (b - 128)) * 64 + (d - 128)) * 64 + (e - 128)" "65536 \<le> c" by blast
    from 4 have a: "240 + (a - 240) = a" by auto
    with encode_char_digits(3)[of "b - 128" "d - 128" "e - 128" c "a - 240"] b k[OF b(2)] k[OF b(3)] k[OF b(4)] bs
    show ?thesis by simp
  qed
qed

lemma utf8_decode_encode:
  "utf8_decode bs = Some s \<Longrightarrow> utf8_encode s = Some bs"
proof (induction bs arbitrary: s rule: utf8_decode.induct)
  case (1 bs)
  show ?case
  proof (cases "bs = []")
    case False
    with 1 obtain c r t where d: "decode_char bs = Some (c, r)" "utf8_decode r = Some t" "s = c # t"
      by (subst (asm) utf8_decode.simps) (auto split: option.splits)
    from decode_char_encode[OF d(1)] obtain b where b: "encode_char c = Some b" "bs = b @ r" by blast
    with "1.IH"[OF False d(1) refl d(2)] d(3) show ?thesis by simp
  qed (use 1 in simp)
qed

lemma utf8_decode_size:
  "utf8_decode bs = Some s \<Longrightarrow> utf8_size s = Some (length bs)"
  using utf8_encode_size[of s] utf8_decode_encode[of bs s] by simp

end
