(* ===== verification/Compatibility.thy ===== *)
theory Compatibility
  imports Safe_Values
begin

section \<open>Version and host compatibility (compatibility.py)\<close>

text \<open>
  The metadata checks that run before any session: strict version texts, the exact SDK and
  CLI versions for the one supported model, and the report on the host's manifest. What the
  package metadata and the file system answer is the record \<open>distribution\<close>; Python's own
  parser, used on the CLI version resource, is the argument \<open>parse_module\<close>, which gives the
  top-level statements in the shape the source distinguishes (\<open>None\<close>: it raised).
\<close>

definition PLUGIN_VERSION :: ustr where "PLUGIN_VERSION = lit ''0.1.0''"
definition RUNTIME_ID :: ustr where "RUNTIME_ID = lit ''hermes-claude-agent-sdk''"
definition SDK_DISTRIBUTION :: ustr where "SDK_DISTRIBUTION = lit ''claude-agent-sdk''"
definition SDK_VERSION :: ustr where "SDK_VERSION = lit ''0.2.151''"
definition SDK_MIN_VERSION :: ustr where "SDK_MIN_VERSION = lit ''0.2.151''"
definition SDK_MAX_VERSION :: ustr where "SDK_MAX_VERSION = lit ''0.2.152''"
definition FABLE_51_MODEL_ID :: ustr where "FABLE_51_MODEL_ID = lit ''claude-fable-5-1''"
definition FABLE_51_MIN_SDK_VERSION :: ustr where "FABLE_51_MIN_SDK_VERSION = lit ''0.2.151''"
definition FABLE_51_MIN_CLI_VERSION :: ustr where "FABLE_51_MIN_CLI_VERSION = lit ''2.1.258''"
definition CLI_VERSION_RESOURCE :: ustr where
  "CLI_VERSION_RESOURCE = lit ''claude_agent_sdk/_cli_version.py''"
definition CLI_BUNDLE_RESOURCE :: ustr where
  "CLI_BUNDLE_RESOURCE = lit ''claude_agent_sdk/_bundled/claude''"
definition CLI_BUNDLE_RESOURCE_WINDOWS :: ustr where
  "CLI_BUNDLE_RESOURCE_WINDOWS = lit ''claude_agent_sdk/_bundled/claude.exe''"

definition REQUIRED_HOST_CAPABILITIES :: "ustr list" where
  "REQUIRED_HOST_CAPABILITIES = lits
     [''cancellation_v1'', ''compaction_events_v1'', ''host_approval_v1'', ''host_content_stream_v1'',
      ''host_status_v1'', ''host_tool_execution_v1'', ''host_tool_request_id_v1'',
      ''provider_profile_registration_v1'', ''runtime_model_provenance_v1'', ''runtime_state_v1'',
      ''usage_receipts_v1'']"

definition PROVIDER_IDS :: "string list" where "PROVIDER_IDS = [''claude-agent-sdk'']"
definition API_MODES :: "string list" where "API_MODES = [''agent_runtime'']"
definition MODEL_PREFIXES :: "ustr list" where "MODEL_PREFIXES = [lit ''claude-'']"

definition is_supported_model_id :: "pyval \<Rightarrow> bool" where
  "is_supported_model_id model \<longleftrightarrow> model = PStr FABLE_51_MODEL_ID"

subsection \<open>Versions\<close>

text \<open>A part of a version: \<^verbatim>\<open>0|[1-9][0-9]*\<close>; its \<^verbatim>\<open>int\<close> raises beyond 4300 digits.\<close>

definition version_part :: "ustr \<Rightarrow> bool" where
  "version_part s = (case s of [] \<Rightarrow> False
     | c # r \<Rightarrow> if c = 48 then r = [] else is_digit c \<and> list_all is_digit r)"

definition part_value :: "ustr \<Rightarrow> exn + nat" where
  "part_value s = (if length s > MAX_INT_STR_DIGITS then Inl ValueError else Inr (digits_value 0 s))"

type_synonym version = "nat \<times> nat \<times> nat"

definition version_text :: "ustr \<Rightarrow> exn + version option" where
  "version_text s =
     (case py_split_on 46 s of
        [a, b, c] \<Rightarrow>
          if version_part a \<and> version_part b \<and> version_part c then
            (case map_exn part_value [a, b, c] of
               Inr [x, y, z] \<Rightarrow> Inr (Some (x, y, z)) | Inr _ \<Rightarrow> Inr None | Inl e \<Rightarrow> Inl e)
          else Inr None
      | _ \<Rightarrow> Inr None)"

definition version_tuple :: "pyval \<Rightarrow> exn + version option" where
  "version_tuple v = (case v of PStr s \<Rightarrow> version_text s | _ \<Rightarrow> Inr None)"

definition range_version_tuple :: "pyval \<Rightarrow> exn + version option" where
  "range_version_tuple v =
     and_then (version_tuple v) (\<lambda>parsed.
       case (parsed, v) of
         (Some t, _) \<Rightarrow> Inr (Some t)
       | (None, PStr s) \<Rightarrow>
           (case py_split_on 46 s of
              [a, b] \<Rightarrow>
                if version_part a \<and> version_part b then
                  (case map_exn part_value [a, b] of
                     Inr [x, y] \<Rightarrow> Inr (Some (x, y, 0)) | Inr _ \<Rightarrow> Inr None | Inl e \<Rightarrow> Inl e)
                else Inr None
            | _ \<Rightarrow> Inr None)
       | _ \<Rightarrow> Inr None)"

text \<open>Tuples are compared from the left.\<close>

definition version_le :: "version \<Rightarrow> version \<Rightarrow> bool" where
  "version_le v w =
     (case (v, w) of ((a, b, c), (x, y, z)) \<Rightarrow> a < x \<or> a = x \<and> (b < y \<or> b = y \<and> c \<le> z))"

definition version_less :: "version \<Rightarrow> version \<Rightarrow> bool" where
  "version_less v w \<longleftrightarrow> version_le v w \<and> v \<noteq> w"

subsection \<open>The installed distribution\<close>

record dist_file =
  df_name :: ustr
  df_source :: "exn + pyval"
  df_path :: "exn + pyval"

record distribution =
  di_version :: attr
  di_read_text :: "ustr \<Rightarrow> exn + pyval"
  di_files :: "exn + dist_file list"

text \<open>The paths of the file system the resolver looks at.\<close>

record path_facts =
  pf_absolute :: "ustr \<Rightarrow> bool"
  pf_name :: "ustr \<Rightarrow> ustr"
  pf_text :: "ustr \<Rightarrow> ustr"
  pf_executable_file :: "ustr \<Rightarrow> exn + bool"

definition slashed :: "ustr \<Rightarrow> ustr" where
  "slashed s = map (\<lambda>c. if c = 92 then 47 else c) s"

definition files_named :: "distribution \<Rightarrow> ustr \<Rightarrow> exn + dist_file list" where
  "files_named d resource = map_sum id (filter (\<lambda>f. slashed (df_name f) = resource)) (di_files d)"

definition bundled_cli_resource :: "bool \<Rightarrow> ustr" where
  "bundled_cli_resource windows = (if windows then CLI_BUNDLE_RESOURCE_WINDOWS else CLI_BUNDLE_RESOURCE)"

text \<open>\<^verbatim>\<open>resource.rsplit("/", 1)[-1]\<close>\<close>

definition base_name :: "ustr \<Rightarrow> ustr" where
  "base_name s = last (py_split_on 47 s)"

definition path_error_caught :: "exn \<Rightarrow> bool" where
  "path_error_caught e \<longleftrightarrow> e \<in> {OtherError, RuntimeError, RecursionError, TypeError, ValueError}"

definition resolve_bundled_cli_from_distribution ::
    "path_facts \<Rightarrow> distribution \<Rightarrow> ustr \<Rightarrow> exn + ustr option" where
  "resolve_bundled_cli_from_distribution fs d resource =
     (case files_named d resource of
        Inr [f] \<Rightarrow>
          (case df_path f of
             Inr (PStr raw_path) \<Rightarrow>
               if raw_path = [] \<or> 0 \<in> set raw_path then Inr None
               else if \<not> pf_absolute fs raw_path then Inr None
               else if pf_name fs raw_path \<noteq> base_name resource then Inr None
               else (case pf_executable_file fs raw_path of
                       Inl e \<Rightarrow> if path_error_caught e then Inr None else Inl e
                     | Inr ok \<Rightarrow> Inr (if ok then Some (pf_text fs raw_path) else None))
           | _ \<Rightarrow> Inr None)
      | _ \<Rightarrow> Inr None)"

datatype dist_answer = NotInstalled | MetadataRaised | Installed distribution

definition resolve_bundled_cli :: "path_facts \<Rightarrow> bool \<Rightarrow> dist_answer \<Rightarrow> exn + ustr option" where
  "resolve_bundled_cli fs windows answer =
     (case answer of
        Installed d \<Rightarrow> resolve_bundled_cli_from_distribution fs d (bundled_cli_resource windows)
      | _ \<Rightarrow> Inr None)"

definition text_or_none :: "exn + pyval \<Rightarrow> ustr option" where
  "text_or_none v = (case v of Inr (PStr s) \<Rightarrow> Some s | _ \<Rightarrow> None)"

definition read_bundled_cli_source :: "distribution \<Rightarrow> ustr option" where
  "read_bundled_cli_source d =
     (case text_or_none (di_read_text d CLI_VERSION_RESOURCE) of
        Some s \<Rightarrow> Some s
      | None \<Rightarrow>
          (case files_named d CLI_VERSION_RESOURCE of
             Inr [f] \<Rightarrow> text_or_none (df_source f)
           | _ \<Rightarrow> None))"

text \<open>The statements \<^verbatim>\<open>ast.parse\<close> returns: the shapes the source tells apart.\<close>

datatype pystmt =
    ExprConstant pyval
  | AssignNames "ustr option list" "pyval option"
  | OtherStmt

definition cli_version_assignment :: "pystmt \<Rightarrow> exn + ustr option" where
  "cli_version_assignment stmt =
     (case stmt of
        AssignNames [Some name] (Some (PStr s)) \<Rightarrow>
          if name = lit ''__cli_version__'' then
            and_then (version_text s) (\<lambda>t. Inr (if t = None then None else Some s))
          else Inr None
      | _ \<Rightarrow> Inr None)"

definition parse_bundled_cli_version ::
    "(ustr \<Rightarrow> pystmt list option) \<Rightarrow> ustr option \<Rightarrow> exn + ustr option" where
  "parse_bundled_cli_version parse_module source =
     (case Option.bind source parse_module of
        Some [ExprConstant (PStr _), stmt] \<Rightarrow> cli_version_assignment stmt
      | Some [stmt] \<Rightarrow> cli_version_assignment stmt
      | _ \<Rightarrow> Inr None)"

record sdk_report =
  sr_installed_version :: "ustr option"
  sr_bundled_cli_version :: "ustr option"
  sr_compatible :: bool
  sr_metadata_status :: ustr

definition report_base :: sdk_report where
  "report_base = \<lparr>sr_installed_version = None, sr_bundled_cli_version = None, sr_compatible = False,
     sr_metadata_status = lit ''missing''\<rparr>"

definition sdk_metadata :: "(ustr \<Rightarrow> pystmt list option) \<Rightarrow> dist_answer \<Rightarrow> exn + sdk_report" where
  "sdk_metadata parse_module answer =
     (case answer of
        NotInstalled \<Rightarrow> Inr report_base
      | MetadataRaised \<Rightarrow> Inr (report_base\<lparr>sr_metadata_status := lit ''unavailable''\<rparr>)
      | Installed d \<Rightarrow>
          (case di_version d of
             Raising \<Rightarrow> Inr (report_base\<lparr>sr_metadata_status := lit ''unavailable''\<rparr>)
           | attr \<Rightarrow>
               (let version = (case attr of Present v \<Rightarrow> v | _ \<Rightarrow> PNone)
                in and_then (version_tuple version) (\<lambda>parsed.
                     case (parsed, version) of
                       (Some sdk, PStr installed) \<Rightarrow>
                         and_then (parse_bundled_cli_version parse_module (read_bundled_cli_source d)) (\<lambda>cli.
                           let base = report_base\<lparr>sr_installed_version := Some installed,
                                                   sr_bundled_cli_version := cli\<rparr>
                           in if cli = None then Inr (base\<lparr>sr_metadata_status := lit ''malformed''\<rparr>)
                              else and_then (range_version_tuple (PStr SDK_MIN_VERSION)) (\<lambda>low.
                                   and_then (range_version_tuple (PStr SDK_MAX_VERSION)) (\<lambda>high.
                                     case (low, high) of
                                       (Some l, Some h) \<Rightarrow>
                                         if version_le l sdk \<and> version_less sdk h
                                         then Inr (base\<lparr>sr_compatible := True,
                                                        sr_metadata_status := lit ''compatible''\<rparr>)
                                         else Inr (base\<lparr>sr_metadata_status := lit ''unsupported''\<rparr>)
                                     | _ \<Rightarrow> Inl OtherError)))
                     | _ \<Rightarrow> Inr (report_base\<lparr>sr_metadata_status := lit ''malformed''\<rparr>)))))"

text \<open>The report as the mapping the model check reads.\<close>

definition of_text :: "ustr option \<Rightarrow> pyval" where
  "of_text t = (case t of None \<Rightarrow> PNone | Some s \<Rightarrow> PStr s)"

definition report_fields :: "sdk_report \<Rightarrow> (pyval \<times> pyval) list" where
  "report_fields r =
     [(PStr (lit ''distribution''), PStr SDK_DISTRIBUTION),
      (PStr (lit ''required_version''), PStr SDK_VERSION),
      (PStr (lit ''minimum_version''), PStr SDK_MIN_VERSION),
      (PStr (lit ''maximum_version_exclusive''), PStr SDK_MAX_VERSION),
      (PStr (lit ''installed_version''), of_text (sr_installed_version r)),
      (PStr (lit ''bundled_cli_version''), of_text (sr_bundled_cli_version r)),
      (PStr (lit ''compatible''), PBool (sr_compatible r)),
      (PStr (lit ''metadata_status''), PStr (sr_metadata_status r))]"

subsection \<open>The supported model\<close>

record model_decision =
  md_model :: ustr
  md_compatible :: bool
  md_status :: ustr
  md_reason :: "ustr option"

text \<open>The report is read with \<open>get\<close>; \<open>None\<close> when it is not a mapping.\<close>

definition check_versions :: "model_decision \<Rightarrow> pyval \<Rightarrow> pyval \<Rightarrow> exn + model_decision" where
  "check_versions result sdk_version cli_version =
     and_then (version_tuple sdk_version) (\<lambda>sdk.
     and_then (version_tuple cli_version) (\<lambda>cli.
     and_then (version_tuple (PStr FABLE_51_MIN_SDK_VERSION)) (\<lambda>low.
     and_then (range_version_tuple (PStr SDK_MAX_VERSION)) (\<lambda>high.
     and_then (version_tuple (PStr FABLE_51_MIN_CLI_VERSION)) (\<lambda>cli_low.
       case sdk of
         None \<Rightarrow> Inr (result\<lparr>md_reason := Some (lit ''sdk_metadata_missing_or_malformed'')\<rparr>)
       | Some s \<Rightarrow>
           (case (low, high) of
              (Some l, Some h) \<Rightarrow>
                if \<not> (version_le l s \<and> version_less s h)
                then Inr (result\<lparr>md_reason := Some (lit ''sdk_version_unsupported'')\<rparr>)
                else if cli = None
                then Inr (result\<lparr>md_reason := Some (lit ''bundled_cli_metadata_missing_or_malformed'')\<rparr>)
                else if cli \<noteq> cli_low
                then Inr (result\<lparr>md_reason := Some (lit ''bundled_cli_version_unsupported'')\<rparr>)
                else Inr (result\<lparr>md_compatible := True, md_status := lit ''compatible'',
                                 md_reason := None\<rparr>)
            | _ \<Rightarrow> Inl OtherError))))))"

definition check_model_compatibility ::
    "pyval \<Rightarrow> (string \<Rightarrow> exn + pyval) option \<Rightarrow> exn + model_decision" where
  "check_model_compatibility model report =
     (let result = \<lparr>md_model = (case model of PStr s \<Rightarrow> s | _ \<Rightarrow> lit ''unknown''),
                    md_compatible = False, md_status = lit ''incompatible'',
                    md_reason = Some (lit ''model_unsupported'')\<rparr>
      in if model \<noteq> PStr FABLE_51_MODEL_ID then Inr result
         else
           (let result = result\<lparr>md_reason := None\<rparr>;
                unavailable = result\<lparr>md_reason := Some (lit ''metadata_unavailable'')\<rparr>
            in case report of
                 None \<Rightarrow> Inr unavailable
               | Some get \<Rightarrow>
                   and_then (get ''metadata_status'') (\<lambda>status.
                     if status \<noteq> PNone \<and> status \<noteq> PStr (lit ''compatible'') then Inr unavailable
                     else and_then (get ''installed_version'') (\<lambda>sdk_version.
                          and_then (get ''bundled_cli_version'') (\<lambda>cli_version.
                            check_versions result sdk_version cli_version)))))"

text \<open>The report argument: a value of the caller, or the package metadata.\<close>

definition report_of_value :: "heap \<Rightarrow> pyval \<Rightarrow> (string \<Rightarrow> exn + pyval) option" where
  "report_of_value H v = (if is_mapping H v then Some (mapping_get H v) else None)"

definition report_of_metadata :: "sdk_report \<Rightarrow> (string \<Rightarrow> exn + pyval) option" where
  "report_of_metadata r = Some (\<lambda>k. Inr (dict_get (report_fields r) k))"

subsection \<open>The host's manifest\<close>

text \<open>
  \<^verbatim>\<open>int(v)\<close> of a text: white space around, a sign, digits with single underscores between
  them.
\<close>

fun int_digits :: "pyrt \<Rightarrow> ustr \<Rightarrow> nat list option" where
  "int_digits rt [] = None"
| "int_digits rt [c] = map_option (\<lambda>d. [d]) (decimal_digit rt c)"
| "int_digits rt (c # u # cs) =
     (case decimal_digit rt c of None \<Rightarrow> None
      | Some d \<Rightarrow> map_option ((#) d) (if u = 95 then int_digits rt cs else int_digits rt (u # cs)))"

definition int_text :: "pyrt \<Rightarrow> ustr \<Rightarrow> exn + int" where
  "int_text rt s =
     (let t = py_strip s; neg = (case t of c # _ \<Rightarrow> c = 45 | [] \<Rightarrow> False);
          body = (case t of c # r \<Rightarrow> if c = 43 \<or> c = 45 then r else t | [] \<Rightarrow> t)
      in case int_digits rt body of
           None \<Rightarrow> Inl ValueError
         | Some ds \<Rightarrow>
             if length ds > MAX_INT_STR_DIGITS then Inl ValueError
             else (let n = int (foldl (\<lambda>n d. n * 10 + d) 0 ds) in Inr (if neg then - n else n)))"

definition truncated :: "rat \<Rightarrow> int" where
  "truncated r = (if r < 0 then - \<lfloor>- r\<rfloor> else \<lfloor>r\<rfloor>)"

definition py_int :: "pyrt \<Rightarrow> heap \<Rightarrow> pyval \<Rightarrow> exn + int" where
  "py_int rt H v =
     (case v of
        PInt i \<Rightarrow> Inr i
      | PBool b \<Rightarrow> Inr (if b then 1 else 0)
      | PFloat (FFin r) \<Rightarrow> Inr (truncated r)
      | PFloat (FInf _) \<Rightarrow> Inl OverflowError
      | PFloat FNan \<Rightarrow> Inl ValueError
      | PStr s \<Rightarrow> int_text rt s
      | PRef a \<Rightarrow> (case H a of OBytes b \<Rightarrow> int_text rt (map (\<lambda>n. if n < 128 then n else 0) b)
                   | _ \<Rightarrow> Inl TypeError)
      | PNone \<Rightarrow> Inl TypeError)"

record doctor_report =
  dr_status :: ustr
  dr_compatible :: bool
  dr_host_version :: "int option"
  dr_api_compatible :: bool
  dr_required :: "ustr list"
  dr_host :: "ustr list"
  dr_missing :: "ustr list"
  dr_capabilities_compatible :: bool
  dr_sdk :: "sdk_report \<times> model_decision"

datatype doctor_outcome =
    HostUnavailable "sdk_report \<times> model_decision"
  | ManifestInvalid "sdk_report \<times> model_decision"
  | DoctorReport doctor_report

definition doctor_sdk_metadata ::
    "(ustr \<Rightarrow> pystmt list option) \<Rightarrow> dist_answer \<Rightarrow> exn + sdk_report \<times> model_decision" where
  "doctor_sdk_metadata parse_module answer =
     and_then (sdk_metadata parse_module answer) (\<lambda>report.
       map_sum id (Pair report)
         (check_model_compatibility (PStr FABLE_51_MODEL_ID) (report_of_metadata report)))"

definition host_version_of :: "pyrt \<Rightarrow> heap \<Rightarrow> pyval \<Rightarrow> exn + int option" where
  "host_version_of rt H v =
     (case py_int rt H v of
        Inr i \<Rightarrow> Inr (Some i)
      | Inl e \<Rightarrow> if e = TypeError \<or> e = ValueError then Inr None else Inl e)"

definition texts_of :: "pyval list \<Rightarrow> ustr list" where
  "texts_of vs = sort (remdups (concat (map (\<lambda>v. case v of PStr s \<Rightarrow> [s] | _ \<Rightarrow> []) vs)))"

definition host_capabilities :: "heap \<Rightarrow> pyval \<Rightarrow> ustr list" where
  "host_capabilities H v =
     (case v of
        PRef a \<Rightarrow> (case H a of OList xs \<Rightarrow> texts_of xs | OTuple xs \<Rightarrow> texts_of xs | OSet xs \<Rightarrow> texts_of xs
                   | _ \<Rightarrow> [])
      | _ \<Rightarrow> [])"

definition doctor ::
    "pyrt \<Rightarrow> heap \<Rightarrow> (ustr \<Rightarrow> pystmt list option) \<Rightarrow> dist_answer \<Rightarrow> bool \<Rightarrow> exn + pyval \<Rightarrow> pyval \<Rightarrow>
     exn + doctor_outcome" where
  "doctor rt H parse_module answer api_importable manifest_answer host_manifest =
     (let sdk = doctor_sdk_metadata parse_module answer
      in if \<not> api_importable then map_sum id HostUnavailable sdk
         else (case (if host_manifest = PNone then manifest_answer else Inr host_manifest) of
                 Inl _ \<Rightarrow> map_sum id HostUnavailable sdk
               | Inr manifest \<Rightarrow>
                   if \<not> is_mapping H manifest then map_sum id ManifestInvalid sdk
                   else
                     and_then (mapping_get H manifest ''runtime_api_version'') (\<lambda>raw_version.
                     and_then (host_version_of rt H raw_version) (\<lambda>host_version.
                     and_then (mapping_get H manifest ''host_capabilities'') (\<lambda>raw_capabilities.
                       let host = host_capabilities H raw_capabilities;
                           required = sort REQUIRED_HOST_CAPABILITIES;
                           missing = filter (\<lambda>c. c \<notin> set host) required;
                           api_ok = (host_version = Some 1);
                           ok = (api_ok \<and> missing = [])
                       in map_sum id (\<lambda>r. DoctorReport
                            \<lparr>dr_status = (if ok then lit ''compatible'' else lit ''incompatible''),
                             dr_compatible = ok, dr_host_version = host_version,
                             dr_api_compatible = api_ok, dr_required = required, dr_host = host,
                             dr_missing = missing, dr_capabilities_compatible = (missing = []),
                             dr_sdk = r\<rparr>) sdk)))))"

subsection \<open>Decimal texts\<close>

lemma version_part_dec_nat: "version_part (dec_nat n)"
proof (cases "n = 0")
  case True
  then show ?thesis by (simp add: dec_nat.simps version_part_def)
next
  case False
  with dec_nat_digits[of n] dec_nat_head[of n] show ?thesis
    by (cases "dec_nat n") (auto simp: version_part_def)
qed

lemma version_part_value: "version_part s \<Longrightarrow> dec_nat (digits_value 0 s) = s \<and> (digits_value 0 s = 0 \<longrightarrow> s = [48])"
proof (induction s rule: rev_induct)
  case Nil
  then show ?case by (simp add: version_part_def)
next
  case (snoc d s)
  show ?case
  proof (cases "s = []")
    case True
    with snoc.prems have "48 \<le> d \<and> d \<le> 57" by (auto simp: version_part_def is_digit_def split: if_splits)
    with True show ?thesis by (auto simp: dec_nat.simps)
  next
    case False
    with snoc.prems have part: "version_part s" "s \<noteq> [48]" "48 \<le> d \<and> d \<le> 57"
      by (cases s; auto simp: version_part_def is_digit_def split: if_splits)+
    let ?n = "digits_value 0 s"
    have n: "?n \<noteq> 0" "dec_nat ?n = s" using snoc.IH[OF part(1)] part(2) by auto
    from part(3) have "d = 48 + (d - 48)" "d - 48 < 10" by linarith+
    then obtain k where k: "d = 48 + k" "k < 10" by blast
    have "dec_nat (?n * 10 + k) = dec_nat ?n @ [48 + k]"
      using n(1) k(2) by (subst dec_nat.simps) auto
    with k have "dec_nat (?n * 10 + (d - 48)) = dec_nat ?n @ [d]" by simp
    with n show ?thesis by (simp add: digits_value_append)
  qed
qed

lemma dec_nat_no_dot: "46 \<notin> set (dec_nat n)"
  using dec_nat_digits[of n] by (auto simp: list_all_iff is_digit_def)

lemma py_split_on_append: "c \<notin> set xs \<Longrightarrow> py_split_on c (xs @ c # ys) = xs # py_split_on c ys"
  by (induction xs) auto

lemma py_split_on_none: "c \<notin> set xs \<Longrightarrow> py_split_on c xs = [xs]"
  by (induction xs) auto

lemma py_join_split: "py_join [c] (py_split_on c s) = (s :: ustr)"
proof (induction s)
  case (Cons x s)
  have ne: "py_split_on c s \<noteq> []" by (cases s) (auto split: list.splits)
  have cons: "py_join [c] ((x # w) # ws) = x # py_join [c] (w # ws)" for w ws by (cases ws) simp_all
  have nil: "ws \<noteq> [] \<Longrightarrow> py_join [c] ([] # ws) = c # py_join [c] ws" for ws by (cases ws) simp_all
  from Cons ne show ?case by (auto simp: cons nil split: list.splits)
qed simp

definition show_version :: "version \<Rightarrow> ustr" where
  "show_version v = (case v of (a, b, c) \<Rightarrow> dec_nat a @ [46] @ dec_nat b @ [46] @ dec_nat c)"

lemma version_text_Some:
  "version_text s = Inr (Some (x, y, z)) \<Longrightarrow> s = show_version (x, y, z)"
proof -
  assume a: "version_text s = Inr (Some (x, y, z))"
  then obtain p q r where sp: "py_split_on 46 s = [p, q, r]" "version_part p" "version_part q" "version_part r"
    "x = digits_value 0 p" "y = digits_value 0 q" "z = digits_value 0 r"
    by (auto simp: version_text_def part_value_def split: list.splits if_splits sum.splits)
  with py_join_split[of 46 s] show ?thesis by (simp add: show_version_def version_part_value)
qed

lemma version_text_show:
  "list_all (\<lambda>n. length (dec_nat n) \<le> MAX_INT_STR_DIGITS) [x, y, z] \<Longrightarrow>
   version_text (show_version (x, y, z)) = Inr (Some (x, y, z))"
  by (simp add: version_text_def show_version_def py_split_on_append py_split_on_none dec_nat_no_dot
      version_part_dec_nat part_value_def digits_value_dec_nat)

subsection \<open>Properties\<close>

text \<open>
  The strict version texts are exactly the decimal forms of their three numbers: a text
  parses to a version only if printing that version gives the text back (no leading zeros,
  signs, spaces or suffixes), and every version of at most 4300 digits per part is parsed back
  from its printed form.
\<close>

theorem version_text_roundtrip:
  "(version_text s = Inr (Some v) \<longrightarrow> show_version v = s) \<and>
   (list_all (\<lambda>n. length (dec_nat n) \<le> MAX_INT_STR_DIGITS) [fst v, fst (snd v), snd (snd v)] \<longrightarrow>
      version_text (show_version v) = Inr (Some v))"
  using version_text_Some[of s "fst v" "fst (snd v)" "snd (snd v)"]
    version_text_show[of "fst v" "fst (snd v)" "snd (snd v)"] by auto

theorem version_text_roundtrip_witness:
  "version_text (lit ''0.2.151'') = Inr (Some (0, 2, 151)) \<and> show_version (0, 2, 151) = lit ''0.2.151''"
proof -
  have e: "show_version (0, 2, 151) = lit ''0.2.151''"
    by (simp add: show_version_def dec_nat.simps lit_def)
  have l: "length (dec_nat 0) \<le> MAX_INT_STR_DIGITS" "length (dec_nat 2) \<le> MAX_INT_STR_DIGITS"
    "length (dec_nat 151) \<le> MAX_INT_STR_DIGITS"
    by (simp_all add: dec_nat.simps MAX_INT_STR_DIGITS_def)
  from version_text_roundtrip[of "lit ''0.2.151''" "(0, 2, 151)"] e l show ?thesis by simp
qed

lemma pinned_versions:
  "version_text FABLE_51_MIN_SDK_VERSION = Inr (Some (0, 2, 151))"
  "version_text SDK_MIN_VERSION = Inr (Some (0, 2, 151))"
  "version_text SDK_MAX_VERSION = Inr (Some (0, 2, 152))"
  "version_text FABLE_51_MIN_CLI_VERSION = Inr (Some (2, 1, 258))"
  by (simp_all add: version_text_def FABLE_51_MIN_SDK_VERSION_def SDK_MIN_VERSION_def SDK_MAX_VERSION_def
      FABLE_51_MIN_CLI_VERSION_def lit_def version_part_def is_digit_def part_value_def MAX_INT_STR_DIGITS_def)

lemma version_between: "version_le (0, 2, 151) v \<and> version_less v (0, 2, 152) \<longleftrightarrow> v = (0, 2, 151)"
  by (cases v) (auto simp: version_le_def version_less_def)

lemma version_text_pinned:
  "version_text s = Inr (Some (0, 2, 151)) \<longleftrightarrow> s = FABLE_51_MIN_SDK_VERSION"
  "version_text s = Inr (Some (2, 1, 258)) \<longleftrightarrow> s = FABLE_51_MIN_CLI_VERSION"
  using version_text_Some[of s] version_text_Some[OF pinned_versions(1)] version_text_Some[OF pinned_versions(4)]
    pinned_versions by auto

text \<open>
  C22: The model check is a pin: a model is compatible exactly when it is the one supported
  model and the metadata, whatever object reports it, gives no status but "compatible", the
  SDK version text "0.2.151" and the CLI version text "2.1.258"; nothing else passes, neither
  another version of the admitted range nor another spelling of these.
\<close>

theorem model_compatible_pinned:
  "(\<exists>d. check_model_compatibility model (Some get) = Inr d \<and> md_compatible d) \<longleftrightarrow>
     model = PStr FABLE_51_MODEL_ID \<and>
     (get ''metadata_status'' = Inr PNone \<or> get ''metadata_status'' = Inr (PStr (lit ''compatible''))) \<and>
     get ''installed_version'' = Inr (PStr (lit ''0.2.151'')) \<and>
     get ''bundled_cli_version'' = Inr (PStr (lit ''2.1.258''))"
proof -
  have range: "range_version_tuple (PStr SDK_MAX_VERSION) = Inr (Some (0, 2, 152))"
    by (simp add: range_version_tuple_def version_tuple_def pinned_versions)
  have tuple: "version_tuple v = Inr (Some t) \<longleftrightarrow> (\<exists>s. v = PStr s \<and> version_text s = Inr (Some t))" for v t
    by (cases v) (auto simp: version_tuple_def)
  have versions: "(\<exists>d. check_versions r sv cv = Inr d \<and> md_compatible d) \<longleftrightarrow>
      sv = PStr (lit ''0.2.151'') \<and> cv = PStr (lit ''2.1.258'')" if "\<not> md_compatible r" for r sv cv
  proof -
    have "(\<exists>d. check_versions r sv cv = Inr d \<and> md_compatible d) \<longleftrightarrow>
        version_tuple sv = Inr (Some (0, 2, 151)) \<and> version_tuple cv = Inr (Some (2, 1, 258))"
      using that version_between
      by (cases "version_tuple sv"; cases "version_tuple cv")
         (auto simp: check_versions_def version_tuple_def pinned_versions range[unfolded version_tuple_def]
            split: option.splits)
    then show ?thesis
      unfolding tuple version_text_pinned FABLE_51_MIN_SDK_VERSION_def FABLE_51_MIN_CLI_VERSION_def by blast
  qed
  let ?r = "\<lparr>md_model = FABLE_51_MODEL_ID, md_compatible = False, md_status = lit ''incompatible'',
    md_reason = None\<rparr>"
  show ?thesis
  proof (cases "model = PStr FABLE_51_MODEL_ID")
    case False
    then show ?thesis by (simp add: check_model_compatibility_def Let_def)
  next
    case True
    then have "check_model_compatibility model (Some get) =
        and_then (get ''metadata_status'') (\<lambda>status.
          if status \<noteq> PNone \<and> status \<noteq> PStr (lit ''compatible'')
          then Inr (?r\<lparr>md_reason := Some (lit ''metadata_unavailable'')\<rparr>)
          else and_then (get ''installed_version'') (\<lambda>sv.
               and_then (get ''bundled_cli_version'') (\<lambda>cv. check_versions ?r sv cv)))"
      by (simp add: check_model_compatibility_def Let_def and_then_def split: sum.split)
    with True versions[of ?r] show ?thesis
      by (cases "get ''metadata_status''"; cases "get ''installed_version''"; cases "get ''bundled_cli_version''")
         auto
  qed
qed

text \<open>
  A host is reported compatible exactly when its manifest declares runtime API version 1
  and every one of the eleven required capabilities; the missing ones are listed.
\<close>

theorem doctor_compatible_iff:
  assumes "doctor rt H parse_module answer True manifest_answer manifest = Inr (DoctorReport r)"
    and "is_mapping H manifest"
  shows "(dr_compatible r \<longleftrightarrow>
       (\<exists>v. mapping_get H manifest ''runtime_api_version'' = Inr v \<and> py_int rt H v = Inr 1) \<and>
       set REQUIRED_HOST_CAPABILITIES \<subseteq> set (dr_host r)) \<and>
    set (dr_missing r) = set REQUIRED_HOST_CAPABILITIES - set (dr_host r)"
proof -
  have m: "manifest \<noteq> PNone" using assms(2) by (auto simp: is_mapping_def)
  from assms m obtain v hv c sdk where r:
    "mapping_get H manifest ''runtime_api_version'' = Inr v" "host_version_of rt H v = Inr hv"
    "r = \<lparr>dr_status = (if hv = Some 1 \<and> filter (\<lambda>k. k \<notin> set (host_capabilities H c)) (sort REQUIRED_HOST_CAPABILITIES) = []
              then lit ''compatible'' else lit ''incompatible''),
          dr_compatible = (hv = Some 1 \<and>
            filter (\<lambda>k. k \<notin> set (host_capabilities H c)) (sort REQUIRED_HOST_CAPABILITIES) = []),
          dr_host_version = hv, dr_api_compatible = (hv = Some 1),
          dr_required = sort REQUIRED_HOST_CAPABILITIES, dr_host = host_capabilities H c,
          dr_missing = filter (\<lambda>k. k \<notin> set (host_capabilities H c)) (sort REQUIRED_HOST_CAPABILITIES),
          dr_capabilities_compatible =
            (filter (\<lambda>k. k \<notin> set (host_capabilities H c)) (sort REQUIRED_HOST_CAPABILITIES) = []),
          dr_sdk = sdk\<rparr>"
    by (auto simp: doctor_def Let_def and_then_Inr)
  have "hv = Some 1 \<longleftrightarrow> py_int rt H v = Inr 1"
    using r(2) by (auto simp: host_version_of_def split: sum.splits if_splits)
  with r show ?thesis by (auto simp: filter_empty_conv)
qed

definition manifest_heap :: heap where
  "manifest_heap = (\<lambda>_. ODict [])
     (2 := ODict [(PStr (lit ''runtime_api_version''), PInt 1), (PStr (lit ''host_capabilities''), PRef 3)],
      3 := OList [PStr (lit ''cancellation_v1'')])"

theorem doctor_compatible_iff_witness:
  "\<exists>r. doctor sample_rt manifest_heap (\<lambda>_. None) NotInstalled True (Inr PNone) (PRef 2) = Inr (DoctorReport r) \<and>
     \<not> dr_compatible r \<and> lit ''usage_receipts_v1'' \<in> set (dr_missing r)"
proof -
  have sdk: "doctor_sdk_metadata (\<lambda>_. None) NotInstalled =
      Inr (report_base, \<lparr>md_model = FABLE_51_MODEL_ID, md_compatible = False, md_status = lit ''incompatible'',
        md_reason = Some (lit ''metadata_unavailable'')\<rparr>)"
    by (simp add: doctor_sdk_metadata_def sdk_metadata_def check_model_compatibility_def Let_def
        report_of_metadata_def dict_get_def report_fields_def report_base_def)
  have map: "is_mapping manifest_heap (PRef 2)" by (simp add: is_mapping_def manifest_heap_def)
  have get: "mapping_get manifest_heap (PRef 2) ''runtime_api_version'' = Inr (PInt 1)"
    "mapping_get manifest_heap (PRef 2) ''host_capabilities'' = Inr (PRef 3)"
    by (simp_all add: mapping_get_def mapping_find_def mapping_items_def manifest_heap_def)
  have host: "host_capabilities manifest_heap (PRef 3) = [lit ''cancellation_v1'']"
    by (simp add: host_capabilities_def texts_of_def manifest_heap_def)
  have version: "host_version_of sample_rt manifest_heap (PInt 1) = Inr (Some 1)"
    by (simp add: host_version_of_def py_int_def)
  obtain r where r: "doctor sample_rt manifest_heap (\<lambda>_. None) NotInstalled True (Inr PNone) (PRef 2) = Inr (DoctorReport r)"
    "dr_host r = [lit ''cancellation_v1'']"
    unfolding doctor_def Let_def sdk by (simp add: map get version host del: One_nat_def)
  have "lit ''usage_receipts_v1'' \<in> set REQUIRED_HOST_CAPABILITIES"
    by (simp add: REQUIRED_HOST_CAPABILITIES_def lits_def)
  with doctor_compatible_iff[OF r(1) map] r show ?thesis by auto
qed

end
