(* ===== verification/Auth.thy ===== *)
theory Auth
  imports Utf8 Json_Text Safe_Values Compatibility
begin

section \<open>The authentication preflight (auth.py)\<close>

text \<open>
  The gate that runs before the SDK is imported: the status the CLI prints is decoded, only
  four of its fields are read, and one category is returned. The child process is what the
  operating system answers: a list of \<open>poll\<close>s for its standard output and the answer of
  \<^verbatim>\<open>wait\<close>. The iteration order of the frozen set of the four fields is the argument
  \<open>order\<close>, for it decides what the size check sees first.
\<close>

subsection \<open>Categories and constants\<close>

datatype AuthCategory = SUBSCRIPTION_OAUTH | LOGGED_OUT | API_KEY | METERED | THIRD_PARTY
  | MISSING_SUBSCRIPTION | MALFORMED | OVERSIZED | TIMEOUT | CLI_MISSING | NONZERO | PROBE_FAILED
  | UNKNOWN

record AuthPreflightResult =
  ap_allowed :: bool
  ap_category :: AuthCategory

definition DEFAULT_MAX_STATUS_BYTES :: int where "DEFAULT_MAX_STATUS_BYTES = 64 * 1024"
definition MAX_STATUS_BYTES :: int where "MAX_STATUS_BYTES = 1024 * 1024"
definition DEFAULT_TIMEOUT_SECONDS :: rat where "DEFAULT_TIMEOUT_SECONDS = 5"
definition MAX_TIMEOUT_SECONDS :: rat where "MAX_TIMEOUT_SECONDS = 30"

text \<open>The double next to 0.05.\<close>

definition MIN_TIMEOUT_SECONDS :: rat where
  "MIN_TIMEOUT_SECONDS = 3602879701896397 / 72057594037927936"

definition MAX_ENUM_TEXT_LENGTH :: nat where "MAX_ENUM_TEXT_LENGTH = 128"
definition MAX_MAPPING_KEYS :: nat where "MAX_MAPPING_KEYS = 128"

definition CLAUDE_AUTH_ARGS :: "ustr list" where
  "CLAUDE_AUTH_ARGS = lits [''auth'', ''status'', ''--json'']"

definition STATUS_FIELDS :: "ustr list" where
  "STATUS_FIELDS = lits [''loggedIn'', ''authMethod'', ''apiProvider'', ''subscriptionType'']"

definition PROBE_ENV_KEYS :: "string list" where
  "PROBE_ENV_KEYS =
     [''HOME'', ''PATH'', ''USER'', ''LOGNAME'', ''TMPDIR'', ''TMP'', ''TEMP'', ''LANG'', ''LC_ALL'',
      ''LC_CTYPE'', ''TERM'', ''XDG_CONFIG_HOME'', ''CLAUDE_CONFIG_DIR'']"

definition OAUTH_METHODS :: "string list" where
  "OAUTH_METHODS =
     [''oauth'', ''oauth_token'', ''claude.ai'', ''claude_ai'', ''first_party_oauth'', ''first-party-oauth'']"

definition API_KEY_METHODS :: "string list" where
  "API_KEY_METHODS = [''api_key'', ''api-key'', ''apikey'', ''api key'', ''key'', ''api'']"

definition METERED_METHODS :: "string list" where
  "METERED_METHODS =
     [''metered'', ''payg'', ''pay_as_you_go'', ''pay-as-you-go'', ''usage_based'', ''usage-based'',
      ''extra_usage'', ''extra-usage'']"

definition FIRST_PARTY_PROVIDERS :: "string list" where
  "FIRST_PARTY_PROVIDERS =
     [''firstparty'', ''first_party'', ''first-party'', ''anthropic'', ''claude.ai'', ''claude_ai'']"

definition THIRD_PARTY_PROVIDERS :: "string list" where
  "THIRD_PARTY_PROVIDERS =
     [''thirdparty'', ''third_party'', ''third-party'', ''bedrock'', ''aws_bedrock'', ''aws-bedrock'',
      ''vertex'', ''google_vertex'', ''google-vertex'', ''foundry'', ''azure'']"

definition SUBSCRIPTION_TYPES :: "string list" where
  "SUBSCRIPTION_TYPES =
     [''pro'', ''max'', ''max_5x'', ''max-5x'', ''max_20x'', ''max-20x'', ''team'', ''business'',
      ''enterprise'', ''education'', ''edu'']"

definition METERED_SUBSCRIPTION_TYPES :: "string list" where
  "METERED_SUBSCRIPTION_TYPES =
     [''metered'', ''payg'', ''pay_as_you_go'', ''pay-as-you-go'', ''usage_based'', ''usage-based'',
      ''extra_usage'', ''extra-usage'']"

definition auth_result :: "AuthCategory \<Rightarrow> AuthPreflightResult" where
  "auth_result category = \<lparr>ap_allowed = (category = SUBSCRIPTION_OAUTH), ap_category = category\<rparr>"

subsection \<open>The status mapping\<close>

text \<open>A field of the status, as far as the decision reads it.\<close>

datatype status_value = SBool bool | SText ustr | SBytes nat | SMapping | SOther

definition status_of_json :: "json \<Rightarrow> status_value" where
  "status_of_json v =
     (case v of JBool b \<Rightarrow> SBool b | JStr s \<Rightarrow> SText s | JDict _ \<Rightarrow> SMapping | _ \<Rightarrow> SOther)"

definition status_of_value :: "heap \<Rightarrow> pyval \<Rightarrow> status_value" where
  "status_of_value H v =
     (case v of PBool b \<Rightarrow> SBool b | PStr s \<Rightarrow> SText s
      | PRef a \<Rightarrow> (case H a of OBytes b \<Rightarrow> SBytes (length b) | ODict _ \<Rightarrow> SMapping
                   | OMapping _ \<Rightarrow> SMapping | _ \<Rightarrow> SOther)
      | _ \<Rightarrow> SOther)"

datatype payload = Given pyval | Raw "nat list" | Parsed json

type_synonym status = "(ustr \<times> status_value) list"

text \<open>\<open>None\<close>: not a mapping. Otherwise its length and its fields, or the exception.\<close>

definition payload_mapping :: "heap \<Rightarrow> payload \<Rightarrow> (exn + nat \<times> (ustr \<Rightarrow> status_value option)) option" where
  "payload_mapping H p =
     (case p of
        Parsed (JDict d) \<Rightarrow> Some (Inr (length d, \<lambda>k. map_option status_of_json (map_of d k)))
      | Given v \<Rightarrow>
          if is_mapping H v then
            Some (map_sum id (\<lambda>d. (length d, \<lambda>k. map_option (status_of_value H) (map_of d (PStr k))))
                    (mapping_items H v))
          else None
      | _ \<Rightarrow> None)"

definition normalise_status_mapping :: "heap \<Rightarrow> ustr list \<Rightarrow> payload \<Rightarrow> status option" where
  "normalise_status_mapping H order p =
     (case payload_mapping H p of
        Some (Inr (n, get)) \<Rightarrow>
          if n > MAX_MAPPING_KEYS then None
          else Some (List.map_filter (\<lambda>k. map_option (Pair k) (get k)) order)
      | _ \<Rightarrow> None)"

text \<open>What a value takes from the budget; a text that UTF-8 cannot encode raises.\<close>

definition value_cost :: "status_value \<Rightarrow> nat option" where
  "value_cost v =
     (case v of SText s \<Rightarrow> map_option (\<lambda>n. n + 2) (utf8_size s) | SBytes n \<Rightarrow> Some (n + 2)
      | SMapping \<Rightarrow> Some 16 | _ \<Rightarrow> Some 8)"

fun mapping_is_oversized :: "status \<Rightarrow> int \<Rightarrow> ustr list \<Rightarrow> bool" where
  "mapping_is_oversized m budget [] = False"
| "mapping_is_oversized m budget (k # ks) =
     (case map_of m k of
        None \<Rightarrow> mapping_is_oversized m budget ks
      | Some v \<Rightarrow>
          (case utf8_size k of
             None \<Rightarrow> False
           | Some n \<Rightarrow>
               (let budget = budget - (int n + 4)
                in if budget < 0 then True
                   else (case value_cost v of
                           None \<Rightarrow> False
                         | Some c \<Rightarrow>
                             (let budget = budget - int c
                              in if budget < 0 then True else mapping_is_oversized m budget ks)))))"

text \<open>The hook of \<^verbatim>\<open>json.loads\<close>: every object keeps its status fields only.\<close>

fun object_pairs :: "(ustr \<times> json) list \<Rightarrow> (ustr \<times> json) list \<Rightarrow> exn + json" where
  "object_pairs d [] = Inr (JDict d)"
| "object_pairs d ((k, v) # ps) =
     (if k \<in> set STATUS_FIELDS \<and> k \<in> fst ` set d then Inl ValueError
      else object_pairs (if k \<in> set STATUS_FIELDS then dict_set k v d else d) ps)"

definition json_object_pairs :: "(ustr \<times> json) list \<Rightarrow> exn + json" where
  "json_object_pairs ps = object_pairs [] ps"

definition status_hooks :: hooks where
  "status_hooks = \<lparr>hk_pairs = json_object_pairs, hk_constant = plain_constant\<rparr>"

definition text_payload :: "pyrt \<Rightarrow> nat \<Rightarrow> ustr \<Rightarrow> AuthCategory + payload" where
  "text_payload rt limit s =
     (case utf8_size s of
        None \<Rightarrow> Inl MALFORMED
      | Some n \<Rightarrow>
          if n > limit then Inl OVERSIZED
          else (case json_loads rt status_hooks s of Inl _ \<Rightarrow> Inl MALFORMED | Inr j \<Rightarrow> Inr (Parsed j)))"

definition bytes_payload :: "pyrt \<Rightarrow> nat \<Rightarrow> nat list \<Rightarrow> AuthCategory + payload" where
  "bytes_payload rt limit b =
     (if length b > limit then Inl OVERSIZED
      else (case utf8_decode b of None \<Rightarrow> Inl MALFORMED | Some s \<Rightarrow> text_payload rt limit s))"

definition loaded_payload :: "pyrt \<Rightarrow> heap \<Rightarrow> nat \<Rightarrow> payload \<Rightarrow> AuthCategory + payload" where
  "loaded_payload rt H limit p =
     (case p of
        Given (PStr s) \<Rightarrow> text_payload rt limit s
      | Given (PRef a) \<Rightarrow> (case H a of OBytes b \<Rightarrow> bytes_payload rt limit b | _ \<Rightarrow> Inr p)
      | Raw b \<Rightarrow> bytes_payload rt limit b
      | _ \<Rightarrow> Inr p)"

definition payload_to_mapping ::
    "pyrt \<Rightarrow> heap \<Rightarrow> ustr list \<Rightarrow> nat \<Rightarrow> payload \<Rightarrow> AuthCategory + status" where
  "payload_to_mapping rt H order limit p =
     and_then (loaded_payload rt H limit p) (\<lambda>p.
       case normalise_status_mapping H order p of
         None \<Rightarrow>
           (case payload_mapping H p of
              Some (Inr (n, _)) \<Rightarrow> Inl (if n > MAX_MAPPING_KEYS then OVERSIZED else MALFORMED)
            | _ \<Rightarrow> Inl MALFORMED)
       | Some m \<Rightarrow> if mapping_is_oversized m (int limit) order then Inl OVERSIZED else Inr m)"

subsection \<open>The decision\<close>

definition normalise_enum_text :: "pyrt \<Rightarrow> status_value option \<Rightarrow> ustr option" where
  "normalise_enum_text rt v =
     (case v of
        Some (SText s) \<Rightarrow>
          (let t = py_casefold rt (py_strip s)
           in if t = [] \<or> length t > MAX_ENUM_TEXT_LENGTH then None
              else if list_ex is_control t then None else Some t)
      | _ \<Rightarrow> None)"

definition decide_status :: "pyrt \<Rightarrow> status \<Rightarrow> AuthCategory" where
  "decide_status rt m =
     (let logged_in = map_of m (lit ''loggedIn'');
          raw_subscription = map_of m (lit ''subscriptionType'');
          auth_method = normalise_enum_text rt (map_of m (lit ''authMethod''));
          api_provider = normalise_enum_text rt (map_of m (lit ''apiProvider''));
          subscription = normalise_enum_text rt raw_subscription
      in case logged_in of
           Some (SBool True) \<Rightarrow>
             (case (auth_method, api_provider) of
                (Some method, Some provider) \<Rightarrow>
                  if method \<in> set (lits API_KEY_METHODS) then API_KEY
                  else if method \<in> set (lits METERED_METHODS) then METERED
                  else if provider \<in> set (lits THIRD_PARTY_PROVIDERS) then THIRD_PARTY
                  else if provider \<notin> set (lits FIRST_PARTY_PROVIDERS) then UNKNOWN
                  else if method \<notin> set (lits OAUTH_METHODS) then UNKNOWN
                  else (case raw_subscription of
                          None \<Rightarrow> MISSING_SUBSCRIPTION
                        | Some (SText raw) \<Rightarrow>
                            if py_strip raw = [] then MISSING_SUBSCRIPTION
                            else (case subscription of
                                    None \<Rightarrow> MALFORMED
                                  | Some s \<Rightarrow>
                                      if s \<in> set (lits METERED_SUBSCRIPTION_TYPES) then METERED
                                      else if s \<notin> set (lits SUBSCRIPTION_TYPES) then UNKNOWN
                                      else SUBSCRIPTION_OAUTH)
                        | _ \<Rightarrow> MALFORMED)
              | _ \<Rightarrow> MALFORMED)
         | Some (SBool False) \<Rightarrow> LOGGED_OUT
         | _ \<Rightarrow> MALFORMED)"

definition parse_auth_status ::
    "pyrt \<Rightarrow> heap \<Rightarrow> ustr list \<Rightarrow> pyval \<Rightarrow> payload \<Rightarrow> AuthPreflightResult" where
  "parse_auth_status rt H order max_status_bytes p =
     (case max_status_bytes of
        PInt n \<Rightarrow>
          if n \<le> 0 then auth_result OVERSIZED
          else (case payload_to_mapping rt H order (nat (min n MAX_STATUS_BYTES)) p of
                  Inl category \<Rightarrow> auth_result category
                | Inr m \<Rightarrow> auth_result (decide_status rt m))
      | _ \<Rightarrow> auth_result MALFORMED)"

subsection \<open>Bounds on the arguments\<close>

text \<open>\<^verbatim>\<open>float(v)\<close>: an integer is rounded to the next double, beyond them it raises.\<close>

definition py_float :: "pyrt \<Rightarrow> heap \<Rightarrow> pyval \<Rightarrow> exn + pyfloat" where
  "py_float rt H v =
     (let of_text = (\<lambda>s. case rt_parse_float rt s of None \<Rightarrow> Inl ValueError | Some f \<Rightarrow> Inr f)
      in case v of
           PFloat f \<Rightarrow> Inr f
         | PBool b \<Rightarrow> Inr (FFin (if b then 1 else 0))
         | PInt i \<Rightarrow>
             if \<bar>i\<bar> \<le> 2 ^ 53 then Inr (FFin (of_int i))
             else if \<bar>i\<bar> \<ge> 2 ^ 1024 - 2 ^ 970 then Inl OverflowError
             else Inr (rt_float_of rt (dec_int i))
         | PStr s \<Rightarrow> of_text s
         | PRef a \<Rightarrow> (case H a of OBytes b \<Rightarrow> if list_all (\<lambda>c. c < 128) b then of_text b else Inl ValueError
                      | _ \<Rightarrow> Inl TypeError)
         | PNone \<Rightarrow> Inl TypeError)"

definition bounded_timeout :: "pyrt \<Rightarrow> heap \<Rightarrow> pyval \<Rightarrow> rat" where
  "bounded_timeout rt H value =
     (case py_float rt H value of
        Inr (FFin r) \<Rightarrow> min MAX_TIMEOUT_SECONDS (max MIN_TIMEOUT_SECONDS r)
      | _ \<Rightarrow> DEFAULT_TIMEOUT_SECONDS)"

definition bounded_output_limit :: "pyval \<Rightarrow> int" where
  "bounded_output_limit value =
     (case value of PInt n \<Rightarrow> min MAX_STATUS_BYTES (max 1 n) | _ \<Rightarrow> DEFAULT_MAX_STATUS_BYTES)"

text \<open>\<open>get\<close> is the source's \<^verbatim>\<open>get\<close>, \<open>defpath\<close> the platform's \<^verbatim>\<open>os.defpath\<close>.\<close>

definition safe_env_text :: "pyval \<Rightarrow> ustr option" where
  "safe_env_text v =
     (case v of PStr s \<Rightarrow> if s \<noteq> [] \<and> length s \<le> 4096 \<and> 0 \<notin> set s then Some s else None | _ \<Rightarrow> None)"

definition probe_environment :: "ustr \<Rightarrow> (string \<Rightarrow> exn + pyval) \<Rightarrow> (ustr \<times> ustr) list" where
  "probe_environment defpath get =
     (let env = List.map_filter
            (\<lambda>k. case get k of Inl _ \<Rightarrow> None | Inr v \<Rightarrow> map_option (Pair (lit k)) (safe_env_text v)) PROBE_ENV_KEYS
      in if lit ''PATH'' \<in> fst ` set env then env else env @ [(lit ''PATH'', defpath)])"

subsection \<open>The bounded child process\<close>

text \<open>
  One turn of the read loop: the deadline has passed, nothing became readable in time,
  \<^verbatim>\<open>select\<close> or \<^verbatim>\<open>read\<close> raised, or the pipe is readable and holds the given bytes (none: its
  end). What the process is made to do is the list of \<open>child_action\<close>s.
\<close>

datatype poll = DeadlinePassed | NotReadable | PollRaised | Readable "nat list"

datatype child_action = Kill | Wait | CloseStream

datatype read_end = ReadTimeout | ReadRaised | ReadOversized | ReadAll "nat list"

fun read_loop :: "nat \<Rightarrow> nat list \<Rightarrow> poll list \<Rightarrow> read_end option" where
  "read_loop limit got [] = None"
| "read_loop limit got (p # ps) =
     (case p of
        DeadlinePassed \<Rightarrow> Some ReadTimeout
      | NotReadable \<Rightarrow> Some ReadTimeout
      | PollRaised \<Rightarrow> Some ReadRaised
      | Readable available \<Rightarrow>
          (let chunk = take (min 8192 (limit + 1 - length got)) available;
               got' = got @ chunk
           in if chunk = [] then Some (ReadAll got)
              else if length got' > limit then Some ReadOversized
              else read_loop limit got' ps))"

datatype launch = ProgramMissing | LaunchRaised | NoPipe | Launched

datatype wait_answer = Exited int | WaitTimeout | WaitRaised

record BoundedCompleted =
  bc_returncode :: int
  bc_stdout :: "nat list"
  bc_oversized :: bool

datatype cli_error = CliTimeout | CliNotFound | CliError

text \<open>\<open>None\<close>: the loop has not ended within the given polls.\<close>

definition run_bounded_cli ::
    "nat \<Rightarrow> launch \<Rightarrow> poll list \<Rightarrow> wait_answer \<Rightarrow> (child_action list \<times> (cli_error + BoundedCompleted)) option" where
  "run_bounded_cli limit launch polls wait_answer =
     (case launch of
        ProgramMissing \<Rightarrow> Some ([], Inl CliNotFound)
      | LaunchRaised \<Rightarrow> Some ([], Inl CliError)
      | NoPipe \<Rightarrow> Some ([Kill, Wait], Inl CliError)
      | Launched \<Rightarrow>
          map_option (\<lambda>r. case r of
              ReadTimeout \<Rightarrow> ([Kill, Wait, CloseStream], Inl CliTimeout)
            | ReadRaised \<Rightarrow> ([CloseStream], Inl CliError)
            | ReadOversized \<Rightarrow>
                ([Kill, Wait, CloseStream], Inr \<lparr>bc_returncode = 0, bc_stdout = [], bc_oversized = True\<rparr>)
            | ReadAll got \<Rightarrow>
                (case wait_answer of
                   Exited code \<Rightarrow>
                     ([Wait, CloseStream], Inr \<lparr>bc_returncode = code, bc_stdout = got, bc_oversized = False\<rparr>)
                 | WaitTimeout \<Rightarrow> ([Wait, Kill, Wait, CloseStream], Inl CliTimeout)
                 | WaitRaised \<Rightarrow> ([Wait, CloseStream], Inl CliError)))
            (read_loop limit [] polls))"

subsection \<open>The probe\<close>

text \<open>\<open>None\<close>: \<^verbatim>\<open>OSError\<close>.\<close>

record os_path =
  os_isabs :: "ustr \<Rightarrow> bool"
  os_basename :: "ustr \<Rightarrow> ustr"
  os_isfile :: "ustr \<Rightarrow> bool option"
  os_executable :: "ustr \<Rightarrow> bool option"

definition cli_path_of :: "os_path \<Rightarrow> exn + pyval \<Rightarrow> ustr option" where
  "cli_path_of os resolved =
     (case resolved of
        Inr (PStr path) \<Rightarrow>
          if path = [] \<or> \<not> os_isabs os path \<or> 0 \<in> set path \<or>
             os_basename os path \<notin> set (lits [''claude'', ''claude.exe''])
          then None
          else (case os_isfile os path of
                  Some True \<Rightarrow> if os_executable os path = Some True then Some path else None
                | _ \<Rightarrow> None)
      | _ \<Rightarrow> None)"

record command =
  co_argv :: "ustr list"
  co_timeout :: rat
  co_output_limit :: nat
  co_env :: "(ustr \<times> ustr) list"

definition probe_command :: "ustr \<Rightarrow> rat \<Rightarrow> nat \<Rightarrow> (ustr \<times> ustr) list \<Rightarrow> command" where
  "probe_command path timeout limit env =
     \<lparr>co_argv = path # CLAUDE_AUTH_ARGS, co_timeout = timeout, co_output_limit = limit, co_env = env\<rparr>"

text \<open>
  What running the command gives: by the default path, or by an injected runner, whose
  answer is an object with the attributes it has.
\<close>

datatype run_answer =
    BoundedRun "cli_error + BoundedCompleted"
  | RunnerRaised cli_error
  | RunnerReturned attr attr

definition completed_parts :: "run_answer \<Rightarrow> AuthCategory + attr \<times> (heap \<Rightarrow> payload option) option" where
  "completed_parts answer =
     (let failed = (\<lambda>e. case e of CliTimeout \<Rightarrow> TIMEOUT | CliNotFound \<Rightarrow> CLI_MISSING | CliError \<Rightarrow> PROBE_FAILED)
      in case answer of
           BoundedRun (Inl e) \<Rightarrow> Inl (failed e)
         | BoundedRun (Inr c) \<Rightarrow>
             if bc_oversized c then Inl OVERSIZED
             else Inr (Present (PInt (bc_returncode c)), Some (\<lambda>_. Some (Raw (bc_stdout c))))
         | RunnerRaised e \<Rightarrow> Inl (failed e)
         | RunnerReturned code stdout \<Rightarrow>
             Inr (code, (case stdout of
                Present v \<Rightarrow> Some (\<lambda>H. case v of
                    PStr _ \<Rightarrow> Some (Given v)
                  | PRef a \<Rightarrow> (case H a of OBytes _ \<Rightarrow> Some (Given v) | _ \<Rightarrow> None)
                  | _ \<Rightarrow> None)
              | _ \<Rightarrow> None)))"

definition stdout_size :: "heap \<Rightarrow> payload \<Rightarrow> nat option" where
  "stdout_size H p =
     (case p of Given (PStr s) \<Rightarrow> utf8_size s
      | Given (PRef a) \<Rightarrow> (case H a of OBytes b \<Rightarrow> Some (length b) | _ \<Rightarrow> None)
      | Raw b \<Rightarrow> Some (length b) | _ \<Rightarrow> None)"

definition probe_claude_auth ::
    "pyrt \<Rightarrow> heap \<Rightarrow> ustr list \<Rightarrow> os_path \<Rightarrow> exn + pyval \<Rightarrow> pyval \<Rightarrow> pyval \<Rightarrow> (ustr \<times> ustr) list \<Rightarrow>
     (command \<Rightarrow> run_answer) \<Rightarrow> AuthPreflightResult" where
  "probe_claude_auth rt H order os resolved timeout_seconds max_output_bytes env run =
     (let timeout = bounded_timeout rt H timeout_seconds;
          output_limit = bounded_output_limit max_output_bytes
      in case cli_path_of os resolved of
           None \<Rightarrow> auth_result CLI_MISSING
         | Some path \<Rightarrow>
             (case completed_parts (run (probe_command path timeout (nat output_limit) env)) of
                Inl category \<Rightarrow> auth_result category
              | Inr (Present (PInt code), stdout) \<Rightarrow>
                  if code \<noteq> 0 then auth_result NONZERO
                  else (case stdout of
                          None \<Rightarrow> auth_result PROBE_FAILED
                        | Some read \<Rightarrow>
                            (case read H of
                               None \<Rightarrow> auth_result MALFORMED
                             | Some p \<Rightarrow>
                                 (case stdout_size H p of
                                    None \<Rightarrow> auth_result MALFORMED
                                  | Some n \<Rightarrow>
                                      if n > nat output_limit then auth_result OVERSIZED
                                      else parse_auth_status rt H order (PInt output_limit) p)))
              | Inr _ \<Rightarrow> auth_result PROBE_FAILED))"

subsection \<open>Lemmas\<close>

lemma output_limit_bounds: "1 \<le> bounded_output_limit v \<and> bounded_output_limit v \<le> MAX_STATUS_BYTES"
  by (auto simp: bounded_output_limit_def DEFAULT_MAX_STATUS_BYTES_def MAX_STATUS_BYTES_def split: pyval.split)

lemma object_pairs_eq:
  assumes "fst ` set d \<subseteq> set STATUS_FIELDS" "distinct (map fst d)"
  shows "object_pairs d ps =
    (let kept = d @ filter (\<lambda>p. fst p \<in> set STATUS_FIELDS) ps
     in if distinct (map fst kept) then Inr (JDict kept) else Inl ValueError)"
  using assms
proof (induction d ps rule: object_pairs.induct)
  case (2 d k v ps)
  show ?case
  proof (cases "k \<in> set STATUS_FIELDS")
    case True
    show ?thesis
    proof (cases "k \<in> fst ` set d")
      case False
      then have "dict_set k v d = d @ [(k, v)]" by (rule dict_set_fresh)
      with 2 True False show ?thesis by (simp add: Let_def)
    qed (use True in \<open>auto simp: Let_def\<close>)
  next
    case False
    with 2 show ?thesis by simp
  qed
qed simp

lemma read_loop_bounded:
  "read_loop limit got polls = Some (ReadAll all) \<Longrightarrow> length got \<le> limit \<Longrightarrow> length all \<le> limit"
  by (induction polls arbitrary: got) (auto simp: Let_def split: poll.splits if_splits)

lemma read_loop_ends:
  "limit + 1 < length got + length polls \<Longrightarrow> length got \<le> limit \<Longrightarrow> \<exists>r. read_loop limit got polls = Some r"
proof (induction polls arbitrary: got)
  case (Cons p ps)
  show ?case
  proof (cases p)
    case (Readable available)
    let ?chunk = "take (min 8192 (limit + 1 - length got)) available"
    show ?thesis
    proof (cases "?chunk = [] \<or> length (got @ ?chunk) > limit")
      case False
      then have "0 < length ?chunk" "length (got @ ?chunk) \<le> limit" by simp_all
      moreover have "limit + 1 < length (got @ ?chunk) + length ps"
        using \<open>0 < length ?chunk\<close> Cons.prems(1) unfolding length_append list.size by linarith
      ultimately have "\<exists>r. read_loop limit (got @ ?chunk) ps = Some r" by (intro Cons.IH)
      with Readable False show ?thesis by (simp add: Let_def)
    qed (use Readable in \<open>auto simp: Let_def\<close>)
  qed simp_all
qed simp

text \<open>Where the allowed category comes from.\<close>

definition subscription_status :: "pyrt \<Rightarrow> status \<Rightarrow> bool" where
  "subscription_status rt m \<longleftrightarrow>
     map_of m (lit ''loggedIn'') = Some (SBool True) \<and>
     normalise_enum_text rt (map_of m (lit ''authMethod'')) \<in> Some ` set (lits OAUTH_METHODS) \<and>
     normalise_enum_text rt (map_of m (lit ''apiProvider'')) \<in> Some ` set (lits FIRST_PARTY_PROVIDERS) \<and>
     normalise_enum_text rt (map_of m (lit ''subscriptionType'')) \<in> Some ` set (lits SUBSCRIPTION_TYPES)"

lemma method_sets_disjoint:
  "set (lits OAUTH_METHODS) \<inter> (set (lits API_KEY_METHODS) \<union> set (lits METERED_METHODS)) = {}"
  "set (lits FIRST_PARTY_PROVIDERS) \<inter> set (lits THIRD_PARTY_PROVIDERS) = {}"
  "set (lits SUBSCRIPTION_TYPES) \<inter> set (lits METERED_SUBSCRIPTION_TYPES) = {}"
  by (auto simp: OAUTH_METHODS_def API_KEY_METHODS_def METERED_METHODS_def FIRST_PARTY_PROVIDERS_def
      THIRD_PARTY_PROVIDERS_def SUBSCRIPTION_TYPES_def METERED_SUBSCRIPTION_TYPES_def)

lemma normalise_enum_text_Some:
  "normalise_enum_text rt v = Some t \<Longrightarrow> \<exists>s. v = Some (SText s) \<and> t = py_casefold rt (py_strip s) \<and> t \<noteq> []"
  by (auto simp: normalise_enum_text_def Let_def split: option.splits status_value.splits if_splits)

lemma py_casefold_Nil [simp]: "py_casefold rt [] = []"
  by (simp add: py_casefold_def is_ascii_def)

lemma decide_status_allowed: "decide_status rt m = SUBSCRIPTION_OAUTH \<longleftrightarrow> subscription_status rt m"
proof -
  let ?m = "normalise_enum_text rt (map_of m (lit ''authMethod''))"
  let ?p = "normalise_enum_text rt (map_of m (lit ''apiProvider''))"
  let ?s = "normalise_enum_text rt (map_of m (lit ''subscriptionType''))"
  have only_if: "subscription_status rt m" if d: "decide_status rt m = SUBSCRIPTION_OAUTH"
    using d unfolding decide_status_def Let_def subscription_status_def
    by (auto split: option.splits status_value.splits bool.splits if_splits)
  have "decide_status rt m = SUBSCRIPTION_OAUTH" if sub: "subscription_status rt m"
  proof -
    from sub obtain x y z where xyz: "?m = Some x" "?p = Some y" "?s = Some z"
      and mem: "x \<in> set (lits OAUTH_METHODS)" "y \<in> set (lits FIRST_PARTY_PROVIDERS)" "z \<in> set (lits SUBSCRIPTION_TYPES)"
      and logged: "map_of m (lit ''loggedIn'') = Some (SBool True)"
      by (auto simp: subscription_status_def)
    obtain raw where raw: "map_of m (lit ''subscriptionType'') = Some (SText raw)" "py_strip raw \<noteq> []"
      using normalise_enum_text_Some[OF xyz(3)] by (metis py_casefold_Nil)
    have "x \<notin> set (lits API_KEY_METHODS)" "x \<notin> set (lits METERED_METHODS)"
      "y \<notin> set (lits THIRD_PARTY_PROVIDERS)" "z \<notin> set (lits METERED_SUBSCRIPTION_TYPES)"
      using mem method_sets_disjoint by blast+
    with mem logged raw xyz show ?thesis
      unfolding decide_status_def Let_def by (simp del: set_lits)
  qed
  with only_if show ?thesis by blast
qed

subsection \<open>Properties\<close>

text \<open>
  C9: The preflight fails closed. A status is allowed exactly when the size limit is a positive
  integer, the payload is within it and decodes to a mapping, and that mapping says logged in
  with the boolean true, an OAuth method, a first-party provider and one of the paid
  subscription labels; every other payload, value and limit is refused.
\<close>

theorem parse_auth_status_allows:
  "ap_allowed (parse_auth_status rt H order limit p) \<longleftrightarrow>
     (\<exists>n m. limit = PInt n \<and> 0 < n \<and>
        payload_to_mapping rt H order (nat (min n MAX_STATUS_BYTES)) p = Inr m \<and> subscription_status rt m)"
proof -
  have "ap_allowed (parse_auth_status rt H order limit p) \<longleftrightarrow>
     (\<exists>n m. limit = PInt n \<and> 0 < n \<and>
        payload_to_mapping rt H order (nat (min n MAX_STATUS_BYTES)) p = Inr m \<and>
        decide_status rt m = SUBSCRIPTION_OAUTH)" (is "_ = ?rhs")
  proof (cases "\<exists>n. limit = PInt n \<and> 0 < n")
    case True
    then obtain n where n: "limit = PInt n" "0 < n" by blast
    have "category \<noteq> SUBSCRIPTION_OAUTH"
      if "payload_to_mapping rt H order k p = Inl category" for k category
      using that
      by (auto simp: payload_to_mapping_def and_then_Inl loaded_payload_def text_payload_def bytes_payload_def
          split: payload.splits pyval.splits pyobj.splits option.splits sum.splits if_splits prod.splits)
    with n show ?thesis
      by (cases "payload_to_mapping rt H order (nat (min n MAX_STATUS_BYTES)) p")
         (auto simp: parse_auth_status_def auth_result_def)
  next
    case False
    then show ?thesis by (auto simp: parse_auth_status_def auth_result_def split: pyval.splits)
  qed
  then show ?thesis by (simp only: decide_status_allowed)
qed

text \<open>
  The JSON hook keeps exactly the status fields of an object, in their order, and rejects
  every object in which a status field occurs twice, so no field can be given a second value.
\<close>

theorem json_object_pairs_strict:
  "json_object_pairs ps =
     (let kept = filter (\<lambda>p. fst p \<in> set STATUS_FIELDS) ps
      in if distinct (map fst kept) then Inr (JDict kept) else Inl ValueError)"
  using object_pairs_eq[of "[]" ps] by (simp add: json_object_pairs_def)

text \<open>
  C21: Reading the child's output is bounded and ends: after at most two polls more than the
  limit the loop has returned, whatever the pipe delivers, and an output it returns is no
  longer than the limit.
\<close>

theorem run_bounded_cli_bounded:
  assumes "limit + 1 < length polls"
  shows "\<exists>actions r. run_bounded_cli limit launch polls wait_answer = Some (actions, r) \<and>
    (\<forall>c. r = Inr c \<longrightarrow> length (bc_stdout c) \<le> limit \<and> (bc_oversized c \<longrightarrow> bc_stdout c = []))"
proof (cases launch)
  case Launched
  obtain e where e: "read_loop limit [] polls = Some e"
    using read_loop_ends[of limit "[]" polls] assms by auto
  have "e = ReadAll all \<Longrightarrow> length all \<le> limit" for all
    using read_loop_bounded[of limit "[]" polls] e by auto
  with Launched e show ?thesis
    by (auto simp: run_bounded_cli_def split: read_end.split wait_answer.split)
qed (simp_all add: run_bounded_cli_def)

theorem run_bounded_cli_bounded_witness:
  "\<exists>actions r. run_bounded_cli 1 Launched [Readable [123], Readable [125], Readable []] (Exited 0) = Some (actions, r) \<and>
     (\<forall>c. r = Inr c \<longrightarrow> length (bc_stdout c) \<le> 1)"
  using run_bounded_cli_bounded[of 1 "[Readable [123], Readable [125], Readable []]" Launched "Exited 0"] by auto

text \<open>
  C10: A probe that allows has run the bundled CLI and nothing else: an absolute path named
  claude, to an executable file, with the fixed arguments, a time limit between 0.05 and 30
  seconds and an output limit of at most a mebibyte; the command exited with 0, its output
  is within that limit, and parsing it allows.
\<close>

theorem probe_allows_only_bundled_cli:
  assumes "ap_allowed (probe_claude_auth rt H order os resolved timeout_seconds max_output env run)"
  shows "\<exists>path command read p.
    resolved = Inr (PStr path) \<and> os_isabs os path \<and> os_basename os path \<in> {lit ''claude'', lit ''claude.exe''} \<and>
    os_isfile os path = Some True \<and> os_executable os path = Some True \<and>
    co_argv command = path # lits [''auth'', ''status'', ''--json''] \<and> co_env command = env \<and>
    MIN_TIMEOUT_SECONDS \<le> co_timeout command \<and> co_timeout command \<le> MAX_TIMEOUT_SECONDS \<and>
    0 < co_output_limit command \<and> co_output_limit command \<le> 1024 * 1024 \<and>
    completed_parts (run command) = Inr (Present (PInt 0), Some read) \<and> read H = Some p \<and>
    ap_allowed (parse_auth_status rt H order (PInt (int (co_output_limit command))) p)"
proof -
  define limit where "limit = bounded_output_limit max_output"
  define timeout where "timeout = bounded_timeout rt H timeout_seconds"
  have limit: "1 \<le> limit" "limit \<le> 1024 * 1024"
    using output_limit_bounds[of max_output] by (simp_all add: limit_def MAX_STATUS_BYTES_def)
  have timeout: "MIN_TIMEOUT_SECONDS \<le> timeout \<and> timeout \<le> MAX_TIMEOUT_SECONDS"
    by (auto simp: timeout_def bounded_timeout_def MIN_TIMEOUT_SECONDS_def MAX_TIMEOUT_SECONDS_def
        DEFAULT_TIMEOUT_SECONDS_def split: sum.splits pyfloat.splits)
  have refused: "\<not> ap_allowed (auth_result c)" if "c \<noteq> SUBSCRIPTION_OAUTH" for c
    using that by (simp add: auth_result_def)
  have failed: "c \<noteq> SUBSCRIPTION_OAUTH" if "completed_parts a = Inl c" for a c
    using that by (auto simp: completed_parts_def Let_def split: run_answer.splits sum.splits cli_error.splits if_splits)
  from assms obtain path where path: "cli_path_of os resolved = Some path"
    by (auto simp: probe_claude_auth_def Let_def refused split: option.splits)
  let ?command = "probe_command path timeout (nat limit) env"
  from assms path obtain read p where
    run: "completed_parts (run ?command) = Inr (Present (PInt 0), Some read)" "read H = Some p"
      "ap_allowed (parse_auth_status rt H order (PInt limit) p)"
    unfolding probe_claude_auth_def Let_def limit_def[symmetric] timeout_def[symmetric]
    by (auto simp: refused dest!: failed split: sum.splits prod.splits attr.splits pyval.splits option.splits if_splits)
  have "resolved = Inr (PStr path) \<and> os_isabs os path \<and> os_basename os path \<in> {lit ''claude'', lit ''claude.exe''} \<and>
    os_isfile os path = Some True \<and> os_executable os path = Some True"
    using path by (auto simp: cli_path_of_def lits_def split: sum.splits pyval.splits option.splits bool.splits if_splits)
  with run limit timeout show ?thesis
    by (intro exI[of _ path] exI[of _ ?command] exI[of _ read] exI[of _ p])
       (auto simp: probe_command_def CLAUDE_AUTH_ARGS_def)
qed

text \<open>
  The child's environment is an allow-list: only the thirteen named variables, each at most
  once and with a non-empty value of the source of at most 4096 characters without NUL, and
  \<^verbatim>\<open>PATH\<close> always, by the platform's default when the source gives no usable one.
\<close>

theorem probe_environment_listed:
  "set (probe_environment defpath get) \<subseteq>
     {(lit k, v) | k v. k \<in> set PROBE_ENV_KEYS \<and> get k = Inr (PStr v) \<and> v \<noteq> [] \<and> length v \<le> 4096 \<and> 0 \<notin> set v} \<union>
     {(lit ''PATH'', defpath)} \<and>
   lit ''PATH'' \<in> fst ` set (probe_environment defpath get) \<and>
   distinct (map fst (probe_environment defpath get))"
proof -
  let ?one = "\<lambda>k. case get k of Inl _ \<Rightarrow> None | Inr v \<Rightarrow> map_option (Pair (lit k)) (safe_env_text v)"
  let ?env = "List.map_filter ?one PROBE_ENV_KEYS"
  have one: "?one k = Some (k', v) \<longleftrightarrow>
      k' = lit k \<and> get k = Inr (PStr v) \<and> v \<noteq> [] \<and> length v \<le> 4096 \<and> 0 \<notin> set v" for k k' v
    by (auto simp: safe_env_text_def split: sum.splits pyval.splits if_splits)
  have env: "set ?env \<subseteq> {(lit k, v) | k v. k \<in> set PROBE_ENV_KEYS \<and> get k = Inr (PStr v) \<and> v \<noteq> [] \<and>
      length v \<le> 4096 \<and> 0 \<notin> set v}"
  proof
    fix e assume "e \<in> set ?env"
    then obtain k where "k \<in> set PROBE_ENV_KEYS" "?one k = Some e"
      by (auto simp: List.map_filter_def)
    then show "e \<in> {(lit k, v) | k v. k \<in> set PROBE_ENV_KEYS \<and> get k = Inr (PStr v) \<and> v \<noteq> [] \<and>
        length v \<le> 4096 \<and> 0 \<notin> set v}"
      using one[of k "fst e" "snd e"] by (cases e) auto
  qed
  have keys: "map fst (List.map_filter ?one ks) = map lit (filter (\<lambda>k. ?one k \<noteq> None) ks)" for ks
    by (induction ks) (auto simp: List.map_filter_def split: sum.splits option.splits)
  have "distinct PROBE_ENV_KEYS" by (simp add: PROBE_ENV_KEYS_def)
  then have "distinct (map lit (filter (\<lambda>k. ?one k \<noteq> None) PROBE_ENV_KEYS))"
    unfolding distinct_map by (auto intro!: inj_onI)
  then have dist: "distinct (map fst ?env)" unfolding keys .
  show ?thesis using env dist unfolding probe_environment_def Let_def by auto
qed

text \<open>
  When \<^verbatim>\<open>select\<close> or \<^verbatim>\<open>read\<close> raises, the pipe is closed but the child is neither killed nor
  waited for.
\<close>

lemma read_error_leaves_child:
  "run_bounded_cli limit Launched (PollRaised # polls) wait_answer = Some ([CloseStream], Inl CliError)"
  by (simp add: run_bounded_cli_def)

subsection \<open>A concrete probe\<close>

definition plain_text :: "ustr \<Rightarrow> bool" where
  "plain_text t = list_all (\<lambda>c. c \<noteq> 34 \<and> c \<noteq> 92 \<and> 32 \<le> c) t"

lemma scan_plain_text: "plain_text t \<Longrightarrow> scan_string (t @ 34 # r) = Some (t, r)"
  by (induction t) (simp_all add: plain_text_def scan_string.simps)

definition member_text :: "ustr \<Rightarrow> ustr \<Rightarrow> ustr" where
  "member_text k v = 34 # k @ 34 # 58 # v"

definition text_value :: "ustr \<Rightarrow> ustr" where
  "text_value t = 34 # t @ [34]"

lemma scan_member_text:
  assumes "plain_text k" "pv (v @ r) = Inr (x, r)" "v \<noteq> []" "\<not> json_space (hd v)"
  shows "scan_member pv (member_text k v @ r) = Inr ((k, x), r)"
  using assms scan_plain_text[OF assms(1), of "58 # v @ r"]
  by (cases v) (auto simp: scan_member_def member_text_def skip_ws_def json_space_def)

lemma scan_members_last:
  assumes "scan_member pv (m @ 125 # r) = Inr (p, 125 # r)" "m \<noteq> []"
  shows "scan_members pv (m @ 125 # r) = Inr ([p], r)"
  using assms by (subst scan_members.simps) (simp add: skip_ws_def json_space_def)

lemma scan_members_more:
  assumes "scan_member pv (m @ 44 # 34 # r) = Inr (p, 44 # 34 # r)" "m \<noteq> []"
    "scan_members pv (34 # r) = Inr (ps, r')"
  shows "scan_members pv (m @ 44 # 34 # r) = Inr (p # ps, r')"
  using assms by (subst scan_members.simps) (simp add: skip_ws_def json_space_def)

lemma scan_value_text: "plain_text t \<Longrightarrow> scan_value rt hk (Suc room) (text_value t @ r) = Inr (JStr t, r)"
  by (simp add: text_value_def scan_plain_text Let_def)

lemma scan_value_true: "scan_value rt hk (Suc room) (lit ''true'' @ r) = Inr (JBool True, r)"
  by (simp add: lit_def keyword_def constants_def startswith_def Let_def)

definition sample_fields :: "(ustr \<times> json) list" where
  "sample_fields = [(lit ''loggedIn'', JBool True), (lit ''authMethod'', JStr (lit ''OAuth'')),
     (lit ''apiProvider'', JStr (lit ''anthropic'')), (lit ''subscriptionType'', JStr (lit ''max''))]"

definition sample_status_text :: ustr where
  "sample_status_text =
     123 # member_text (lit ''loggedIn'') (lit ''true'') @ 44 # member_text (lit ''authMethod'') (text_value (lit ''OAuth'')) @
     44 # member_text (lit ''apiProvider'') (text_value (lit ''anthropic'')) @
     44 # member_text (lit ''subscriptionType'') (text_value (lit ''max'')) @ [125]"

lemma sample_plain:
  "plain_text (lit ''loggedIn'')" "plain_text (lit ''authMethod'')" "plain_text (lit ''apiProvider'')"
  "plain_text (lit ''subscriptionType'')" "plain_text (lit ''OAuth'')" "plain_text (lit ''anthropic'')"
  "plain_text (lit ''max'')"
  by (simp_all add: plain_text_def lit_def)

lemma sample_members:
  "scan_members (scan_value rt hk (Suc room)) (tl sample_status_text) = Inr (sample_fields, [])"
proof -
  let ?pv = "scan_value rt hk (Suc room)"
  have start: "member_text k v @ r = 34 # tl (member_text k v) @ r" for k v r by (simp add: member_text_def)
  have ne: "member_text k v \<noteq> []" for k v by (simp add: member_text_def)
  have texts: "scan_member ?pv (member_text k (text_value t) @ r) = Inr ((k, JStr t), r)"
    if "plain_text k" "plain_text t" for k t r
    using that by (intro scan_member_text scan_value_text) (simp_all add: text_value_def json_space_def)
  have true: "scan_member ?pv (member_text (lit ''loggedIn'') (lit ''true'') @ r) = Inr ((lit ''loggedIn'', JBool True), r)" for r
    by (intro scan_member_text scan_value_true sample_plain) (simp_all add: lit_def json_space_def)
  have final: "scan_members ?pv (member_text (lit ''subscriptionType'') (text_value (lit ''max'')) @ [125]) =
      Inr ([(lit ''subscriptionType'', JStr (lit ''max''))], [])"
    by (rule scan_members_last[OF texts ne]) (simp_all add: sample_plain)
  have more: "scan_members ?pv (m @ 44 # member_text k v @ r) = Inr (p # ps, r')"
    if "scan_member ?pv (m @ 44 # member_text k v @ r) = Inr (p, 44 # member_text k v @ r)" "m \<noteq> []"
      "scan_members ?pv (member_text k v @ r) = Inr (ps, r')" for m k v r p ps r'
    using that unfolding start[of k v r] by (rule scan_members_more)
  show ?thesis
    unfolding sample_status_text_def sample_fields_def list.sel
    by (intro more true texts final ne sample_plain)
qed

lemma sample_status_scan: "scan_value rt status_hooks (Suc (Suc n)) sample_status_text = Inr (JDict sample_fields, [])"
proof -
  have hooked: "json_object_pairs sample_fields = Inr (JDict sample_fields)"
    by (simp add: json_object_pairs_strict sample_fields_def STATUS_FIELDS_def lits_def)
  obtain r where r: "sample_status_text = 123 # 34 # r" "tl sample_status_text = 34 # r"
    by (simp add: sample_status_text_def member_text_def)
  from sample_members[of rt status_hooks n] show ?thesis
    unfolding r using hooked
    by (subst scan_value.simps) (simp add: Let_def skip_ws_def json_space_def status_hooks_def del: scan_value.simps)
qed

lemma sample_status_loads: "json_loads sample_rt status_hooks sample_status_text = Inr (JDict sample_fields)"
proof -
  obtain r where r: "sample_status_text = 123 # r" by (simp add: sample_status_text_def)
  have room: "rt_json_depth sample_rt = Suc (Suc 998)" by (simp add: sample_rt_def)
  show ?thesis
    using sample_status_scan[of sample_rt 998] unfolding json_loads_def room r
    by (simp add: startswith_def skip_ws_def json_space_def del: scan_value.simps)
qed

definition sample_os :: os_path where
  "sample_os = \<lparr>os_isabs = (\<lambda>p. startswith p [47]), os_basename = drop 5, os_isfile = (\<lambda>_. Some True),
     os_executable = (\<lambda>_. Some True)\<rparr>"

lemma sample_map:
  "map_of (List.map_filter (\<lambda>k. map_option (Pair k) (map_option status_of_json (map_of sample_fields k))) STATUS_FIELDS) =
     map_of [(lit ''loggedIn'', SBool True), (lit ''authMethod'', SText (lit ''OAuth'')),
       (lit ''apiProvider'', SText (lit ''anthropic'')), (lit ''subscriptionType'', SText (lit ''max''))]"
  by (simp add: sample_fields_def STATUS_FIELDS_def lits_def List.map_filter_def status_of_json_def)

lemma sample_probe_allowed:
  "ap_allowed (probe_claude_auth sample_rt (\<lambda>_. ODict []) STATUS_FIELDS sample_os
     (Inr (PStr (lit ''/opt/claude''))) (PInt 5) (PInt 4096) []
     (\<lambda>c. RunnerReturned (Present (PInt 0)) (Present (PStr sample_status_text))))"
proof -
  have path: "cli_path_of sample_os (Inr (PStr (lit ''/opt/claude''))) = Some (lit ''/opt/claude'')"
    by (simp add: cli_path_of_def sample_os_def lits_def lit_def startswith_def)
  have limit: "bounded_output_limit (PInt 4096) = 4096"
    by (simp add: bounded_output_limit_def MAX_STATUS_BYTES_def)
  have ascii: "utf8_size sample_status_text = Some 89"
    by (simp add: sample_status_text_def member_text_def text_value_def lit_def utf8_len_def)
  have loaded: "loaded_payload sample_rt (\<lambda>_. ODict []) 4096 (Given (PStr sample_status_text)) = Inr (Parsed (JDict sample_fields))"
    by (simp add: loaded_payload_def text_payload_def ascii sample_status_loads)
  define m where "m = List.map_filter (\<lambda>k. map_option (Pair k) (map_option status_of_json (map_of sample_fields k))) STATUS_FIELDS"
  note get = sample_map[folded m_def]
  have normal: "normalise_status_mapping (\<lambda>_. ODict []) STATUS_FIELDS (Parsed (JDict sample_fields)) = Some m"
    by (simp add: normalise_status_mapping_def payload_mapping_def m_def sample_fields_def MAX_MAPPING_KEYS_def)
  have size: "\<not> mapping_is_oversized m 4096 STATUS_FIELDS"
    by (simp add: STATUS_FIELDS_def lits_def get value_cost_def Let_def utf8_len_def lit_def)
  have sub: "subscription_status sample_rt m"
    by (simp add: subscription_status_def get normalise_enum_text_def py_casefold_def py_strip_def py_isspace_def
        is_ascii_def ascii_lower_def lit_def is_control_def MAX_ENUM_TEXT_LENGTH_def OAUTH_METHODS_def
        FIRST_PARTY_PROVIDERS_def SUBSCRIPTION_TYPES_def)
  have "payload_to_mapping sample_rt (\<lambda>_. ODict []) STATUS_FIELDS 4096 (Given (PStr sample_status_text)) = Inr m"
    by (simp add: payload_to_mapping_def loaded normal size)
  with sub have "ap_allowed (parse_auth_status sample_rt (\<lambda>_. ODict []) STATUS_FIELDS (PInt 4096) (Given (PStr sample_status_text)))"
    by (simp add: parse_auth_status_def MAX_STATUS_BYTES_def auth_result_def decide_status_allowed)
  then show ?thesis
    by (simp add: probe_claude_auth_def Let_def path limit completed_parts_def stdout_size_def ascii)
qed

theorem probe_allows_only_bundled_cli_witness:
  "\<exists>path (command :: command). Inr (PStr (lit ''/opt/claude'')) = (Inr (PStr path) :: exn + pyval) \<and>
     co_argv command = path # lits [''auth'', ''status'', ''--json''] \<and> co_output_limit command \<le> 1024 * 1024"
proof -
  from probe_allows_only_bundled_cli[OF sample_probe_allowed] obtain path and command :: command where
    "Inr (PStr (lit ''/opt/claude'')) = (Inr (PStr path) :: exn + pyval)"
    "co_argv command = path # lits [''auth'', ''status'', ''--json'']" "co_output_limit command \<le> 1024 * 1024"
    by (elim exE conjE) (rule that; assumption)
  then show ?thesis by (intro exI conjI)
qed

end
