(* ===== verification/Runtime.thy ===== *)
theory Runtime
  imports Auth Configuration Tool_Bridge Turn_Input Session_Turns
begin

section \<open>The runtime of a turn (runtime.py)\<close>

text \<open>
  \<^verbatim>\<open>run_turn\<close> is an asynchronous generator: it admits the request, opens or reuses the SDK
  session, and turns what the session queues into public events until the session's task has
  ended. Here it is a function of the inputs its loop receives, in their order (\<open>loop_input\<close>),
  and of how the task ended (\<open>turn_end\<close>, from the session); its value is the list of the events
  yielded and whether an exception leaves the generator. The request and everything it refers
  to live in one heap, so the request that was checked is an address. The clock only decides
  when the host is polled, which the inputs say. Closing the generator early is not modelled.
\<close>

definition MCP_SERVER_NAME :: ustr where "MCP_SERVER_NAME = lit ''hermes-tools''"
definition UPSTREAM_PROVIDER :: ustr where "UPSTREAM_PROVIDER = lit ''anthropic''"
definition MAX_TURN_TOOL_OBSERVATIONS :: nat where "MAX_TURN_TOOL_OBSERVATIONS = 64"
definition MAX_TOOL_OBSERVATION_NAME_CHARS :: nat where "MAX_TOOL_OBSERVATION_NAME_CHARS = 128"

definition observation_char :: "nat \<Rightarrow> bool" where
  "observation_char c \<longleftrightarrow> is_alnum c \<or> c \<in> {95, 46, 58, 45}"

definition SAFE_TOOL_OBSERVATION_NAME :: regex where
  "SAFE_TOOL_OBSERVATION_NAME = Rep 1 None observation_char"

definition safe_tool_observation_name :: "pyval \<Rightarrow> ustr option" where
  "safe_tool_observation_name value =
     (case value of
        PStr s \<Rightarrow>
          (let t = py_strip s
           in if t = [] \<or> length t > MAX_TOOL_OBSERVATION_NAME_CHARS \<or>
                 \<not> fullmatch SAFE_TOOL_OBSERVATION_NAME t
              then None else Some t)
      | _ \<Rightarrow> None)"

definition runtime_failure_of :: "ustr \<Rightarrow> string \<Rightarrow> failure_phase \<Rightarrow> bool \<Rightarrow> bool \<Rightarrow> runtime_failure" where
  "runtime_failure_of code message phase replay_safe retryable =
     \<lparr>rf_code = code, rf_message = lit message, rf_phase = phase, rf_replay_safe = replay_safe,
      rf_retryable = retryable\<rparr>"

definition failure :: "string \<Rightarrow> string \<Rightarrow> failure_phase \<Rightarrow> bool \<Rightarrow> runtime_failure" where
  "failure code message phase replay_safe = runtime_failure_of (lit code) message phase replay_safe False"

subsection \<open>The request\<close>

text \<open>\<^verbatim>\<open>v.name\<close>\<close>

definition attr_required :: "heap \<Rightarrow> pyval \<Rightarrow> string \<Rightarrow> exn + pyval" where
  "attr_required H v name =
     (case attr_of H v (lit name) of Present x \<Rightarrow> Inr x | Absent \<Rightarrow> Inl AttributeError
      | Raising \<Rightarrow> Inl OtherError)"

definition selection_attr :: "heap \<Rightarrow> pyval \<Rightarrow> string \<Rightarrow> exn + pyval" where
  "selection_attr H request name =
     and_then (attr_required H request ''selection'') (\<lambda>s. attr_required H s name)"

text \<open>The number one, as a boolean or a float as well: \<^verbatim>\<open>v == 1\<close>.\<close>

definition is_one :: "pyval \<Rightarrow> bool" where
  "is_one v \<longleftrightarrow> v \<in> {PInt 1, PBool True, PFloat (FFin 1)}"

text \<open>The identifier to resume, and whether the request's state is acceptable.\<close>

definition resume_value :: "pyval \<Rightarrow> ustr option \<times> bool" where
  "resume_value v =
     (case v of
        PNone \<Rightarrow> (None, True)
      | PStr s \<Rightarrow> if s = [] \<or> length s > 512 \<or> list_ex is_control s then (None, False) else (Some s, True)
      | _ \<Rightarrow> (None, False))"

definition resume_id :: "heap \<Rightarrow> pyval \<Rightarrow> exn + ustr option \<times> bool" where
  "resume_id H request =
     and_then (attr_or_none H request ''session_state'') (\<lambda>envelope.
       if envelope = PNone then Inr (None, True)
       else and_then (attr_or_none H envelope ''runtime_id'') (\<lambda>rid.
         if rid \<noteq> PStr RUNTIME_ID then Inr (None, False)
         else and_then (attr_or_none H envelope ''schema_version'') (\<lambda>version.
           if \<not> is_one version then Inr (None, False)
           else and_then (attr_or_none H envelope ''state'') (\<lambda>state.
             if \<not> is_mapping H state then Inr (None, False)
             else and_then (mapping_items H state) (\<lambda>items.
               if \<not> fst ` set items \<subseteq> {PStr (lit ''external_session_id'')} then Inr (None, False)
               else and_then (mapping_get H state ''external_session_id'') (\<lambda>v. Inr (resume_value v)))))))"

subsection \<open>Preflight\<close>

definition category_text :: "AuthCategory \<Rightarrow> ustr" where
  "category_text c = lit (case c of
     SUBSCRIPTION_OAUTH \<Rightarrow> ''subscription_oauth'' | LOGGED_OUT \<Rightarrow> ''logged_out'' | API_KEY \<Rightarrow> ''api_key''
   | METERED \<Rightarrow> ''metered'' | THIRD_PARTY \<Rightarrow> ''third_party''
   | MISSING_SUBSCRIPTION \<Rightarrow> ''missing_subscription'' | MALFORMED \<Rightarrow> ''malformed''
   | OVERSIZED \<Rightarrow> ''oversized'' | TIMEOUT \<Rightarrow> ''timeout'' | CLI_MISSING \<Rightarrow> ''cli_missing''
   | NONZERO \<Rightarrow> ''nonzero'' | PROBE_FAILED \<Rightarrow> ''probe_failed'' | UNKNOWN \<Rightarrow> ''unknown'')"

text \<open>What the authentication probe gives: the default one its result, an injected one any object.\<close>

datatype auth_answer = AuthRaised | AuthPreflight AuthPreflightResult | AuthObject pyval

definition check_auth :: "heap \<Rightarrow> auth_answer \<Rightarrow> bool" where
  "check_auth H answer =
     (case answer of
        AuthRaised \<Rightarrow> False
      | AuthPreflight r \<Rightarrow> ap_allowed r \<and> category_text (ap_category r) = lit ''subscription_oauth''
      | AuthObject v \<Rightarrow>
          (case and_then (attr_or_none H v ''category'') (\<lambda>c.
                  case attr_of H c (lit ''value'') of Absent \<Rightarrow> Inr c | Present x \<Rightarrow> Inr x
                  | Raising \<Rightarrow> Inl OtherError) of
             Inl _ \<Rightarrow> False
           | Inr category \<Rightarrow>
               (case attr_or_none H v ''allowed'' of
                  Inl _ \<Rightarrow> False
                | Inr allowed \<Rightarrow> allowed = PBool True \<and> category = PStr (lit ''subscription_oauth''))))"

text \<open>What the environment of one call answers.\<close>

record turn_env =
  te_parse_module :: "ustr \<Rightarrow> pystmt list option"
  te_distribution :: dist_answer
  te_auth :: auth_answer
  te_cancelled :: probe
  te_services :: bool
  te_server :: "pyval option"
  te_environ :: pyval
  te_empty_tuple :: addr
  te_tools_tuple :: addr

type_synonym contract = "pyval \<times> pyval \<times> pyval \<times> pyval \<times> pyval"

record runtime =
  rn_cwd :: pyval
  rn_parent_env :: pyval
  rn_watchdog :: pyfloat
  rn_session :: "sdk_session option"
  rn_bridge :: "bridge_system option"
  rn_host :: "nat option"
  rn_contract :: "contract option"
  rn_configuration :: "SDKSessionConfiguration option"
  rn_projector :: "projector option"
  rn_observations :: "ustr list"
  rn_preflight :: "pyval option"
  rn_closed :: bool

definition runtime_new :: "pyval \<Rightarrow> pyval \<Rightarrow> pyfloat \<Rightarrow> runtime" where
  "runtime_new cwd parent_env watchdog =
     \<lparr>rn_cwd = cwd, rn_parent_env = parent_env, rn_watchdog = watchdog, rn_session = None,
      rn_bridge = None, rn_host = None, rn_contract = None, rn_configuration = None,
      rn_projector = None, rn_observations = [], rn_preflight = None, rn_closed = False\<rparr>"

definition selection_supported :: "heap \<Rightarrow> pyval \<Rightarrow> exn + bool" where
  "selection_supported H request =
     and_then (attr_required H request ''selection'') (\<lambda>selection.
     and_then (attr_required H selection ''provider'') (\<lambda>provider.
     and_then (in_names H (Some provider) PROVIDER_IDS) (\<lambda>known_provider.
       if \<not> known_provider then Inr False
       else and_then (attr_required H selection ''api_mode'') (\<lambda>mode.
            and_then (in_names H (Some mode) API_MODES) (\<lambda>known_mode.
              if \<not> known_mode then Inr False
              else map_sum id is_supported_model_id (attr_required H selection ''model''))))))"

definition model_compatible :: "turn_env \<Rightarrow> pyval \<Rightarrow> bool" where
  "model_compatible env model =
     (case and_then (sdk_metadata (te_parse_module env) (te_distribution env))
             (\<lambda>report. check_model_compatibility model (report_of_metadata report)) of
        Inr d \<Rightarrow> md_compatible d | Inl _ \<Rightarrow> False)"

definition preflight ::
    "heap \<Rightarrow> turn_env \<Rightarrow> pyval \<Rightarrow> runtime \<Rightarrow> (exn + runtime_failure option) \<times> runtime" where
  "preflight H env request rn =
     (let rn = rn\<lparr>rn_preflight := None\<rparr>
      in case selection_supported H request of
           Inl e \<Rightarrow> (Inl e, rn)
         | Inr supported \<Rightarrow>
             if \<not> supported then
               (Inr (Some (failure ''claude_runtime_selection_unsupported''
                  ''Claude runtime selection is outside its declared descriptor'' PREFLIGHT True)), rn)
             else (case resume_id H request of
               Inl e \<Rightarrow> (Inl e, rn)
             | Inr (_, state_ok) \<Rightarrow>
                 if \<not> state_ok then
                   (Inr (Some (failure ''claude_runtime_state_invalid''
                      ''Claude runtime state is incompatible'' PREFLIGHT False)), rn)
                 else if \<not> (case selection_attr H request ''model'' of
                               Inr model \<Rightarrow> model_compatible env model | Inl _ \<Rightarrow> False) then
                   (Inr (Some (failure ''claude_runtime_sdk_compatibility_unsupported''
                      ''Claude runtime SDK/CLI compatibility is unavailable for the selected model''
                      PREFLIGHT True)), rn)
                 else if \<not> check_auth H (te_auth env) then
                   (Inr (Some (failure ''claude_subscription_auth_rejected''
                      ''Claude subscription authentication is unavailable'' PREFLIGHT False)), rn)
                 else (Inr None, rn\<lparr>rn_preflight := Some request\<rparr>)))"

definition consume_preflight :: "pyval \<Rightarrow> runtime \<Rightarrow> bool \<times> runtime" where
  "consume_preflight request rn = (rn_preflight rn = Some request, rn\<lparr>rn_preflight := None\<rparr>)"

subsection \<open>Admission\<close>

text \<open>The events yielded, and whether an exception leaves the generator.\<close>

type_synonym stream = "runtime_event list \<times> bool"

definition refused :: "string \<Rightarrow> string \<Rightarrow> stream" where
  "refused code message = ([FailedEvent (failure code message BEFORE_VISIBLE_OUTPUT False)], False)"

definition raised :: stream where "raised = ([], True)"

text \<open>From the closed flag to the prompt.\<close>

definition admit_turn ::
    "pyrt \<Rightarrow> heap \<Rightarrow> turn_env \<Rightarrow> nat \<Rightarrow> pyval \<Rightarrow> runtime \<Rightarrow> stream + turn_prompt \<times> ustr option" where
  "admit_turn rt H env host request rn =
     (if rn_closed rn then Inl (refused ''claude_runtime_closed'' ''Claude runtime is closed'')
      else if te_cancelled env = Inr (PBool True) then
        Inl ([CancelledEvent (lit ''cancelled before runtime start'')], False)
      else if te_cancelled env \<noteq> Inr (PBool False) then
        Inl (refused ''claude_runtime_cancellation_unavailable''
               ''Claude runtime cancellation state is unavailable'')
      else if rn_host rn \<noteq> None \<and> rn_host rn \<noteq> Some host then
        Inl (refused ''claude_runtime_host_binding_changed'' ''Claude runtime host binding changed'')
      else (case build_sdk_turn_input rt H request of
        Inl (ImageError code) \<Rightarrow> Inl (refused code ''Claude runtime image input is invalid'')
      | Inl (Escaped e) \<Rightarrow> Inl raised
      | Inr None \<Rightarrow>
          Inl (refused ''claude_runtime_prompt_invalid'' ''Claude runtime requires a bounded text turn'')
      | Inr (Some prompt) \<Rightarrow>
          (case resume_id H request of Inl e \<Rightarrow> Inl raised | Inr (resume, _) \<Rightarrow> Inr (prompt, resume))))"

definition admit ::
    "pyrt \<Rightarrow> heap \<Rightarrow> turn_env \<Rightarrow> nat \<Rightarrow> pyval \<Rightarrow> runtime \<Rightarrow>
     (stream + turn_prompt \<times> ustr option) \<times> runtime" where
  "admit rt H env host request rn =
     (let (checked, rn) = consume_preflight request (rn\<lparr>rn_observations := []\<rparr>)
      in if checked then (admit_turn rt H env host request rn, rn)
         else (case preflight H env request rn of
                 (Inl e, rn) \<Rightarrow> (Inl raised, rn)
               | (Inr (Some f), rn) \<Rightarrow> (Inl ([FailedEvent f], False), rn)
               | (Inr None, rn) \<Rightarrow>
                   (let (checked, rn) = consume_preflight request rn
                    in if checked then (admit_turn rt H env host request rn, rn)
                       else (Inl ([FailedEvent (failure ''claude_runtime_preflight_unavailable''
                          ''Claude runtime preflight could not be consumed'' PREFLIGHT False)], False), rn))))"

subsection \<open>Opening the session\<close>

record turn_vars =
  tv_visible :: bool
  tv_start :: nat
  tv_allowed :: "ustr list"
  tv_cancel_sent :: bool
  tv_unavailable :: bool
  tv_provenance :: "ustr \<times> ustr \<times> ustr"

definition unknown_provenance :: "ustr \<times> ustr \<times> ustr" where
  "unknown_provenance = (lit ''unknown'', lit ''unknown'', lit ''unknown'')"

text \<open>
  How the opening ended; an exception is caught around it, with the value the local variable
  \<^verbatim>\<open>bridge\<close> has by then.
\<close>

datatype open_result = Opened turn_vars | ContractChanged | OpenRaised "bridge_system option"

definition session_contract :: "heap \<Rightarrow> pyval \<Rightarrow> exn + contract" where
  "session_contract H request =
     and_then (attr_required H request ''prompt_snapshot'') (\<lambda>prompt.
     and_then (selection_attr H request ''provider'') (\<lambda>provider.
     and_then (selection_attr H request ''model'') (\<lambda>model.
     and_then (selection_attr H request ''api_mode'') (\<lambda>mode.
     and_then (attr_required H request ''tool_schema_hash'') (\<lambda>hash.
       Inr (provider, model, mode, hash, prompt))))))"

definition new_projector :: "pyrt \<Rightarrow> heap \<Rightarrow> pyval \<Rightarrow> exn + projector" where
  "new_projector rt H request =
     and_then (selection_attr H request ''model'') (\<lambda>model.
     and_then (attr_required H request ''correlation_id'') (\<lambda>correlation.
       Inr (projector_new rt (PStr RUNTIME_ID) (PStr UPSTREAM_PROVIDER) model
              (PStr (lit ''subscription_included'')) correlation)))"

definition new_session :: "pyrt \<Rightarrow> SDKSessionConfiguration \<Rightarrow> runtime \<Rightarrow> exn + sdk_session" where
  "new_session rt c rn =
     map_sum id (\<lambda>compaction. session_new compaction
         (projector_new rt (PStr RUNTIME_ID) (PStr (lit ''claude-agent-sdk'')) (of_text (cf_model c))
            (PStr (lit ''unknown'')) PNone))
       (new_lifecycle (rn_watchdog rn))"

definition qualified_tool :: "ustr \<Rightarrow> ustr" where
  "qualified_tool name = lit ''mcp__'' @ MCP_SERVER_NAME @ lit ''__'' @ name"

definition open_bridge :: "HostToolBridge \<Rightarrow> bridge_system" where
  "open_bridge b = \<lparr>bs_bridge = b, bs_pending = [], bs_outcomes = []\<rparr>"

definition host_executions :: "bridge_system \<Rightarrow> nat" where
  "host_executions bs = hb_host_execution_count (bs_bridge bs)"

text \<open>The configuration of a new session; the tuple of tool names is a fresh object.\<close>

definition session_config_args ::
    "turn_env \<Rightarrow> pyval \<Rightarrow> pyval \<Rightarrow> ustr option \<Rightarrow> pyval \<Rightarrow> runtime \<Rightarrow> config_args" where
  "session_config_args env model prompt resume server rn =
     \<lparr>a_cwd = rn_cwd rn, a_model = model, a_permission_mode = PStr (lit ''bypassPermissions''),
      a_prompt_snapshot = prompt, a_resume_external_session_id = of_text resume,
      a_parent_env = (if rn_parent_env rn \<noteq> PNone then rn_parent_env rn else te_environ env),
      a_configured_env = PNone, a_setting_sources = PRef (te_empty_tuple env),
      a_mcp_servers = [(PStr MCP_SERVER_NAME, server)], a_allowed_tools = PRef (te_tools_tuple env),
      a_turn_timeout_seconds = FFin 600, a_connect_timeout_seconds = FFin 60,
      a_close_timeout_seconds = FFin 15\<rparr>"

definition with_tuples :: "turn_env \<Rightarrow> HostToolBridge \<Rightarrow> heap \<Rightarrow> heap" where
  "with_tuples env b H =
     H(te_empty_tuple env := OTuple [],
       te_tools_tuple env := OTuple (map (\<lambda>n. PStr (qualified_tool n)) (tool_names b)))"

text \<open>The first turn: the host is bound before anything can fail.\<close>

definition build_bridge :: "pyrt \<Rightarrow> heap \<Rightarrow> turn_env \<Rightarrow> pyval \<Rightarrow> exn + HostToolBridge" where
  "build_bridge rt H env request =
     and_then (attr_required H request ''tool_schemas'') (\<lambda>schemas.
     and_then (attr_required H request ''correlation_id'') (\<lambda>correlation.
       case bridge_new rt H (te_services env) (seq_items H schemas) (Some []) correlation of
         Inl _ \<Rightarrow> Inl OtherError | Inr b \<Rightarrow> Inr b))"

definition configure ::
    "pyrt \<Rightarrow> heap \<Rightarrow> turn_env \<Rightarrow> pyval \<Rightarrow> ustr option \<Rightarrow> contract \<Rightarrow> HostToolBridge \<Rightarrow> runtime \<Rightarrow>
     exn + SDKSessionConfiguration" where
  "configure rt H env request resume contract b rn =
     (case build_sdk_mcp_server (PStr MCP_SERVER_NAME) (PStr (lit ''1.0.0'')) b of
        Inl _ \<Rightarrow> Inl OtherError
      | Inr _ \<Rightarrow>
          (case te_server env of
             None \<Rightarrow> Inl OtherError
           | Some server \<Rightarrow>
               and_then (selection_attr H request ''model'') (\<lambda>model.
                 config_create rt (with_tuples env b H)
                   (session_config_args env model (snd (snd (snd (snd contract)))) resume server rn))))"

definition first_session ::
    "pyrt \<Rightarrow> heap \<Rightarrow> turn_env \<Rightarrow> nat \<Rightarrow> pyval \<Rightarrow> ustr option \<Rightarrow> contract \<Rightarrow> runtime \<Rightarrow>
     open_result option \<times> runtime" where
  "first_session rt H env host request resume contract rn =
     (let rn = rn\<lparr>rn_host := Some host\<rparr>
      in case build_bridge rt H env request of
           Inl e \<Rightarrow> (Some (OpenRaised None), rn)
         | Inr b \<Rightarrow>
             (let raised = Some (OpenRaised (Some (open_bridge b)))
              in case configure rt H env request resume contract b rn of
                   Inl e \<Rightarrow> (raised, rn)
                 | Inr c \<Rightarrow>
                     (let rn = rn\<lparr>rn_bridge := Some (open_bridge b), rn_contract := Some contract,
                                  rn_configuration := Some c\<rparr>
                      in case new_session rt c rn of
                           Inl e \<Rightarrow> (raised, rn)
                         | Inr s \<Rightarrow>
                             (let rn = rn\<lparr>rn_session := Some s\<rparr>
                              in case new_projector rt H request of
                                   Inl e \<Rightarrow> (raised, rn)
                                 | Inr p \<Rightarrow> (None, rn\<lparr>rn_projector := Some p\<rparr>)))))"

text \<open>A cancelled session is replaced; the bridge and the contract stay.\<close>

definition restart_session ::
    "pyrt \<Rightarrow> heap \<Rightarrow> pyval \<Rightarrow> ustr option \<Rightarrow> runtime \<Rightarrow> open_result option \<times> runtime" where
  "restart_session rt H request resume rn =
     (case rn_configuration rn of
        None \<Rightarrow> (Some (OpenRaised None), rn)
      | Some c \<Rightarrow>
          (let c = c\<lparr>cf_resume_external_session_id := resume\<rparr>;
               rn = rn\<lparr>rn_configuration := Some c\<rparr>
           in case new_session rt c rn of
                Inl e \<Rightarrow> (Some (OpenRaised None), rn)
              | Inr s \<Rightarrow>
                  (let rn = rn\<lparr>rn_session := Some s\<rparr>
                   in case new_projector rt H request of
                        Inl e \<Rightarrow> (Some (OpenRaised None), rn)
                      | Inr p \<Rightarrow> (None, rn\<lparr>rn_projector := Some p\<rparr>))))"

text \<open>Binding the turn. A missing bridge or projector fails an assertion.\<close>

definition bind_turn :: "heap \<Rightarrow> pyval \<Rightarrow> runtime \<Rightarrow> open_result \<times> runtime" where
  "bind_turn H request rn =
     (case (rn_bridge rn, attr_required H request ''correlation_id'') of
        (None, _) \<Rightarrow> (OpenRaised None, rn)
      | (Some bs, Inl e) \<Rightarrow> (OpenRaised (Some bs), rn)
      | (Some bs, Inr correlation) \<Rightarrow>
          (case begin_turn correlation (bs_bridge bs) of
             Inl _ \<Rightarrow> (OpenRaised (Some bs), rn)
           | Inr b \<Rightarrow>
               (let bs = bs\<lparr>bs_bridge := b\<rparr>; rn = rn\<lparr>rn_bridge := Some bs\<rparr>
                in case rn_projector rn of
                     None \<Rightarrow> (OpenRaised (Some bs), rn)
                   | Some p \<Rightarrow>
                       (Opened \<lparr>tv_visible = False, tv_start = host_executions bs,
                                tv_allowed = map qualified_tool (tool_names b),
                                tv_cancel_sent = False, tv_unavailable = False,
                                tv_provenance = unknown_provenance\<rparr>,
                        rn\<lparr>rn_projector := Some (pj_begin_turn correlation p)\<rparr>))))"

definition open_turn ::
    "pyrt \<Rightarrow> heap \<Rightarrow> turn_env \<Rightarrow> nat \<Rightarrow> pyval \<Rightarrow> ustr option \<Rightarrow> runtime \<Rightarrow> open_result \<times> runtime" where
  "open_turn rt H env host request resume rn =
     (case session_contract H request of
        Inl e \<Rightarrow> (OpenRaised None, rn)
      | Inr contract \<Rightarrow>
          (case (case rn_session rn of
                   None \<Rightarrow> first_session rt H env host request resume contract rn
                 | Some s \<Rightarrow>
                     if rn_contract rn \<noteq> Some contract then (Some ContractChanged, rn)
                     else if can_restart_after_cancel s then restart_session rt H request resume rn
                     else (None, rn)) of
             (Some out, rn) \<Rightarrow> (out, rn)
           | (None, rn) \<Rightarrow> bind_turn H request rn))"

subsection \<open>The event loop\<close>

text \<open>
  One input of the loop: the host is polled, the queue gives a projection, the SDK makes the
  bridge do something, the session's own tasks have moved it on, or the consumer's task is
  cancelled while the generator waits.
\<close>

datatype loop_input =
    Poll probe
  | Queued ProjectionResult
  | BridgeDoes bridge_op
  | SessionIs sdk_session
  | ConsumerCancelled

definition compaction_projection :: "SessionCompactionEvent \<Rightarrow> ProjectionResult" where
  "compaction_projection e =
     empty_projection\<lparr>pr_events :=
       [CompactionEvent (ce_phase e)
          (if ce_phase e = CP_WATCHDOG then ce_watchdog_seconds e else None)]\<rparr>"

definition cancel_session :: "runtime \<Rightarrow> runtime" where
  "cancel_session rn = rn\<lparr>rn_session := map_option session_cancel (rn_session rn)\<rparr>"

text \<open>The phase a failure is reported in.\<close>

definition executions_now :: "runtime \<Rightarrow> nat" where
  "executions_now rn = (case rn_bridge rn of None \<Rightarrow> 0 | Some bs \<Rightarrow> host_executions bs)"

definition failure_phase_of :: "runtime \<Rightarrow> turn_vars \<Rightarrow> failure_phase" where
  "failure_phase_of rn v =
     (if executions_now rn > tv_start v then AFTER_SIDE_EFFECTS
      else if tv_visible v then AFTER_VISIBLE_OUTPUT else BEFORE_VISIBLE_OUTPUT)"

text \<open>The handler of exceptions; \<open>terminal\<close>: a terminal event was due when it was raised.\<close>

definition exception_end ::
    "bridge_system option \<Rightarrow> nat \<Rightarrow> bool \<Rightarrow> bool \<Rightarrow> runtime \<Rightarrow> runtime_event list \<times> runtime" where
  "exception_end bridge start visible terminal rn =
     (let unset = (rn_session rn = None);
          rn = cancel_session rn;
          side_effects = (case bridge of None \<Rightarrow> 0 | Some bs \<Rightarrow> int (host_executions bs) - int start);
          phase = (if side_effects \<noteq> 0 then AFTER_SIDE_EFFECTS
                   else if visible then AFTER_VISIBLE_OUTPUT else BEFORE_VISIBLE_OUTPUT)
      in if terminal then ([], rn)
         else ([FailedEvent (if unset
                  then failure ''claude_runtime_configuration_failed'' ''Claude runtime configuration failed'' phase False
                  else failure ''claude_runtime_failed'' ''Claude runtime turn failed'' phase False)], rn))"

definition turn_exception :: "turn_vars \<Rightarrow> bool \<Rightarrow> runtime \<Rightarrow> runtime_event list \<times> runtime" where
  "turn_exception v terminal rn = exception_end (rn_bridge rn) (tv_start v) (tv_visible v) terminal rn"

definition poll_host :: "probe \<Rightarrow> runtime \<Rightarrow> turn_vars \<Rightarrow> runtime \<times> turn_vars" where
  "poll_host answer rn v =
     (if tv_cancel_sent v then (rn, v)
      else if answer = Inr (PBool True) then (cancel_session rn, v\<lparr>tv_cancel_sent := True\<rparr>)
      else if answer \<noteq> Inr (PBool False) then
        (cancel_session rn, v\<lparr>tv_unavailable := True, tv_cancel_sent := True\<rparr>)
      else (rn, v))"

definition text_or_unknown :: "ustr option \<Rightarrow> ustr" where
  "text_or_unknown t = (case t of Some (c # s) \<Rightarrow> c # s | _ \<Rightarrow> lit ''unknown'')"

definition provenance_of :: "ProjectionResult \<Rightarrow> ustr \<times> ustr \<times> ustr" where
  "provenance_of r =
     (if pr_model_resolution r = lit ''ambiguous'' then (lit ''unknown'', lit ''unknown'', lit ''ambiguous'')
      else (text_or_unknown (pr_effective_model r), text_or_unknown (pr_canonical_model r),
            pr_model_resolution r))"

definition unexpected_tool :: "ustr list \<Rightarrow> runtime_event \<Rightarrow> bool" where
  "unexpected_tool allowed e =
     (case e of
        ToolRequestEvent _ name _ \<Rightarrow>
          (case safe_tool_observation_name (PStr name) of None \<Rightarrow> True | Some t \<Rightarrow> t \<notin> set allowed)
      | _ \<Rightarrow> False)"

definition observe_tool :: "ustr \<Rightarrow> ustr list \<Rightarrow> ustr list" where
  "observe_tool name seen =
     (case safe_tool_observation_name (PStr name) of
        None \<Rightarrow> seen
      | Some t \<Rightarrow> if length seen < MAX_TURN_TOOL_OBSERVATIONS then seen @ [t] else seen)"

definition public_receipt :: "ustr option \<Rightarrow> usage_receipt \<Rightarrow> usage_receipt" where
  "public_receipt correlation r =
     r\<lparr>ur_runtime_id := RUNTIME_ID, ur_provider := UPSTREAM_PROVIDER,
       ur_billing_mode := lit ''subscription_included'', ur_cost_status := lit ''included'',
       ur_replay_safe := False, ur_correlation_id := correlation\<rparr>"

text \<open>The events of a projection: those yielded, the tools seen, and whether one was visible.\<close>

fun surface :: "ustr option \<Rightarrow> runtime_event list \<Rightarrow> ustr list \<times> bool \<Rightarrow> runtime_event list \<times> ustr list \<times> bool" where
  "surface correlation [] (seen, visible) = ([], seen, visible)"
| "surface correlation (e # es) (seen, visible) =
     (case e of
        CompletedEvent _ \<Rightarrow> surface correlation es (seen, visible)
      | ToolRequestEvent _ name _ \<Rightarrow> surface correlation es (observe_tool name seen, visible)
      | UsageEvent r \<Rightarrow>
          (let (out, rest) = surface correlation es (seen, visible)
           in (UsageEvent (public_receipt correlation r) # out, rest))
      | _ \<Rightarrow>
          (let (out, rest) = surface correlation es
                 (seen, visible \<or> (case e of ContentEvent _ \<Rightarrow> True | _ \<Rightarrow> False))
           in (e # out, rest)))"

text \<open>The completion payload. \<^verbatim>\<open>dict(message)\<close> takes a mapping or a sequence of pairs.\<close>

definition dict_pair :: "heap \<Rightarrow> pyval \<Rightarrow> exn + unit" where
  "dict_pair H v =
     (case py_iter H v of
        Inl _ \<Rightarrow> Inl TypeError
      | Inr [k, _] \<Rightarrow> if hashable 1000 H k then Inr () else Inl TypeError
      | Inr _ \<Rightarrow> Inl ValueError)"

definition dict_of :: "heap \<Rightarrow> pyval \<Rightarrow> exn + unit" where
  "dict_of H v =
     (if is_mapping H v then map_sum id (\<lambda>_. ()) (mapping_items H v)
      else and_then (py_iter H v) (\<lambda>vs. map_sum id (\<lambda>_. ()) (map_exn (dict_pair H) vs)))"

definition response_messages :: "heap \<Rightarrow> pyval \<Rightarrow> exn + pyval list" where
  "response_messages H request =
     and_then (attr_required H request ''messages'') (\<lambda>messages.
     and_then (py_iter H messages) (\<lambda>ms.
     and_then (map_exn (dict_of H) ms) (\<lambda>_. Inr ms)))"

definition completion_of ::
    "ustr \<Rightarrow> pyval list \<Rightarrow> pyval \<Rightarrow> ustr \<times> ustr \<times> ustr \<Rightarrow> completion" where
  "completion_of final ms model provenance =
     (case provenance of (effective, canonical, resolution) \<Rightarrow>
        [(lit ''text'', CText final), (lit ''final_response'', CText final),
         (lit ''messages'', CMessages ms final), (lit ''completed'', CFlag True),
         (lit ''partial'', CFlag False), (lit ''error'', CNull), (lit ''api_calls'', CInt 1),
         (lit ''provider'', CText UPSTREAM_PROVIDER),
         (lit ''model'', CText (if canonical \<noteq> lit ''unknown'' then canonical else effective)),
         (lit ''selected_model'', case model of PStr s \<Rightarrow> CText s | _ \<Rightarrow> CNull),
         (lit ''effective_model'', CText effective), (lit ''canonical_model'', CText canonical),
         (lit ''model_resolution'', CText resolution)])"

definition block_reason_text :: "BillingBlockReason \<Rightarrow> string" where
  "block_reason_text r =
     (case r of API_KEY_SOURCE \<Rightarrow> ''api_key_source'' | EXTRA_USAGE \<Rightarrow> ''extra_usage''
      | OVERAGE \<Rightarrow> ''overage'' | UNKNOWN_EVIDENCE \<Rightarrow> ''unknown_evidence''
      | CONFLICTING_EVIDENCE \<Rightarrow> ''conflicting_evidence'')"

definition failure_code :: "SessionTurnResult \<Rightarrow> ustr" where
  "failure_code result =
     (if sr_outcome result = BILLING_BLOCKED then lit ''claude_subscription_billing_blocked''
      else if sr_error_code result = Some (lit ''sdk_native_tool_unsupported'')
      then lit ''claude_runtime_native_tool_unsupported''
      else (case sr_error_code result of Some (c # s) \<Rightarrow> c # s | _ \<Rightarrow> lit ''claude_runtime_failed''))"

definition failure_message :: "SessionTurnResult \<Rightarrow> string" where
  "failure_message result =
     (if sr_outcome result = BILLING_BLOCKED then
        ''Claude subscription billing blocked: '' @
        block_reason_text (case Option.bind (sr_billing_decision result) bd_block_reason of
          Some r \<Rightarrow> r | None \<Rightarrow> UNKNOWN_EVIDENCE)
      else ''Claude runtime turn failed'')"

text \<open>The end of the turn, when its task has returned and the queue is empty.\<close>

definition conclude ::
    "heap \<Rightarrow> pyval \<Rightarrow> SessionTurnResult \<Rightarrow> runtime \<Rightarrow> turn_vars \<Rightarrow> runtime_event list \<times> runtime" where
  "conclude H request result rn v =
     (if tv_unavailable v then
        ([FailedEvent (failure ''claude_runtime_cancellation_unavailable''
            ''Claude runtime cancellation state is unavailable'' (failure_phase_of rn v) False)], rn)
      else if sr_outcome result = COMPLETE then
        (let final = (case sr_final_text result of None \<Rightarrow> [] | Some t \<Rightarrow> t);
             state = (case sr_external_session_id result of None \<Rightarrow> [] | Some i \<Rightarrow> [StateEvent i])
         in case and_then (response_messages H request) (\<lambda>ms.
                   map_sum id (\<lambda>model. (ms, model)) (selection_attr H request ''model'')) of
              Inl e \<Rightarrow> (let (evs, rn) = turn_exception v True rn in (state @ evs, rn))
            | Inr (ms, model) \<Rightarrow>
                (state @ [CompletedEvent (completion_of final ms model (tv_provenance v))], rn))
      else if sr_outcome result = CANCELLED then ([CancelledEvent (lit ''cancelled'')], rn)
      else ([FailedEvent (runtime_failure_of (failure_code result) (failure_message result)
               (failure_phase_of rn v) False (sr_retryable result))], rn))"

text \<open>A projection with a tool request that is not one of the bridge's: cancel, wait, fail.\<close>

definition native_end :: "turn_end \<Rightarrow> runtime \<Rightarrow> turn_vars \<Rightarrow> stream \<times> runtime" where
  "native_end ending rn v =
     (let phase = failure_phase_of rn v; rn = cancel_session rn
      in case ending of
           Returned _ \<Rightarrow>
             (([FailedEvent (failure ''claude_runtime_native_tool_unsupported''
                 ''Claude runtime emitted an unsupported native tool event'' phase False)], False), rn)
         | RaisedRuntimeError \<Rightarrow> (let (evs, rn) = turn_exception v False rn in ((evs, False), rn))
         | RaisedCancelled \<Rightarrow> (raised, cancel_session rn))"

definition end_turn :: "heap \<Rightarrow> pyval \<Rightarrow> turn_end \<Rightarrow> runtime \<Rightarrow> turn_vars \<Rightarrow> stream \<times> runtime" where
  "end_turn H request ending rn v =
     (case ending of
        Returned result \<Rightarrow> (let (evs, rn) = conclude H request result rn v in ((evs, False), rn))
      | RaisedRuntimeError \<Rightarrow> (let (evs, rn) = turn_exception v False rn in ((evs, False), rn))
      | RaisedCancelled \<Rightarrow> (raised, cancel_session rn))"

definition correlation_of :: "heap \<Rightarrow> pyval \<Rightarrow> ustr option" where
  "correlation_of H request =
     (case attr_required H request ''correlation_id'' of Inr (PStr s) \<Rightarrow> Some s | _ \<Rightarrow> None)"

fun run_loop ::
    "pyrt \<Rightarrow> heap \<Rightarrow> pyval \<Rightarrow> turn_end \<Rightarrow> loop_input list \<Rightarrow> runtime \<Rightarrow> turn_vars \<Rightarrow> stream \<times> runtime" where
  "run_loop rt H request ending [] rn v = end_turn H request ending rn v"
| "run_loop rt H request ending (i # is) rn v =
     (case i of
        Poll answer \<Rightarrow> (let (rn, v) = poll_host answer rn v in run_loop rt H request ending is rn v)
      | BridgeDoes op \<Rightarrow>
          run_loop rt H request ending is
            (rn\<lparr>rn_bridge := map_option (\<lambda>bs. snd (bridge_do rt op bs)) (rn_bridge rn)\<rparr>) v
      | SessionIs s \<Rightarrow> run_loop rt H request ending is (rn\<lparr>rn_session := Some s\<rparr>) v
      | ConsumerCancelled \<Rightarrow> (raised, cancel_session rn)
      | Queued r \<Rightarrow>
          (let v = (if pr_is_result r then v\<lparr>tv_provenance := provenance_of r\<rparr> else v)
           in if list_ex (unexpected_tool (tv_allowed v)) (pr_events r) then native_end ending rn v
              else (let (out, seen, visible) =
                          surface (correlation_of H request) (pr_events r) (rn_observations rn, tv_visible v);
                        ((evs, raises), rn) = run_loop rt H request ending is
                          (rn\<lparr>rn_observations := seen\<rparr>) (v\<lparr>tv_visible := visible\<rparr>)
                    in ((out @ evs, raises), rn))))"

subsection \<open>A turn\<close>

definition run_turn ::
    "pyrt \<Rightarrow> heap \<Rightarrow> turn_env \<Rightarrow> nat \<Rightarrow> pyval \<Rightarrow> loop_input list \<Rightarrow> turn_end \<Rightarrow> runtime \<Rightarrow>
     stream \<times> runtime" where
  "run_turn rt H env host request inputs ending rn =
     (case admit rt H env host request rn of
        (Inl stream, rn) \<Rightarrow> (stream, rn)
      | (Inr (prompt, resume), rn) \<Rightarrow>
          (case open_turn rt H env host request resume rn of
             (ContractChanged, rn) \<Rightarrow>
               (refused ''claude_runtime_session_contract_changed''
                  ''Claude runtime session prompt, tools, or selection changed'', rn)
           | (OpenRaised bridge, rn) \<Rightarrow>
               (let (evs, rn) = exception_end bridge 0 False False rn in ((evs, False), rn))
           | (Opened v, rn) \<Rightarrow> run_loop rt H request ending inputs rn v))"

definition close_runtime :: "runtime \<Rightarrow> runtime" where
  "close_runtime rn =
     (if rn_closed rn then rn
      else rn\<lparr>rn_closed := True, rn_preflight := None,
              rn_session := map_option session_close (rn_session rn)\<rparr>)"

end
