(* ===== verification/Runtime_Turns.thy ===== *)
theory Runtime_Turns
  imports Runtime
begin

section \<open>The event stream of a turn\<close>

text \<open>
  What the consumer of \<^verbatim>\<open>run_turn\<close> can rely on. \<open>run_loop_split\<close> is the one induction over the
  inputs: the events of a turn are those that the consumed projections surface, followed by
  what ends the turn. The properties of the stream and of the failure phases follow from it,
  and the invariants of the runtime from the locale of inductive invariants.
\<close>

subsection \<open>Surfacing\<close>

definition is_content :: "runtime_event \<Rightarrow> bool" where
  "is_content e = (case e of ContentEvent _ \<Rightarrow> True | _ \<Rightarrow> False)"

definition surfaced :: "runtime_event \<Rightarrow> bool" where
  "surfaced e = (case e of CompletedEvent _ \<Rightarrow> False | ToolRequestEvent _ _ _ \<Rightarrow> False | _ \<Rightarrow> True)"

definition public_event :: "ustr option \<Rightarrow> runtime_event \<Rightarrow> runtime_event" where
  "public_event c e = (case e of UsageEvent r \<Rightarrow> UsageEvent (public_receipt c r) | _ \<Rightarrow> e)"

definition tool_name_of :: "runtime_event \<Rightarrow> ustr option" where
  "tool_name_of e = (case e of ToolRequestEvent _ n _ \<Rightarrow> Some n | _ \<Rightarrow> None)"

lemma surface_eq:
  "surface c es (seen, visible) =
     (map (public_event c) (filter surfaced es), fold observe_tool (List.map_filter tool_name_of es) seen,
      visible \<or> list_ex is_content es)"
  by (induction c es "(seen, visible)" arbitrary: seen visible rule: surface.induct)
     (auto simp: List.map_filter_def surfaced_def public_event_def tool_name_of_def is_content_def
       split: runtime_event.splits)

lemma public_event_simps [simp]:
  "surfaced e \<Longrightarrow> \<not> is_tool_request (public_event c e)"
  "surfaced e \<Longrightarrow> is_terminal (public_event c e) \<longleftrightarrow> is_terminal e"
  "is_content (public_event c e) \<longleftrightarrow> is_content e"
  "is_content e \<Longrightarrow> surfaced e"
  by (auto simp: surfaced_def public_event_def is_tool_request_def is_terminal_def is_content_def
      split: runtime_event.splits)

text \<open>The failures and cancellations only the runtime itself reports.\<close>

definition queues_ending :: "runtime_event \<Rightarrow> bool" where
  "queues_ending e = (case e of FailedEvent _ \<Rightarrow> True | CancelledEvent _ \<Rightarrow> True | _ \<Rightarrow> False)"

definition quiet :: "ProjectionResult \<Rightarrow> bool" where
  "quiet r \<longleftrightarrow> \<not> list_ex queues_ending (pr_events r)"

definition quiet_input :: "loop_input \<Rightarrow> bool" where
  "quiet_input i = (case i of Queued r \<Rightarrow> quiet r | _ \<Rightarrow> True)"

lemma event_ok_quiet: "list_all event_ok (pr_events r) \<Longrightarrow> quiet r"
  by (auto simp: quiet_def list_all_iff list_ex_iff queues_ending_def split: runtime_event.splits)

lemma project_quiet:
  assumes "project rt H m p = (Inr r, p')"
  shows "quiet r"
proof -
  have empty: "quiet empty_projection" by (simp add: quiet_def empty_projection_def)
  have user: "quiet (project_user rt H m)"
    by (auto simp: quiet_def project_user_def Let_def empty_projection_def split: option.split)
  have "quiet r" if "project_assistant rt H m p = (Inr r, p')"
    using project_assistant_InrD[OF that] event_ok_quiet by blast
  moreover have "quiet r" if "project_result rt H m p = (Inr r, p')"
    using project_result_InrD[OF that] event_ok_quiet by blast
  ultimately show ?thesis using assms empty user by (auto simp: project_def Let_def split: if_splits)
qed

lemma compaction_quiet: "quiet (compaction_projection e)"
  by (simp add: quiet_def compaction_projection_def queues_ending_def)

lemma surfaced_not_terminal: "\<not> queues_ending e \<Longrightarrow> surfaced e \<Longrightarrow> \<not> is_terminal e"
  by (auto simp: queues_ending_def surfaced_def is_terminal_def split: runtime_event.splits)

subsection \<open>The loop\<close>

definition projections :: "loop_input list \<Rightarrow> ProjectionResult list" where
  "projections is = List.map_filter (\<lambda>i. case i of Queued r \<Rightarrow> Some r | _ \<Rightarrow> None) is"

definition bridge_ops :: "loop_input list \<Rightarrow> bridge_op list" where
  "bridge_ops is = List.map_filter (\<lambda>i. case i of BridgeDoes op \<Rightarrow> Some op | _ \<Rightarrow> None) is"

definition surfaced_events :: "ustr option \<Rightarrow> loop_input list \<Rightarrow> runtime_event list" where
  "surfaced_events c is = concat (map (\<lambda>r. map (public_event c) (filter surfaced (pr_events r))) (projections is))"

lemma projections_simps [simp]:
  "projections [] = []" "projections (Poll a # is) = projections is"
  "projections (Queued r # is) = r # projections is" "projections (BridgeDoes op # is) = projections is"
  "projections (SessionIs s # is) = projections is" "projections (ConsumerCancelled # is) = projections is"
  by (simp_all add: projections_def List.map_filter_def)

lemma bridge_ops_simps [simp]:
  "bridge_ops [] = []" "bridge_ops (Poll a # is) = bridge_ops is"
  "bridge_ops (Queued r # is) = bridge_ops is" "bridge_ops (BridgeDoes op # is) = op # bridge_ops is"
  "bridge_ops (SessionIs s # is) = bridge_ops is" "bridge_ops (ConsumerCancelled # is) = bridge_ops is"
  by (simp_all add: bridge_ops_def List.map_filter_def)

text \<open>What a poll, a move of the session and an observation leave alone.\<close>

lemma poll_host_view:
  assumes "poll_host a rn v = (rn', v')"
  shows "rn_bridge rn' = rn_bridge rn \<and> tv_start v' = tv_start v \<and> tv_visible v' = tv_visible v \<and>
    tv_allowed v' = tv_allowed v \<and> rn_observations rn' = rn_observations rn \<and>
    (rn_session rn' = None \<longleftrightarrow> rn_session rn = None)"
  using assms by (auto simp: poll_host_def cancel_session_def split: if_splits)

definition bridge_after :: "pyrt \<Rightarrow> bridge_op list \<Rightarrow> bridge_system \<Rightarrow> bridge_system" where
  "bridge_after rt ops bs = snd (run_ops (bridge_do rt) ops bs)"

lemma bridge_after_simps [simp]:
  "bridge_after rt [] = (\<lambda>bs. bs)"
  "bridge_after rt (op # ops) = (\<lambda>bs. bridge_after rt ops (snd (bridge_do rt op bs)))"
  by (simp_all add: bridge_after_def fun_eq_iff split: prod.split)

text \<open>How a turn ended: by its task, at an unsupported tool, or with the consumer.\<close>

definition turn_ended ::
    "heap \<Rightarrow> pyval \<Rightarrow> turn_end \<Rightarrow> runtime \<Rightarrow> turn_vars \<Rightarrow> stream \<times> runtime \<Rightarrow> bool" where
  "turn_ended H request ending rn v out \<longleftrightarrow>
     out = end_turn H request ending rn v \<or> out = native_end ending rn v \<or> out = (raised, cancel_session rn)"

lemma run_loop_split:
  assumes "run_loop rt H request ending is rn v = ((evs, raises), rn')"
  shows "\<exists>used rest last rn1 v1. is = used @ rest \<and>
     evs = surfaced_events (correlation_of H request) used @ last \<and>
     turn_ended H request ending rn1 v1 ((last, raises), rn') \<and>
     tv_start v1 = tv_start v \<and>
     (tv_visible v1 \<longleftrightarrow> tv_visible v \<or> list_ex is_content (surfaced_events (correlation_of H request) used)) \<and>
     rn_bridge rn1 = map_option (bridge_after rt (bridge_ops used)) (rn_bridge rn)"
  using assms
proof (induction "is" arbitrary: rn v evs)
  case Nil
  then show ?case
    by (intro exI[of _ "[]"] exI[of _ evs] exI[of _ rn] exI[of _ v])
       (auto simp: turn_ended_def surfaced_events_def option.map_ident)
next
  case (Cons i "is")
  have extend: ?case
    if loop: "run_loop rt H request ending is rn2 v2 = ((evs2, raises), rn')"
      and evs: "evs = surfaced_events (correlation_of H request) [i] @ evs2"
      and view: "tv_start v2 = tv_start v"
        "tv_visible v2 \<longleftrightarrow> tv_visible v \<or> list_ex is_content (surfaced_events (correlation_of H request) [i])"
        "rn_bridge rn2 = map_option (bridge_after rt (bridge_ops [i])) (rn_bridge rn)"
    for rn2 v2 evs2
  proof -
    from Cons.IH[OF loop] obtain used rest last rn1 v1 where ih: "is = used @ rest"
      "evs2 = surfaced_events (correlation_of H request) used @ last"
      "turn_ended H request ending rn1 v1 ((last, raises), rn')" "tv_start v1 = tv_start v2"
      "tv_visible v1 \<longleftrightarrow> tv_visible v2 \<or> list_ex is_content (surfaced_events (correlation_of H request) used)"
      "rn_bridge rn1 = map_option (bridge_after rt (bridge_ops used)) (rn_bridge rn2)" by blast
    have app: "surfaced_events (correlation_of H request) (i # used) =
        surfaced_events (correlation_of H request) [i] @ surfaced_events (correlation_of H request) used"
      by (cases i) (simp_all add: surfaced_events_def)
    have ops: "bridge_after rt (bridge_ops (i # used)) bs = bridge_after rt (bridge_ops used) (bridge_after rt (bridge_ops [i]) bs)"
      for bs by (cases i) simp_all
    from ih evs view show ?case
      by (intro exI[of _ "i # used"] exI[of _ rest] exI[of _ last] exI[of _ rn1] exI[of _ v1])
         (simp add: app ops option.map_comp comp_def)
  qed
  have stop: ?case
    if "turn_ended H request ending rn v1 ((evs, raises), rn')" "tv_start v1 = tv_start v"
      "tv_visible v1 = tv_visible v" for v1
    using that
    by (intro exI[of _ "[]"] exI[of _ "i # is"] exI[of _ evs] exI[of _ rn] exI[of _ v1])
       (auto simp: surfaced_events_def option.map_ident)
  show ?case
  proof (cases i)
    case (Poll a)
    obtain rn2 v2 where p: "poll_host a rn v = (rn2, v2)" by fastforce
    show ?thesis
      using Cons.prems Poll p poll_host_view[OF p]
      by (intro extend[of rn2 v2 evs]) (auto simp: surfaced_events_def option.map_ident)
  next
    case (BridgeDoes op)
    with Cons.prems show ?thesis by (intro extend[OF _ _]) (auto simp: surfaced_events_def)
  next
    case (SessionIs s)
    with Cons.prems show ?thesis
      by (intro extend[of "rn\<lparr>rn_session := Some s\<rparr>" v evs]) (auto simp: surfaced_events_def option.map_ident)
  next
    case ConsumerCancelled
    with Cons.prems show ?thesis by (intro stop[of v]) (auto simp: turn_ended_def)
  next
    case (Queued r)
    define v0 where "v0 = (if pr_is_result r then v\<lparr>tv_provenance := provenance_of r\<rparr> else v)"
    have v0: "tv_start v0 = tv_start v" "tv_visible v0 = tv_visible v" by (simp_all add: v0_def)
    show ?thesis
    proof (cases "list_ex (unexpected_tool (tv_allowed v0)) (pr_events r)")
      case True
      with Cons.prems Queued v0 show ?thesis
        by (intro stop[of v0]) (auto simp: turn_ended_def v0_def[symmetric])
    next
      case False
      let ?rn = "rn\<lparr>rn_observations := fold observe_tool (List.map_filter tool_name_of (pr_events r)) (rn_observations rn)\<rparr>"
      let ?v = "v0\<lparr>tv_visible := tv_visible v0 \<or> list_ex is_content (pr_events r)\<rparr>"
      obtain evs2 raises2 rn2 where l: "run_loop rt H request ending is ?rn ?v = ((evs2, raises2), rn2)"
        by (metis prod.exhaust)
      have content: "list_ex is_content (surfaced_events (correlation_of H request) [i]) \<longleftrightarrow> list_ex is_content (pr_events r)"
        using Queued by (auto simp: surfaced_events_def list_ex_iff)
      from Cons.prems Queued False l have "evs = surfaced_events (correlation_of H request) [i] @ evs2 \<and>
          raises2 = raises \<and> rn2 = rn'"
        by (simp add: v0_def[symmetric] surface_eq surfaced_events_def)
      with l Queued v0 content show ?thesis
        by (intro extend[of ?rn ?v evs2]) (auto simp: option.map_ident)
    qed
  qed
qed

subsection \<open>What ends a turn\<close>

definition silent :: "runtime_event list \<Rightarrow> bool" where
  "silent evs \<longleftrightarrow> list_all (\<lambda>e. \<not> is_terminal e) evs"

definition ends_once :: "stream \<Rightarrow> bool" where
  "ends_once st =
     (if snd st then silent (fst st)
      else \<exists>body e. fst st = body @ [e] \<and> silent body \<and> is_terminal e)"

lemma terminal_simps [simp]:
  "is_terminal (FailedEvent f)" "is_terminal (CancelledEvent r)" "is_terminal (CompletedEvent c)"
  "\<not> is_terminal (StateEvent i)" "\<not> is_tool_request (FailedEvent f)" "\<not> is_tool_request (CancelledEvent r)"
  "\<not> is_tool_request (CompletedEvent c)" "\<not> is_tool_request (StateEvent i)"
  by (simp_all add: is_terminal_def is_tool_request_def)

lemma silent_simps [simp]: "silent []" "silent (e # es) \<longleftrightarrow> \<not> is_terminal e \<and> silent es"
  "silent (xs @ ys) \<longleftrightarrow> silent xs \<and> silent ys"
  by (auto simp: silent_def)

lemma ends_once_single [simp]: "is_terminal e \<Longrightarrow> ends_once ([e], False)"
  by (auto simp: ends_once_def)

lemma ends_once_prefix: "silent xs \<Longrightarrow> ends_once (ys, b) \<Longrightarrow> ends_once (xs @ ys, b)"
  unfolding ends_once_def
  by (auto split: if_splits)

lemma ends_once_raised [simp]: "ends_once raised"
  by (simp add: ends_once_def raised_def)

lemma ends_once_refused [simp]: "ends_once (refused code message)"
  by (simp add: refused_def)

lemma exception_end_events:
  "\<exists>f. fst (exception_end b n vis False rn) = [FailedEvent f]" "fst (exception_end b n vis True rn) = []"
  by (simp_all add: exception_end_def Let_def)

lemma turn_exception_ends: "ends_once (fst (turn_exception v False rn), False)"
  using exception_end_events(1)[of "rn_bridge rn" "tv_start v" "tv_visible v" rn]
  by (auto simp: turn_exception_def)

lemma conclude_ends:
  assumes "response_messages H request = Inr ms" "selection_attr H request ''model'' = Inr model"
  shows "ends_once (fst (conclude H request result rn v), False)"
proof -
  have "ends_once ([StateEvent i, e], False)" if "is_terminal e" for i e
    using ends_once_prefix[of "[StateEvent i]" "[e]" False] that by simp
  then show ?thesis using assms by (auto simp: conclude_def Let_def split: option.split)
qed

lemma turn_ended_once:
  assumes "turn_ended H request ending rn v (st, rn')"
    and "response_messages H request = Inr ms" "selection_attr H request ''model'' = Inr model"
  shows "ends_once st"
  using assms(1) conclude_ends[OF assms(2,3)] turn_exception_ends
  by (auto simp: turn_ended_def end_turn_def native_end_def Let_def split: turn_end.splits prod.splits)
     (metis fst_conv)+

lemma surfaced_silent: "list_all quiet_input is \<Longrightarrow> silent (surfaced_events c is)"
proof (induction "is")
  case (Cons i "is")
  then show ?case
    by (cases i)
       (auto simp: surfaced_events_def silent_def list_all_iff quiet_input_def quiet_def list_ex_iff
          simp del: public_event_simps(2) simp: public_event_simps(2) surfaced_not_terminal)
qed (simp add: surfaced_events_def)

lemma surfaced_no_failure:
  "list_all quiet_input is \<Longrightarrow> list_all (\<lambda>e. \<not> queues_ending e) (surfaced_events c is)"
proof (induction "is")
  case (Cons i "is")
  have "queues_ending (public_event c e) \<longleftrightarrow> queues_ending e" for e
    by (simp add: queues_ending_def public_event_def split: runtime_event.split)
  with Cons show ?case
    by (cases i) (auto simp: surfaced_events_def list_all_iff quiet_input_def quiet_def list_ex_iff)
qed (simp add: surfaced_events_def)

lemma admit_ends:
  assumes "admit rt H env host request rn = (Inl st, rn')"
  shows "ends_once st"
proof -
  have turn: "ends_once st" if "admit_turn rt H env host request r = Inl st" for r st
    using that by (auto simp: admit_turn_def split: if_splits sum.splits turn_error.splits option.splits prod.splits)
  show ?thesis
    using assms turn
    by (auto simp: admit_def Let_def split: prod.splits if_splits sum.splits option.splits)
qed

text \<open>The ways through a turn.\<close>

lemma run_turn_split:
  assumes "run_turn rt H env host request inputs ending rn = (st, rn')"
  obtains
    (not_admitted) "admit rt H env host request rn = (Inl st, rn')"
  | (changed) prompt resume rn1 where "admit rt H env host request rn = (Inr (prompt, resume), rn1)"
      "open_turn rt H env host request resume rn1 = (ContractChanged, rn')"
      "st = refused ''claude_runtime_session_contract_changed''
              ''Claude runtime session prompt, tools, or selection changed''"
  | (not_opened) prompt resume rn1 rn2 b where "admit rt H env host request rn = (Inr (prompt, resume), rn1)"
      "open_turn rt H env host request resume rn1 = (OpenRaised b, rn2)"
      "exception_end b 0 False False rn2 = (fst st, rn')" "\<not> snd st"
  | (ran) prompt resume rn1 rn2 v used rest last rn3 v3 where
      "admit rt H env host request rn = (Inr (prompt, resume), rn1)"
      "open_turn rt H env host request resume rn1 = (Opened v, rn2)" "inputs = used @ rest"
      "fst st = surfaced_events (correlation_of H request) used @ last"
      "turn_ended H request ending rn3 v3 ((last, snd st), rn')" "tv_start v3 = tv_start v"
      "tv_visible v3 \<longleftrightarrow> tv_visible v \<or> list_ex is_content (surfaced_events (correlation_of H request) used)"
      "rn_bridge rn3 = map_option (bridge_after rt (bridge_ops used)) (rn_bridge rn2)"
proof -
  obtain r1 rn1 where a: "admit rt H env host request rn = (r1, rn1)" by fastforce
  show ?thesis
  proof (cases r1)
    case (Inl x)
    with a assms not_admitted show ?thesis by (simp add: run_turn_def)
  next
    case (Inr pr)
    obtain prompt resume where pr: "pr = (prompt, resume)" by (cases pr)
    obtain out rn2 where o: "open_turn rt H env host request resume rn1 = (out, rn2)" by fastforce
    show ?thesis
    proof (cases out)
      case (Opened v)
      with a Inr pr o assms have "run_loop rt H request ending inputs rn2 v = ((fst st, snd st), rn')"
        by (simp add: run_turn_def)
      from run_loop_split[OF this] a Inr pr o Opened show ?thesis by (elim exE conjE) (rule ran; simp)
    next
      case (OpenRaised b)
      with a Inr pr o assms have "exception_end b 0 False False rn2 = (fst st, rn')" "\<not> snd st"
        by (auto simp: run_turn_def split: prod.splits)
      with a Inr pr o OpenRaised not_opened show ?thesis by simp
    next
      case ContractChanged
      with a Inr pr o assms changed show ?thesis by (simp add: run_turn_def)
    qed
  qed
qed

subsection \<open>The stream\<close>


subsection \<open>Tool requests and receipts\<close>

text \<open>The receipts the runtime lets out, and no tool request.\<close>

definition public_ok :: "ustr option \<Rightarrow> runtime_event \<Rightarrow> bool" where
  "public_ok c e =
     (case e of
        ToolRequestEvent _ _ _ \<Rightarrow> False
      | UsageEvent r \<Rightarrow>
          ur_runtime_id r = RUNTIME_ID \<and> ur_provider r = lit ''anthropic'' \<and>
          ur_billing_mode r = lit ''subscription_included'' \<and> ur_cost_status r = lit ''included'' \<and>
          \<not> ur_replay_safe r \<and> ur_correlation_id r = c
      | _ \<Rightarrow> True)"

lemma public_ok_simps [simp]:
  "public_ok c (FailedEvent f)" "public_ok c (CancelledEvent t)" "public_ok c (CompletedEvent x)"
  "public_ok c (StateEvent i)"
  by (simp_all add: public_ok_def)

lemma surfaced_public: "surfaced e \<Longrightarrow> public_ok c (public_event c e)"
  by (auto simp: surfaced_def public_ok_def public_event_def public_receipt_def UPSTREAM_PROVIDER_def
      split: runtime_event.splits)

lemma surfaced_events_public: "list_all (public_ok c) (surfaced_events c is)"
  by (auto simp: surfaced_events_def list_all_iff surfaced_public)

text \<open>The events that end a turn are of four kinds.\<close>

definition ending_kind :: "runtime_event \<Rightarrow> bool" where
  "ending_kind e = (case e of StateEvent _ \<Rightarrow> True | _ \<Rightarrow> is_terminal e)"

lemma ending_kind_simps [simp]:
  "ending_kind (FailedEvent f)" "ending_kind (CancelledEvent t)" "ending_kind (CompletedEvent x)"
  "ending_kind (StateEvent i)"
  by (simp_all add: ending_kind_def)

lemma ending_kind_event: "ending_kind e \<Longrightarrow> public_ok c e \<and> \<not> is_content e"
  by (cases e) (simp_all add: ending_kind_def public_ok_def is_content_def is_terminal_def)

lemma ending_kind_public: "list_all ending_kind evs \<Longrightarrow> list_all (public_ok c) evs \<and> \<not> list_ex is_content evs"
  using ending_kind_event by (auto simp: list_all_iff list_ex_iff)

lemma exception_end_kinds: "list_all ending_kind (fst (exception_end b n vis t rn))"
  by (simp add: exception_end_def Let_def)

lemma conclude_kinds: "list_all ending_kind (fst (conclude H request r rn v))"
proof -
  obtain evs rn' where t: "turn_exception v True rn = (evs, rn')" by fastforce
  then have "list_all ending_kind evs"
    using exception_end_kinds by (metis fst_conv turn_exception_def)
  with t show ?thesis by (simp add: conclude_def Let_def split: sum.split option.split prod.split)
qed

lemma turn_ended_kinds:
  assumes "turn_ended H request ending rn v (st, rn')"
  shows "list_all ending_kind (fst st)"
proof -
  have exc: "list_all ending_kind (fst (turn_exception v False r))" for r
    by (simp add: turn_exception_def exception_end_kinds)
  have "list_all ending_kind (fst (fst (end_turn H request ending rn v)))"
    using exc[of rn] conclude_kinds[of H request _ rn v]
    by (auto simp: end_turn_def raised_def split: turn_end.split prod.split) (metis fst_conv)+
  moreover have "list_all ending_kind (fst (fst (native_end ending rn v)))"
    using exc[of "cancel_session rn"]
    by (auto simp: native_end_def raised_def Let_def split: turn_end.split prod.split)
  ultimately show ?thesis using assms by (auto simp: turn_ended_def raised_def) (metis fst_conv)+
qed

lemma admit_public:
  assumes "admit rt H env host request rn = (Inl st, rn')"
  shows "list_all (public_ok c) (fst st)"
proof -
  have turn: "list_all (public_ok c) (fst st)" if "admit_turn rt H env host request r = Inl st" for r st
    using that
    by (auto simp: admit_turn_def refused_def raised_def
        split: if_splits sum.splits turn_error.splits option.splits prod.splits)
  show ?thesis
    using assms turn
    by (auto simp: admit_def Let_def raised_def split: prod.splits if_splits sum.splits option.splits)
qed

text \<open>
  C8: Whatever the session queues and however the turn is interleaved or ends, no tool request
  reaches the host through the stream (the bridge is the one execution path), and every usage
  receipt names this runtime, the upstream provider, the included billing and the turn's
  correlation, and is not replay-safe.
\<close>

theorem run_turn_surfaces_public_events:
  "list_all (public_ok (correlation_of H request)) (fst (fst (run_turn rt H env host request inputs ending rn)))"
proof -
  obtain st rn' where run: "run_turn rt H env host request inputs ending rn = (st, rn')" by fastforce
  then have "list_all (public_ok (correlation_of H request)) (fst st)"
  proof (cases rule: run_turn_split)
    case not_admitted
    then show ?thesis by (rule admit_public)
  next
    case changed
    then show ?thesis by (simp add: refused_def)
  next
    case (not_opened prompt resume rn1 rn2 b)
    then show ?thesis by (metis exception_end_kinds ending_kind_public fst_conv)
  next
    case (ran prompt resume rn1 rn2 v used rest last rn3 v3)
    from ending_kind_public[OF turn_ended_kinds[OF ran(5)]] ran(4) show ?thesis
      by (simp add: surfaced_events_public)
  qed
  with run show ?thesis by simp
qed

subsection \<open>Failure phases\<close>

lemma cancel_session_view [simp]:
  "rn_bridge (cancel_session rn) = rn_bridge rn" "executions_now (cancel_session rn) = executions_now rn"
  "rn_session (cancel_session rn) = None \<longleftrightarrow> rn_session rn = None"
  "rn_observations (cancel_session rn) = rn_observations rn"
  by (simp_all add: cancel_session_def executions_now_def)

lemma exception_end_view:
  "exception_end b n vis t rn = (evs, rn') \<Longrightarrow> rn' = cancel_session rn"
  by (auto simp: exception_end_def Let_def split: if_splits)

text \<open>A phase is sound when the failure hides no host execution and no visible output.\<close>

definition phase_sound :: "bool \<Rightarrow> bool \<Rightarrow> runtime_event \<Rightarrow> bool" where
  "phase_sound effects visible e =
     (case e of
        FailedEvent f \<Rightarrow> (effects \<longrightarrow> rf_phase f = AFTER_SIDE_EFFECTS) \<and>
          (visible \<longrightarrow> rf_phase f \<in> {AFTER_VISIBLE_OUTPUT, AFTER_SIDE_EFFECTS}) \<and>
          (rf_replay_safe f \<longrightarrow> rf_phase f = PREFLIGHT)
      | _ \<Rightarrow> True)"

lemma phase_sound_simps [simp]:
  "phase_sound x y (CancelledEvent t)" "phase_sound x y (CompletedEvent c)" "phase_sound x y (StateEvent i)"
  by (simp_all add: phase_sound_def)

lemma phase_sound_failure:
  "phase_sound (executions_now rn > tv_start v) (tv_visible v)
     (FailedEvent (failure code message (failure_phase_of rn v) False))"
  "phase_sound (executions_now rn > tv_start v) (tv_visible v)
     (FailedEvent (runtime_failure_of c message (failure_phase_of rn v) False r))"
  by (simp_all add: phase_sound_def failure_def runtime_failure_of_def failure_phase_of_def)

lemma phase_sound_exception:
  assumes "exception_end b n vis t rn = (evs, rn')"
  shows "list_all (phase_sound (\<exists>bs. b = Some bs \<and> host_executions bs > n) vis) evs"
  using assms
  by (auto simp: exception_end_def Let_def phase_sound_def failure_def runtime_failure_of_def
      split: if_splits option.splits)

lemma turn_exception_sound:
  assumes "turn_exception v t rn = (evs, rn')"
  shows "list_all (phase_sound (executions_now rn > tv_start v) (tv_visible v)) evs \<and> executions_now rn' = executions_now rn"
proof -
  have "(\<exists>bs. rn_bridge rn = Some bs \<and> host_executions bs > tv_start v) \<longleftrightarrow> executions_now rn > tv_start v"
    by (auto simp: executions_now_def split: option.split)
  with phase_sound_exception[of "rn_bridge rn" "tv_start v" "tv_visible v" t rn evs rn'] assms
    exception_end_view[of "rn_bridge rn" "tv_start v" "tv_visible v" t rn evs rn']
  show ?thesis by (simp add: turn_exception_def)
qed

lemma conclude_sound:
  assumes "conclude H request result rn v = (evs, rn')"
  shows "list_all (phase_sound (executions_now rn > tv_start v) (tv_visible v)) evs \<and> executions_now rn' = executions_now rn"
  using assms turn_exception_sound[of v True rn] phase_sound_failure[where rn = rn and v = v]
  by (auto simp: conclude_def Let_def split: if_splits sum.splits option.splits prod.splits)

lemma turn_ended_sound:
  assumes "turn_ended H request ending rn v (st, rn')"
  shows "list_all (phase_sound (executions_now rn > tv_start v) (tv_visible v)) (fst st) \<and>
    executions_now rn' = executions_now rn"
proof -
  have native: "list_all (phase_sound (executions_now rn > tv_start v) (tv_visible v)) (fst st) \<and>
      executions_now rn' = executions_now rn" if n: "native_end ending rn v = (st, rn')"
  proof (cases ending)
    case RaisedRuntimeError
    obtain evs r where t: "turn_exception v False (cancel_session rn) = (evs, r)" by fastforce
    from turn_exception_sound[OF this] t n RaisedRuntimeError show ?thesis by (auto simp: native_end_def)
  qed (use n phase_sound_failure[where rn = rn and v = v] in \<open>auto simp: native_end_def raised_def\<close>)
  have normal: "list_all (phase_sound (executions_now rn > tv_start v) (tv_visible v)) (fst st) \<and>
      executions_now rn' = executions_now rn" if n: "end_turn H request ending rn v = (st, rn')"
  proof (cases ending)
    case (Returned r)
    obtain evs r' where t: "conclude H request r rn v = (evs, r')" by fastforce
    from conclude_sound[OF this] t n Returned show ?thesis by (auto simp: end_turn_def)
  next
    case RaisedRuntimeError
    obtain evs r where t: "turn_exception v False rn = (evs, r)" by fastforce
    from turn_exception_sound[OF this] t n RaisedRuntimeError show ?thesis by (auto simp: end_turn_def)
  qed (use n in \<open>auto simp: end_turn_def raised_def\<close>)
  from assms native normal show ?thesis by (auto simp: turn_ended_def raised_def)
qed

lemma phase_sound_weaken:
  "list_all (phase_sound x y) evs \<Longrightarrow> (x' \<Longrightarrow> x) \<Longrightarrow> (y' \<Longrightarrow> y) \<Longrightarrow> list_all (phase_sound x' y') evs"
  by (auto simp: list_all_iff phase_sound_def split: runtime_event.splits)

text \<open>What opening a turn does to the executions counted.\<close>

lemma begin_turn_executions: "begin_turn c b = Inr b' \<Longrightarrow> hb_host_execution_count b' = hb_host_execution_count b"
  by (auto simp: begin_turn_def config_error_def split: if_splits option.splits)

lemma bind_turn_executions:
  assumes "bind_turn H request rn = (out, rn')"
  shows "executions_now rn' = executions_now rn \<and> rn_session rn' = rn_session rn \<and>
    (\<forall>v. out = Opened v \<longrightarrow> tv_start v = executions_now rn' \<and> \<not> tv_visible v)"
  using assms begin_turn_executions
  by (auto simp: bind_turn_def executions_now_def host_executions_def Let_def
      split: option.splits sum.splits)

lemma first_session_executions:
  assumes "first_session rt H env host request resume contract rn = (out, rn')"
  shows "executions_now rn' \<le> executions_now rn"
proof -
  have "hb_host_execution_count b = 0" if "build_bridge rt H env request = Inr b" for b
  proof -
    from that obtain schemas correlation where
      "(case bridge_new rt H (te_services env) (seq_items H schemas) (Some []) correlation of
          Inl _ \<Rightarrow> Inl OtherError | Inr b \<Rightarrow> Inr b) = Inr b"
      unfolding build_bridge_def and_then_Inr by blast
    then have "bridge_new rt H (te_services env) (seq_items H schemas) (Some []) correlation = Inr b"
      by (cases "bridge_new rt H (te_services env) (seq_items H schemas) (Some []) correlation") simp_all
    from bridge_new_ok[OF this] show ?thesis by blast
  qed
  then show ?thesis
    using assms
    by (auto simp: first_session_def executions_now_def host_executions_def open_bridge_def Let_def
        split: sum.splits)
qed

lemma restart_executions:
  "restart_session rt H request resume rn = (out, rn') \<Longrightarrow> executions_now rn' = executions_now rn"
  by (auto simp: restart_session_def executions_now_def Let_def split: sum.splits option.splits)

lemma open_turn_executions:
  assumes "open_turn rt H env host request resume rn = (out, rn')"
  shows "executions_now rn' \<le> executions_now rn \<and>
    (\<forall>v. out = Opened v \<longrightarrow> tv_start v = executions_now rn' \<and> \<not> tv_visible v)"
proof -
  have not_opened: "\<not> (\<exists>v. o1 = Some (Opened v))"
    if "first_session rt H env host request resume contract rn = (o1, r1) \<or> restart_session rt H request resume rn = (o1, r1)"
    for contract o1 r1
    using that by (auto simp: first_session_def restart_session_def Let_def split: sum.splits option.splits)
  show ?thesis
  proof (cases "session_contract H request")
    case (Inl e)
    with assms show ?thesis by (auto simp: open_turn_def)
  next
    case (Inr contract)
    define first where "first = (case rn_session rn of
        None \<Rightarrow> first_session rt H env host request resume contract rn
      | Some s \<Rightarrow> if rn_contract rn \<noteq> Some contract then (Some ContractChanged, rn)
          else if can_restart_after_cancel s then restart_session rt H request resume rn else (None, rn))"
    obtain o1 r1 where f: "first = (o1, r1)" by fastforce
    have le: "executions_now r1 \<le> executions_now rn" and no: "\<And>v. o1 \<noteq> Some (Opened v)"
      using f first_session_executions[of rt H env host request resume contract rn o1 r1]
        restart_executions[of rt H request resume rn o1 r1] not_opened[of contract o1 r1]
      unfolding first_def by (auto split: option.splits if_splits)
    show ?thesis
    proof (cases o1)
      case None
      with Inr f assms have "bind_turn H request r1 = (out, rn')"
        unfolding first_def by (simp add: open_turn_def)
      from bind_turn_executions[OF this] le show ?thesis by simp
    next
      case (Some x)
      with Inr f assms have "out = x" "rn' = r1" unfolding first_def by (simp_all add: open_turn_def)
      with Some le no show ?thesis by simp
    qed
  qed
qed

lemma preflight_view:
  assumes "preflight H env request rn = (r, rn')"
  shows "\<exists>p. rn' = rn\<lparr>rn_preflight := p\<rparr> \<and> (p = None \<or> p = Some request \<and> r = Inr None)"
  using assms
  by (auto simp: preflight_def Let_def split: sum.splits if_splits prod.splits)

lemma admit_view:
  assumes "admit rt H env host request rn = (r, rn')"
  shows "rn' = rn\<lparr>rn_observations := [], rn_preflight := None\<rparr>"
proof -
  have "\<exists>p. r2 = rn\<lparr>rn_observations := [], rn_preflight := p\<rparr> \<and> (p = None \<or> r1 = Inr None)"
    if "preflight H env request (rn\<lparr>rn_observations := [], rn_preflight := None\<rparr>) = (r1, r2)" for r1 r2
    using preflight_view[OF that] by auto
  then show ?thesis
    using assms
    by (auto simp: admit_def consume_preflight_def Let_def split: prod.splits if_splits sum.splits option.splits)
qed

lemma run_after_bridge:
  assumes "rn_bridge rn3 = map_option (bridge_after rt ops) (rn_bridge rn2)"
  shows "rn_bridge rn2 = None \<Longrightarrow> executions_now rn3 = 0"
  using assms by (simp add: executions_now_def)

lemma admit_sound:
  assumes "admit rt H env host request rn = (Inl st, rn')"
  shows "list_all (phase_sound False False) (fst st) \<and> list_all (\<lambda>e. \<not> is_content e) (fst st)"
proof -
  have turn: "list_all (phase_sound False False) (fst st) \<and> list_all (\<lambda>e. \<not> is_content e) (fst st)"
    if "admit_turn rt H env host request r = Inl st" for r st
    using that
    by (auto simp: admit_turn_def refused_def raised_def phase_sound_def failure_def runtime_failure_of_def
        is_content_def split: if_splits sum.splits turn_error.splits option.splits prod.splits)
  have pre: "phase_sound False False (FailedEvent f)" if "preflight H env request r = (Inr (Some f), r')" for r r' f
    using that
    by (auto simp: preflight_def Let_def phase_sound_def failure_def runtime_failure_of_def
        split: sum.splits if_splits prod.splits)
  show ?thesis
    using assms turn pre
    by (auto simp: admit_def Let_def raised_def is_content_def phase_sound_def failure_def runtime_failure_of_def
        split: prod.splits if_splits sum.splits option.splits)
qed


subsection \<open>Completion\<close>

lemma conclude_completed:
  assumes "CompletedEvent c \<in> set (fst (conclude H request r rn v))"
  shows "sr_outcome r = COMPLETE \<and> \<not> tv_unavailable v \<and>
    map_of c (lit ''text'') = Some (CText (case sr_final_text r of None \<Rightarrow> [] | Some t \<Rightarrow> t)) \<and>
    (case sr_external_session_id r of None \<Rightarrow> True
     | Some i \<Rightarrow> fst (conclude H request r rn v) = [StateEvent i, CompletedEvent c])"
  using assms exception_end_events(2)[of "rn_bridge rn" "tv_start v" "tv_visible v" rn]
  by (auto simp: conclude_def turn_exception_def completion_of_def Let_def
      split: if_splits sum.splits option.splits prod.splits)

lemma native_end_not_completed: "CompletedEvent c \<notin> set (fst (fst (native_end ending rn v)))"
  using exception_end_events(1)[of "rn_bridge rn" "tv_start v" "tv_visible v" "cancel_session rn"]
  by (auto simp: native_end_def turn_exception_def raised_def Let_def split: turn_end.split prod.split)

lemma admit_not_completed:
  assumes "admit rt H env host request rn = (Inl st, rn')"
  shows "CompletedEvent c \<notin> set (fst st)"
proof -
  have turn: "CompletedEvent c \<notin> set (fst st)" if "admit_turn rt H env host request r = Inl st" for r st
    using that
    by (auto simp: admit_turn_def refused_def raised_def
        split: if_splits sum.splits turn_error.splits option.splits prod.splits)
  show ?thesis
    using assms turn
    by (auto simp: admit_def Let_def raised_def split: prod.splits if_splits sum.splits option.splits)
qed

lemma completed_from_conclude:
  assumes "run_turn rt H env host request inputs ending rn = (st, rn')" "CompletedEvent c \<in> set (fst st)"
  shows "\<exists>r rn3 v3. ending = Returned r \<and> CompletedEvent c \<in> set (fst (conclude H request r rn3 v3))"
  using assms(1)
proof (cases rule: run_turn_split)
  case not_admitted
  with admit_not_completed[OF this] assms(2) show ?thesis by blast
next
  case changed
  with assms(2) show ?thesis by (simp add: refused_def)
next
  case (not_opened prompt resume rn1 rn2 b)
  with assms(2) exception_end_events(1)[of b 0 False rn2] show ?thesis by (cases st) auto
next
  case (ran prompt resume rn1 rn2 v used rest last rn3 v3)
  have "CompletedEvent c \<notin> set (surfaced_events (correlation_of H request) used)"
    by (auto simp: surfaced_events_def surfaced_def public_event_def split: runtime_event.splits)
  with assms(2) ran(4) have l: "CompletedEvent c \<in> set last" by auto
  with ran(5) native_end_not_completed[of c ending rn3 v3]
  have "((last, snd st), rn') = end_turn H request ending rn3 v3"
    by (auto simp: turn_ended_def raised_def) (metis fst_conv)
  with l exception_end_events(1)[of "rn_bridge rn3" "tv_start v3" "tv_visible v3" rn3] show ?thesis
    by (auto simp: end_turn_def turn_exception_def raised_def split: turn_end.splits prod.splits)
       (metis fst_conv)
qed

text \<open>
  C2: A completed event is backed by the session and its billing: when the task of the turn is
  a session that reached its end with a result, a completed event means that the session
  reported completion with a billing decision that allows the turn, and the event's text is
  the session's final text; nothing a projection queues can complete a turn.
\<close>

theorem completed_event_was_billed:
  assumes "run_turn rt H env host request inputs (Returned r) rn = ((evs, raises), rn')"
    and "CompletedEvent c \<in> set evs"
    and "session_reach rt H' allowed (s, Finished (Some (Returned r)))"
  shows "sr_outcome r = COMPLETE \<and> (\<exists>d. sr_billing_decision r = Some d \<and> bd_allowed d) \<and>
    map_of c (lit ''text'') = Some (CText (case sr_final_text r of None \<Rightarrow> [] | Some t \<Rightarrow> t))"
proof -
  from completed_from_conclude[OF assms(1), of c] assms(2) obtain rn3 v3 where
    "CompletedEvent c \<in> set (fst (conclude H request r rn3 v3))" by fastforce
  from conclude_completed[OF this] completion.always[OF assms(3)] show ?thesis
    by (auto simp: complete_inv_def justified_def)
qed

subsection \<open>A concrete turn\<close>

definition request_heap :: heap where
  "request_heap = (\<lambda>_. ODict [])
     (2 := OInst (lit ''Request'')
        [(lit ''selection'', Some (PRef 3)), (lit ''session_state'', Some PNone), (lit ''messages'', Some (PRef 4)),
         (lit ''prompt_snapshot'', Some (PStr (lit ''p''))), (lit ''tool_schemas'', Some (PRef 6)),
         (lit ''tool_schema_hash'', Some (PStr (lit ''h''))), (lit ''correlation_id'', Some PNone)],
      3 := OInst (lit ''Selection'')
        [(lit ''provider'', Some (PStr (lit ''claude-agent-sdk''))),
         (lit ''api_mode'', Some (PStr (lit ''agent_runtime''))), (lit ''model'', Some (PStr FABLE_51_MODEL_ID))],
      4 := OList [PRef 5],
      5 := ODict [(PStr (lit ''role''), PStr (lit ''user'')), (PStr (lit ''content''), PStr (lit ''hi''))],
      6 := OList [])"

definition sample_env :: turn_env where
  "sample_env = \<lparr>te_parse_module = (\<lambda>_. None), te_distribution = NotInstalled,
     te_auth = AuthPreflight (auth_result SUBSCRIPTION_OAUTH), te_cancelled = Inr (PBool False),
     te_services = True, te_server = Some PNone, te_environ = PNone, te_empty_tuple = 7, te_tools_tuple = 8\<rparr>"

definition sample_contract :: contract where
  "sample_contract = (PStr (lit ''claude-agent-sdk''), PStr FABLE_51_MODEL_ID, PStr (lit ''agent_runtime''),
     PStr (lit ''h''), PStr (lit ''p''))"

definition empty_bridge :: HostToolBridge where
  "empty_bridge = \<lparr>hb_correlation_id = None, hb_excluded_names = [], hb_definitions = [],
     hb_sdk_call_count = 0, hb_host_execution_count = 0\<rparr>"

text \<open>A runtime with an open session that has just checked the request.\<close>

definition ready_runtime :: runtime where
  "ready_runtime = (runtime_new (PStr (lit ''.'')) PNone (FFin 600))
     \<lparr>rn_session := Some asked_session, rn_bridge := Some (open_bridge empty_bridge), rn_host := Some 3,
      rn_contract := Some sample_contract, rn_projector := Some sample_projector,
      rn_preflight := Some (PRef 2)\<rparr>"

lemmas request_simps = request_heap_def attr_required_def attr_or_none_def attr_of_def selection_attr_def

lemma request_reads:
  "resume_id request_heap (PRef 2) = Inr (None, True)"
  "session_contract request_heap (PRef 2) = Inr sample_contract"
  "response_messages request_heap (PRef 2) = Inr [PRef 5]"
  "selection_attr request_heap (PRef 2) ''model'' = Inr (PStr FABLE_51_MODEL_ID)"
  "attr_required request_heap (PRef 2) ''correlation_id'' = Inr PNone"
  "build_sdk_turn_input rt request_heap (PRef 2) = Inr (Some (PlainPrompt (lit ''hi'')))"
proof -
  show "resume_id request_heap (PRef 2) = Inr (None, True)"
    by (simp add: resume_id_def request_simps)
  show "session_contract request_heap (PRef 2) = Inr sample_contract"
    by (simp add: session_contract_def request_simps sample_contract_def)
  show "response_messages request_heap (PRef 2) = Inr [PRef 5]"
    by (simp add: response_messages_def request_simps py_iter_def dict_of_def is_mapping_def mapping_items_def)
  show "selection_attr request_heap (PRef 2) ''model'' = Inr (PStr FABLE_51_MODEL_ID)"
    by (simp add: request_simps)
  show "attr_required request_heap (PRef 2) ''correlation_id'' = Inr PNone"
    by (simp add: request_simps)
  show "build_sdk_turn_input rt request_heap (PRef 2) = Inr (Some (PlainPrompt (lit ''hi'')))"
    by (simp add: build_sdk_turn_input_def request_simps seq_items_def is_mapping_def mapping_get_def
        mapping_find_def mapping_items_def message_prompt_def turn_text_def nonempty_def py_strip_def
        lit_def py_isspace_def MAX_TURN_TEXT_def)
qed

lemma ready_admitted:
  "admit rt request_heap sample_env 3 (PRef 2) ready_runtime =
     (Inr (PlainPrompt (lit ''hi''), None), ready_runtime\<lparr>rn_preflight := None\<rparr>)"
  by (simp add: admit_def consume_preflight_def admit_turn_def ready_runtime_def runtime_new_def sample_env_def
      request_reads)

lemma ready_opened:
  "\<exists>v. open_turn rt request_heap sample_env 3 (PRef 2) None (ready_runtime\<lparr>rn_preflight := None\<rparr>) =
     (Opened v, ready_runtime\<lparr>rn_preflight := None, rn_projector := Some (pj_begin_turn PNone sample_projector)\<rparr>) \<and>
     \<not> tv_unavailable v"
  by (simp add: open_turn_def request_reads ready_runtime_def runtime_new_def can_restart_after_cancel_def
      bind_turn_def begin_turn_def open_bridge_def empty_bridge_def Let_def)

lemma ready_completes:
  assumes "sr_outcome r = COMPLETE"
  shows "\<exists>evs c rn'. run_turn rt request_heap sample_env 3 (PRef 2) [] (Returned r) ready_runtime = ((evs, False), rn') \<and>
    CompletedEvent c \<in> set evs"
proof -
  obtain v where v: "open_turn rt request_heap sample_env 3 (PRef 2) None (ready_runtime\<lparr>rn_preflight := None\<rparr>) =
     (Opened v, ready_runtime\<lparr>rn_preflight := None, rn_projector := Some (pj_begin_turn PNone sample_projector)\<rparr>)"
     "\<not> tv_unavailable v"
    using ready_opened by blast
  have "run_turn rt request_heap sample_env 3 (PRef 2) [] (Returned r) ready_runtime =
      end_turn request_heap (PRef 2) (Returned r)
        (ready_runtime\<lparr>rn_preflight := None, rn_projector := Some (pj_begin_turn PNone sample_projector)\<rparr>) v"
    by (simp add: run_turn_def ready_admitted v(1))
  with v(2) assms show ?thesis
    by (auto simp: end_turn_def conclude_def request_reads Let_def split: prod.split)
qed

theorem completed_event_was_billed_witness:
  "\<exists>r evs rn' c. run_turn sample_rt request_heap sample_env 3 (PRef 2) [] (Returned r) ready_runtime = ((evs, False), rn') \<and>
     CompletedEvent c \<in> set evs \<and> (\<exists>d. sr_billing_decision r = Some d \<and> bd_allowed d)"
proof -
  obtain s r where s: "session_reach sample_rt turn_heap [] (s, Finished (Some (Returned r)))" "sr_outcome r = COMPLETE"
    using complete_reached by blast
  obtain evs c rn' where run:
    "run_turn sample_rt request_heap sample_env 3 (PRef 2) [] (Returned r) ready_runtime = ((evs, False), rn')"
    "CompletedEvent c \<in> set evs"
    using ready_completes[OF s(2)] by blast
  from completed_event_was_billed[OF run s(1)] run show ?thesis by blast
qed



end
