(* ===== verification/Runtime_State.thy ===== *)
theory Runtime_State
  imports Runtime_Turns
begin

section \<open>Authorization and state of the runtime\<close>

text \<open>
  Who may start a turn, and what the runtime keeps over its turns. The operations a host calls
  are the steps of \<open>runtime_step\<close>; the invariants hold in every runtime they reach.
\<close>

subsection \<open>Preflight\<close>

definition authorized :: "heap \<Rightarrow> turn_env \<Rightarrow> pyval \<Rightarrow> bool" where
  "authorized H env request \<longleftrightarrow>
     selection_supported H request = Inr True \<and>
     (\<exists>i. resume_id H request = Inr (i, True)) \<and>
     (\<exists>model. selection_attr H request ''model'' = Inr model \<and> model_compatible env model) \<and>
     check_auth H (te_auth env)"

lemma preflight_passes: "fst (preflight H env request rn) = Inr None \<longleftrightarrow> authorized H env request"
  by (auto simp: preflight_def authorized_def Let_def split: sum.splits prod.splits)

lemma preflight_failure:
  "fst (preflight H env request rn) = Inr (Some f) \<Longrightarrow> rf_phase f = PREFLIGHT"
  by (auto simp: preflight_def Let_def failure_def runtime_failure_of_def split: sum.splits prod.splits if_splits)

text \<open>
  The preflight passes exactly for a request of the declared provider, mode and model whose
  resume state is acceptable, with the pinned SDK and CLI installed, and an authentication
  that answers allowed by subscription; passing authorises this very request and no other,
  and everything else leaves no authorisation behind.
\<close>

theorem preflight_authorizes_one_request:
  "(fst (preflight H env request rn) = Inr None \<longleftrightarrow> authorized H env request) \<and>
   snd (preflight H env request rn) =
     rn\<lparr>rn_preflight := (if authorized H env request then Some request else None)\<rparr>"
proof -
  obtain r rn' where p: "preflight H env request rn = (r, rn')" by fastforce
  have "rn' = rn\<lparr>rn_preflight := (if r = Inr None then Some request else None)\<rparr>"
    using p by (auto simp: preflight_def Let_def split: sum.splits prod.splits if_splits)
  with p preflight_passes[of H env request rn] show ?thesis by simp
qed

text \<open>
  C12: An authorisation is used once. A turn on a request that is neither the one the last
  preflight passed nor passes now opens nothing: the session, the bridge and every binding of
  the runtime stay as they are, and at most one event, a preflight failure, is yielded; and
  after any turn no authorisation is left.
\<close>

theorem unauthorized_turn_opens_nothing:
  assumes "run_turn rt H env host request inputs ending rn = ((evs, raises), rn')"
    and "rn_preflight rn \<noteq> Some request" "\<not> authorized H env request"
  shows "rn' = rn\<lparr>rn_observations := [], rn_preflight := None\<rparr> \<and>
    (evs = [] \<and> raises \<or> (\<exists>f. evs = [FailedEvent f] \<and> rf_phase f = PREFLIGHT \<and> \<not> raises))"
proof -
  let ?r = "rn\<lparr>rn_observations := [], rn_preflight := None\<rparr>"
  obtain r rn1 where p: "preflight H env request ?r = (r, rn1)" by fastforce
  have r: "r \<noteq> Inr None" using preflight_passes[of H env request ?r] p assms(3) by simp
  have rn1: "rn1 = ?r" using preflight_view[OF p] r by auto
  have a: "admit rt H env host request rn = (case r of Inr (Some f) \<Rightarrow> (Inl ([FailedEvent f], False), ?r) | _ \<Rightarrow> (Inl raised, ?r))"
    using assms(2) p rn1 r
    by (auto simp: admit_def consume_preflight_def split: sum.split option.split)
  show ?thesis
    using assms(1) a r preflight_failure[of H env request ?r] p
    by (auto simp: run_turn_def raised_def split: sum.splits option.splits)
qed

theorem unauthorized_turn_opens_nothing_witness:
  "\<exists>evs raises. run_turn sample_rt request_heap (sample_env\<lparr>te_auth := AuthRaised\<rparr>) 3 (PRef 2) [] RaisedRuntimeError
      (ready_runtime\<lparr>rn_preflight := None\<rparr>) = ((evs, raises), ready_runtime\<lparr>rn_observations := [], rn_preflight := None\<rparr>)"
proof -
  let ?env = "sample_env\<lparr>te_auth := AuthRaised\<rparr>" and ?rn = "ready_runtime\<lparr>rn_preflight := None\<rparr>"
  obtain evs raises rn' where run:
    "run_turn sample_rt request_heap ?env 3 (PRef 2) [] RaisedRuntimeError ?rn = ((evs, raises), rn')"
    by (metis prod.exhaust)
  have "rn_preflight ?rn \<noteq> Some (PRef 2)" "\<not> authorized request_heap ?env (PRef 2)"
    by (simp_all add: authorized_def check_auth_def)
  from unauthorized_turn_opens_nothing[OF run this] run show ?thesis by simp
qed

subsection \<open>Invariants of the runtime\<close>

inductive runtime_step :: "pyrt \<Rightarrow> runtime \<Rightarrow> runtime \<Rightarrow> bool" for rt :: pyrt where
  checks: "runtime_step rt rn (snd (preflight H env request rn))"
| runs: "runtime_step rt rn (snd (run_turn rt H env host request inputs ending rn))"
| closes: "runtime_step rt rn (close_runtime rn)"

definition runtime_start :: "runtime \<Rightarrow> bool" where
  "runtime_start rn \<longleftrightarrow> (\<exists>cwd parent_env watchdog. rn = runtime_new cwd parent_env watchdog)"

abbreviation runtime_reach :: "pyrt \<Rightarrow> runtime \<Rightarrow> bool" where
  "runtime_reach rt \<equiv> reach runtime_start (runtime_step rt)"

text \<open>What the assertions of the source rely on, and the bound of the observations.\<close>

definition observation_ok :: "ustr \<Rightarrow> bool" where
  "observation_ok n \<longleftrightarrow> n \<noteq> [] \<and> length n \<le> 128 \<and> list_all observation_char n"

definition observations_ok :: "ustr list \<Rightarrow> bool" where
  "observations_ok seen \<longleftrightarrow> length seen \<le> 64 \<and> list_all observation_ok seen"

definition bound :: "runtime \<Rightarrow> bool" where
  "bound rn \<longleftrightarrow> (rn_session rn \<noteq> None \<longrightarrow>
     rn_host rn \<noteq> None \<and> rn_bridge rn \<noteq> None \<and> rn_contract rn \<noteq> None \<and> rn_configuration rn \<noteq> None \<and>
     rn_projector rn \<noteq> None)"

lemma observe_tool_ok: "observations_ok seen \<Longrightarrow> observations_ok (observe_tool n seen)"
  by (auto simp: observe_tool_def observations_ok_def safe_tool_observation_name_def observation_ok_def Let_def
      SAFE_TOOL_OBSERVATION_NAME_def fullmatch_Rep MAX_TURN_TOOL_OBSERVATIONS_def
      MAX_TOOL_OBSERVATION_NAME_CHARS_def split: option.split)

lemma fold_observe_ok: "observations_ok seen \<Longrightarrow> observations_ok (fold observe_tool ns seen)"
  by (induction ns arbitrary: seen) (simp_all add: observe_tool_ok)

text \<open>The loop and the end of a turn keep everything but the session's own state.\<close>

definition same_binding :: "runtime \<Rightarrow> runtime \<Rightarrow> bool" where
  "same_binding rn rn' \<longleftrightarrow>
     (rn_session rn \<noteq> None \<longrightarrow> rn_session rn' \<noteq> None) \<and> rn_host rn' = rn_host rn \<and>
     (rn_bridge rn = None \<longleftrightarrow> rn_bridge rn' = None) \<and> rn_contract rn' = rn_contract rn \<and>
     rn_configuration rn' = rn_configuration rn \<and> (rn_projector rn = None \<longleftrightarrow> rn_projector rn' = None) \<and>
     (observations_ok (rn_observations rn) \<longrightarrow> observations_ok (rn_observations rn'))"

lemma same_binding_refl [simp]: "same_binding rn rn"
  by (auto simp: same_binding_def)

lemma same_binding_trans: "same_binding a b \<Longrightarrow> same_binding b c \<Longrightarrow> same_binding a c"
  by (auto simp: same_binding_def)

lemma same_binding_cancel [simp]: "same_binding rn (cancel_session rn)"
  by (auto simp: same_binding_def cancel_session_def)

lemma same_binding_exception: "same_binding rn (snd (turn_exception v t rn))"
  by (simp add: turn_exception_def exception_end_def Let_def)

lemma same_binding_conclude: "same_binding rn (snd (conclude H request r rn v))"
proof -
  obtain evs rn' where t: "turn_exception v True rn = (evs, rn')" by fastforce
  with same_binding_exception[of rn v True] have "same_binding rn rn'" by simp
  with t show ?thesis by (simp add: conclude_def Let_def split: sum.split option.split)
qed

lemma same_binding_ended:
  assumes "turn_ended H request ending rn v (st, rn')"
  shows "same_binding rn rn'"
proof -
  have "same_binding rn (snd (end_turn H request ending rn v))"
    using same_binding_exception[of rn v False] same_binding_conclude[of rn H request _ v]
    by (auto simp: end_turn_def split: turn_end.split prod.split) (metis snd_conv)+
  moreover have "same_binding rn (snd (native_end ending rn v))"
    using same_binding_trans[OF same_binding_cancel same_binding_exception[of "cancel_session rn" v False]]
      same_binding_trans[OF same_binding_cancel same_binding_cancel]
    by (auto simp: native_end_def Let_def split: turn_end.split prod.split)
  ultimately show ?thesis using assms by (auto simp: turn_ended_def) (metis snd_conv)+
qed

lemma poll_host_binding: "poll_host a rn v = (rn', v') \<Longrightarrow> same_binding rn rn'"
  by (auto simp: poll_host_def split: if_splits)

lemma same_binding_loop:
  "run_loop rt H request ending is rn v = (st, rn') \<Longrightarrow> rn_session rn \<noteq> None \<Longrightarrow> same_binding rn rn'"
proof (induction "is" arbitrary: rn v st)
  case Nil
  then show ?case by (intro same_binding_ended[of H request ending rn v st]) (simp add: turn_ended_def)
next
  case (Cons i "is")
  have via: ?case if "same_binding rn rn2" "run_loop rt H request ending is rn2 v2 = (st2, rn')" for rn2 v2 st2
  proof -
    have "rn_session rn2 \<noteq> None" using that(1) Cons.prems(2) by (simp add: same_binding_def)
    from same_binding_trans[OF that(1) Cons.IH[OF that(2) this]] show ?thesis .
  qed
  show ?case
  proof (cases i)
    case (Poll a)
    obtain rn2 v2 where p: "poll_host a rn v = (rn2, v2)" by fastforce
    with Cons.prems Poll show ?thesis by (intro via[OF poll_host_binding[OF p]]) simp
  next
    case (BridgeDoes op)
    with Cons.prems show ?thesis by (intro via[of _ v st]) (auto simp: same_binding_def)
  next
    case (SessionIs x)
    with Cons.prems show ?thesis by (intro via[of _ v st]) (auto simp: same_binding_def)
  next
    case ConsumerCancelled
    with Cons.prems show ?thesis by (auto simp: raised_def)
  next
    case (Queued r)
    define v0 where "v0 = (if pr_is_result r then v\<lparr>tv_provenance := provenance_of r\<rparr> else v)"
    show ?thesis
    proof (cases "list_ex (unexpected_tool (tv_allowed v0)) (pr_events r)")
      case True
      with Cons.prems Queued have "native_end ending rn v0 = (st, rn')" by (simp add: v0_def[symmetric])
      then show ?thesis
        by (intro same_binding_ended[of H request ending rn v0 st]) (simp add: turn_ended_def)
    next
      case False
      let ?rn = "rn\<lparr>rn_observations := fold observe_tool (List.map_filter tool_name_of (pr_events r)) (rn_observations rn)\<rparr>"
      let ?v = "v0\<lparr>tv_visible := tv_visible v0 \<or> list_ex is_content (pr_events r)\<rparr>"
      obtain st2 rn2 where l: "run_loop rt H request ending is ?rn ?v = (st2, rn2)" by fastforce
      with Cons.prems Queued False have "rn2 = rn'"
        by (auto simp: v0_def[symmetric] surface_eq split: prod.splits)
      with l show ?thesis by (intro via[of ?rn ?v st2]) (auto simp: same_binding_def fold_observe_ok)
    qed
  qed
qed

lemma new_projector_works:
  "session_contract H request = Inr c \<Longrightarrow> build_bridge rt H env request = Inr b \<Longrightarrow> \<exists>p. new_projector rt H request = Inr p"
  by (auto simp: session_contract_def build_bridge_def new_projector_def and_then_Inr)

lemma first_session_bound:
  assumes "first_session rt H env host request resume contract rn = (out, rn')" "session_contract H request = Inr contract"
    and "rn_session rn = None"
  shows "bound rn' \<and> rn_observations rn' = rn_observations rn \<and> (out = None \<longrightarrow> rn_session rn' \<noteq> None)"
  using assms new_projector_works[OF assms(2), of rt env]
  by (cases contract) (auto simp: first_session_def bound_def Let_def split: sum.splits)

lemma restart_bound:
  assumes "restart_session rt H request resume rn = (out, rn')" "bound rn" "rn_session rn \<noteq> None"
  shows "bound rn' \<and> rn_observations rn' = rn_observations rn \<and> rn_session rn' \<noteq> None \<and>
    rn_host rn' = rn_host rn \<and> rn_contract rn' = rn_contract rn"
  using assms by (auto simp: restart_session_def bound_def Let_def split: sum.splits option.splits)

lemma bind_turn_bound:
  assumes "bind_turn H request rn = (out, rn')" "bound rn"
  shows "bound rn' \<and> rn_observations rn' = rn_observations rn \<and> rn_session rn' = rn_session rn \<and>
    rn_host rn' = rn_host rn \<and> rn_contract rn' = rn_contract rn"
  using assms by (auto simp: bind_turn_def bound_def Let_def split: sum.splits option.splits)

text \<open>Once there is a session, opening a turn keeps the host and the contract.\<close>

definition kept :: "runtime \<Rightarrow> runtime \<Rightarrow> bool" where
  "kept rn rn' \<longleftrightarrow> (rn_session rn \<noteq> None \<longrightarrow>
     rn_session rn' \<noteq> None \<and> rn_host rn' = rn_host rn \<and> rn_contract rn' = rn_contract rn)"

lemma kept_refl [simp]: "kept rn rn" by (simp add: kept_def)
lemma kept_trans: "kept a b \<Longrightarrow> kept b c \<Longrightarrow> kept a c" by (auto simp: kept_def)

lemma same_binding_kept: "same_binding rn rn' \<Longrightarrow> kept rn rn'"
  by (auto simp: same_binding_def kept_def)

lemma same_binding_bound: "same_binding rn rn' \<Longrightarrow> bound rn \<Longrightarrow> rn_session rn \<noteq> None \<Longrightarrow> bound rn'"
  by (auto simp: same_binding_def bound_def)

lemma open_turn_bound:
  assumes "open_turn rt H env host request resume rn = (out, rn')" "bound rn"
  shows "bound rn' \<and> rn_observations rn' = rn_observations rn \<and> kept rn rn' \<and>
    ((\<exists>v. out = Opened v) \<longrightarrow> rn_session rn' \<noteq> None)"
proof (cases "session_contract H request")
  case (Inl e)
  with assms show ?thesis by (auto simp: open_turn_def)
next
  case (Inr contract)
  have chain: ?thesis
    if "o1 = None \<Longrightarrow> rn_session r1 \<noteq> None" "bound r1" "rn_observations r1 = rn_observations rn" "kept rn r1"
      "(case (o1, r1) of (Some out, rn) \<Rightarrow> (out, rn) | (None, rn) \<Rightarrow> bind_turn H request rn) = (out, rn')"
      "\<And>v. o1 \<noteq> Some (Opened v)" for o1 r1
  proof (cases o1)
    case None
    with that(5) have "bind_turn H request r1 = (out, rn')" by simp
    from bind_turn_bound[OF this that(2)] that None show ?thesis by (auto simp: kept_def)
  qed (use that in auto)
  show ?thesis
  proof (cases "rn_session rn")
    case None
    obtain o1 r1 where f: "first_session rt H env host request resume contract rn = (o1, r1)" by fastforce
    have "o1 \<noteq> Some (Opened v)" for v
      using f by (auto simp: first_session_def Let_def split: sum.splits)
    with first_session_bound[OF f Inr None] None f Inr assms show ?thesis
      by (intro chain[of o1 r1]) (auto simp: open_turn_def kept_def)
  next
    case (Some x)
    show ?thesis
    proof (cases "rn_contract rn = Some contract")
      case False
      with Some Inr assms show ?thesis by (auto simp: open_turn_def)
    next
      case True
      show ?thesis
      proof (cases "can_restart_after_cancel x")
        case restart: True
        obtain o1 r1 where f: "restart_session rt H request resume rn = (o1, r1)" by fastforce
        have "o1 \<noteq> Some (Opened v)" for v
          using f by (auto simp: restart_session_def Let_def split: sum.splits option.splits)
        with restart_bound[OF f assms(2)] Some True restart f Inr assms show ?thesis
          by (intro chain[of o1 r1]) (auto simp: open_turn_def kept_def)
      next
        case False
        with Some True Inr assms show ?thesis by (intro chain[of None rn]) (auto simp: open_turn_def)
      qed
    qed
  qed
qed

lemma run_turn_bound:
  assumes "bound rn"
  shows "bound (snd (run_turn rt H env host request inputs ending rn)) \<and>
    observations_ok (rn_observations (snd (run_turn rt H env host request inputs ending rn))) \<and>
    kept rn (snd (run_turn rt H env host request inputs ending rn))"
proof -
  obtain r1 rn1 where a: "admit rt H env host request rn = (r1, rn1)" by fastforce
  have rn1: "bound rn1" "rn_observations rn1 = []" "kept rn rn1"
    using admit_view[OF a] assms by (auto simp: bound_def kept_def)
  have none: "observations_ok []" by (simp add: observations_ok_def)
  show ?thesis
  proof (cases r1)
    case (Inl st)
    with a rn1 none show ?thesis by (simp add: run_turn_def)
  next
    case (Inr pr)
    obtain prompt resume where pr: "pr = (prompt, resume)" by (cases pr)
    obtain out rn2 where o: "open_turn rt H env host request resume rn1 = (out, rn2)" by fastforce
    from open_turn_bound[OF o rn1(1)] rn1 none have rn2: "bound rn2" "observations_ok (rn_observations rn2)"
      "kept rn rn2" "(\<exists>v. out = Opened v) \<longrightarrow> rn_session rn2 \<noteq> None"
      by (auto intro: kept_trans)
    show ?thesis
    proof (cases out)
      case (Opened v)
      obtain st rn3 where l: "run_loop rt H request ending inputs rn2 v = (st, rn3)" by fastforce
      have s: "rn_session rn2 \<noteq> None" using rn2(4) Opened by blast
      note same = same_binding_loop[OF l s]
      have "bound rn3 \<and> observations_ok (rn_observations rn3) \<and> kept rn rn3"
        using same_binding_bound[OF same rn2(1) s] kept_trans[OF rn2(3) same_binding_kept[OF same]] same rn2(2)
        by (simp add: same_binding_def)
      with a Inr pr o Opened l show ?thesis by (simp add: run_turn_def)
    next
      case (OpenRaised b)
      obtain evs rn3 where x: "exception_end b 0 False False rn2 = (evs, rn3)" by fastforce
      then have "rn3 = cancel_session rn2" by (rule exception_end_view)
      with rn2 have "bound rn3 \<and> observations_ok (rn_observations rn3) \<and> kept rn rn3"
        by (auto simp: cancel_session_def bound_def kept_def)
      with a Inr pr o OpenRaised x show ?thesis by (simp add: run_turn_def)
    qed (use a Inr pr o rn2 in \<open>simp add: run_turn_def\<close>)
  qed
qed

text \<open>The configuration in force: made by \<^verbatim>\<open>create\<close>, then only its resume identifier replaced.\<close>

definition configured :: "runtime \<Rightarrow> bool" where
  "configured rn \<longleftrightarrow> (case rn_configuration rn of None \<Rightarrow> True | Some c \<Rightarrow> valid_configuration c)"

lemma resume_value_ok: "resume_value v = (i, True) \<Longrightarrow> resume_ok i"
  by (auto simp: resume_value_def resume_ok_def split: pyval.splits if_splits)

lemma resume_value_rejected: "resume_value v = (i, False) \<Longrightarrow> i = None"
  by (auto simp: resume_value_def split: pyval.splits if_splits)

lemma resume_id_ok: "resume_id H request = Inr (i, ok) \<Longrightarrow> resume_ok i"
proof -
  assume a: "resume_id H request = Inr (i, ok)"
  have resumed: "resume_ok j" if "resume_value v = (j, b)" for v j b
    using that resume_value_ok[of v j] resume_value_rejected[of v j] by (cases b) (auto simp: resume_ok_def)
  from a show ?thesis
    by (auto simp: resume_id_def and_then_Inr resume_ok_def[of None] split: if_splits intro: resumed)
qed

lemma admit_resume_ok:
  assumes "admit rt H env host request rn = (Inr (prompt, resume), rn')"
  shows "resume_ok resume"
proof -
  have turn: "resume_ok resume" if "admit_turn rt H env host request r = Inr (prompt, resume)" for r
    using that resume_id_ok[of H request]
    by (auto simp: admit_turn_def split: if_splits sum.splits turn_error.splits option.splits prod.splits)
  show ?thesis
    using assms turn
    by (auto simp: admit_def Let_def split: prod.splits if_splits sum.splits option.splits)
qed

lemma configure_valid: "configure rt H env request resume contract b rn = Inr c \<Longrightarrow> valid_configuration c"
  by (auto simp: configure_def and_then_Inr intro: created_valid split: sum.splits option.splits)

lemma replaced_valid:
  "valid_configuration c \<Longrightarrow> resume_ok r \<Longrightarrow> valid_configuration (c\<lparr>cf_resume_external_session_id := r\<rparr>)"
  by (simp add: valid_configuration_def)

lemma open_turn_configured:
  assumes "open_turn rt H env host request resume rn = (out, rn')" "configured rn" "resume_ok resume"
  shows "configured rn'"
proof -
  have first: "configured r1" if "first_session rt H env host request resume contract rn = (o1, r1)" for contract o1 r1
    using that assms(2) configure_valid[of rt H env request resume contract]
    by (auto simp: first_session_def configured_def Let_def split: sum.splits)
  have restart: "configured r1" if "restart_session rt H request resume rn = (o1, r1)" for o1 r1
    using that assms(2,3) replaced_valid
    by (auto simp: restart_session_def configured_def Let_def split: sum.splits option.splits)
  have bind: "configured r2" if "bind_turn H request r1 = (o2, r2)" "configured r1" for r1 o2 r2
    using that by (auto simp: bind_turn_def configured_def Let_def split: sum.splits option.splits)
  show ?thesis
    using assms(1,2) first restart bind
    by (auto simp: open_turn_def split: sum.splits option.splits if_splits prod.splits)
qed

lemma run_turn_configured:
  assumes "configured rn" "bound rn"
  shows "configured (snd (run_turn rt H env host request inputs ending rn))"
proof -
  obtain r1 rn1 where a: "admit rt H env host request rn = (r1, rn1)" by fastforce
  have rn1: "configured rn1" "bound rn1" using admit_view[OF a] assms by (auto simp: configured_def bound_def)
  show ?thesis
  proof (cases r1)
    case (Inl st)
    with a rn1 show ?thesis by (simp add: run_turn_def)
  next
    case (Inr pr)
    obtain prompt resume where pr: "pr = (prompt, resume)" by (cases pr)
    obtain out rn2 where o: "open_turn rt H env host request resume rn1 = (out, rn2)" by fastforce
    have "resume_ok resume" using a Inr pr admit_resume_ok by blast
    from open_turn_configured[OF o rn1(1) this] have rn2: "configured rn2" .
    show ?thesis
    proof (cases out)
      case (Opened v)
      obtain st rn3 where l: "run_loop rt H request ending inputs rn2 v = (st, rn3)" by fastforce
      have "rn_session rn2 \<noteq> None" using open_turn_bound[OF o rn1(2)] Opened by blast
      from same_binding_loop[OF l this] rn2 have "configured rn3" by (simp add: same_binding_def configured_def)
      with a Inr pr o Opened l show ?thesis by (simp add: run_turn_def)
    next
      case (OpenRaised b)
      obtain evs rn3 where x: "exception_end b 0 False False rn2 = (evs, rn3)" by fastforce
      then have "rn3 = cancel_session rn2" by (rule exception_end_view)
      with rn2 have "configured rn3" by (simp add: cancel_session_def configured_def)
      with a Inr pr o OpenRaised x show ?thesis by (simp add: run_turn_def)
    qed (use a Inr pr o rn2 in \<open>simp add: run_turn_def\<close>)
  qed
qed

definition runtime_inv :: "runtime \<Rightarrow> bool" where
  "runtime_inv rn \<longleftrightarrow> bound rn \<and> observations_ok (rn_observations rn) \<and> configured rn"

lemma runtime_step_inv:
  assumes "runtime_inv rn" "runtime_step rt rn rn'"
  shows "runtime_inv rn' \<and> kept rn rn'"
  using assms(2)
proof cases
  case (checks H env request)
  obtain r r' where "preflight H env request rn = (r, r')" by fastforce
  with preflight_view[OF this] checks assms(1) show ?thesis
    by (auto simp: runtime_inv_def bound_def kept_def configured_def)
next
  case (runs H env host request inputs ending)
  with run_turn_bound[of rn rt H env host request inputs ending]
    run_turn_configured[of rn rt H env host request inputs ending] assms(1) show ?thesis
    by (simp add: runtime_inv_def)
next
  case closes
  with assms(1) show ?thesis by (auto simp: close_runtime_def runtime_inv_def bound_def kept_def configured_def)
qed

interpretation runtime: inductive_invariant runtime_start "runtime_step rt" runtime_inv
proof unfold_locales
  show "runtime_start rn \<Longrightarrow> runtime_inv rn" for rn
    by (auto simp: runtime_start_def runtime_new_def runtime_inv_def bound_def observations_ok_def configured_def)
  show "runtime_inv rn \<Longrightarrow> runtime_step rt rn rn' \<Longrightarrow> runtime_inv rn'" for rn rn'
    using runtime_step_inv by blast
qed



text \<open>
  C14: The binding of an open session is permanent: through any further checks, turns and
  closes, and whatever other hosts or contracts they bring, a runtime with a session keeps a
  session and the host and the contract it was opened with.
\<close>

theorem session_binding_permanent:
  assumes "runtime_reach rt rn" "rn_session rn \<noteq> None" "(runtime_step rt)\<^sup>*\<^sup>* rn rn'"
  shows "rn_session rn' \<noteq> None \<and> rn_host rn' = rn_host rn \<and> rn_contract rn' = rn_contract rn"
proof -
  from assms(3,1) have "kept rn rn' \<and> runtime_reach rt rn'"
  proof (induction rule: rtranclp_induct)
    case (step y z)
    then have y: "kept rn y" "runtime_reach rt y" by simp_all
    from runtime_step_inv[OF runtime.always[OF y(2)] step(2)] y reach.further[OF y(2) step(2)] show ?case
      by (auto intro: kept_trans)
  qed simp
  with assms(2) show ?thesis by (simp add: kept_def)
qed

subsection \<open>A first turn\<close>

definition good_distribution :: distribution where
  "good_distribution = \<lparr>di_version = Present (PStr (lit ''0.2.151'')),
     di_read_text = (\<lambda>_. Inr (PStr (lit ''v''))), di_files = Inr []\<rparr>"

definition good_env :: turn_env where
  "good_env = sample_env\<lparr>te_distribution := Installed good_distribution,
     te_parse_module := (\<lambda>_. Some [AssignNames [Some (lit ''__cli_version__'')] (Some (PStr (lit ''2.1.258'')))])\<rparr>"

definition fresh_runtime :: runtime where
  "fresh_runtime = runtime_new (PStr (lit ''.'')) PNone (FFin 600)"

lemma good_versions: "version_text (lit ''0.2.151'') = Inr (Some (0, 2, 151))"
  "version_text (lit ''0.2.152'') = Inr (Some (0, 2, 152))" "version_text (lit ''2.1.258'') = Inr (Some (2, 1, 258))"
  using pinned_versions by (simp_all add: FABLE_51_MIN_SDK_VERSION_def SDK_MAX_VERSION_def FABLE_51_MIN_CLI_VERSION_def)

lemma good_model_compatible: "model_compatible good_env (PStr FABLE_51_MODEL_ID)"
proof -
  have range: "range_version_tuple (PStr (lit ''0.2.151'')) = Inr (Some (0, 2, 151))"
    "range_version_tuple (PStr (lit ''0.2.152'')) = Inr (Some (0, 2, 152))"
    by (simp_all add: range_version_tuple_def version_tuple_def good_versions)
  have source: "read_bundled_cli_source good_distribution = Some (lit ''v'')"
    by (simp add: read_bundled_cli_source_def good_distribution_def text_or_none_def)
  have cli: "parse_bundled_cli_version (te_parse_module good_env) (read_bundled_cli_source good_distribution) =
      Inr (Some (lit ''2.1.258''))"
    unfolding source by (simp add: parse_bundled_cli_version_def good_env_def cli_version_assignment_def good_versions)
  have order: "version_le (0, 2, 151) (0, 2, 151)" "version_less (0, 2, 151) (0, 2, 152)"
    by (simp_all add: version_le_def version_less_def)
  have "sdk_metadata (te_parse_module good_env) (te_distribution good_env) =
      Inr (report_base\<lparr>sr_installed_version := Some (lit ''0.2.151''), sr_bundled_cli_version := Some (lit ''2.1.258''),
                      sr_compatible := True, sr_metadata_status := lit ''compatible''\<rparr>)"
    using cli by (simp add: sdk_metadata_def good_env_def good_distribution_def version_tuple_def good_versions
        Let_def SDK_MIN_VERSION_def SDK_MAX_VERSION_def range order)
  then show ?thesis
    by (simp add: model_compatible_def check_model_compatibility_def Let_def report_of_metadata_def dict_get_def
        report_fields_def of_text_def check_versions_def version_tuple_def good_versions FABLE_51_MIN_SDK_VERSION_def
        SDK_MAX_VERSION_def FABLE_51_MIN_CLI_VERSION_def range order)
qed

lemma good_authorized: "authorized request_heap good_env (PRef 2)"
proof -
  have "selection_supported request_heap (PRef 2) = Inr True"
    by (simp add: selection_supported_def request_simps in_names_def eval_nat_numeral PROVIDER_IDS_def API_MODES_def
        is_supported_model_id_def)
  moreover have "check_auth request_heap (te_auth good_env)"
    by (simp add: check_auth_def good_env_def sample_env_def auth_result_def category_text_def)
  ultimately show ?thesis
    using good_model_compatible by (simp add: authorized_def request_reads)
qed

lemma first_bridge: "build_bridge sample_rt request_heap good_env (PRef 2) = Inr empty_bridge"
  by (simp add: build_bridge_def request_simps seq_items_def bridge_new_def good_env_def sample_env_def
      safe_identifier_def normalize_tool_schemas_def empty_bridge_def)

lemma first_configuration:
  assumes "rn_cwd rn = PStr (lit ''.'')" "rn_parent_env rn = PNone"
  shows "\<exists>c. configure sample_rt request_heap good_env (PRef 2) None sample_contract empty_bridge rn = Inr c"
proof -
  have ids: "safe_identifier (PStr MCP_SERVER_NAME) MAX_NAME_UTF8_BYTES = Some MCP_SERVER_NAME"
    "safe_identifier (PStr (lit ''1.0.0'')) MAX_NAME_UTF8_BYTES = Some (lit ''1.0.0'')"
    unfolding safe_identifier_Some
    by (simp_all add: safe_text_def MCP_SERVER_NAME_def lit_def identifier_char_def is_alnum_def is_digit_def
        is_lower_def is_upper_def MAX_NAME_UTF8_BYTES_def)
  have tuples: "with_tuples good_env empty_bridge request_heap 7 = OTuple []"
    "with_tuples good_env empty_bridge request_heap 8 = OTuple []"
    by (simp_all add: with_tuples_def good_env_def sample_env_def empty_bridge_def tool_names_def)
  show ?thesis
    unfolding configure_def build_sdk_mcp_server_def ids
    using assms tuples
    by (simp add: good_env_def[unfolded sample_env_def] request_reads session_config_args_def sample_contract_def
        config_create_def optional_text_def checked_prompt_def checked_resume_def checked_permission_mode_def
        checked_setting_sources_def checked_allowed_tools_def checked_timeout_def as_dict_def of_text_def
        MAX_TEXT_def PERMISSION_MODES_def MAX_PROMPT_SNAPSHOT_UTF8_BYTES_def HERMES_SERVER_def MCP_SERVER_NAME_def
        FABLE_51_MODEL_ID_def py_truthy_def lit_def lits_def utf8_len_def)
qed

lemma first_turn_opens:
  "rn_session (snd (run_turn sample_rt request_heap good_env 3 (PRef 2) [] RaisedCancelled fresh_runtime)) \<noteq> None"
proof -
  let ?r1 = "fresh_runtime\<lparr>rn_observations := [], rn_preflight := None\<rparr>"
  have pre: "preflight request_heap good_env (PRef 2) ?r1 = (Inr None, ?r1\<lparr>rn_preflight := Some (PRef 2)\<rparr>)"
    using preflight_passes[of request_heap good_env "PRef 2" ?r1] good_authorized
      preflight_view[of request_heap good_env "PRef 2" ?r1]
    by (cases "preflight request_heap good_env (PRef 2) ?r1")
       (auto simp: preflight_def Let_def split: sum.splits prod.splits if_splits)
  have env: "te_cancelled good_env = Inr (PBool False)" by (simp add: good_env_def sample_env_def)
  have admitted: "admit sample_rt request_heap good_env 3 (PRef 2) fresh_runtime = (Inr (PlainPrompt (lit ''hi''), None), ?r1)"
    using pre by (simp add: admit_def consume_preflight_def admit_turn_def fresh_runtime_def runtime_new_def env request_reads)
  define r2 where "r2 = ?r1\<lparr>rn_host := Some 3\<rparr>"
  obtain c where c: "configure sample_rt request_heap good_env (PRef 2) None sample_contract empty_bridge r2 = Inr c"
    using first_configuration[of r2] by (auto simp: r2_def fresh_runtime_def runtime_new_def)
  define r3 where "r3 = r2\<lparr>rn_bridge := Some (open_bridge empty_bridge), rn_contract := Some sample_contract,
    rn_configuration := Some c\<rparr>"
  have "rn_watchdog r3 = FFin 600" by (simp add: r3_def r2_def fresh_runtime_def runtime_new_def)
  then obtain s where s: "new_session sample_rt c r3 = Inr s" by (simp add: new_session_def new_lifecycle_def)
  obtain p where p: "new_projector sample_rt request_heap (PRef 2) = Inr p"
    by (simp add: new_projector_def request_reads)
  have first: "first_session sample_rt request_heap good_env 3 (PRef 2) None sample_contract ?r1 =
      (None, r3\<lparr>rn_session := Some s, rn_projector := Some p\<rparr>)"
    using c s p by (simp add: first_session_def Let_def r2_def[symmetric] first_bridge r3_def[symmetric])
  obtain out r4 where o: "bind_turn request_heap (PRef 2) (r3\<lparr>rn_session := Some s, rn_projector := Some p\<rparr>) = (out, r4)"
    by fastforce
  from o have opened: "(\<exists>v. out = Opened v) \<and> rn_session r4 = Some s"
    by (auto simp: bind_turn_def r3_def request_reads begin_turn_def open_bridge_def Let_def)
  have "rn_session ?r1 = None" by (simp add: fresh_runtime_def runtime_new_def)
  with first o have "open_turn sample_rt request_heap good_env 3 (PRef 2) None ?r1 = (out, r4)"
    by (simp add: open_turn_def request_reads)
  with admitted opened show ?thesis
    by (auto simp: run_turn_def end_turn_def cancel_session_def)
qed

theorem session_binding_permanent_witness:
  "\<exists>rn. runtime_reach sample_rt rn \<and> rn_session rn \<noteq> None \<and> rn_contract (close_runtime rn) = rn_contract rn"
proof -
  let ?rn = "snd (run_turn sample_rt request_heap good_env 3 (PRef 2) [] RaisedCancelled fresh_runtime)"
  have "runtime_reach sample_rt fresh_runtime" by (rule reach.first) (auto simp: runtime_start_def fresh_runtime_def)
  then have r: "runtime_reach sample_rt ?rn" by (rule reach.further) (rule runtime_step.runs)
  have "(runtime_step sample_rt)\<^sup>*\<^sup>* ?rn (close_runtime ?rn)"
    by (rule r_into_rtranclp) (rule runtime_step.closes)
  from session_binding_permanent[OF r first_turn_opens this] r first_turn_opens show ?thesis by blast
qed

subsection \<open>Two observations\<close>

text \<open>
  The completion payload is built after the turn is marked terminal. A message that is no
  mapping, which the prompt skips, makes it raise there: the turn ends without any terminal
  event and without an exception.
\<close>

lemma unreadable_message_loses_completion:
  assumes "sr_outcome r = COMPLETE" "sr_external_session_id r = None"
  shows "\<exists>rn'. run_turn sample_rt (request_heap(4 := OList [PStr (lit ''x''), PRef 5])) sample_env 3 (PRef 2) []
    (Returned r) ready_runtime = (([], False), rn')"
proof -
  let ?H = "request_heap(4 := OList [PStr (lit ''x''), PRef 5])"
  have same: "attr_of ?H v n = attr_of request_heap v n" for v n
    by (cases v) (simp_all add: attr_of_def request_heap_def)
  have reads: "resume_id ?H (PRef 2) = Inr (None, True)" "session_contract ?H (PRef 2) = Inr sample_contract"
    "attr_required ?H (PRef 2) ''correlation_id'' = Inr PNone"
    using request_reads(1,2,5)
    by (simp_all add: resume_id_def session_contract_def attr_or_none_def attr_required_def selection_attr_def same
        cong: and_then_cong) (simp_all add: request_simps)
  have prompt: "build_sdk_turn_input sample_rt ?H (PRef 2) = Inr (Some (PlainPrompt (lit ''hi'')))"
    by (simp add: build_sdk_turn_input_def request_simps seq_items_def is_mapping_def mapping_get_def
        mapping_find_def mapping_items_def message_prompt_def turn_text_def nonempty_def py_strip_def
        lit_def py_isspace_def MAX_TURN_TEXT_def)
  have messages: "\<exists>e. response_messages ?H (PRef 2) = Inl e"
    by (simp add: response_messages_def request_simps py_iter_def dict_of_def is_mapping_def mapping_items_def
        dict_pair_def lit_def)
  have admitted: "admit sample_rt ?H sample_env 3 (PRef 2) ready_runtime =
      (Inr (PlainPrompt (lit ''hi''), None), ready_runtime\<lparr>rn_preflight := None\<rparr>)"
    by (simp add: admit_def consume_preflight_def admit_turn_def ready_runtime_def runtime_new_def sample_env_def
        reads prompt)
  obtain v rn where v: "open_turn sample_rt ?H sample_env 3 (PRef 2) None (ready_runtime\<lparr>rn_preflight := None\<rparr>) = (Opened v, rn)"
     "\<not> tv_unavailable v"
    by (simp add: open_turn_def reads ready_runtime_def runtime_new_def can_restart_after_cancel_def
        bind_turn_def begin_turn_def open_bridge_def empty_bridge_def Let_def)
  from messages obtain e where e: "response_messages ?H (PRef 2) = Inl e" by blast
  obtain rn' where "turn_exception v True rn = ([], rn')"
    using exception_end_events(2)[of "rn_bridge rn" "tv_start v" "tv_visible v" rn]
    by (cases "turn_exception v True rn") (simp add: turn_exception_def)
  with v e assms have "conclude ?H (PRef 2) r rn v = ([], rn')" by (simp add: conclude_def)
  then show ?thesis by (simp add: run_turn_def admitted v(1) end_turn_def)
qed

text \<open>
  A malformed correlation raises before the turn's execution baseline is read: the failure is
  reported after side effects when an earlier turn had any, though this one did nothing.
\<close>

lemma malformed_correlation_reports_side_effects:
  assumes "rn_bridge rn = Some bs" "host_executions bs > 0"
    and "attr_required H request ''correlation_id'' = Inr c" "begin_turn c (bs_bridge bs) = Inl e"
  shows "bind_turn H request rn = (OpenRaised (Some bs), rn) \<and>
    (\<exists>f. fst (exception_end (Some bs) 0 False False rn) = [FailedEvent f] \<and> rf_phase f = AFTER_SIDE_EFFECTS)"
  using assms by (simp add: bind_turn_def exception_end_def Let_def failure_def runtime_failure_of_def)

end
