(* ===== verification/Sha256.thy ===== *)
theory Sha256
  imports Py_Base "HOL-Library.Word"
begin

section \<open>SHA-256\<close>

text \<open>
  \<^verbatim>\<open>hashlib.sha256(data).hexdigest()\<close>, on bytes below 256: the hash binds the packets, catalogs
  and schemas of the parity harness. Words have their width, so the additions wrap as in the
  standard. The lemmas give the shape of a digest; nothing here or later assumes that two
  texts have different digests.
\<close>

unbundle bit_operations_syntax

type_synonym word32 = "32 word"

definition rotr :: "nat \<Rightarrow> word32 \<Rightarrow> word32" where
  "rotr n x = drop_bit n x OR push_bit (32 - n) x"

definition small_sigma :: "nat \<Rightarrow> nat \<Rightarrow> nat \<Rightarrow> word32 \<Rightarrow> word32" where
  "small_sigma a b c x = rotr a x XOR rotr b x XOR drop_bit c x"

definition big_sigma :: "nat \<Rightarrow> nat \<Rightarrow> nat \<Rightarrow> word32 \<Rightarrow> word32" where
  "big_sigma a b c x = rotr a x XOR rotr b x XOR rotr c x"

definition choose_bits :: "word32 \<Rightarrow> word32 \<Rightarrow> word32 \<Rightarrow> word32" where
  "choose_bits x y z = (x AND y) XOR (NOT x AND z)"

definition majority :: "word32 \<Rightarrow> word32 \<Rightarrow> word32 \<Rightarrow> word32" where
  "majority x y z = (x AND y) XOR (x AND z) XOR (y AND z)"

text \<open>
  The constants of the standard: the first 32 bits of the fractional parts of the cube roots of
  the first 64 primes, and of the square roots of the first eight.
\<close>

definition primes_below :: "nat \<Rightarrow> nat list" where
  "primes_below n = filter (\<lambda>p. list_all (\<lambda>d. p mod d \<noteq> 0) [2 ..< p]) [2 ..< n]"

text \<open>The largest number below \<open>2 ^ bits\<close> whose \<open>k\<close>-th power is at most \<open>n\<close>.\<close>

fun root_floor :: "nat \<Rightarrow> nat \<Rightarrow> nat \<Rightarrow> nat \<Rightarrow> nat" where
  "root_floor k n 0 r = r"
| "root_floor k n (Suc i) r = root_floor k n i (if (r + 2 ^ i) ^ k \<le> n then r + 2 ^ i else r)"

definition root_word :: "nat \<Rightarrow> nat \<Rightarrow> word32" where
  "root_word k p = of_nat (root_floor k (p * 2 ^ (32 * k)) 40 0)"

definition round_constants :: "word32 list" where
  "round_constants = map (root_word 3) (primes_below 312)"

datatype hash_state = HashState word32 word32 word32 word32 word32 word32 word32 word32

definition initial_state :: hash_state where
  "initial_state = HashState (root_word 2 2) (root_word 2 3) (root_word 2 5) (root_word 2 7)
     (root_word 2 11) (root_word 2 13) (root_word 2 17) (root_word 2 19)"

text \<open>One round with its constant and its schedule word.\<close>

fun hash_round :: "word32 \<times> word32 \<Rightarrow> hash_state \<Rightarrow> hash_state" where
  "hash_round (k, w) (HashState a b c d e f g h) =
     (let t1 = h + big_sigma 6 11 25 e + choose_bits e f g + k + w;
          t2 = big_sigma 2 13 22 a + majority a b c
      in HashState (t1 + t2) a b c (d + t1) e f g)"

text \<open>
  The schedule: the last sixteen words, the oldest first, give the next one. \<open>schedule\<close> yields
  the given number of words in order.
\<close>

fun schedule :: "nat \<Rightarrow> word32 list \<Rightarrow> word32 list" where
  "schedule 0 ws = []"
| "schedule (Suc n) ws =
     (let next = small_sigma 17 19 10 (ws ! 14) + ws ! 9 + small_sigma 7 18 3 (ws ! 1) + ws ! 0
      in ws ! 0 # schedule n (tl ws @ [next]))"

fun add_states :: "hash_state \<Rightarrow> hash_state \<Rightarrow> hash_state" where
  "add_states (HashState a b c d e f g h) (HashState a' b' c' d' e' f' g' h') =
     HashState (a + a') (b + b') (c + c') (d + d') (e + e') (f + f') (g + g') (h + h')"

definition hash_block :: "word32 list \<Rightarrow> hash_state \<Rightarrow> hash_state" where
  "hash_block block s =
     add_states s (fold hash_round (zip round_constants (schedule 64 block)) s)"

text \<open>The bytes of a number, most significant first.\<close>

fun be_bytes :: "nat \<Rightarrow> nat \<Rightarrow> nat list" where
  "be_bytes 0 n = []"
| "be_bytes (Suc k) n = be_bytes k (n div 256) @ [n mod 256]"

definition padded :: "nat list \<Rightarrow> nat list" where
  "padded m =
     m @ [128] @ replicate ((119 - length m mod 64) mod 64) 0 @ be_bytes 8 (8 * length m)"

definition word_of_bytes :: "nat list \<Rightarrow> word32" where
  "word_of_bytes bs = fold (\<lambda>b w. push_bit 8 w OR of_nat b) bs 0"

function chunks :: "nat \<Rightarrow> 'a list \<Rightarrow> 'a list list" where
  "chunks k xs = (if xs = [] \<or> k = 0 then [] else take k xs # chunks k (drop k xs))"
  by pat_completeness auto
termination
  by (relation "measure (length \<circ> snd)") auto

declare chunks.simps [simp del]

definition sha256_state :: "nat list \<Rightarrow> hash_state" where
  "sha256_state m =
     fold (\<lambda>block. hash_block (map word_of_bytes (chunks 4 block))) (chunks 64 (padded m)) initial_state"

fun state_words :: "hash_state \<Rightarrow> word32 list" where
  "state_words (HashState a b c d e f g h) = [a, b, c, d, e, f, g, h]"

definition hex_lower :: "nat \<Rightarrow> nat" where
  "hex_lower n = (if n < 10 then 48 + n else 87 + n)"

definition word_hex :: "word32 \<Rightarrow> ustr" where
  "word_hex w = map (\<lambda>k. hex_lower (unat (take_bit 4 (drop_bit (4 * k) w)))) [7, 6, 5, 4, 3, 2, 1, 0]"

definition sha256_hex :: "nat list \<Rightarrow> ustr" where
  "sha256_hex m = concat (map word_hex (state_words (sha256_state m)))"

subsection \<open>The shape of a digest\<close>

definition hex_digest_char :: "nat \<Rightarrow> bool" where
  "hex_digest_char c \<longleftrightarrow> is_digit c \<or> (97 \<le> c \<and> c \<le> 102)"

definition is_hex64 :: "ustr \<Rightarrow> bool" where
  "is_hex64 s \<longleftrightarrow> length s = 64 \<and> list_all hex_digest_char s"

lemma hex_lower_char: "n < 16 \<Longrightarrow> hex_digest_char (hex_lower n)"
  by (auto simp: hex_lower_def hex_digest_char_def is_digit_def)

lemma word_hex_shape: "length (word_hex w) = 8" "list_all hex_digest_char (word_hex w)"
proof -
  have "unat (take_bit 4 (drop_bit k w)) < 16" for k
    using take_bit_nat_less_exp[of 4 "unat (drop_bit k w)"] by (simp add: unsigned_take_bit_eq)
  from this this[of 0] show "length (word_hex w) = 8" "list_all hex_digest_char (word_hex w)"
    by (simp_all add: word_hex_def hex_lower_char)
qed

lemma sha256_hex_shape: "is_hex64 (sha256_hex m)"
proof (cases "sha256_state m")
  case (HashState a b c d e f g h)
  then show ?thesis by (simp add: sha256_hex_def is_hex64_def word_hex_shape)
qed

subsection \<open>Padding\<close>

lemma length_be_bytes [simp]: "length (be_bytes k n) = k"
  by (induction k arbitrary: n) auto

lemma padded_blocks: "length (padded m) mod 64 = 0"
proof -
  define r where "r = length m mod 64"
  have "r < 64" by (simp add: r_def)
  then have "(r + 9 + (119 - r) mod 64) mod 64 = 0"
  proof (cases "r \<le> 55")
    case True
    then have e: "119 - r = 55 - r + 64" by simp
    have "(119 - r) mod 64 = 55 - r" by (subst e, subst mod_add_self2) simp
    with True show ?thesis by simp
  qed simp
  then have "(length m + 9 + (119 - length m mod 64) mod 64) mod 64 = 0"
    using mod_add_left_eq[of "length m" 64 "9 + (119 - length m mod 64) mod 64"]
    by (simp add: r_def add.assoc)
  then show ?thesis by (simp add: padded_def add.assoc)
qed

end
