(* ===== verification/Parity_Json.thy ===== *)
theory Parity_Json
  imports Json_Text Utf8 Sha256
begin

section \<open>Canonical hashing of parity artifacts (parity/hashing.py)\<close>

text \<open>
  \<^verbatim>\<open>json_compatible\<close> copies a Python value into a tree of JSON containers, \<^verbatim>\<open>sha256_value\<close> hashes
  the canonical text of a tree. The recursion of the copy ends with the interpreter's frames
  (\<open>frames\<close>), and then raises \<^verbatim>\<open>RecursionError\<close>. The lemmas show that a copy is a well-formed tree
  and that the text, hence the hash, depends only on what its dictionaries map to what, not on
  the order of their entries.
\<close>

fun compatible_items ::
    "(pyval \<Rightarrow> exn + json) \<Rightarrow> (pyval \<times> pyval) list \<Rightarrow> (ustr \<times> json) list \<Rightarrow> exn + (ustr \<times> json) list" where
  "compatible_items f [] result = Inr result"
| "compatible_items f ((key, item) # items) result =
     (case key of
        PStr s \<Rightarrow> and_then (f item) (\<lambda>j. compatible_items f items (dict_set s j result))
      | _ \<Rightarrow> Inl TypeError)"

fun json_compatible :: "heap \<Rightarrow> nat \<Rightarrow> pyval \<Rightarrow> exn + json" where
  "json_compatible H 0 v = Inl RecursionError"
| "json_compatible H (Suc frames) v =
     (case v of
        PNone \<Rightarrow> Inr JNull
      | PBool b \<Rightarrow> Inr (JBool b)
      | PInt i \<Rightarrow> Inr (JInt i)
      | PStr s \<Rightarrow> Inr (JStr s)
      | PFloat f \<Rightarrow> (case f of FFin r \<Rightarrow> Inr (JFloat f) | _ \<Rightarrow> Inl TypeError)
      | PRef a \<Rightarrow>
          if is_mapping H v then
            and_then (mapping_items H v) (\<lambda>items.
              map_sum id JDict (compatible_items (json_compatible H frames) items []))
          else (case seq_items H v of
                  Some xs \<Rightarrow> map_sum id JList (map_exn (json_compatible H frames) xs)
                | None \<Rightarrow> Inl TypeError))"

text \<open>\<^verbatim>\<open>canonical_json_bytes\<close> and \<^verbatim>\<open>sha256_value\<close>; a surrogate raises \<^verbatim>\<open>UnicodeEncodeError\<close>.\<close>

definition canonical_json_bytes :: "pyrt \<Rightarrow> json \<Rightarrow> exn + nat list" where
  "canonical_json_bytes rt value =
     and_then (dumps_compact rt False value) (\<lambda>s.
       case utf8_encode s of None \<Rightarrow> Inl ValueError | Some bs \<Rightarrow> Inr bs)"

definition sha256_value :: "pyrt \<Rightarrow> json \<Rightarrow> exn + ustr" where
  "sha256_value rt value = map_sum id sha256_hex (canonical_json_bytes rt value)"

subsection \<open>Well-formed trees\<close>

fun json_wf :: "json \<Rightarrow> bool" where
  "json_wf (JList js) = list_all json_wf js"
| "json_wf (JDict d) = (distinct (map fst d) \<and> list_all (\<lambda>p. json_wf (snd p)) d)"
| "json_wf (JFloat f) = (case f of FFin _ \<Rightarrow> True | _ \<Rightarrow> False)"
| "json_wf _ = True"

lemma map_exn_all: "map_exn f xs = Inr ys \<Longrightarrow> (\<And>x y. f x = Inr y \<Longrightarrow> P y) \<Longrightarrow> list_all P ys"
  by (induction xs arbitrary: ys) (auto split: sum.splits)

lemma map_exn_total:
  "(\<And>x. x \<in> set xs \<Longrightarrow> \<exists>y. f x = Inr y \<and> P y) \<Longrightarrow> \<exists>ys. map_exn f xs = Inr ys \<and> list_all P ys"
  by (induction xs) fastforce+

lemma compatible_items_wf:
  assumes "\<And>v j. f v = Inr j \<Longrightarrow> json_wf j"
  shows "compatible_items f items d = Inr d' \<Longrightarrow> json_wf (JDict d) \<Longrightarrow> json_wf (JDict d')"
proof (induction items arbitrary: d)
  case (Cons kv items)
  obtain key item where kv: "kv = (key, item)" by (cases kv)
  with Cons.prems(1) obtain s j where s: "f item = Inr j" "compatible_items f items (dict_set s j d) = Inr d'"
    by (auto simp: and_then_Inr split: pyval.splits)
  have "json_wf (JDict (dict_set s j d))"
    using Cons.prems(2) assms[OF s(1)] set_dict_set_subset[of s j d]
    by (auto simp: distinct_dict_set list_all_iff)
  with Cons.IH s(2) show ?case by blast
qed simp

lemma json_compatible_wf: "json_compatible H frames v = Inr j \<Longrightarrow> json_wf j"
proof (induction frames arbitrary: v j)
  case (Suc frames)
  show ?case
  proof (cases v)
    case (PRef a)
    show ?thesis
    proof (cases "is_mapping H v")
      case True
      with Suc.prems PRef obtain items d where "compatible_items (json_compatible H frames) items [] = Inr d"
        "j = JDict d" by (auto simp: and_then_Inr)
      then show ?thesis using compatible_items_wf[of "json_compatible H frames"] Suc.IH by force
    next
      case False
      with Suc.prems PRef obtain xs js where "map_exn (json_compatible H frames) xs = Inr js" "j = JList js"
        by (auto split: option.splits)
      then show ?thesis using map_exn_all[of "json_compatible H frames" xs js json_wf] Suc.IH by auto
    qed
  qed (use Suc.prems in \<open>auto split: pyfloat.splits\<close>)
qed simp

subsection \<open>The order of entries\<close>

text \<open>The same tree up to the order in which its outermost dictionary lists its entries.\<close>

inductive same_json :: "json \<Rightarrow> json \<Rightarrow> bool" where
  same_refl: "same_json j j"
| same_dict: "distinct (map fst d) \<Longrightarrow> distinct (map fst d') \<Longrightarrow> map_of d = map_of d' \<Longrightarrow>
     same_json (JDict d) (JDict d')"

lemma distinct_map_fst_sort: "distinct (map fst (sort_key fst d)) = distinct (map fst d)"
  by (simp add: distinct_map)

lemma sort_key_map_of:
  fixes d :: "('k::linorder \<times> 'v) list"
  assumes "distinct (map fst d)" "distinct (map fst d')" "map_of d = map_of d'"
  shows "sort_key fst d = sort_key fst d'"
proof -
  have entries: "set d = set d'"
  proof (rule set_eqI)
    fix p :: "'k \<times> 'v"
    show "p \<in> set d \<longleftrightarrow> p \<in> set d'"
      using assms map_of_eq_Some_iff[of d "fst p" "snd p"] map_of_eq_Some_iff[of d' "fst p" "snd p"] by simp
  qed
  show ?thesis
  proof (rule map_sorted_distinct_set_unique[of fst])
    show "inj_on fst (set (sort_key fst d) \<union> set (sort_key fst d'))"
      using assms(1) entries by (simp add: distinct_map)
  qed (use assms entries in \<open>simp_all add: distinct_map_fst_sort\<close>)
qed

lemma dumps_same: "same_json j j' \<Longrightarrow> json_dumps rt i k a j = json_dumps rt i k a j'"
proof (induction rule: same_json.induct)
  case (same_dict d d')
  then have "sort_key fst d = sort_key fst d'" by (rule sort_key_map_of)
  then show ?case by simp
qed simp

lemma sha256_value_same: "same_json j j' \<Longrightarrow> sha256_value rt j = sha256_value rt j'"
  by (simp add: sha256_value_def canonical_json_bytes_def dumps_compact_def dumps_same)

lemma sha256_value_shape: "sha256_value rt j = Inr h \<Longrightarrow> is_hex64 h"
  by (auto simp: sha256_value_def sha256_hex_shape)

subsection \<open>When a hash exists\<close>

fun hashable_json :: "json \<Rightarrow> bool" where
  "hashable_json (JInt i) = (length (dec_nat (nat \<bar>i\<bar>)) \<le> MAX_INT_STR_DIGITS)"
| "hashable_json (JFloat f) = False"
| "hashable_json (JStr s) = is_ascii s"
| "hashable_json (JList js) = list_all hashable_json js"
| "hashable_json (JDict d) = list_all (\<lambda>p. is_ascii (fst p) \<and> hashable_json (snd p)) d"
| "hashable_json _ = True"

lemma is_ascii_append [simp]: "is_ascii (s @ t) \<longleftrightarrow> is_ascii s \<and> is_ascii t"
  by (simp add: is_ascii_def)

lemma is_ascii_concat: "is_ascii (concat ss) \<longleftrightarrow> list_all is_ascii ss"
  by (induction ss) (auto simp: is_ascii_def)

lemma is_ascii_join: "is_ascii sep \<Longrightarrow> list_all is_ascii ws \<Longrightarrow> is_ascii (py_join sep ws)"
  by (induction sep ws rule: py_join.induct) (auto simp: is_ascii_def)

lemma is_ascii_dec_nat: "is_ascii (dec_nat n)"
  using dec_nat_digits[of n] by (auto simp: is_ascii_def is_digit_def list_all_iff)

lemma is_ascii_quote: "is_ascii s \<Longrightarrow> is_ascii (quote_text s)"
proof -
  assume s: "is_ascii s"
  have "is_ascii (escape_char c)" if "c < 128" for c
    using that by (auto simp: escape_char_def is_ascii_def hex_digit_def)
  with s have "list_all is_ascii (map escape_char s)" by (auto simp: is_ascii_def list_all_iff)
  then show ?thesis by (simp add: quote_text_def is_ascii_concat is_ascii_def[of "34 # _"] is_ascii_def[of "[34]"] flip: append_Cons)
qed

lemma utf8_encode_ascii: "is_ascii s \<Longrightarrow> utf8_encode s = Some s"
  by (induction s) (auto simp: is_ascii_def encode_char_def)

lemma dumps_hashable: "hashable_json j \<Longrightarrow> \<exists>s. dumps_compact rt False j = Inr s \<and> is_ascii s"
proof (induction j)
  case (JInt i)
  then show ?case
    by (auto simp: dumps_compact_def py_str_int_def dec_int_def is_ascii_dec_nat) (simp add: is_ascii_def is_ascii_dec_nat[unfolded is_ascii_def])
next
  case (JList js)
  then obtain ts where "map_exn (json_dumps rt [44] [58] False) js = Inr ts" "list_all is_ascii ts"
    using map_exn_total[of js "json_dumps rt [44] [58] False" is_ascii] by (fastforce simp: list_all_iff dumps_compact_def)
  then show ?case
    using is_ascii_join[of "[44]" ts] by (auto simp: dumps_compact_def) (auto simp: is_ascii_def)
next
  case (JDict d)
  let ?f = "\<lambda>p. map_sum id (\<lambda>t. quote_text (fst p) @ [58] @ t) (json_dumps rt [44] [58] False (snd p))"
  have one: "\<exists>s. ?f p = Inr s \<and> is_ascii s" if p: "p \<in> set d" for p
  proof -
    obtain k v where kv: "p = (k, v)" by (cases p)
    with p JDict.prems have "is_ascii k" "hashable_json v" by (auto simp: list_all_iff)
    moreover obtain s where "json_dumps rt [44] [58] False v = Inr s" "is_ascii s"
      using JDict.IH[of p v] p kv JDict.prems by (fastforce simp: list_all_iff dumps_compact_def)
    ultimately show ?thesis using kv is_ascii_quote[of k] by (auto simp: is_ascii_def)
  qed
  obtain ts where "map_exn ?f (sort_key fst d) = Inr ts" "list_all is_ascii ts"
    using map_exn_total[of "sort_key fst d" ?f is_ascii] one unfolding set_sort by blast
  then show ?case
    using is_ascii_join[of "[44]" ts] by (auto simp: dumps_compact_def) (auto simp: is_ascii_def)
qed (auto simp: dumps_compact_def is_ascii_quote, auto simp: is_ascii_def lit_def)

lemma sha256_value_hashable: "hashable_json j \<Longrightarrow> \<exists>h. sha256_value rt j = Inr h"
  using dumps_hashable[of j rt]
  by (auto simp: sha256_value_def canonical_json_bytes_def utf8_encode_ascii)

end
