(* ===== verification/Json_Grammar.thy ===== *)
theory Json_Grammar
  imports Parity_Json
begin

section \<open>Printed JSON is read back\<close>

text \<open>
  \<open>json_text j t\<close> says that \<open>t\<close> is a text of the tree \<open>j\<close>: strings as \<open>quote_text\<close> writes them, white
  space anywhere between the tokens, no floats. The scanner reads every such text back, and both
  printers of the sources, the compact and the indented one, write such texts with the keys of
  every object sorted.
\<close>

subsection \<open>The grammar\<close>

abbreviation spaces :: "ustr \<Rightarrow> bool" where "spaces w \<equiv> list_all json_space w"

inductive json_text :: "json \<Rightarrow> ustr \<Rightarrow> bool"
  and elements_text :: "json list \<Rightarrow> ustr \<Rightarrow> bool"
  and members_text :: "(ustr \<times> json) list \<Rightarrow> ustr \<Rightarrow> bool" where
  text_null: "json_text JNull (lit ''null'')"
| text_bool: "json_text (JBool b) (if b then lit ''true'' else lit ''false'')"
| text_int: "length (dec_nat (nat \<bar>i\<bar>)) \<le> MAX_INT_STR_DIGITS \<Longrightarrow> json_text (JInt i) (dec_int i)"
| text_str: "json_text (JStr s) (quote_text s)"
| text_nil: "spaces w \<Longrightarrow> json_text (JList []) ([91] @ w @ [93])"
| text_list: "spaces w \<Longrightarrow> elements_text js t \<Longrightarrow> json_text (JList js) ([91] @ w @ t)"
| text_empty: "spaces w \<Longrightarrow> json_text (JDict []) ([123] @ w @ [125])"
| text_dict: "spaces w \<Longrightarrow> members_text d t \<Longrightarrow> distinct (map fst d) \<Longrightarrow> json_text (JDict d) ([123] @ w @ t)"
| last_element: "json_text j t \<Longrightarrow> spaces w \<Longrightarrow> elements_text [j] (t @ w @ [93])"
| next_element: "json_text j t \<Longrightarrow> spaces w \<Longrightarrow> spaces v \<Longrightarrow> elements_text js u \<Longrightarrow>
    elements_text (j # js) (t @ w @ [44] @ v @ u)"
| last_member: "spaces x \<Longrightarrow> spaces y \<Longrightarrow> json_text j t \<Longrightarrow> spaces w \<Longrightarrow>
    members_text [(k, j)] (quote_text k @ x @ [58] @ y @ t @ w @ [125])"
| next_member: "spaces x \<Longrightarrow> spaces y \<Longrightarrow> json_text j t \<Longrightarrow> spaces w \<Longrightarrow> spaces v \<Longrightarrow> members_text d u \<Longrightarrow>
    members_text ((k, j) # d) (quote_text k @ x @ [58] @ y @ t @ w @ [44] @ v @ u)"

text \<open>The nesting of a tree, which the recursion of the scanner must not exceed.\<close>

fun json_depth :: "json \<Rightarrow> nat" where
  "json_depth (JList js) = Suc (Max (insert 0 (set (map json_depth js))))"
| "json_depth (JDict d) = Suc (Max (insert 0 (set (map (\<lambda>p. json_depth (snd p)) d))))"
| "json_depth _ = 0"

lemma depth_element: "j \<in> set js \<Longrightarrow> json_depth (JList js) < Suc room \<Longrightarrow> json_depth j < room"
  by (auto simp: Max_less_iff less_Suc_eq_le Suc_le_eq)

lemma depth_member: "(k, j) \<in> set d \<Longrightarrow> json_depth (JDict d) < Suc room \<Longrightarrow> json_depth j < room"
  by (force simp: Max_less_iff)

subsection \<open>Tokens\<close>

lemma hex_value_digit: "n < 16 \<Longrightarrow> hex_value (hex_digit n) = Some n"
  by (auto simp: hex_value_def hex_digit_def is_digit_def)

lemma scan_escaped: "scan_string (escape_char c @ r) = map_option (\<lambda>(t, r'). (c # t, r')) (scan_string r)"
proof (cases "c < 32 \<and> c \<notin> {8, 9, 10, 12, 13}")
  case True
  then have "c div 16 < 16" "c mod 16 < 16" "c = (c div 16) * 16 + c mod 16" by auto
  moreover have "hex_value 48 = Some 0" by (simp add: hex_value_def is_digit_def)
  ultimately have hex: "hex4 (48 # 48 # hex_digit (c div 16) # hex_digit (c mod 16) # r) = Some (c, r)"
    by (simp add: hex_value_digit)
  then have "unicode_escape (48 # 48 # hex_digit (c div 16) # hex_digit (c mod 16) # r) = Some (c, r)"
    using True by (simp add: unicode_escape_def)
  moreover have "escape_char c = [92, 117, 48, 48, hex_digit (c div 16), hex_digit (c mod 16)]"
    using True by (simp add: escape_char_def)
  ultimately show ?thesis by (simp add: scan_string.simps)
next
  case False
  then show ?thesis by (auto simp: escape_char_def scan_string.simps simple_escape_def)
qed

lemma scan_quoted: "scan_string (concat (map escape_char s) @ 34 # r) = Some (s, r)"
  by (induction s) (simp_all add: scan_escaped scan_string.simps)

lemma skip_spaces: "spaces w \<Longrightarrow> skip_ws (w @ s) = skip_ws s"
  by (induction w) (auto simp: skip_ws_def)

lemma skip_solid: "s \<noteq> [] \<Longrightarrow> \<not> json_space (hd s) \<Longrightarrow> skip_ws (s @ r) = s @ r"
  by (cases s) (auto simp: skip_ws_def)

definition token_head :: "nat \<Rightarrow> bool" where
  "token_head c \<longleftrightarrow> c \<in> {34, 45, 91, 102, 110, 116, 123} \<or> is_digit c"

lemma token_head_solid: "token_head c \<Longrightarrow> \<not> json_space c \<and> c \<notin> {44, 58, 93, 125}"
  by (auto simp: token_head_def json_space_def is_digit_def)

lemma dec_int_head: "\<exists>c s. dec_int i = c # s \<and> token_head c"
proof -
  have "\<exists>c s. dec_nat n = c # s \<and> is_digit c" for n
    using dec_nat_digits[of n] by (cases "dec_nat n") auto
  then show ?thesis unfolding dec_int_def token_head_def by auto blast
qed

lemma json_text_head: "json_text j t \<Longrightarrow> \<exists>c s. t = c # s \<and> token_head c"
  by (cases rule: json_text.cases, assumption) (use dec_int_head in \<open>auto simp: token_head_def lit_def quote_text_def\<close>)

lemma json_text_solid:
  assumes "json_text j t"
  shows "t \<noteq> []" "skip_ws (t @ r) = t @ r"
  using json_text_head[OF assms] token_head_solid by (auto simp: skip_ws_def)

subsection \<open>Numbers and words\<close>

text \<open>What may follow a value in a text.\<close>

definition follows :: "ustr \<Rightarrow> bool" where
  "follows r \<longleftrightarrow> (case r of [] \<Rightarrow> True | c # _ \<Rightarrow> json_space c \<or> c \<in> {44, 93, 125})"

lemma follows_Nil [simp]: "follows []" by (simp add: follows_def)

lemma follows_spaces: "spaces w \<Longrightarrow> c \<in> {44, 93, 125} \<Longrightarrow> follows (w @ c # r)"
  by (cases w) (auto simp: follows_def)

lemma follows_spaces_only: "spaces w \<Longrightarrow> follows w"
  by (cases w) (auto simp: follows_def)

lemma follows_stops:
  assumes "follows r"
  shows "takeWhile is_digit r = []" "scan_fraction r = ([], r)" "scan_exponent r = ([], r)"
proof -
  consider "r = []" | c s where "r = c # s" "\<not> is_digit c" "c \<noteq> 46" "c \<noteq> 101" "c \<noteq> 69"
    using assms by (cases r) (auto simp: follows_def json_space_def is_digit_def)
  then show "takeWhile is_digit r = []" "scan_fraction r = ([], r)" "scan_exponent r = ([], r)"
    by (cases; auto simp: scan_fraction_def scan_exponent_def split: list.splits)+
qed

lemma digits_read:
  assumes "follows r"
  shows "(case dec_nat n @ r of [] \<Rightarrow> [] | c # _ \<Rightarrow> if c = 48 then [c] else takeWhile is_digit (dec_nat n @ r)) = dec_nat n"
proof (cases "n = 0")
  case True
  then have "dec_nat n = [48]" by (simp add: dec_nat.simps)
  then show ?thesis by simp
next
  case False
  obtain c s where c: "dec_nat n = c # s" using dec_nat_digits[of n] by (cases "dec_nat n") auto
  with False dec_nat_head[of n] have "c \<noteq> 48" by simp
  moreover have "takeWhile is_digit (dec_nat n @ r) = dec_nat n"
    using dec_nat_digits[of n] follows_stops(1)[OF assms] by (simp add: list_all_iff)
  ultimately show ?thesis using c by simp
qed

lemma number_read:
  assumes "follows r"
  shows "scan_number (dec_int i @ r) = Some \<lparr>np_neg = (i < 0), np_int = dec_nat (nat \<bar>i\<bar>), np_frac = [], np_exp = [], np_rest = r\<rparr>"
proof -
  have head: "\<exists>c s. dec_nat n = c # s \<and> c \<noteq> 45 \<and> dec_nat n \<noteq> []" for n
    using dec_nat_digits[of n] by (cases "dec_nat n") (auto simp: is_digit_def)
  define neg where "neg \<longleftrightarrow> i < 0"
  have body: "dec_int i @ r = (if neg then [45] else []) @ dec_nat (nat \<bar>i\<bar>) @ r" by (simp add: dec_int_def neg_def)
  have sign: "(case dec_int i @ r of c # _ \<Rightarrow> c = 45 | [] \<Rightarrow> False) = neg"
    using head[of "nat \<bar>i\<bar>"] unfolding body by auto
  have rest: "(if neg then tl (dec_int i @ r) else dec_int i @ r) = dec_nat (nat \<bar>i\<bar>) @ r"
    unfolding body by simp
  have drop: "drop (length (dec_nat (nat \<bar>i\<bar>))) (dec_nat (nat \<bar>i\<bar>) @ r) = r" by simp
  have solid: "(dec_nat (nat \<bar>i\<bar>) = []) = False" using head by blast
  show ?thesis
    unfolding scan_number_def Let_def sign rest digits_read[OF assms] drop follows_stops[OF assms] prod.case solid
    by (simp add: neg_def)
qed

lemma int_value:
  "length (dec_nat (nat \<bar>i\<bar>)) \<le> MAX_INT_STR_DIGITS \<Longrightarrow>
     number_value rt \<lparr>np_neg = (i < 0), np_int = dec_nat (nat \<bar>i\<bar>), np_frac = [], np_exp = [], np_rest = r\<rparr> = Inr (JInt i)"
  by (simp add: number_value_def int_literal_def digits_value_dec_nat)

lemma int_no_keyword: "keyword (map fst constants) (dec_int i @ r) = None" "keyword special_constants (dec_int i @ r) = None"
proof -
  obtain c s where c: "dec_int i = c # s" "token_head c" using dec_int_head by blast
  have digits: "\<exists>d t. dec_nat n = d # t \<and> is_digit d" for n
    using dec_nat_digits[of n] by (cases "dec_nat n") auto
  have head: "is_digit c \<or> (c = 45 \<and> (\<exists>d t. s = d # t \<and> is_digit d))"
  proof (cases "i < 0")
    case True
    then have "c = 45" "s = dec_nat (nat (- i))" using c(1) by (simp_all add: dec_int_def)
    with digits show ?thesis by blast
  next
    case False
    then show ?thesis using c(1) digits[of "nat i"] by (auto simp: dec_int_def)
  qed
  then show "keyword (map fst constants) (dec_int i @ r) = None" "keyword special_constants (dec_int i @ r) = None"
    using c(1) by (auto simp: keyword_def constants_def special_constants_def lits_def startswith_def lit_def is_digit_def)
qed

subsection \<open>The scanner reads every text\<close>

lemma scan_word:
  assumes "j \<in> {JNull, JBool True, JBool False}" "json_text j t"
  shows "scan_value rt hk (Suc room) (t @ r) = Inr (j, r)"
proof -
  from assms(2,1) have "(j, t) \<in> {(JNull, lit ''null''), (JBool True, lit ''true''), (JBool False, lit ''false'')}"
    by (cases rule: json_text.cases) auto
  then show ?thesis by (auto simp: keyword_def constants_def startswith_def lit_def)
qed

lemma scan_int:
  assumes "length (dec_nat (nat \<bar>i\<bar>)) \<le> MAX_INT_STR_DIGITS" "follows r"
  shows "scan_value rt hk (Suc room) (dec_int i @ r) = Inr (JInt i, r)"
proof -
  obtain c s where c: "dec_int i = c # s" "token_head c" using dec_int_head by blast
  have digits: "\<exists>d t. dec_nat n = d # t \<and> is_digit d" for n
    using dec_nat_digits[of n] by (cases "dec_nat n") auto
  have "c \<notin> {34, 91, 123}"
    using c(1) digits[of "nat i"] by (auto simp: dec_int_def is_digit_def split: if_splits)
  then show ?thesis
    using int_no_keyword[of i r] number_read[OF assms(2), of i] int_value[OF assms(1), of rt r] c(1) by (simp add: Let_def)
qed

lemma scan_array:
  assumes "scan_elements (scan_value rt hk room) (t @ r) = Inr (js, r)" "spaces w" "\<exists>c s. t = c # s \<and> token_head c"
  shows "scan_value rt hk (Suc room) ([91] @ w @ t @ r) = Inr (JList js, r)"
proof -
  obtain c s where "t = c # s" "token_head c" using assms(3) by blast
  moreover from this have "skip_ws (w @ t @ r) = t @ r"
    using token_head_solid[of c] by (simp add: skip_spaces[OF assms(2)]) (simp add: skip_ws_def)
  ultimately show ?thesis using assms(1) token_head_solid[of c] by (simp add: Let_def)
qed

lemma scan_object:
  assumes "scan_members (scan_value rt hk room) (t @ r) = Inr (d, r)" "spaces w" "\<exists>s. t = 34 # s" "hk_pairs hk d = Inr (JDict d)"
  shows "scan_value rt hk (Suc room) ([123] @ w @ t @ r) = Inr (JDict d, r)"
proof -
  obtain s where "t = 34 # s" using assms(3) by blast
  moreover from this have "skip_ws (w @ t @ r) = t @ r"
    by (simp add: skip_spaces[OF assms(2)]) (simp add: skip_ws_def json_space_def)
  ultimately show ?thesis using assms(1,4) by (simp add: Let_def)
qed

definition builds_objects :: "hooks \<Rightarrow> bool" where
  "builds_objects hk \<longleftrightarrow> (\<forall>d. distinct (map fst d) \<longrightarrow> hk_pairs hk d = Inr (JDict d))"

lemma members_text_head: "members_text d t \<Longrightarrow> \<exists>s. t = 34 # s"
  by (cases rule: members_text.cases, assumption) (auto simp: quote_text_def)

lemma elements_text_head: "elements_text js t \<Longrightarrow> \<exists>c s. t = c # s \<and> token_head c"
  by (cases rule: elements_text.cases, assumption) (use json_text_head in fastforce)+

lemma skip_after: "spaces w \<Longrightarrow> \<not> json_space c \<Longrightarrow> skip_ws (w @ c # s) = c # s"
  by (simp add: skip_spaces) (simp add: skip_ws_def)

lemma scan_member_read:
  assumes "spaces x" "spaces y" "pv (t @ r) = Inr (j, r)" "skip_ws (t @ r) = t @ r"
  shows "scan_member pv (quote_text k @ x @ [58] @ y @ t @ r) = Inr ((k, j), r)"
proof -
  have "skip_ws (x @ 58 # y @ t @ r) = 58 # y @ t @ r" by (rule skip_after[OF assms(1)]) (simp add: json_space_def)
  moreover have "scan_string (concat (map escape_char k) @ 34 # x @ 58 # y @ t @ r) = Some (k, x @ 58 # y @ t @ r)"
    by (rule scan_quoted)
  ultimately show ?thesis
    using assms(3,4) by (simp add: scan_member_def quote_text_def skip_spaces[OF assms(2)])
qed

theorem grammar_read:
  assumes "builds_objects hk"
  shows "json_text j t \<Longrightarrow> (\<And>room r. json_depth j < room \<Longrightarrow> follows r \<Longrightarrow> scan_value rt hk room (t @ r) = Inr (j, r))"
    and "elements_text js t \<Longrightarrow>
      (\<And>room r. (\<And>j. j \<in> set js \<Longrightarrow> json_depth j < room) \<Longrightarrow> scan_elements (scan_value rt hk room) (t @ r) = Inr (js, r))"
    and "members_text d t \<Longrightarrow>
      (\<And>room r. (\<And>k j. (k, j) \<in> set d \<Longrightarrow> json_depth j < room) \<Longrightarrow> scan_members (scan_value rt hk room) (t @ r) = Inr (d, r))"
proof (induction rule: json_text_elements_text_members_text.inducts)
  case text_null
  then show ?case using scan_word[OF _ json_text_elements_text_members_text.text_null] by (cases room) auto
next
  case (text_bool b)
  then show ?case using scan_word[OF _ json_text_elements_text_members_text.text_bool[of b]] by (cases room) auto
next
  case (text_int i)
  then show ?case using scan_int by (cases room) auto
next
  case (text_str s)
  have "scan_string (concat (map escape_char s) @ 34 # r) = Some (s, r)" by (rule scan_quoted)
  then show ?case using text_str by (cases room) (simp_all add: quote_text_def Let_def)
next
  case (text_nil w)
  have "skip_ws (w @ 93 # r) = 93 # r" using text_nil by (intro skip_after) (simp_all add: json_space_def)
  then show ?case using text_nil by (cases room) (simp_all add: Let_def)
next
  case (text_list w js t)
  show ?case
  proof (cases room)
    case (Suc n)
    with text_list.prems have "scan_elements (scan_value rt hk n) (t @ r) = Inr (js, r)"
      by (intro text_list.IH) (auto intro: depth_element)
    then show ?thesis
      using scan_array[of rt hk n t r js w] text_list.hyps elements_text_head Suc by simp
  qed (use text_list in simp)
next
  case (text_empty w)
  have "skip_ws (w @ 125 # r) = 125 # r" using text_empty by (intro skip_after) (simp_all add: json_space_def)
  moreover have "hk_pairs hk [] = Inr (JDict [])" using assms by (simp add: builds_objects_def)
  ultimately show ?case using text_empty by (cases room) (simp_all add: Let_def)
next
  case (text_dict w d t)
  show ?case
  proof (cases room)
    case (Suc n)
    with text_dict.prems have "scan_members (scan_value rt hk n) (t @ r) = Inr (d, r)"
      by (intro text_dict.IH) (auto intro: depth_member)
    moreover have "hk_pairs hk d = Inr (JDict d)" using assms text_dict.hyps by (simp add: builds_objects_def)
    ultimately show ?thesis
      using scan_object[of rt hk n t r d w] text_dict.hyps members_text_head Suc by simp
  qed (use text_dict in simp)
next
  case (last_element j t w)
  have "scan_value rt hk room (t @ w @ 93 # r) = Inr (j, w @ 93 # r)"
    using last_element by (intro last_element.IH follows_spaces) auto
  moreover have "skip_ws (w @ 93 # r) = 93 # r" using last_element by (intro skip_after) (simp_all add: json_space_def)
  moreover have "t \<noteq> []" using json_text_solid(1) last_element by blast
  ultimately show ?case by (subst scan_elements.simps) simp
next
  case (next_element j t w v js u)
  have "scan_value rt hk room (t @ w @ 44 # v @ u @ r) = Inr (j, w @ 44 # v @ u @ r)"
    using next_element by (intro next_element.IH follows_spaces) auto
  moreover have "skip_ws (w @ 44 # v @ u @ r) = 44 # v @ u @ r" using next_element by (intro skip_after) (simp_all add: json_space_def)
  moreover obtain c s where u: "u = c # s" "token_head c" using elements_text_head next_element by blast
  then have "skip_ws (v @ u @ r) = u @ r"
    using skip_after[of v c "s @ r"] next_element token_head_solid by simp
  moreover have "scan_elements (scan_value rt hk room) (u @ r) = Inr (js, r)" using next_element by simp
  moreover have "t \<noteq> []" using json_text_solid(1) next_element by blast
  ultimately show ?case by (subst scan_elements.simps) simp
next
  case (last_member x y j t w k)
  have "scan_value rt hk room (t @ w @ 125 # r) = Inr (j, w @ 125 # r)"
    using last_member.hyps last_member.prems[of k j] by (intro last_member.IH follows_spaces) auto
  then have "scan_member (scan_value rt hk room) (quote_text k @ x @ [58] @ y @ t @ w @ 125 # r) = Inr ((k, j), w @ 125 # r)"
    using last_member json_text_solid(2) by (intro scan_member_read) auto
  moreover have "skip_ws (w @ 125 # r) = 125 # r" using last_member by (intro skip_after) (simp_all add: json_space_def)
  ultimately show ?case by (subst scan_members.simps) (simp add: quote_text_def)
next
  case (next_member x y j t w v d u k)
  have "scan_value rt hk room (t @ w @ 44 # v @ u @ r) = Inr (j, w @ 44 # v @ u @ r)"
    using next_member.hyps next_member.prems[of k j] by (intro next_member.IH follows_spaces) auto
  then have "scan_member (scan_value rt hk room) (quote_text k @ x @ [58] @ y @ t @ w @ 44 # v @ u @ r) = Inr ((k, j), w @ 44 # v @ u @ r)"
    using next_member json_text_solid(2) by (intro scan_member_read) auto
  moreover have "skip_ws (w @ 44 # v @ u @ r) = 44 # v @ u @ r" using next_member by (intro skip_after) (simp_all add: json_space_def)
  moreover obtain s where u: "u = 34 # s" using members_text_head next_member by blast
  then have "skip_ws (v @ u @ r) = u @ r"
    using skip_after[of v 34 "s @ r"] next_member by (simp add: json_space_def)
  moreover have "scan_members (scan_value rt hk room) (u @ r) = Inr (d, r)"
  proof (rule next_member.IH(2))
    fix k' j' assume "(k', j') \<in> set d"
    then show "json_depth j' < room" using next_member.prems[of k' j'] by simp
  qed
  ultimately show ?case by (subst scan_members.simps) (simp add: quote_text_def)
qed

subsection \<open>The printers write texts\<close>

fun no_floats :: "json \<Rightarrow> bool" where
  "no_floats (JFloat f) = False"
| "no_floats (JList js) = list_all no_floats js"
| "no_floats (JDict d) = list_all (\<lambda>p. no_floats (snd p)) d"
| "no_floats _ = True"

fun sort_json :: "json \<Rightarrow> json" where
  "sort_json (JList js) = JList (map sort_json js)"
| "sort_json (JDict d) = JDict (sort_key fst (map (\<lambda>p. (fst p, sort_json (snd p))) d))"
| "sort_json j = j"

text \<open>\<^verbatim>\<open>json.dumps(..., ensure_ascii=False, sort_keys=True, indent=2)\<close>\<close>

definition new_line :: "nat \<Rightarrow> ustr" where "new_line level = 10 # replicate (2 * level) 32"

fun json_indent :: "pyrt \<Rightarrow> nat \<Rightarrow> json \<Rightarrow> exn + ustr" where
  "json_indent rt level JNull = Inr (lit ''null'')"
| "json_indent rt level (JBool b) = Inr (if b then lit ''true'' else lit ''false'')"
| "json_indent rt level (JInt i) = py_str_int i"
| "json_indent rt level (JFloat f) = float_text rt True f"
| "json_indent rt level (JStr s) = Inr (quote_text s)"
| "json_indent rt level (JList js) =
     (if js = [] then Inr [91, 93]
      else map_sum id (\<lambda>ts. [91] @ new_line (Suc level) @ py_join (44 # new_line (Suc level)) ts @ new_line level @ [93])
        (map_exn (json_indent rt (Suc level)) js))"
| "json_indent rt level (JDict d) =
     (if d = [] then Inr [123, 125]
      else map_sum id (\<lambda>ts. [123] @ new_line (Suc level) @ py_join (44 # new_line (Suc level)) ts @ new_line level @ [125])
        (map_exn (\<lambda>p. map_sum id (\<lambda>t. quote_text (fst p) @ [58, 32] @ t) (json_indent rt (Suc level) (snd p))) (sort_key fst d)))"

lemma new_line_spaces [simp]: "spaces (new_line n)"
  by (simp add: new_line_def json_space_def list_all_iff)

lemma joined_elements:
  "list_all2 json_text js ts \<Longrightarrow> js \<noteq> [] \<Longrightarrow> spaces v \<Longrightarrow> spaces w \<Longrightarrow> elements_text js (py_join (44 # v) ts @ w @ [93])"
proof (induction js ts rule: list_all2_induct)
  case (Cons j js t ts)
  show ?case
  proof (cases js)
    case Nil
    with Cons show ?thesis by (auto intro: last_element)
  next
    fix j' js' assume js: "js = j' # js'"
    with Cons.hyps obtain t' ts' where ts: "ts = t' # ts'" by (cases ts) auto
    have "elements_text js (py_join (44 # v) ts @ w @ [93])" using Cons js by simp
    from next_element[OF Cons.hyps(1) _ Cons.prems(2) this, of "[]"] show ?thesis by (simp add: ts)
  qed
qed simp

definition member_text :: "ustr \<Rightarrow> ustr \<times> json \<Rightarrow> ustr \<Rightarrow> bool" where
  "member_text y p t \<longleftrightarrow> (\<exists>u. t = quote_text (fst p) @ 58 # y @ u \<and> json_text (snd p) u)"

lemma joined_members:
  "list_all2 (member_text y) d ts \<Longrightarrow> d \<noteq> [] \<Longrightarrow> spaces y \<Longrightarrow> spaces v \<Longrightarrow> spaces w \<Longrightarrow>
     members_text d (py_join (44 # v) ts @ w @ [125])"
proof (induction d ts rule: list_all2_induct)
  case (Cons p d t ts)
  obtain k j where p: "p = (k, j)" by (cases p)
  with Cons.hyps(1) obtain u where u: "t = quote_text k @ 58 # y @ u" "json_text j u" by (auto simp: member_text_def)
  show ?case
  proof (cases d)
    case Nil
    with last_member[OF _ Cons.prems(2) u(2) Cons.prems(4), of "[]" k] Cons.hyps(2) show ?thesis by (simp add: p u(1))
  next
    fix p' d' assume d: "d = p' # d'"
    with Cons.hyps obtain t' ts' where ts: "ts = t' # ts'" by (cases ts) auto
    have "members_text d (py_join (44 # v) ts @ w @ [125])" using Cons d by simp
    from next_member[OF _ Cons.prems(2) u(2) _ Cons.prems(3) this, of "[]" "[]" k] show ?thesis by (simp add: ts p u(1))
  qed
qed simp

lemma map_exn_list_all2: "map_exn f xs = Inr ys \<Longrightarrow> (\<And>x y. x \<in> set xs \<Longrightarrow> f x = Inr y \<Longrightarrow> P (g x) y) \<Longrightarrow> list_all2 P (map g xs) ys"
  by (induction xs arbitrary: ys) (auto split: sum.splits)

lemma sort_key_map_snd: "sort_key fst (map (\<lambda>p. (fst p, f (snd p))) d) = map (\<lambda>p. (fst p, f (snd p))) (sort_key fst d)"
proof -
  have insort: "insort_key fst (fst p, f (snd p)) (map (\<lambda>p. (fst p, f (snd p))) xs) = map (\<lambda>p. (fst p, f (snd p))) (insort_key fst p xs)"
    for p and xs by (induction xs) auto
  show ?thesis by (induction d) (simp_all add: insort[of "(_, _)", simplified])
qed

lemma sorted_dict_text:
  assumes "map_exn (\<lambda>p. map_sum id (\<lambda>t. quote_text (fst p) @ (58 # y) @ t) (pr (snd p))) (sort_key fst d) = Inr ts"
    and "\<And>p t. p \<in> set d \<Longrightarrow> pr (snd p) = Inr t \<Longrightarrow> json_text (sort_json (snd p)) t"
    and "spaces v" "spaces w" "spaces x" "spaces y" "distinct (map fst d)" "d \<noteq> []"
  shows "json_text (sort_json (JDict d)) ([123] @ x @ py_join (44 # v) ts @ w @ [125])"
proof -
  let ?d = "map (\<lambda>p. (fst p, sort_json (snd p))) (sort_key fst d)"
  have "list_all2 (member_text y) ?d ts"
    using assms(1) by (rule map_exn_list_all2) (use assms(2) in \<open>fastforce simp: member_text_def\<close>)
  moreover have "?d \<noteq> []" using assms(8) by (metis list.map_disc_iff length_0_conv length_sort)
  ultimately have "members_text ?d (py_join (44 # v) ts @ w @ [125])" using assms by (intro joined_members)
  moreover have "distinct (map fst ?d)" using assms(7) by (simp add: comp_def distinct_map_fst_sort)
  ultimately show ?thesis using text_dict[OF assms(5)] by (simp add: sort_key_map_snd)
qed

lemma dumps_text:
  "json_dumps rt (44 # v) (58 # y) nan j = Inr t \<Longrightarrow> spaces v \<Longrightarrow> spaces y \<Longrightarrow> no_floats j \<Longrightarrow> json_wf j \<Longrightarrow> json_text (sort_json j) t"
proof (induction j arbitrary: t)
  case (JInt i)
  then show ?case by (auto simp: py_str_int_def split: if_splits intro: text_int)
next
  case (JList js)
  then obtain ts where ts: "map_exn (json_dumps rt (44 # v) (58 # y) nan) js = Inr ts" "t = [91] @ py_join (44 # v) ts @ [93]" by auto
  have "list_all2 json_text (map sort_json js) ts"
    using ts(1) by (rule map_exn_list_all2) (use JList in \<open>auto simp: list_all_iff\<close>)
  then show ?case
  proof (cases "js = []")
    case True
    with ts text_nil[of "[]"] show ?thesis by simp
  next
    case False
    with joined_elements[OF \<open>list_all2 _ _ _\<close> _ JList.prems(2), of "[]"] text_list[of "[]"] ts(2) show ?thesis by simp
  qed
next
  case (JDict d)
  then obtain ts where ts: "map_exn (\<lambda>p. map_sum id (\<lambda>t. quote_text (fst p) @ (58 # y) @ t) (json_dumps rt (44 # v) (58 # y) nan (snd p)))
      (sort_key fst d) = Inr ts" "t = [123] @ py_join (44 # v) ts @ [125]" by auto
  have sub: "json_text (sort_json (snd p)) u" if "p \<in> set d" "json_dumps rt (44 # v) (58 # y) nan (snd p) = Inr u" for p u
  proof (rule JDict.IH[OF that(1) _ that(2)])
    show "snd p \<in> Basic_BNFs.snds p" by (cases p) simp
    show "no_floats (snd p)" "json_wf (snd p)" using JDict.prems that(1) by (simp_all add: list_all_iff)
  qed (rule JDict.prems)+
  show ?case
  proof (cases "d = []")
    case True
    with ts text_empty[of "[]"] show ?thesis by simp
  next
    case False
    with sorted_dict_text[OF ts(1) sub JDict.prems(2), of "[]" "[]"] JDict.prems ts(2) show ?thesis by simp
  qed
qed (auto intro: text_null text_str text_bool[of True, simplified] text_bool[of False, simplified])

lemma indent_text:
  "json_indent rt level j = Inr t \<Longrightarrow> no_floats j \<Longrightarrow> json_wf j \<Longrightarrow> json_text (sort_json j) t"
proof (induction j arbitrary: level t)
  case (JInt i)
  then show ?case by (auto simp: py_str_int_def split: if_splits intro: text_int)
next
  case (JList js)
  show ?case
  proof (cases "js = []")
    case True
    with JList text_nil[of "[]"] show ?thesis by simp
  next
    case False
    with JList obtain ts where ts: "map_exn (json_indent rt (Suc level)) js = Inr ts"
      "t = [91] @ new_line (Suc level) @ py_join (44 # new_line (Suc level)) ts @ new_line level @ [93]" by auto
    have "list_all2 json_text (map sort_json js) ts"
      using ts(1) by (rule map_exn_list_all2) (use JList in \<open>auto simp: list_all_iff\<close>)
    with joined_elements[OF this, of "new_line (Suc level)" "new_line level"] text_list[of "new_line (Suc level)"] ts(2) False
    show ?thesis by simp
  qed
next
  case (JDict d)
  show ?case
  proof (cases "d = []")
    case True
    with JDict text_empty[of "[]"] show ?thesis by simp
  next
    case False
    with JDict obtain ts where ts: "map_exn (\<lambda>p. map_sum id (\<lambda>t. quote_text (fst p) @ (58 # [32]) @ t) (json_indent rt (Suc level) (snd p)))
        (sort_key fst d) = Inr ts"
      "t = [123] @ new_line (Suc level) @ py_join (44 # new_line (Suc level)) ts @ new_line level @ [125]" by auto
    have sub: "json_text (sort_json (snd p)) u" if "p \<in> set d" "json_indent rt (Suc level) (snd p) = Inr u" for p u
    proof (rule JDict.IH[OF that(1) _ that(2)])
      show "snd p \<in> Basic_BNFs.snds p" by (cases p) simp
      show "no_floats (snd p)" "json_wf (snd p)" using JDict.prems that(1) by (simp_all add: list_all_iff)
    qed
    from sorted_dict_text[OF ts(1) sub, of "new_line (Suc level)" "new_line level" "new_line (Suc level)"] JDict.prems ts(2) False
    show ?thesis by (simp add: json_space_def)
  qed
qed (auto intro: text_null text_str text_bool[of True, simplified] text_bool[of False, simplified])

subsection \<open>Sorted trees\<close>

lemma depth_sorted: "json_depth (sort_json j) = json_depth j"
proof (induction j)
  case (JList js)
  then have "map json_depth (map sort_json js) = map json_depth js" by simp
  then show ?case by (simp only: sort_json.simps json_depth.simps)
next
  case (JDict d)
  have "json_depth (sort_json (snd p)) = json_depth (snd p)" if "p \<in> set d" for p
    using JDict.IH[OF that] by (cases p) auto
  then have "(\<lambda>p. json_depth (snd p)) ` set (sort_key fst (map (\<lambda>p. (fst p, sort_json (snd p))) d)) = (\<lambda>p. json_depth (snd p)) ` set d"
    by (simp add: image_image)
  then show ?case by (simp only: sort_json.simps json_depth.simps set_map)
qed simp_all

lemma dumps_sorted: "json_dumps rt i k nan (sort_json j) = json_dumps rt i k nan j"
proof (induction j)
  case (JList js)
  have "map_exn (json_dumps rt i k nan) (map sort_json js) = map_exn (json_dumps rt i k nan) js"
    using JList by (induction js) (auto split: sum.split)
  then show ?case by simp
next
  case (JDict d)
  let ?f = "\<lambda>p. map_sum id (\<lambda>t. quote_text (fst p) @ k @ t) (json_dumps rt i k nan (snd p))"
  have same: "json_dumps rt i k nan (sort_json (snd p)) = json_dumps rt i k nan (snd p)" if "p \<in> set d" for p
    using JDict.IH[OF that] by (cases p) simp
  have sorted: "sort_key fst (sort_key fst (map (\<lambda>p. (fst p, sort_json (snd p))) d)) = map (\<lambda>p. (fst p, sort_json (snd p))) (sort_key fst d)"
    by (simp add: sort_key_map_snd sort_key_id_if_sorted comp_def)
  have "map_exn ?f (map (\<lambda>p. (fst p, sort_json (snd p))) xs) = map_exn ?f xs" if "set xs \<subseteq> set d" for xs
    using that
  proof (induction xs)
    case (Cons p xs)
    then have "json_dumps rt i k nan (sort_json (snd p)) = json_dumps rt i k nan (snd p)" by (intro same) simp
    with Cons show ?case by (simp cong: sum.case_cong)
  qed simp
  from this[of "sort_key fst d"] show ?case
    unfolding sort_json.simps json_dumps.simps sorted by simp
qed simp_all

lemma sha256_value_sorted: "sha256_value rt (sort_json j) = sha256_value rt j"
  by (simp add: sha256_value_def canonical_json_bytes_def dumps_compact_def dumps_sorted)

lemma map_of_sort: "distinct (map fst d) \<Longrightarrow> map_of (sort_key fst d) = map_of d"
  by (rule map_of_inject_set[THEN iffD2]) (simp_all add: distinct_map_fst_sort)

lemma map_of_sorted:
  assumes "distinct (map fst d)"
  shows "map_of (sort_key fst (map (\<lambda>p. (fst p, sort_json (snd p))) d)) k = map_option sort_json (map_of d k)"
proof -
  have "map_of (map (\<lambda>p. (fst p, sort_json (snd p))) d) k = map_option sort_json (map_of d k)" by (induction d) auto
  moreover have "distinct (map fst (map (\<lambda>p. (fst p, sort_json (snd p))) d))" using assms by (simp add: comp_def)
  ultimately show ?thesis by (simp only: map_of_sort)
qed

lemma printed_read:
  assumes "dumps_compact rt nan j = Inr t \<or> json_indent rt 0 j = Inr t" "json_wf j" "no_floats j"
    "json_depth j < rt_json_depth rt" "builds_objects hk" "list_all json_space w"
  shows "json_loads rt hk (t @ w) = Inr (sort_json j)"
proof -
  have printed: "json_text (sort_json j) t"
    using assms(1) dumps_text[of rt "[]" "[]" nan j t] indent_text[of rt 0 j t] assms(2,3) by (auto simp: dumps_compact_def)
  obtain c s where "t = c # s" "token_head c" using json_text_head[OF printed] by blast
  then have "\<not> startswith (t @ w) [65279]" by (auto simp: startswith_def token_head_def is_digit_def)
  moreover have "skip_ws (t @ w) = t @ w" by (rule json_text_solid(2)[OF printed])
  moreover have "scan_value rt hk (rt_json_depth rt) (t @ w) = Inr (sort_json j, w)"
    using assms by (intro grammar_read(1)[OF assms(5) printed]) (simp_all add: depth_sorted follows_spaces_only)
  moreover have "skip_ws w = []" using skip_spaces[OF assms(6), of "[]"] by (simp add: skip_ws_def)
  ultimately show ?thesis by (simp add: json_loads_def)
qed


end
