(* ===== verification/Parity_Checks.thy ===== *)
theory Parity_Checks
  imports Parity_Json Regex
begin

section \<open>Checks of parity documents\<close>

text \<open>
  The readers of \<^verbatim>\<open>parity/results.py\<close> and \<^verbatim>\<open>parity/catalog.py\<close> raise one error of their own
  (\<^verbatim>\<open>ResultViolation\<close>, \<^verbatim>\<open>CatalogViolation\<close>), which is \<open>Violation\<close> here; its message is not kept.
  Any other exception that leaves them is \<open>Escapes\<close>. The checks they share are collected here with
  the lemmas \<open>checks_pass\<close> that say when each of them passes.
\<close>

datatype check_error = Violation | Escapes exn

subsection \<open>Checks\<close>

definition demand :: "bool \<Rightarrow> check_error + unit" where
  "demand b = (if b then Inr () else Inl Violation)"

definition hashed :: "exn + ustr \<Rightarrow> check_error + ustr" where
  "hashed x = map_sum Escapes id x"

text \<open>\<^verbatim>\<open>d.get(name)\<close>, and \<^verbatim>\<open>d[name]\<close> for a name that is a key.\<close>

definition field :: "(ustr \<times> json) list \<Rightarrow> string \<Rightarrow> json" where
  "field d name = (case map_of d (lit name) of Some v \<Rightarrow> v | None \<Rightarrow> JNull)"

text \<open>\<^verbatim>\<open>v == n\<close>: a boolean and a float may equal an integer.\<close>

definition equals_int :: "json \<Rightarrow> int \<Rightarrow> bool" where
  "equals_int v n =
     (case v of JInt i \<Rightarrow> i = n | JBool b \<Rightarrow> (if b then 1 else 0) = n
      | JFloat (FFin r) \<Rightarrow> r = of_int n | _ \<Rightarrow> False)"

text \<open>\<^verbatim>\<open>v in {...}\<close> for a set of strings.\<close>

definition in_names :: "json \<Rightarrow> string list \<Rightarrow> check_error + bool" where
  "in_names v names =
     (case v of JStr s \<Rightarrow> Inr (s \<in> set (lits names)) | JList _ \<Rightarrow> Inl (Escapes TypeError)
      | JDict _ \<Rightarrow> Inl (Escapes TypeError) | _ \<Rightarrow> Inr False)"

definition text_matching :: "regex \<Rightarrow> json \<Rightarrow> check_error + ustr" where
  "text_matching r v =
     (case v of JStr s \<Rightarrow> if fullmatch r s then Inr s else Inl Violation
      | _ \<Rightarrow> Inl Violation)"

definition optional_text :: "(json \<Rightarrow> check_error + ustr) \<Rightarrow> json \<Rightarrow> check_error + ustr option" where
  "optional_text f v = (if v = JNull then Inr None else map_sum id Some (f v))"

definition named :: "string list \<Rightarrow> json \<Rightarrow> check_error + ustr" where
  "named names v =
     and_then (in_names v names) (\<lambda>b. and_then (demand b) (\<lambda>_.
       case v of JStr s \<Rightarrow> Inr s | _ \<Rightarrow> Inl Violation))"

definition count_in :: "int \<Rightarrow> int option \<Rightarrow> json \<Rightarrow> check_error + int" where
  "count_in lo hi v =
     (case v of JInt n \<Rightarrow> if n < lo \<or> (case hi of None \<Rightarrow> False | Some h \<Rightarrow> n > h)
                then Inl Violation else Inr n
      | _ \<Rightarrow> Inl Violation)"

subsection \<open>When a check passes\<close>

named_theorems checks_pass \<open>when a check of a reader passes\<close>

lemma and_then_InrE: "and_then x f = Inr z \<Longrightarrow> (\<And>y. x = Inr y \<Longrightarrow> f y = Inr z \<Longrightarrow> P) \<Longrightarrow> P"
  by (cases x) auto

lemma demand_Inr [checks_pass]: "demand b = Inr u \<longleftrightarrow> b"
  by (simp add: demand_def)

lemma hashed_Inr [checks_pass]: "hashed x = Inr h \<longleftrightarrow> x = Inr h"
  by (cases x) (auto simp: hashed_def)

lemma text_matching_Inr: "text_matching r v = Inr s \<longleftrightarrow> v = JStr s \<and> fullmatch r s"
  by (cases v) (auto simp: text_matching_def)

lemma in_names_Inr: "in_names v names = Inr True \<longleftrightarrow> v \<in> JStr ` set (lits names)"
  by (cases v) (auto simp: in_names_def)

lemma named_Inr [checks_pass]: "named names v = Inr s \<longleftrightarrow> v = JStr s \<and> s \<in> set (lits names)"
  by (cases v) (auto simp: named_def in_names_def demand_def)

lemma opt_text_Inr:
  "optional_text f v = Inr x \<longleftrightarrow>
     (case x of None \<Rightarrow> v = JNull | Some s \<Rightarrow> v \<noteq> JNull \<and> f v = Inr s)"
  by (auto simp: optional_text_def split: option.splits)

lemma bounded_run:
  "list_ex (\<lambda>e. snd e = []) (ends (Rep lo (Some hi) P) (b, t)) \<longleftrightarrow>
     lo \<le> length t \<and> length t \<le> hi \<and> list_all P t"
proof -
  have "list_ex (\<lambda>e. snd e = []) (ends (Rep lo (Some hi) P) (b, t)) \<longleftrightarrow>
      (\<exists>k. lo \<le> k \<and> k \<le> hi \<and> k \<le> length (takeWhile P t) \<and> length t \<le> k)"
    using length_takeWhile_le[of P t]
    by (auto simp: list_ex_iff run_length_def advance_def Bex_def less_Suc_eq_le intro!: exI[of _ "length t"])
  also have "\<dots> \<longleftrightarrow> lo \<le> length t \<and> length t \<le> hi \<and> length (takeWhile P t) = length t"
    using length_takeWhile_le[of P t] by auto
  also have "length (takeWhile P t) = length t \<longleftrightarrow> list_all P t"
    by (metis list_all_iff takeWhile_eq_all_conv takeWhile_eq_take take_all_iff order_refl)
  finally show ?thesis .
qed

lemma fullmatch_exact: "fullmatch (Rep n (Some n) P) s \<longleftrightarrow> length s = n \<and> list_all P s"
  unfolding fullmatch_def bounded_run by auto

lemma count_in_Inr [checks_pass]:
  "count_in lo hi v = Inr n \<longleftrightarrow> v = JInt n \<and> lo \<le> n \<and> (\<forall>h. hi = Some h \<longrightarrow> n \<le> h)"
  by (cases v) (auto simp: count_in_def split: option.splits)

end
