(* ===== verification/Parity_Results.thy ===== *)
theory Parity_Results
  imports Parity_Checks
begin

section \<open>Result packets (parity/results.py)\<close>

text \<open>
  A packet is one trial of one path of one capability, bound by three hashes to its trace, its
  candidate and its own content. \<open>from_dict\<close> and \<open>build\<close> are the two ways to a packet;
  \<open>packet_ok\<close> says what every packet satisfies, and \<open>to_dict\<close> is shown to be read back to the
  same packet. An exception of the source other than \<^verbatim>\<open>ResultViolation\<close> is \<open>Escapes\<close>:
  a list where a name is expected raises \<^verbatim>\<open>TypeError\<close> from the test of membership, and an
  integer beyond 4300 digits cannot be printed.
\<close>

datatype ExecutionClassification =
  PENDING | EXPECTED_NEGATIVE | ENVIRONMENT_BLOCKED | VERIFIED_FAILURE | COMPLETE

type_synonym event = "(ustr \<times> json) list"

definition HASH :: regex where "HASH = Rep 64 (Some 64) hex_digest_char"
definition SHA :: regex where "SHA = Rep 40 (Some 40) hex_digest_char"

definition safe_id_char :: "nat \<Rightarrow> bool" where
  "safe_id_char c \<longleftrightarrow> is_alnum c \<or> chars ''._:@/+-'' c"

definition SAFE_ID :: regex where
  "SAFE_ID = Seq (Cls is_alnum) (Rep 0 (Some 255) safe_id_char)"

definition PACKET_FIELDS :: "string list" where
  "PACKET_FIELDS =
     [''schema_version'', ''capability_id'', ''source_pack'', ''lane'', ''path'', ''execution_id'',
      ''classification'', ''contract_hash'', ''catalog_hash'', ''plugin_sha'', ''host_sha'',
      ''sdk_version'', ''profile_id'', ''profile_hash'', ''runner_version'', ''inventory_hash'',
      ''candidate_hash'', ''billing_classification'', ''turn_count'', ''trial_index'',
      ''normalized_events'', ''trace_hash'', ''primary_proof_hash'', ''secondary_proof_hash'',
      ''silent_fallback'', ''invariant_violations'', ''reason_code'', ''packet_hash'']"

definition EVENT_FIELDS :: "string list" where
  "EVENT_FIELDS =
     [''sequence'', ''kind'', ''status'', ''name_hash'', ''request_hash'', ''state_hash'',
      ''usage_hash'', ''schema_hash'', ''tool_hash'', ''parent_hash'', ''terminal_outcome'',
      ''metadata_hash'']"

definition EVENT_KINDS :: "string list" where
  "EVENT_KINDS =
     [''start'', ''approval_requested'', ''approval_decision'', ''tool_requested'', ''tool_result'',
      ''state'', ''usage'', ''compaction'', ''background'', ''restart'', ''terminal'']"

definition TERMINAL_OUTCOMES :: "string list" where
  "TERMINAL_OUTCOMES = [''completed'', ''denied'', ''failed'', ''cancelled'']"

definition BILLING :: "string list" where
  "BILLING = [''subscription_included'', ''explicitly_free'', ''none'', ''unsafe'', ''unknown'']"

definition FORBIDDEN_KEYS :: "string list" where
  "FORBIDDEN_KEYS =
     [''raw_content'', ''raw_prompt'', ''raw_session'', ''messages'', ''auth_material'', ''credential'',
      ''credentials'', ''api_key'', ''access_token'', ''refresh_token'', ''session_id'']"

definition MAX_NORMALIZED_EVENTS :: nat where "MAX_NORMALIZED_EVENTS = 10000"

definition classification_value :: "ExecutionClassification \<Rightarrow> ustr" where
  "classification_value c =
     (case c of PENDING \<Rightarrow> lit ''PENDING'' | EXPECTED_NEGATIVE \<Rightarrow> lit ''EXPECTED_NEGATIVE''
      | ENVIRONMENT_BLOCKED \<Rightarrow> lit ''ENVIRONMENT_BLOCKED''
      | VERIFIED_FAILURE \<Rightarrow> lit ''VERIFIED_FAILURE'' | COMPLETE \<Rightarrow> lit ''COMPLETE'')"

subsection \<open>Checks\<close>

definition safe_id :: "json \<Rightarrow> check_error + ustr" where "safe_id v = text_matching SAFE_ID v"
definition hash_text :: "json \<Rightarrow> check_error + ustr" where "hash_text v = text_matching HASH v"
definition sha_text :: "json \<Rightarrow> check_error + ustr" where "sha_text v = text_matching SHA v"

fun has_forbidden :: "json \<Rightarrow> bool" where
  "has_forbidden (JDict d) = list_ex (\<lambda>p. fst p \<in> set (lits FORBIDDEN_KEYS) \<or> has_forbidden (snd p)) d"
| "has_forbidden (JList js) = list_ex has_forbidden js"
| "has_forbidden _ = False"

subsection \<open>Events\<close>

definition is_hash_field :: "ustr \<Rightarrow> bool" where
  "is_hash_field k \<longleftrightarrow> drop (length k - 5) k = lit ''_hash''"

definition is_terminal_event :: "event \<Rightarrow> bool" where
  "is_terminal_event e \<longleftrightarrow> field e ''kind'' = JStr (lit ''terminal'')"

definition check_event :: "nat \<Rightarrow> json \<Rightarrow> check_error + event" where
  "check_event index raw =
     (case raw of
        JDict e \<Rightarrow>
          and_then (demand (fst ` set e \<subseteq> set (lits EVENT_FIELDS) \<and> equals_int (field e ''sequence'') (int index))) (\<lambda>_.
          and_then (named EVENT_KINDS (field e ''kind'')) (\<lambda>_.
          and_then (optional_text safe_id (field e ''status'')) (\<lambda>_.
          and_then (demand (list_all (\<lambda>(k, v). is_hash_field k \<longrightarrow> (\<exists>h. hash_text v = Inr h)) e)) (\<lambda>_.
          if is_terminal_event e
          then and_then (named TERMINAL_OUTCOMES (field e ''terminal_outcome'')) (\<lambda>_. Inr e)
          else and_then (demand (field e ''terminal_outcome'' = JNull)) (\<lambda>_. Inr e)))))
      | _ \<Rightarrow> Inl Violation)"

fun check_events :: "nat \<Rightarrow> json list \<Rightarrow> check_error + event list" where
  "check_events index [] = Inr []"
| "check_events index (raw # raws) =
     and_then (check_event index raw) (\<lambda>e. map_sum id ((#) e) (check_events (Suc index) raws))"

definition normalize_events :: "json \<Rightarrow> check_error + event list" where
  "normalize_events value =
     (case value of
        JList raws \<Rightarrow> if length raws > MAX_NORMALIZED_EVENTS then Inl Violation else check_events 1 raws
      | _ \<Rightarrow> Inl Violation)"

definition events_json :: "event list \<Rightarrow> json" where
  "events_json events = JList (map JDict events)"

definition terminal_fits :: "ExecutionClassification \<Rightarrow> event list \<Rightarrow> bool" where
  "terminal_fits c events =
     (let terminals = filter is_terminal_event events;
          ended = (\<lambda>names. length terminals = 1 \<and>
            field (hd terminals) ''terminal_outcome'' \<in> (JStr \<circ> lit) ` set names)
      in case c of
           PENDING \<Rightarrow> terminals = [] | ENVIRONMENT_BLOCKED \<Rightarrow> terminals = []
         | COMPLETE \<Rightarrow> ended [''completed''] | EXPECTED_NEGATIVE \<Rightarrow> ended [''denied'']
         | VERIFIED_FAILURE \<Rightarrow> ended [''failed'', ''cancelled''])"

subsection \<open>The candidate\<close>

record candidate =
  cd_catalog_hash :: ustr
  cd_plugin_sha :: ustr
  cd_host_sha :: ustr
  cd_sdk_version :: ustr
  cd_profile_hash :: ustr
  cd_runner_version :: ustr
  cd_inventory_hash :: ustr

definition candidate_hash :: "pyrt \<Rightarrow> candidate \<Rightarrow> exn + ustr" where
  "candidate_hash rt c =
     sha256_value rt (JDict
       [(lit ''catalog_hash'', JStr (cd_catalog_hash c)), (lit ''plugin_sha'', JStr (cd_plugin_sha c)),
        (lit ''host_sha'', JStr (cd_host_sha c)), (lit ''sdk_version'', JStr (cd_sdk_version c)),
        (lit ''profile_hash'', JStr (cd_profile_hash c)),
        (lit ''runner_version'', JStr (cd_runner_version c)),
        (lit ''inventory_hash'', JStr (cd_inventory_hash c))])"

subsection \<open>The packet\<close>

text \<open>
  The fields of the source that are constants of every packet (\<^verbatim>\<open>schema_version\<close>,
  \<^verbatim>\<open>silent_fallback\<close>, \<^verbatim>\<open>invariant_violations\<close>) are written by \<open>to_fields\<close>.
\<close>

record ResultPacket =
  rp_capability_id :: ustr
  rp_source_pack :: ustr
  rp_lane :: ustr
  rp_path :: ustr
  rp_execution_id :: ustr
  rp_classification :: ExecutionClassification
  rp_contract_hash :: ustr
  rp_candidate :: candidate
  rp_profile_id :: ustr
  rp_candidate_hash :: ustr
  rp_billing :: ustr
  rp_turn_count :: int
  rp_trial_index :: int
  rp_events :: "event list"
  rp_trace_hash :: ustr
  rp_primary :: "ustr option"
  rp_secondary :: "ustr option"
  rp_reason_code :: "ustr option"
  rp_packet_hash :: ustr

definition classification_of :: "json \<Rightarrow> check_error + ExecutionClassification" where
  "classification_of v =
     (case filter (\<lambda>c. v = JStr (classification_value c))
             [PENDING, EXPECTED_NEGATIVE, ENVIRONMENT_BLOCKED, VERIFIED_FAILURE, COMPLETE] of
        [] \<Rightarrow> Inl Violation | c # _ \<Rightarrow> Inr c)"

definition proofs_present :: "ExecutionClassification \<Rightarrow> ustr option \<Rightarrow> ustr option \<Rightarrow> bool" where
  "proofs_present c primary secondary \<longleftrightarrow>
     (c \<in> {COMPLETE, EXPECTED_NEGATIVE} \<longrightarrow> primary \<noteq> None \<and> secondary \<noteq> None)"

definition without_hash :: "(ustr \<times> json) list \<Rightarrow> json" where
  "without_hash d = JDict (dict_del (lit ''packet_hash'') d)"

text \<open>The hashes of a packet, checked in the order of the source.\<close>

definition bind_candidate :: "pyrt \<Rightarrow> (ustr \<times> json) list \<Rightarrow> ustr \<Rightarrow> ustr \<Rightarrow> check_error + candidate \<times> ustr" where
  "bind_candidate rt d sdk_version runner_version =
     and_then (hash_text (field d ''catalog_hash'')) (\<lambda>catalog_hash.
     and_then (hash_text (field d ''profile_hash'')) (\<lambda>profile_hash.
     and_then (hash_text (field d ''inventory_hash'')) (\<lambda>inventory_hash.
     and_then (sha_text (field d ''plugin_sha'')) (\<lambda>plugin_sha.
     and_then (sha_text (field d ''host_sha'')) (\<lambda>host_sha.
       let c = \<lparr>cd_catalog_hash = catalog_hash, cd_plugin_sha = plugin_sha, cd_host_sha = host_sha,
                cd_sdk_version = sdk_version, cd_profile_hash = profile_hash,
                cd_runner_version = runner_version, cd_inventory_hash = inventory_hash\<rparr>
       in and_then (hashed (candidate_hash rt c)) (\<lambda>expected.
          and_then (hash_text (field d ''candidate_hash'')) (\<lambda>given.
          and_then (demand (given = expected)) (\<lambda>_. Inr (c, given)))))))))"

definition parse_packet :: "pyrt \<Rightarrow> (ustr \<times> json) list \<Rightarrow> check_error + ResultPacket" where
  "parse_packet rt d =
     and_then (demand (fst ` set d = set (lits PACKET_FIELDS) \<and> \<not> has_forbidden (JDict d) \<and>
                       equals_int (field d ''schema_version'') 1)) (\<lambda>_.
     and_then (classification_of (field d ''classification'')) (\<lambda>classification.
     and_then (safe_id (field d ''capability_id'')) (\<lambda>capability_id.
     and_then (safe_id (field d ''source_pack'')) (\<lambda>source_pack.
     and_then (named [''rc'', ''runtime''] (field d ''lane'')) (\<lambda>lane.
     and_then (named [''positive'', ''denial'', ''recovery''] (field d ''path'')) (\<lambda>path.
     and_then (safe_id (field d ''execution_id'')) (\<lambda>execution_id.
     and_then (safe_id (field d ''sdk_version'')) (\<lambda>sdk_version.
     and_then (safe_id (field d ''profile_id'')) (\<lambda>profile_id.
     and_then (safe_id (field d ''runner_version'')) (\<lambda>runner_version.
     and_then (named BILLING (field d ''billing_classification'')) (\<lambda>billing.
     and_then (demand (billing \<notin> set (lits [''unsafe'', ''unknown'']))) (\<lambda>_.
     and_then (count_in 0 (Some 180) (field d ''turn_count'')) (\<lambda>turn_count.
     and_then (count_in 1 None (field d ''trial_index'')) (\<lambda>trial_index.
     and_then (demand (field d ''silent_fallback'' = JBool False)) (\<lambda>_.
     and_then (demand (field d ''invariant_violations'' = JList [])) (\<lambda>_.
     and_then (optional_text safe_id (field d ''reason_code'')) (\<lambda>reason_code.
     and_then (normalize_events (field d ''normalized_events'')) (\<lambda>events.
     and_then (demand (terminal_fits classification events)) (\<lambda>_.
     and_then (optional_text hash_text (field d ''primary_proof_hash'')) (\<lambda>primary.
     and_then (optional_text hash_text (field d ''secondary_proof_hash'')) (\<lambda>secondary.
     and_then (demand (proofs_present classification primary secondary)) (\<lambda>_.
     and_then (hash_text (field d ''trace_hash'')) (\<lambda>trace_hash.
     and_then (hashed (sha256_value rt (events_json events))) (\<lambda>expected_trace.
     and_then (demand (trace_hash = expected_trace)) (\<lambda>_.
     and_then (bind_candidate rt d sdk_version runner_version) (\<lambda>bound.
     and_then (hash_text (field d ''packet_hash'')) (\<lambda>packet_hash.
     and_then (hashed (sha256_value rt (without_hash d))) (\<lambda>expected_packet.
     and_then (demand (packet_hash = expected_packet)) (\<lambda>_.
     and_then (hash_text (field d ''contract_hash'')) (\<lambda>contract_hash.
       Inr \<lparr>rp_capability_id = capability_id, rp_source_pack = source_pack, rp_lane = lane,
            rp_path = path, rp_execution_id = execution_id, rp_classification = classification,
            rp_contract_hash = contract_hash, rp_candidate = fst bound, rp_profile_id = profile_id,
            rp_candidate_hash = snd bound, rp_billing = billing, rp_turn_count = turn_count,
            rp_trial_index = trial_index, rp_events = events, rp_trace_hash = trace_hash,
            rp_primary = primary, rp_secondary = secondary, rp_reason_code = reason_code,
            rp_packet_hash = packet_hash\<rparr>))))))))))))))))))))))))))))))"

definition from_dict :: "pyrt \<Rightarrow> heap \<Rightarrow> nat \<Rightarrow> pyval \<Rightarrow> check_error + ResultPacket" where
  "from_dict rt H frames value =
     (case json_compatible H frames value of
        Inl e \<Rightarrow> Inl (if e = TypeError then Violation else Escapes e)
      | Inr (JDict d) \<Rightarrow> parse_packet rt d
      | Inr _ \<Rightarrow> Inl Violation)"

definition optional_json :: "ustr option \<Rightarrow> json" where
  "optional_json x = (case x of None \<Rightarrow> JNull | Some s \<Rightarrow> JStr s)"

definition raw_fields :: "bool \<Rightarrow> ustr list \<Rightarrow> ResultPacket \<Rightarrow> (ustr \<times> json) list" where
  "raw_fields silent_fallback invariant_violations p =
     [(lit ''schema_version'', JInt 1),
      (lit ''capability_id'', JStr (rp_capability_id p)),
      (lit ''source_pack'', JStr (rp_source_pack p)),
      (lit ''lane'', JStr (rp_lane p)),
      (lit ''path'', JStr (rp_path p)),
      (lit ''execution_id'', JStr (rp_execution_id p)),
      (lit ''classification'', JStr (classification_value (rp_classification p))),
      (lit ''contract_hash'', JStr (rp_contract_hash p)),
      (lit ''catalog_hash'', JStr (cd_catalog_hash (rp_candidate p))),
      (lit ''plugin_sha'', JStr (cd_plugin_sha (rp_candidate p))),
      (lit ''host_sha'', JStr (cd_host_sha (rp_candidate p))),
      (lit ''sdk_version'', JStr (cd_sdk_version (rp_candidate p))),
      (lit ''profile_id'', JStr (rp_profile_id p)),
      (lit ''profile_hash'', JStr (cd_profile_hash (rp_candidate p))),
      (lit ''runner_version'', JStr (cd_runner_version (rp_candidate p))),
      (lit ''inventory_hash'', JStr (cd_inventory_hash (rp_candidate p))),
      (lit ''candidate_hash'', JStr (rp_candidate_hash p)),
      (lit ''billing_classification'', JStr (rp_billing p)),
      (lit ''turn_count'', JInt (rp_turn_count p)),
      (lit ''trial_index'', JInt (rp_trial_index p)),
      (lit ''normalized_events'', events_json (rp_events p)),
      (lit ''trace_hash'', JStr (rp_trace_hash p)),
      (lit ''primary_proof_hash'', optional_json (rp_primary p)),
      (lit ''secondary_proof_hash'', optional_json (rp_secondary p)),
      (lit ''silent_fallback'', JBool silent_fallback),
      (lit ''invariant_violations'', JList (map JStr invariant_violations)),
      (lit ''reason_code'', optional_json (rp_reason_code p)),
      (lit ''packet_hash'', JStr (rp_packet_hash p))]"

definition to_fields :: "ResultPacket \<Rightarrow> (ustr \<times> json) list" where
  "to_fields p = raw_fields False [] p"

definition to_dict :: "ResultPacket \<Rightarrow> json" where "to_dict p = JDict (to_fields p)"

text \<open>
  \<^verbatim>\<open>ResultPacket.build\<close>: the arguments are the two that no packet keeps and a packet whose
  three hashes are not looked at. The dictionary it makes is a fresh tree, which \<^verbatim>\<open>from_dict\<close>
  copies to itself.
\<close>

definition build :: "pyrt \<Rightarrow> bool \<Rightarrow> ustr list \<Rightarrow> ResultPacket \<Rightarrow> check_error + ResultPacket" where
  "build rt silent_fallback invariant_violations a =
     and_then (hashed (candidate_hash rt (rp_candidate a))) (\<lambda>identity.
     and_then (hashed (sha256_value rt (events_json (rp_events a)))) (\<lambda>trace.
       let raw = raw_fields silent_fallback invariant_violations
                   (a\<lparr>rp_candidate_hash := identity, rp_trace_hash := trace\<rparr>)
       in and_then (hashed (sha256_value rt (without_hash raw))) (\<lambda>own.
            parse_packet rt (dict_set (lit ''packet_hash'') (JStr own) raw))))"

subsection \<open>What a packet satisfies\<close>

definition event_ok :: "nat \<Rightarrow> event \<Rightarrow> bool" where
  "event_ok index e \<longleftrightarrow>
     fst ` set e \<subseteq> set (lits EVENT_FIELDS) \<and> equals_int (field e ''sequence'') (int index) \<and>
     field e ''kind'' \<in> JStr ` set (lits EVENT_KINDS) \<and>
     (\<exists>status. field e ''status'' = optional_json status \<and> (\<forall>s. status = Some s \<longrightarrow> fullmatch SAFE_ID s)) \<and>
     list_all (\<lambda>(k, v). is_hash_field k \<longrightarrow> (\<exists>h. v = JStr h \<and> is_hex64 h)) e \<and>
     (if is_terminal_event e then field e ''terminal_outcome'' \<in> JStr ` set (lits TERMINAL_OUTCOMES)
      else field e ''terminal_outcome'' = JNull)"

definition events_ok :: "event list \<Rightarrow> bool" where
  "events_ok events \<longleftrightarrow> length events \<le> MAX_NORMALIZED_EVENTS \<and>
     (\<forall>i < length events. event_ok (Suc i) (events ! i)) \<and> \<not> has_forbidden (events_json events)"

definition is_sha40 :: "ustr \<Rightarrow> bool" where
  "is_sha40 s \<longleftrightarrow> length s = 40 \<and> list_all hex_digest_char s"

definition candidate_ok :: "candidate \<Rightarrow> bool" where
  "candidate_ok c \<longleftrightarrow> list_all is_hex64 [cd_catalog_hash c, cd_profile_hash c, cd_inventory_hash c] \<and>
     list_all is_sha40 [cd_plugin_sha c, cd_host_sha c] \<and>
     list_all (fullmatch SAFE_ID) [cd_sdk_version c, cd_runner_version c]"

text \<open>What the arguments of \<open>build\<close> have to satisfy, and what binds the hashes of a packet.\<close>

definition content_ok :: "ResultPacket \<Rightarrow> bool" where
  "content_ok p \<longleftrightarrow>
     list_all (fullmatch SAFE_ID) [rp_capability_id p, rp_source_pack p, rp_execution_id p, rp_profile_id p] \<and>
     rp_lane p \<in> set (lits [''rc'', ''runtime'']) \<and>
     rp_path p \<in> set (lits [''positive'', ''denial'', ''recovery'']) \<and>
     rp_billing p \<in> set (lits [''subscription_included'', ''explicitly_free'', ''none'']) \<and>
     0 \<le> rp_turn_count p \<and> rp_turn_count p \<le> 180 \<and> 1 \<le> rp_trial_index p \<and>
     (\<forall>s. rp_reason_code p = Some s \<longrightarrow> fullmatch SAFE_ID s) \<and>
     (\<forall>h. rp_primary p = Some h \<longrightarrow> is_hex64 h) \<and> (\<forall>h. rp_secondary p = Some h \<longrightarrow> is_hex64 h) \<and>
     proofs_present (rp_classification p) (rp_primary p) (rp_secondary p) \<and>
     is_hex64 (rp_contract_hash p) \<and> candidate_ok (rp_candidate p) \<and>
     events_ok (rp_events p) \<and> terminal_fits (rp_classification p) (rp_events p)"

definition packet_ok :: "pyrt \<Rightarrow> ResultPacket \<Rightarrow> bool" where
  "packet_ok rt p \<longleftrightarrow> content_ok p \<and>
     candidate_hash rt (rp_candidate p) = Inr (rp_candidate_hash p) \<and>
     sha256_value rt (events_json (rp_events p)) = Inr (rp_trace_hash p) \<and>
     is_hex64 (rp_packet_hash p)"

subsection \<open>Reading the checks\<close>

lemma fullmatch_SAFE_ID:
  "fullmatch SAFE_ID s \<longleftrightarrow>
     (case s of [] \<Rightarrow> False | c # t \<Rightarrow> is_alnum c \<and> length t \<le> 255 \<and> list_all safe_id_char t)"
proof (cases s)
  case (Cons c t)
  then show ?thesis
    using bounded_run[of 0 255 safe_id_char "[c]" t] by (simp add: SAFE_ID_def fullmatch_def del: ends.simps(5))
qed (simp add: SAFE_ID_def fullmatch_def)

lemma hash_text_Inr [checks_pass]: "hash_text v = Inr h \<longleftrightarrow> v = JStr h \<and> is_hex64 h"
  by (auto simp: hash_text_def text_matching_Inr HASH_def fullmatch_exact is_hex64_def)

lemma sha_text_Inr [checks_pass]: "sha_text v = Inr h \<longleftrightarrow> v = JStr h \<and> is_sha40 h"
  by (auto simp: sha_text_def text_matching_Inr SHA_def fullmatch_exact is_sha40_def)

lemma safe_id_Inr [checks_pass]: "safe_id v = Inr s \<longleftrightarrow> v = JStr s \<and> fullmatch SAFE_ID s"
  by (simp add: safe_id_def text_matching_Inr)

lemma optional_checks [checks_pass]:
  "optional_text safe_id v = Inr x \<longleftrightarrow> v = optional_json x \<and> (\<forall>s. x = Some s \<longrightarrow> fullmatch SAFE_ID s)"
  "optional_text hash_text v = Inr x \<longleftrightarrow> v = optional_json x \<and> (\<forall>s. x = Some s \<longrightarrow> is_hex64 s)"
  by (auto simp: opt_text_Inr optional_json_def hash_text_Inr safe_id_Inr split: option.splits)

lemma classification_of_Inr [checks_pass]:
  "classification_of v = Inr c \<longleftrightarrow> v = JStr (classification_value c)"
  by (cases c) (auto simp: classification_of_def classification_value_def)

lemma kind_Inr: "named names v = Inr s \<longleftrightarrow> v \<in> JStr ` set (lits names) \<and> v = JStr s"
  by (auto simp: named_Inr)

lemma hash_fields_ok:
  "(\<lambda>(k, v). is_hash_field k \<longrightarrow> (\<exists>h. hash_text v = Inr h)) =
   (\<lambda>(k, v). is_hash_field k \<longrightarrow> (\<exists>h. v = JStr h \<and> is_hex64 h))"
  by (simp add: hash_text_Inr)

lemma check_event_dict: "check_event n (JDict e) = Inr e' \<longleftrightarrow> e' = e \<and> event_ok n e"
proof (cases "is_terminal_event e")
  case True
  then show ?thesis
    unfolding check_event_def event_ok_def hash_fields_ok json.case
    by (simp only: and_then_Inr demand_Inr kind_Inr optional_checks if_True) (auto simp: and_then_Inr kind_Inr)
next
  case False
  then show ?thesis
    unfolding check_event_def event_ok_def hash_fields_ok json.case
    by (simp only: and_then_Inr demand_Inr kind_Inr optional_checks if_False) (auto simp: and_then_Inr demand_Inr)
qed

lemma check_event_Inr: "check_event n v = Inr e \<longleftrightarrow> v = JDict e \<and> event_ok n e"
proof (cases v)
  case (JDict d)
  then show ?thesis by (auto simp: check_event_dict)
qed (simp_all add: check_event_def)

lemma check_events_Inr:
  "check_events n vs = Inr es \<longleftrightarrow> vs = map JDict es \<and> (\<forall>i < length es. event_ok (n + i) (es ! i))"
proof (induction vs arbitrary: n es)
  case (Cons v vs)
  show ?case
    by (cases es) (auto simp: and_then_Inr check_event_Inr Cons.IH All_less_Suc2)
qed auto

lemma normalize_events_Inr [checks_pass]:
  "normalize_events v = Inr es \<longleftrightarrow> v = events_json es \<and> length es \<le> MAX_NORMALIZED_EVENTS \<and>
     (\<forall>i < length es. event_ok (Suc i) (es ! i))"
  by (cases v) (auto simp: normalize_events_def events_json_def check_events_Inr)

lemma bind_candidate_Inr [checks_pass]:
  "bind_candidate rt d sdk runner = Inr (c, h) \<longleftrightarrow>
     field d ''catalog_hash'' = JStr (cd_catalog_hash c) \<and> field d ''plugin_sha'' = JStr (cd_plugin_sha c) \<and>
     field d ''host_sha'' = JStr (cd_host_sha c) \<and> cd_sdk_version c = sdk \<and>
     field d ''profile_hash'' = JStr (cd_profile_hash c) \<and> cd_runner_version c = runner \<and>
     field d ''inventory_hash'' = JStr (cd_inventory_hash c) \<and> field d ''candidate_hash'' = JStr h \<and>
     list_all is_hex64 [cd_catalog_hash c, cd_profile_hash c, cd_inventory_hash c] \<and>
     list_all is_sha40 [cd_plugin_sha c, cd_host_sha c] \<and> candidate_hash rt c = Inr h"
  by (cases c) (auto simp: bind_candidate_def and_then_Inr Let_def hash_text_Inr sha_text_Inr hashed_Inr
      demand_Inr candidate_hash_def dest: sha256_value_shape)

subsection \<open>What is read\<close>

text \<open>The dictionary \<open>d\<close> has the values of the packet, but perhaps another form of its version.\<close>

definition shows_packet :: "(ustr \<times> json) list \<Rightarrow> ResultPacket \<Rightarrow> bool" where
  "shows_packet d p \<longleftrightarrow>
     fst ` set d = set (lits PACKET_FIELDS) \<and> equals_int (field d ''schema_version'') 1 \<and>
     list_all (\<lambda>(k, v). map_of d k = Some v) (tl (to_fields p))"

lemma to_fields_keys: "map fst (to_fields p) = lits PACKET_FIELDS"
  by (simp add: to_fields_def raw_fields_def PACKET_FIELDS_def lits_def)

lemma to_fields_key_set: "fst ` set (to_fields p) = set (lits PACKET_FIELDS)"
  using arg_cong[OF to_fields_keys, of set p] by (simp only: set_map)

lemma distinct_fields: "distinct (map fst (to_fields p))"
  by (simp add: to_fields_def raw_fields_def)

lemma has_forbidden_member: "(k, v) \<in> set d \<Longrightarrow> \<not> has_forbidden (JDict d) \<Longrightarrow> \<not> has_forbidden v"
  by (auto simp: list_ex_iff)

lemma bind_candidate_versions:
  "bind_candidate rt d sdk runner = Inr b \<Longrightarrow> cd_sdk_version (fst b) = sdk \<and> cd_runner_version (fst b) = runner"
  by (cases b) (auto simp: bind_candidate_Inr)

lemma parse_packet_parts:
  assumes "parse_packet rt d = Inr p"
  shows "field d ''capability_id'' = JStr (rp_capability_id p) \<and> field d ''source_pack'' = JStr (rp_source_pack p) \<and>
    field d ''lane'' = JStr (rp_lane p) \<and> field d ''path'' = JStr (rp_path p) \<and>
    field d ''execution_id'' = JStr (rp_execution_id p) \<and>
    field d ''classification'' = JStr (classification_value (rp_classification p)) \<and>
    field d ''contract_hash'' = JStr (rp_contract_hash p) \<and> field d ''profile_id'' = JStr (rp_profile_id p) \<and>
    field d ''sdk_version'' = JStr (cd_sdk_version (rp_candidate p)) \<and>
    field d ''runner_version'' = JStr (cd_runner_version (rp_candidate p)) \<and>
    field d ''billing_classification'' = JStr (rp_billing p) \<and> field d ''turn_count'' = JInt (rp_turn_count p) \<and>
    field d ''trial_index'' = JInt (rp_trial_index p) \<and> field d ''silent_fallback'' = JBool False \<and>
    field d ''invariant_violations'' = JList [] \<and> field d ''normalized_events'' = events_json (rp_events p) \<and>
    field d ''reason_code'' = optional_json (rp_reason_code p) \<and>
    field d ''primary_proof_hash'' = optional_json (rp_primary p) \<and>
    field d ''secondary_proof_hash'' = optional_json (rp_secondary p) \<and>
    field d ''trace_hash'' = JStr (rp_trace_hash p) \<and> field d ''packet_hash'' = JStr (rp_packet_hash p) \<and>
    bind_candidate rt d (cd_sdk_version (rp_candidate p)) (cd_runner_version (rp_candidate p)) =
      Inr (rp_candidate p, rp_candidate_hash p) \<and>
    fst ` set d = set (lits PACKET_FIELDS) \<and> \<not> has_forbidden (JDict d) \<and>
    equals_int (field d ''schema_version'') 1 \<and>
    sha256_value rt (without_hash d) = Inr (rp_packet_hash p) \<and>
    sha256_value rt (events_json (rp_events p)) = Inr (rp_trace_hash p)"
  using assms unfolding parse_packet_def
  apply (elim and_then_InrE)
  apply (frule bind_candidate_versions)
  apply (simp only: demand_Inr hashed_Inr named_Inr hash_text_Inr safe_id_Inr optional_checks
        count_in_Inr classification_of_Inr normalize_events_Inr sum.inject)
  apply clarify
  apply simp
  done


lemma parse_packet_fields:
  assumes "parse_packet rt d = Inr p"
  shows "field d ''capability_id'' = JStr (rp_capability_id p)" "field d ''source_pack'' = JStr (rp_source_pack p)"
    "field d ''lane'' = JStr (rp_lane p)" "field d ''path'' = JStr (rp_path p)"
    "field d ''execution_id'' = JStr (rp_execution_id p)"
    "field d ''classification'' = JStr (classification_value (rp_classification p))"
    "field d ''contract_hash'' = JStr (rp_contract_hash p)" "field d ''profile_id'' = JStr (rp_profile_id p)"
    "field d ''sdk_version'' = JStr (cd_sdk_version (rp_candidate p))"
    "field d ''runner_version'' = JStr (cd_runner_version (rp_candidate p))"
    "field d ''billing_classification'' = JStr (rp_billing p)" "field d ''turn_count'' = JInt (rp_turn_count p)"
    "field d ''trial_index'' = JInt (rp_trial_index p)" "field d ''silent_fallback'' = JBool False"
    "field d ''invariant_violations'' = JList []" "field d ''normalized_events'' = events_json (rp_events p)"
    "field d ''reason_code'' = optional_json (rp_reason_code p)"
    "field d ''primary_proof_hash'' = optional_json (rp_primary p)"
    "field d ''secondary_proof_hash'' = optional_json (rp_secondary p)"
    "field d ''trace_hash'' = JStr (rp_trace_hash p)" "field d ''packet_hash'' = JStr (rp_packet_hash p)"
  using parse_packet_parts[OF assms] by simp_all

lemma field_forbidden: "\<not> has_forbidden (JDict d) \<Longrightarrow> \<not> has_forbidden (field d n)"
proof (cases "map_of d (lit n)")
  case (Some v)
  moreover assume "\<not> has_forbidden (JDict d)"
  ultimately show ?thesis using map_of_SomeD[OF Some] by (auto simp: field_def list_ex_iff)
qed (simp add: field_def)

lemma bind_candidate_ok:
  assumes "bind_candidate rt d sdk runner = Inr b" "fullmatch SAFE_ID sdk" "fullmatch SAFE_ID runner"
  shows "candidate_ok (fst b) \<and> candidate_hash rt (fst b) = Inr (snd b)"
  using assms by (cases b) (auto simp: bind_candidate_Inr candidate_ok_def)

lemma named_in: "named names v = Inr s \<Longrightarrow> s \<in> set (lits names)"
  by (simp only: named_Inr)

lemma parse_packet_ok:
  assumes "parse_packet rt d = Inr p"
  shows "packet_ok rt p"
proof -
  note parts = parse_packet_parts[OF assms]
  have events: "\<not> has_forbidden (events_json (rp_events p))"
    using parts field_forbidden[of d "''normalized_events''"] by simp
  have "content_ok p"
    using assms events unfolding parse_packet_def
    apply (elim and_then_InrE)
    apply (frule bind_candidate_ok, simp only: safe_id_Inr, simp only: safe_id_Inr)
    apply (simp only: demand_Inr hashed_Inr named_Inr hash_text_Inr safe_id_Inr optional_checks
        count_in_Inr classification_of_Inr normalize_events_Inr sum.inject)
    apply clarify
    apply (simp add: content_ok_def events_ok_def BILLING_def)
    done
  then show ?thesis
    using parts by (auto simp: packet_ok_def bind_candidate_Inr dest: sha256_value_shape)
qed

lemma field_map_of: "fst ` set d = set (lits names) \<Longrightarrow> n \<in> set names \<Longrightarrow> map_of d (lit n) = Some (field d n)"
  by (auto simp: field_def map_of_eq_None_iff split: option.split)

lemma parse_packet_shows:
  assumes "parse_packet rt d = Inr p"
  shows "shows_packet d p"
proof -
  note parts = parse_packet_parts[OF assms]
  then have keys: "fst ` set d = set (lits PACKET_FIELDS)" by blast
  have "list_all (\<lambda>n. map_of d (lit n) = Some (field d n)) PACKET_FIELDS"
    by (simp add: list_all_iff field_map_of[OF keys])
  then have at: "list_all (\<lambda>n. map_of d (lit n) = Some (field d n)) (tl PACKET_FIELDS)"
    by (simp add: PACKET_FIELDS_def)
  have bound: "field d ''catalog_hash'' = JStr (cd_catalog_hash (rp_candidate p))"
    "field d ''plugin_sha'' = JStr (cd_plugin_sha (rp_candidate p))"
    "field d ''host_sha'' = JStr (cd_host_sha (rp_candidate p))"
    "field d ''profile_hash'' = JStr (cd_profile_hash (rp_candidate p))"
    "field d ''inventory_hash'' = JStr (cd_inventory_hash (rp_candidate p))"
    "field d ''candidate_hash'' = JStr (rp_candidate_hash p)"
    using parts by (simp_all only: bind_candidate_Inr)
  have "list_all (\<lambda>(k, v). map_of d k = Some v) (tl (to_fields p))"
    using at parts bound by (simp add: PACKET_FIELDS_def to_fields_def raw_fields_def)
  with parts keys show ?thesis by (simp add: shows_packet_def)
qed

text \<open>Conversely, a dictionary that shows an accepted packet is read as this packet.\<close>

lemma parse_packet_complete:
  assumes "shows_packet d p" "packet_ok rt p" "\<not> has_forbidden (JDict d)"
    and own: "sha256_value rt (without_hash d) = Inr (rp_packet_hash p)"
  shows "parse_packet rt d = Inr p"
proof -
  have at: "list_all (\<lambda>(k, v). map_of d k = Some v) (tl (to_fields p))"
    and keys: "fst ` set d = set (lits PACKET_FIELDS)" "equals_int (field d ''schema_version'') 1"
    using assms(1) by (simp_all add: shows_packet_def)
  note facts = at[unfolded to_fields_def raw_fields_def, simplified]
  have ok: "content_ok p" "candidate_ok (rp_candidate p)" "events_ok (rp_events p)"
    "candidate_hash rt (rp_candidate p) = Inr (rp_candidate_hash p)"
    "sha256_value rt (events_json (rp_events p)) = Inr (rp_trace_hash p)" "is_hex64 (rp_packet_hash p)"
    using assms(2) by (simp_all add: packet_ok_def content_ok_def)
  have hex: "is_hex64 (rp_candidate_hash p)" "is_hex64 (rp_trace_hash p)"
    using ok(4,5) by (auto simp: candidate_hash_def dest: sha256_value_shape)
  have bound: "bind_candidate rt d (cd_sdk_version (rp_candidate p)) (cd_runner_version (rp_candidate p)) =
      Inr (rp_candidate p, rp_candidate_hash p)"
    using facts ok by (simp add: bind_candidate_Inr field_def candidate_ok_def)
  have ids: "safe_id (field d ''capability_id'') = Inr (rp_capability_id p)"
    "safe_id (field d ''source_pack'') = Inr (rp_source_pack p)"
    "safe_id (field d ''execution_id'') = Inr (rp_execution_id p)"
    "safe_id (field d ''profile_id'') = Inr (rp_profile_id p)"
    "safe_id (field d ''sdk_version'') = Inr (cd_sdk_version (rp_candidate p))"
    "safe_id (field d ''runner_version'') = Inr (cd_runner_version (rp_candidate p))"
    "optional_text safe_id (field d ''reason_code'') = Inr (rp_reason_code p)"
    using facts ok(1,2) by (simp_all add: checks_pass field_def content_ok_def candidate_ok_def)
  have member: "rp_lane p \<in> set (lits [''rc'', ''runtime''])"
    "rp_path p \<in> set (lits [''positive'', ''denial'', ''recovery''])"
    "rp_billing p \<in> set (lits [''subscription_included'', ''explicitly_free'', ''none''])"
    using ok(1) by (simp_all only: content_ok_def)
  have lists: "field d ''lane'' = JStr (rp_lane p)" "field d ''path'' = JStr (rp_path p)"
    "field d ''billing_classification'' = JStr (rp_billing p)"
    using facts by (simp_all add: field_def)
  have names: "named [''rc'', ''runtime''] (field d ''lane'') = Inr (rp_lane p)"
    "named [''positive'', ''denial'', ''recovery''] (field d ''path'') = Inr (rp_path p)"
    "named BILLING (field d ''billing_classification'') = Inr (rp_billing p)"
    "rp_billing p \<notin> set (lits [''unsafe'', ''unknown''])"
    using member lists by (auto simp: checks_pass BILLING_def)
  have counts: "count_in 0 (Some 180) (field d ''turn_count'') = Inr (rp_turn_count p)"
    "count_in 1 None (field d ''trial_index'') = Inr (rp_trial_index p)"
    "classification_of (field d ''classification'') = Inr (rp_classification p)"
    using facts ok(1) by (simp_all add: checks_pass field_def content_ok_def)
  have hashes: "optional_text hash_text (field d ''primary_proof_hash'') = Inr (rp_primary p)"
    "optional_text hash_text (field d ''secondary_proof_hash'') = Inr (rp_secondary p)"
    "hash_text (field d ''trace_hash'') = Inr (rp_trace_hash p)"
    "hash_text (field d ''packet_hash'') = Inr (rp_packet_hash p)"
    "hash_text (field d ''contract_hash'') = Inr (rp_contract_hash p)"
    using facts ok(1,6) hex by (simp_all add: checks_pass field_def content_ok_def)
  have rest: "normalize_events (field d ''normalized_events'') = Inr (rp_events p)"
    "field d ''silent_fallback'' = JBool False" "field d ''invariant_violations'' = JList []"
    "terminal_fits (rp_classification p) (rp_events p)"
    "proofs_present (rp_classification p) (rp_primary p) (rp_secondary p)"
    using facts ok(1,3) by (simp_all add: checks_pass field_def content_ok_def events_ok_def)
  have yes: "demand True = Inr ()" "hashed (Inr h) = Inr h" for h
    by (simp_all add: demand_def hashed_def)
  show ?thesis
    unfolding parse_packet_def
    by (simp only: keys assms(3) ids names counts hashes rest ok(5) own bound yes and_then_simps
        simp_thms fst_conv snd_conv) simp
qed

lemma same_packet_hash:
  assumes "json_wf (JDict d)" "shows_packet d p" "field d ''schema_version'' = JInt 1"
  shows "sha256_value rt (without_hash d) = sha256_value rt (without_hash (to_fields p))"
proof -
  have keys: "fst ` set d = set (lits PACKET_FIELDS)"
    and at: "list_all (\<lambda>(k, v). map_of d k = Some v) (tl (to_fields p))"
    using assms(2) by (simp_all add: shows_packet_def)
  have "map_of d k = Some v" if "(k, v) \<in> set (to_fields p)" for k v
  proof (cases "(k, v) \<in> set (tl (to_fields p))")
    case True
    then show ?thesis using at by (auto simp: list_all_iff)
  next
    case False
    with that have "k = lit ''schema_version''" "v = JInt 1" by (auto simp: to_fields_def raw_fields_def)
    then show ?thesis
      using assms(3) field_map_of[OF keys, of "''schema_version''"] by (simp add: PACKET_FIELDS_def)
  qed
  then have some: "map_of (to_fields p) k = Some v \<Longrightarrow> map_of d k = Some v" for k v
    by (blast dest: map_of_SomeD)
  have "map_of d k = map_of (to_fields p) k" for k
  proof (cases "map_of (to_fields p) k")
    case None
    then have "k \<notin> fst ` set d" using to_fields_key_set[of p] keys by (simp add: map_of_eq_None_iff)
    then have "map_of d k = None" by (simp only: map_of_eq_None_iff not_False_eq_True)
    with None show ?thesis by simp
  qed (simp add: some)
  then have "same_json (without_hash d) (without_hash (to_fields p))"
    using assms(1) distinct_fields[of p] unfolding without_hash_def
    by (intro same_dict) (auto simp: dict_del_def distinct_map_filter map_of_dict_del[unfolded dict_del_def])
  then show ?thesis by (rule sha256_value_same)
qed

lemma to_fields_shows: "shows_packet (to_fields p) p"
proof -
  have "list_all (\<lambda>(k, v). map_of (to_fields p) k = Some v) (to_fields p)"
    using distinct_fields by (auto simp: list_all_iff)
  moreover have "field (to_fields p) ''schema_version'' = JInt 1"
    by (simp add: field_def to_fields_def raw_fields_def)
  moreover have "set (tl xs) \<subseteq> set xs" for xs :: "(ustr \<times> json) list" by (cases xs) auto
  ultimately show ?thesis
    by (auto simp: shows_packet_def to_fields_key_set equals_int_def list_all_iff)
qed

lemma to_fields_allowed: "events_ok (rp_events p) \<Longrightarrow> \<not> has_forbidden (JDict (to_fields p))"
  by (auto simp: to_fields_def raw_fields_def events_ok_def FORBIDDEN_KEYS_def optional_json_def split: option.split)

subsection \<open>Properties\<close>

lemma from_dict_Inr:
  "from_dict rt H frames v = Inr p \<longleftrightarrow>
     (\<exists>d. json_compatible H frames v = Inr (JDict d) \<and> parse_packet rt d = Inr p)"
  by (auto simp: from_dict_def split: sum.splits json.splits)


text \<open>
  C30: A packet that was read from a document whose version is the integer 1 and is written by
  \<^verbatim>\<open>to_dict\<close> is read back as the same packet.
\<close>

theorem packet_round_trip:
  assumes "json_compatible H frames v = Inr (JDict d)" "parse_packet rt d = Inr p"
    and "field d ''schema_version'' = JInt 1"
  shows "to_dict p = JDict (to_fields p) \<and> parse_packet rt (to_fields p) = Inr p"
proof -
  have "sha256_value rt (without_hash (to_fields p)) = Inr (rp_packet_hash p)"
    using same_packet_hash[OF json_compatible_wf[OF assms(1)] parse_packet_shows[OF assms(2)] assms(3)]
      parse_packet_parts[OF assms(2)] by simp
  moreover have "packet_ok rt p" by (rule parse_packet_ok[OF assms(2)])
  ultimately show ?thesis
    using parse_packet_complete[OF to_fields_shows] to_fields_allowed
    by (simp add: to_dict_def packet_ok_def content_ok_def)
qed

text \<open>The packet \<open>build\<close> makes of its arguments, when the hashes exist.\<close>

definition built_from :: "pyrt \<Rightarrow> ResultPacket \<Rightarrow> ResultPacket \<Rightarrow> bool" where
  "built_from rt a p \<longleftrightarrow>
     p = a\<lparr>rp_candidate_hash := rp_candidate_hash p, rp_trace_hash := rp_trace_hash p,
           rp_packet_hash := rp_packet_hash p\<rparr> \<and>
     packet_ok rt p \<and> sha256_value rt (without_hash (to_fields p)) = Inr (rp_packet_hash p)"

lemma fullmatch_ascii: "fullmatch SAFE_ID s \<Longrightarrow> is_ascii s"
proof -
  assume "fullmatch SAFE_ID s"
  moreover have "is_alnum c \<Longrightarrow> c < 128" for c
    by (auto simp: is_alnum_def is_digit_def is_upper_def is_lower_def)
  moreover from this have "safe_id_char c \<Longrightarrow> c < 128" for c
    by (auto simp: safe_id_char_def chars_def lit_def)
  ultimately show ?thesis
    by (cases s) (auto simp: fullmatch_SAFE_ID is_ascii_def list_all_iff)
qed

lemma raw_fields_packet_hash:
  "dict_set (lit ''packet_hash'') (JStr h) (raw_fields sf iv a) = raw_fields sf iv (a\<lparr>rp_packet_hash := h\<rparr>)"
  by (simp add: raw_fields_def)

lemma without_hash_raw: "without_hash (raw_fields sf iv (a\<lparr>rp_packet_hash := h\<rparr>)) = without_hash (raw_fields sf iv a)"
  by (simp add: without_hash_def raw_fields_def dict_del_def)

lemma json_inj:
  "events_json es = events_json es' \<longleftrightarrow> es = es'" "optional_json x = optional_json y \<longleftrightarrow> x = y"
  "classification_value c = classification_value c' \<longleftrightarrow> c = c'"
  subgoal by (simp add: events_json_def inj_map_eq_map inj_def)
  subgoal by (cases x; cases y) (simp_all add: optional_json_def)
  subgoal by (cases c; cases c') (simp_all add: classification_value_def)
  done

lemma parse_raw_fields:
  assumes "parse_packet rt (raw_fields sf iv a) = Inr p"
  shows "p = a \<and> \<not> sf \<and> iv = []"
proof -
  define d where "d = raw_fields sf iv a"
  have "distinct (map fst d)" by (simp add: d_def raw_fields_def)
  then have "list_all (\<lambda>(k, v). map_of d k = Some v) d" by (auto simp: list_all_iff)
  then have "list_all (\<lambda>(k, v). map_of d k = Some v) (raw_fields sf iv a)" by (simp only: d_def[symmetric])
  note shown = this[unfolded raw_fields_def, simplified]
  have read: "parse_packet rt d = Inr p" using assms by (simp add: d_def)
  note parts = parse_packet_fields[OF read, unfolded field_def, simplified shown option.case]
  have "rp_capability_id p = rp_capability_id a" "rp_source_pack p = rp_source_pack a" "rp_lane p = rp_lane a"
    "rp_path p = rp_path a" "rp_execution_id p = rp_execution_id a" "rp_contract_hash p = rp_contract_hash a"
    "rp_profile_id p = rp_profile_id a" "rp_billing p = rp_billing a" "rp_turn_count p = rp_turn_count a"
    "rp_trial_index p = rp_trial_index a" "rp_trace_hash p = rp_trace_hash a" "rp_packet_hash p = rp_packet_hash a"
    "cd_sdk_version (rp_candidate p) = cd_sdk_version (rp_candidate a)"
    "cd_runner_version (rp_candidate p) = cd_runner_version (rp_candidate a)"
    using parts by simp_all
  note same = this
  have "rp_classification p = rp_classification a" "rp_events p = rp_events a" "rp_primary p = rp_primary a"
    "rp_secondary p = rp_secondary a" "rp_reason_code p = rp_reason_code a" "\<not> sf" "iv = []"
    using parts by (simp_all add: json_inj)
  note same = same this
  have "bind_candidate rt d (cd_sdk_version (rp_candidate p))
      (cd_runner_version (rp_candidate p)) = Inr (rp_candidate p, rp_candidate_hash p)"
    using parse_packet_parts[OF read] by blast
  then have "cd_catalog_hash (rp_candidate p) = cd_catalog_hash (rp_candidate a)"
    "cd_plugin_sha (rp_candidate p) = cd_plugin_sha (rp_candidate a)"
    "cd_host_sha (rp_candidate p) = cd_host_sha (rp_candidate a)"
    "cd_profile_hash (rp_candidate p) = cd_profile_hash (rp_candidate a)"
    "cd_inventory_hash (rp_candidate p) = cd_inventory_hash (rp_candidate a)"
    "rp_candidate_hash p = rp_candidate_hash a"
    by (simp_all add: bind_candidate_Inr field_def shown)
  note bound = this
  have "rp_candidate p = rp_candidate a"
    by (rule candidate.equality) (simp_all add: same bound)
  then have "p = a"
    by (intro ResultPacket.equality) (simp_all add: same bound)
  with same show ?thesis by simp
qed

lemma parse_to_fields:
  "parse_packet rt (to_fields p) = Inr p \<longleftrightarrow>
     packet_ok rt p \<and> sha256_value rt (without_hash (to_fields p)) = Inr (rp_packet_hash p)"
proof (intro iffI conjI; (elim conjE)?)
  assume read: "parse_packet rt (to_fields p) = Inr p"
  show "packet_ok rt p" by (rule parse_packet_ok[OF read])
  show "sha256_value rt (without_hash (to_fields p)) = Inr (rp_packet_hash p)"
    using parse_packet_parts[OF read] by blast
next
  assume "packet_ok rt p" "sha256_value rt (without_hash (to_fields p)) = Inr (rp_packet_hash p)"
  moreover from this have "events_ok (rp_events p)" by (simp add: packet_ok_def content_ok_def)
  ultimately show "parse_packet rt (to_fields p) = Inr p"
    by (intro parse_packet_complete to_fields_shows to_fields_allowed)
qed

lemma built_from_hashes:
  "built_from rt a p \<Longrightarrow> content_ok a"
  by (cases a, cases p) (simp add: built_from_def packet_ok_def content_ok_def)

lemma ascii_texts: "is_hex64 h \<Longrightarrow> is_ascii h" "is_sha40 h \<Longrightarrow> is_ascii h"
  by (auto simp: is_hex64_def is_sha40_def is_ascii_def list_all_iff hex_digest_char_def is_digit_def)

lemma content_hashable:
  assumes "content_ok a" "hashable_json (events_json (rp_events a))"
    and "length (dec_nat (nat (rp_trial_index a))) \<le> MAX_INT_STR_DIGITS"
    and "is_ascii (rp_candidate_hash a)" "is_ascii (rp_trace_hash a)"
  shows "hashable_json (without_hash (to_fields a))"
proof -
  have "rp_turn_count a \<le> 180" "0 \<le> rp_turn_count a" "1 \<le> rp_trial_index a"
    using assms(1) by (simp_all add: content_ok_def)
  moreover have short: "n < 1000 \<Longrightarrow> length (dec_nat n) \<le> 4300" for n
    by (subst dec_nat.simps, subst dec_nat.simps, subst dec_nat.simps) simp
  ultimately have numbers: "length (dec_nat (nat \<bar>rp_turn_count a\<bar>)) \<le> MAX_INT_STR_DIGITS"
    "length (dec_nat (nat \<bar>rp_trial_index a\<bar>)) \<le> MAX_INT_STR_DIGITS"
    "length (dec_nat (Suc 0)) \<le> MAX_INT_STR_DIGITS"
    using assms(3) short[of "nat \<bar>rp_turn_count a\<bar>"] short[of 1] by (simp_all add: MAX_INT_STR_DIGITS_def)
  have "hashable_json (optional_json x)" if "\<forall>s. x = Some s \<longrightarrow> is_ascii s" for x
    using that by (cases x) (simp_all add: optional_json_def)
  moreover have "is_ascii s" if "s \<in> set (lits [''rc'', ''runtime'', ''positive'', ''denial'', ''recovery'',
      ''subscription_included'', ''explicitly_free'', ''none''])" for s
    using that by (auto simp: is_ascii_def lit_def)
  moreover have "is_ascii (classification_value c)" for c
    by (cases c) (simp_all add: classification_value_def is_ascii_def lit_def)
  ultimately have texts: "list_all is_ascii [rp_capability_id a, rp_source_pack a, rp_execution_id a, rp_profile_id a,
      rp_lane a, rp_path a, rp_billing a, rp_contract_hash a, classification_value (rp_classification a),
      cd_catalog_hash (rp_candidate a), cd_profile_hash (rp_candidate a), cd_inventory_hash (rp_candidate a),
      cd_plugin_sha (rp_candidate a), cd_host_sha (rp_candidate a), cd_sdk_version (rp_candidate a),
      cd_runner_version (rp_candidate a)]"
    "hashable_json (optional_json (rp_primary a))" "hashable_json (optional_json (rp_secondary a))"
    "hashable_json (optional_json (rp_reason_code a))"
    using assms(1) ascii_texts fullmatch_ascii by (auto simp: content_ok_def candidate_ok_def)
  have ascii_keys: "list_all (\<lambda>n. is_ascii (lit n)) PACKET_FIELDS"
    by (simp add: PACKET_FIELDS_def is_ascii_def lit_def)
  show ?thesis
    using assms(2-5) texts numbers ascii_keys[unfolded PACKET_FIELDS_def] by (simp add: without_hash_def to_fields_def raw_fields_def dict_del_def)
qed

lemma candidate_hash_total:
  assumes candidate: "candidate_ok c"
  obtains identity where "candidate_hash rt c = Inr identity"
proof -
  have keys: "list_all (\<lambda>n. is_ascii (lit n)) [''catalog_hash'', ''plugin_sha'', ''host_sha'', ''sdk_version'',
      ''profile_hash'', ''runner_version'', ''inventory_hash'']"
    by (simp add: is_ascii_def lit_def)
  have "hashable_json (JDict [(lit ''catalog_hash'', JStr (cd_catalog_hash c)),
      (lit ''plugin_sha'', JStr (cd_plugin_sha c)), (lit ''host_sha'', JStr (cd_host_sha c)),
      (lit ''sdk_version'', JStr (cd_sdk_version c)), (lit ''profile_hash'', JStr (cd_profile_hash c)),
      (lit ''runner_version'', JStr (cd_runner_version c)), (lit ''inventory_hash'', JStr (cd_inventory_hash c))])"
    using candidate keys by (simp add: candidate_ok_def ascii_texts fullmatch_ascii)
  then show ?thesis using that unfolding candidate_hash_def using sha256_value_hashable by blast
qed

lemma build_accepts:
  assumes "content_ok a" "hashable_json (events_json (rp_events a))"
    and "length (dec_nat (nat (rp_trial_index a))) \<le> MAX_INT_STR_DIGITS"
  shows "\<exists>p. build rt False [] a = Inr p \<and> built_from rt a p"
proof -
  have "candidate_ok (rp_candidate a)" using assms(1) by (simp add: content_ok_def)
  then obtain identity where identity: "candidate_hash rt (rp_candidate a) = Inr identity"
    by (rule candidate_hash_total)
  obtain trace where trace: "sha256_value rt (events_json (rp_events a)) = Inr trace"
    using sha256_value_hashable[OF assms(2)] by blast
  let ?a = "a\<lparr>rp_candidate_hash := identity, rp_trace_hash := trace\<rparr>"
  have hex: "is_hex64 identity" "is_hex64 trace"
    using identity trace by (auto simp: candidate_hash_def dest: sha256_value_shape)
  have "hashable_json (without_hash (to_fields ?a))"
    using assms hex by (intro content_hashable) (simp_all add: content_ok_def ascii_texts)
  then obtain own where own: "sha256_value rt (without_hash (to_fields ?a)) = Inr own"
    using sha256_value_hashable by blast
  let ?p = "?a\<lparr>rp_packet_hash := own\<rparr>"
  have self: "sha256_value rt (without_hash (to_fields ?p)) = Inr own"
    using own by (simp add: to_fields_def without_hash_raw)
  have "packet_ok rt ?p"
    using assms(1) identity trace sha256_value_shape[OF own] by (simp add: packet_ok_def content_ok_def)
  with self have "parse_packet rt (to_fields ?p) = Inr ?p" by (subst parse_to_fields) simp
  moreover have "build rt False [] a = parse_packet rt (to_fields ?p)"
    using identity trace own
    by (simp add: build_def hashed_def raw_fields_packet_hash to_fields_def)
  moreover have "built_from rt a ?p"
    using \<open>packet_ok rt ?p\<close> self by (simp add: built_from_def)
  ultimately show ?thesis by auto
qed

lemma build_content:
  assumes "build rt silent_fallback invariant_violations a = Inr p"
  shows "content_ok a \<and> \<not> silent_fallback \<and> invariant_violations = []"
proof -
  from assms obtain identity trace own where read:
    "parse_packet rt (raw_fields silent_fallback invariant_violations
       (a\<lparr>rp_candidate_hash := identity, rp_trace_hash := trace, rp_packet_hash := own\<rparr>)) = Inr p"
    by (auto simp: build_def and_then_Inr hashed_Inr raw_fields_packet_hash)
  from parse_raw_fields[OF read] parse_packet_ok[OF read] show ?thesis
    by (auto simp: packet_ok_def content_ok_def)
qed

text \<open>
  \<^verbatim>\<open>build\<close> accepts exactly the valid arguments, and then gives the packet of these arguments
  with the three hashes of their content; on everything else it raises. (The arguments have to be
  printable: events without floats, and a trial index of at most 4300 digits.)
\<close>

theorem build_exact:
  assumes "hashable_json (events_json (rp_events a))"
    and "length (dec_nat (nat (rp_trial_index a))) \<le> MAX_INT_STR_DIGITS"
  shows "if content_ok a \<and> \<not> silent_fallback \<and> invariant_violations = []
    then \<exists>p. build rt silent_fallback invariant_violations a = Inr p \<and> built_from rt a p
    else \<exists>e. build rt silent_fallback invariant_violations a = Inl e"
proof (cases "content_ok a \<and> \<not> silent_fallback \<and> invariant_violations = []")
  case True
  then show ?thesis using build_accepts[OF _ assms, of rt] by simp
next
  case False
  then have "build rt silent_fallback invariant_violations a \<noteq> Inr p" for p using build_content by blast
  then have "\<exists>e. build rt silent_fallback invariant_violations a = Inl e"
    by (cases "build rt silent_fallback invariant_violations a") auto
  with False show ?thesis by auto
qed

subsection \<open>A packet\<close>

definition zero_digest :: ustr where "zero_digest = replicate 64 48"

definition sample_events :: "event list" where
  "sample_events = [[(lit ''sequence'', JInt 1), (lit ''kind'', JStr (lit ''terminal'')),
     (lit ''terminal_outcome'', JStr (lit ''completed''))]]"

definition sample_arguments :: ResultPacket where
  "sample_arguments =
     \<lparr>rp_capability_id = lit ''cap'', rp_source_pack = lit ''pack'', rp_lane = lit ''rc'',
      rp_path = lit ''positive'', rp_execution_id = lit ''exec'', rp_classification = COMPLETE,
      rp_contract_hash = zero_digest,
      rp_candidate = \<lparr>cd_catalog_hash = zero_digest, cd_plugin_sha = replicate 40 49,
        cd_host_sha = replicate 40 50, cd_sdk_version = lit ''0.2.151'', cd_profile_hash = zero_digest,
        cd_runner_version = lit ''1'', cd_inventory_hash = zero_digest\<rparr>,
      rp_profile_id = lit ''fable'', rp_candidate_hash = [], rp_billing = lit ''none'', rp_turn_count = 2,
      rp_trial_index = 3, rp_events = sample_events, rp_trace_hash = [], rp_primary = Some zero_digest,
      rp_secondary = Some zero_digest, rp_reason_code = None, rp_packet_hash = []\<rparr>"

lemma sample_content: "content_ok sample_arguments"
proof -
  have hex: "is_hex64 zero_digest" "is_sha40 (replicate 40 49)" "is_sha40 (replicate 40 50)"
    by (simp_all add: zero_digest_def is_hex64_def is_sha40_def list_all_iff hex_digest_char_def is_digit_def)
  have ids: "list_all (\<lambda>s. fullmatch SAFE_ID (lit s)) [''cap'', ''pack'', ''exec'', ''fable'', ''0.2.151'', ''1'']"
    by (simp add: fullmatch_SAFE_ID lit_def is_alnum_def is_digit_def is_upper_def is_lower_def safe_id_char_def chars_def)
  have "event_ok 1 (hd sample_events)"
    by (simp add: sample_events_def event_ok_def EVENT_FIELDS_def EVENT_KINDS_def TERMINAL_OUTCOMES_def field_def
        equals_int_def is_hash_field_def is_terminal_event_def optional_json_def lit_def exI[of _ None])
  then have "events_ok sample_events"
    by (simp add: events_ok_def sample_events_def MAX_NORMALIZED_EVENTS_def events_json_def FORBIDDEN_KEYS_def)
  moreover have "terminal_fits COMPLETE sample_events"
    by (simp add: terminal_fits_def sample_events_def is_terminal_event_def field_def)
  ultimately show ?thesis
    using hex ids by (simp add: content_ok_def sample_arguments_def candidate_ok_def proofs_present_def)
qed

lemma sample_printable:
  "hashable_json (events_json (rp_events sample_arguments))"
  "length (dec_nat (nat (rp_trial_index sample_arguments))) \<le> MAX_INT_STR_DIGITS"
  by (simp_all add: sample_arguments_def sample_events_def events_json_def is_ascii_def lit_def dec_nat.simps
      MAX_INT_STR_DIGITS_def)

theorem build_exact_witness:
  "\<exists>p. build sample_rt False [] sample_arguments = Inr p \<and> built_from sample_rt sample_arguments p"
  using build_exact[OF sample_printable, of False "[]" sample_rt] sample_content by simp

lemma sample_built:
  obtains p where "packet_ok sample_rt p" "rp_events p = sample_events"
    "sha256_value sample_rt (without_hash (to_fields p)) = Inr (rp_packet_hash p)"
proof -
  obtain p where p: "built_from sample_rt sample_arguments p"
    using build_accepts[OF sample_content sample_printable] by blast
  then have "p = sample_arguments\<lparr>rp_candidate_hash := rp_candidate_hash p, rp_trace_hash := rp_trace_hash p,
      rp_packet_hash := rp_packet_hash p\<rparr>" by (simp only: built_from_def)
  from arg_cong[OF this, of rp_events] have "rp_events p = sample_events" by (simp add: sample_arguments_def)
  moreover have "packet_ok sample_rt p" "sha256_value sample_rt (without_hash (to_fields p)) = Inr (rp_packet_hash p)"
    using p by (simp_all only: built_from_def)
  ultimately show ?thesis by (intro that)
qed

text \<open>A packet with the sample events as Python data.\<close>

definition plain_value :: "json \<Rightarrow> pyval" where
  "plain_value j =
     (case j of JStr s \<Rightarrow> PStr s | JInt i \<Rightarrow> PInt i | JBool b \<Rightarrow> PBool b
      | JList [] \<Rightarrow> PRef 30 | JList _ \<Rightarrow> PRef 20 | _ \<Rightarrow> PNone)"

definition plain_dict :: "(ustr \<times> json) list \<Rightarrow> (pyval \<times> pyval) list" where
  "plain_dict d = map (\<lambda>(k, v). (PStr k, plain_value v)) d"

definition packet_heap :: "ResultPacket \<Rightarrow> heap" where
  "packet_heap p a =
     (if a = 10 then ODict (plain_dict (to_fields p)) else if a = 20 then OList [PRef 40]
      else if a = 30 then OList [] else ODict (plain_dict (hd sample_events)))"

lemma compatible_items_exact:
  "distinct (map fst (e @ d)) \<Longrightarrow> list_all (\<lambda>p. f (plain_value (snd p)) = Inr (snd p)) d \<Longrightarrow>
     compatible_items f (plain_dict d) e = Inr (e @ d)"
proof (induction d arbitrary: e)
  case (Cons p d)
  obtain k v where p: "p = (k, v)" by (cases p)
  with Cons.prems have "compatible_items f (plain_dict d) (e @ [(k, v)]) = Inr ((e @ [(k, v)]) @ d)"
    by (intro Cons.IH) auto
  with Cons.prems p show ?case by (auto simp: plain_dict_def dict_set_fresh)
qed (simp add: plain_dict_def)

lemmas compatible_dict = compatible_items_exact[where e = "[]", simplified]

lemma packet_heap_reads:
  assumes "rp_events p = sample_events"
  shows "json_compatible (packet_heap p) 4 (PRef 10) = Inr (JDict (to_fields p))"
proof -
  let ?f = "json_compatible (packet_heap p)"
  have three: "?f 3 v = ?f (Suc (Suc (Suc 0))) v" for v by (simp add: numeral_3_eq_3)
  have dict: "compatible_items (?f (Suc n)) (plain_dict (hd sample_events)) [] = Inr (hd sample_events)" for n
    by (rule compatible_dict) (simp_all add: sample_events_def plain_value_def)
  have event: "?f (Suc (Suc 0)) (PRef 40) = Inr (JDict (hd sample_events))"
    using dict[of 0] by (simp add: packet_heap_def is_mapping_def mapping_items_def)
  have events: "?f 3 (PRef 20) = Inr (events_json sample_events)"
    using event by (simp add: three packet_heap_def is_mapping_def seq_items_def events_json_def sample_events_def)
  have none: "?f 3 (PRef 30) = Inr (JList [])"
    by (simp add: three packet_heap_def is_mapping_def seq_items_def)
  have opt: "?f 3 (plain_value (optional_json x)) = Inr (optional_json x)" for x
    by (cases x) (simp_all add: three optional_json_def plain_value_def)
  have atom: "?f 3 (plain_value (JStr s)) = Inr (JStr s)" "?f 3 (plain_value (JInt i)) = Inr (JInt i)"
    "?f 3 (plain_value (JBool b)) = Inr (JBool b)" for s i b
    by (simp_all add: three plain_value_def)
  have "plain_value (JList []) = PRef 30" "plain_value (events_json sample_events) = PRef 20"
    by (simp_all add: plain_value_def events_json_def sample_events_def)
  with events none have lists: "?f 3 (plain_value (JList [])) = Inr (JList [])"
    "?f 3 (plain_value (events_json sample_events)) = Inr (events_json sample_events)"
    by (simp_all only:)
  have "list_all (\<lambda>q. ?f 3 (plain_value (snd q)) = Inr (snd q)) (to_fields p)"
    by (simp only: to_fields_def raw_fields_def assms list.pred_inject snd_conv list.map(1) atom lists opt simp_thms)
  then have "compatible_items (?f 3) (plain_dict (to_fields p)) [] = Inr (to_fields p)"
    by (rule compatible_dict[OF distinct_fields])
  then show ?thesis
    by (simp add: packet_heap_def[of p 10] is_mapping_def mapping_items_def json_compatible.simps(2)[of _ 3, simplified])
qed

lemma sample_read:
  obtains p where "json_compatible (packet_heap p) 4 (PRef 10) = Inr (JDict (to_fields p))"
    "parse_packet sample_rt (to_fields p) = Inr p"
proof -
  obtain p where "packet_ok sample_rt p" "rp_events p = sample_events"
    "sha256_value sample_rt (without_hash (to_fields p)) = Inr (rp_packet_hash p)" by (rule sample_built)
  then show ?thesis by (intro that packet_heap_reads) (simp_all only: parse_to_fields simp_thms)
qed


theorem packet_round_trip_witness:
  "\<exists>p. from_dict sample_rt (packet_heap p) 4 (PRef 10) = Inr p \<and> parse_packet sample_rt (to_fields p) = Inr p"
proof -
  obtain p where p: "json_compatible (packet_heap p) 4 (PRef 10) = Inr (JDict (to_fields p))"
    "parse_packet sample_rt (to_fields p) = Inr p" by (rule sample_read)
  have "field (to_fields p) ''schema_version'' = JInt 1" by (simp add: field_def to_fields_def raw_fields_def)
  from packet_round_trip[OF p this] p show ?thesis by (auto simp: from_dict_Inr)
qed

end
