(* ===== verification/Parity_Catalog.thy ===== *)
theory Parity_Catalog
  imports Parity_Checks
begin

section \<open>The parity catalog (parity/catalog.py)\<close>

text \<open>
  \<^verbatim>\<open>load_catalog\<close> accepts one frozen list of capabilities. Reading and parsing the YAML file is
  not modelled: \<open>load_document\<close> starts with the parsed document, a tree that
  \<^verbatim>\<open>json_compatible\<close> made. The two freezing functions change the classes of containers only.
\<close>

definition SOURCE_COUNTS :: "(string \<times> nat) list" where
  "SOURCE_COUNTS = [(''v2_non_soak'', 53), (''openclaw_active'', 12), (''agent_sdk_boundary'', 23),
     (''clawprobench_native'', 36)]"

definition SOURCE_PACKS :: "string list" where
  "SOURCE_PACKS = [''v2_non_soak'', ''openclaw_active'', ''agent_sdk_boundary'', ''clawprobench_native'',
     ''runtime_active'']"

definition SOURCE_ID_HASHES :: "(string \<times> string) list" where
  "SOURCE_ID_HASHES =
     [(''v2_non_soak'', ''6933d6abe587ffafdf20d63485445851f2ab0c0b2c12ab2e21b146271e72f861''),
      (''openclaw_active'', ''5542995d9213b31b227910ef7337057cb01301b2d87546c5375459e9184439a7''),
      (''agent_sdk_boundary'', ''3b5aaf3c5282061fd7a7f34345d514aad55b91ee820fd65b99133b36dab85b32''),
      (''clawprobench_native'', ''b0c79c09ea2f640962f875ecc222235f9f26df59cedb077fef740a03a8bd9048'')]"

definition PINNED_REFERENCES :: "(string \<times> string \<times> string) list" where
  "PINNED_REFERENCES =
     [(''hermes_v2'', ''sha256'', ''e4842f3a78c855f18af59a8024c4360bde59143987d133724b81594d0f0bfe2e''),
      (''openclaw'', ''commit'', ''ea806575e6450e4d1efdfc72c19f04be982a1b9b''),
      (''clawprobench'', ''commit'', ''c4b8395854fe0752eef435b44f140366efd44d8e'')]"

definition REQUIRED_CAPABILITY_FIELDS :: "string list" where
  "REQUIRED_CAPABILITY_FIELDS =
     [''capability_id'', ''source_item_id'', ''source_pack'', ''source_ref'', ''lane'', ''surface'', ''owner'',
      ''positive_path'', ''denial_path'', ''recovery_path'', ''state_before'', ''state_after'',
      ''expected_trace'', ''primary_proof'', ''secondary_proof'', ''repeat_policy'', ''execution_id'']"

definition PATH_NAMES :: "string list" where "PATH_NAMES = [''positive'', ''denial'', ''recovery'']"

definition REPEAT_TRIGGERS :: "string list" where
  "REPEAT_TRIGGERS = [''consequential'', ''initially_failing'', ''unstable'']"

definition LEDGER_STATUSES :: "string list" where
  "LEDGER_STATUSES = [''covered_current'', ''equivalent_host'', ''requires_0_3_239'', ''not_runtime_applicable'']"

definition capability_id_char :: "nat \<Rightarrow> bool" where
  "capability_id_char c \<longleftrightarrow> is_digit c \<or> is_lower c \<or> chars ''._:-'' c"

definition CAPABILITY_ID :: regex where
  "CAPABILITY_ID = Seq (Cls (\<lambda>c. is_digit c \<or> is_lower c)) (Rep 2 (Some 127) capability_id_char)"

subsection \<open>Values\<close>

type_synonym dict = "(ustr \<times> json) list"

definition mapping_of :: "json \<Rightarrow> check_error + dict" where
  "mapping_of v = (case v of JDict d \<Rightarrow> Inr d | _ \<Rightarrow> Inl Violation)"

definition nonempty_string :: "json \<Rightarrow> check_error + ustr" where
  "nonempty_string v =
     (case v of JStr s \<Rightarrow> if py_strip s = [] then Inl Violation else Inr (py_strip s) | _ \<Rightarrow> Inl Violation)"

definition string_list :: "bool \<Rightarrow> json \<Rightarrow> check_error + ustr list" where
  "string_list allow_empty v =
     (case v of
        JList js \<Rightarrow>
          and_then (map_exn nonempty_string js) (\<lambda>result.
          and_then (demand (result \<noteq> [] \<or> allow_empty)) (\<lambda>_. Inr result))
      | _ \<Rightarrow> Inl Violation)"

definition keys_within :: "dict \<Rightarrow> string list \<Rightarrow> bool" where
  "keys_within d names \<longleftrightarrow> fst ` set d \<subseteq> set (lits names)"

definition has_key :: "dict \<Rightarrow> string \<Rightarrow> bool" where "has_key d name \<longleftrightarrow> lit name \<in> fst ` set d"

definition validate_path :: "json \<Rightarrow> check_error + dict" where
  "validate_path v =
     and_then (mapping_of v) (\<lambda>path.
     and_then (demand (keys_within path [''required'', ''assertion'', ''rationale''] \<and>
                       field path ''required'' \<in> {JBool True, JBool False})) (\<lambda>_.
     and_then (nonempty_string (field path ''assertion'')) (\<lambda>_.
     and_then (if has_key path ''rationale'' then nonempty_string (field path ''rationale'') else Inr []) (\<lambda>_.
     and_then (demand (field path ''required'' = JBool False \<longrightarrow> has_key path ''rationale'')) (\<lambda>_.
       Inr path)))))"

definition path_required :: "dict \<Rightarrow> bool" where
  "path_required path \<longleftrightarrow> field path ''required'' = JBool True"

definition validate_repeat_policy :: "json \<Rightarrow> check_error + dict" where
  "validate_repeat_policy v =
     and_then (mapping_of v) (\<lambda>policy.
     and_then (demand (keys_within policy [''minimum_passes'', ''consecutive_passes'', ''triggers''])) (\<lambda>_.
     and_then (count_in 1 None (field policy ''minimum_passes'')) (\<lambda>minimum.
     and_then (count_in 1 None (field policy ''consecutive_passes'')) (\<lambda>consecutive.
     and_then (demand (minimum \<le> consecutive)) (\<lambda>_.
     and_then (string_list True (if has_key policy ''triggers'' then field policy ''triggers'' else JList [])) (\<lambda>triggers.
     and_then (demand (set triggers \<subseteq> set (lits REPEAT_TRIGGERS))) (\<lambda>_. Inr policy)))))))"

subsection \<open>Capabilities\<close>

record Capability =
  cap_id :: ustr
  cap_source_item_id :: ustr
  cap_source_pack :: ustr
  cap_source_ref :: ustr
  cap_lane :: ustr
  cap_surface :: ustr
  cap_owner :: ustr
  cap_positive :: dict
  cap_denial :: dict
  cap_recovery :: dict
  cap_state_before :: ustr
  cap_state_after :: ustr
  cap_expected_trace :: "ustr list"
  cap_primary_proof :: "ustr list"
  cap_secondary_proof :: "ustr list"
  cap_repeat_policy :: dict
  cap_execution_id :: ustr
  cap_temporal_reason :: "ustr option"
  cap_ledger_status :: "ustr option"

text \<open>\<^verbatim>\<open>Capability.path\<close> on one of the three names.\<close>

definition cap_path :: "Capability \<Rightarrow> string \<Rightarrow> dict" where
  "cap_path c name =
     (if name = ''positive'' then cap_positive c else if name = ''denial'' then cap_denial c
      else cap_recovery c)"

definition lane_of :: "dict \<Rightarrow> ustr \<Rightarrow> check_error + ustr" where
  "lane_of item source_pack =
     and_then (nonempty_string (field item ''lane'')) (\<lambda>lane.
     and_then (demand (lane \<in> set (lits [''rc'', ''runtime'']) \<and>
       (source_pack = lit ''runtime_active'' \<longleftrightarrow> lane = lit ''runtime''))) (\<lambda>_. Inr lane))"

definition temporal_reason_of :: "dict \<Rightarrow> ustr \<Rightarrow> check_error + ustr option" where
  "temporal_reason_of item lane =
     and_then (optional_text nonempty_string (field item ''temporal_reason'')) (\<lambda>reason.
     and_then (demand (reason = None \<or> lane = lit ''runtime'')) (\<lambda>_. Inr reason))"

definition ledger_status_of :: "dict \<Rightarrow> ustr \<Rightarrow> check_error + ustr option" where
  "ledger_status_of item source_pack =
     (if source_pack = lit ''agent_sdk_boundary'' then
        and_then (nonempty_string (field item ''sdk_ledger_status'')) (\<lambda>status.
        and_then (demand (status \<in> set (lits LEDGER_STATUSES))) (\<lambda>_. Inr (Some status)))
      else and_then (demand (field item ''sdk_ledger_status'' = JNull)) (\<lambda>_. Inr None))"

definition required_paths_ok :: "ustr \<Rightarrow> dict \<Rightarrow> dict \<Rightarrow> dict \<Rightarrow> bool" where
  "required_paths_ok source_pack positive denial recovery \<longleftrightarrow>
     (if source_pack \<in> set (lits [''v2_non_soak'', ''agent_sdk_boundary''])
      then path_required positive \<and> \<not> path_required denial \<and> \<not> path_required recovery
      else path_required positive \<and> path_required denial \<and> path_required recovery)"

definition load_capability :: "json \<Rightarrow> check_error + Capability" where
  "load_capability raw =
     and_then (mapping_of raw) (\<lambda>item.
     and_then (demand (set (lits REQUIRED_CAPABILITY_FIELDS) \<subseteq> fst ` set item \<and>
       keys_within item (REQUIRED_CAPABILITY_FIELDS @ [''title'', ''temporal_reason'', ''sdk_ledger_status'']))) (\<lambda>_.
     and_then (nonempty_string (field item ''capability_id'')) (\<lambda>capability_id.
     and_then (demand (fullmatch CAPABILITY_ID capability_id)) (\<lambda>_.
     and_then (nonempty_string (field item ''source_item_id'')) (\<lambda>source_item_id.
     and_then (nonempty_string (field item ''source_pack'')) (\<lambda>source_pack.
     and_then (demand (source_pack \<in> set (lits SOURCE_PACKS))) (\<lambda>_.
     and_then (lane_of item source_pack) (\<lambda>lane.
     and_then (temporal_reason_of item lane) (\<lambda>temporal_reason.
     and_then (ledger_status_of item source_pack) (\<lambda>ledger_status.
     and_then (validate_path (field item ''positive_path'')) (\<lambda>positive.
     and_then (validate_path (field item ''denial_path'')) (\<lambda>denial.
     and_then (validate_path (field item ''recovery_path'')) (\<lambda>recovery.
     and_then (demand (required_paths_ok source_pack positive denial recovery)) (\<lambda>_.
     and_then (nonempty_string (field item ''source_ref'')) (\<lambda>source_ref.
     and_then (nonempty_string (field item ''surface'')) (\<lambda>surface.
     and_then (nonempty_string (field item ''owner'')) (\<lambda>owner.
     and_then (nonempty_string (field item ''state_before'')) (\<lambda>state_before.
     and_then (nonempty_string (field item ''state_after'')) (\<lambda>state_after.
     and_then (string_list False (field item ''expected_trace'')) (\<lambda>expected_trace.
     and_then (string_list False (field item ''primary_proof'')) (\<lambda>primary_proof.
     and_then (string_list False (field item ''secondary_proof'')) (\<lambda>secondary_proof.
     and_then (validate_repeat_policy (field item ''repeat_policy'')) (\<lambda>repeat_policy.
     and_then (nonempty_string (field item ''execution_id'')) (\<lambda>execution_id.
       Inr \<lparr>cap_id = capability_id, cap_source_item_id = source_item_id, cap_source_pack = source_pack,
            cap_source_ref = source_ref, cap_lane = lane, cap_surface = surface, cap_owner = owner,
            cap_positive = positive, cap_denial = denial, cap_recovery = recovery,
            cap_state_before = state_before, cap_state_after = state_after,
            cap_expected_trace = expected_trace, cap_primary_proof = primary_proof,
            cap_secondary_proof = secondary_proof, cap_repeat_policy = repeat_policy,
            cap_execution_id = execution_id, cap_temporal_reason = temporal_reason,
            cap_ledger_status = ledger_status\<rparr>))))))))))))))))))))))))"

subsection \<open>The document\<close>

record Catalog =
  cat_contract :: dict
  cat_capabilities :: "Capability list"
  cat_contract_hash :: ustr
  cat_catalog_hash :: ustr
  cat_file_hash :: ustr

text \<open>\<^verbatim>\<open>for_lane\<close> on one of the two lanes.\<close>

definition for_lane :: "Catalog \<Rightarrow> ustr \<Rightarrow> Capability list" where
  "for_lane cat lane = filter (\<lambda>c. cap_lane c = lane) (cat_capabilities cat)"

definition validate_references :: "dict \<Rightarrow> check_error + unit" where
  "validate_references contract =
     and_then (mapping_of (field contract ''references'')) (\<lambda>references.
       map_sum id (\<lambda>_. ()) (map_exn (\<lambda>(name, key, expected).
         and_then (mapping_of (field references name)) (\<lambda>reference.
           demand (field reference key = JStr (lit expected)))) PINNED_REFERENCES))"

definition source_ids :: "string \<Rightarrow> Capability list \<Rightarrow> ustr list" where
  "source_ids pack caps = sort (map cap_source_item_id (filter (\<lambda>c. cap_source_pack c = lit pack) caps))"

definition validate_pack :: "pyrt \<Rightarrow> dict \<Rightarrow> dict \<Rightarrow> Capability list \<Rightarrow> string \<times> nat \<Rightarrow> check_error + unit" where
  "validate_pack rt coverage manifest caps = (\<lambda>(pack, expected).
     and_then (demand (equals_int (field coverage pack) (int expected) \<and>
       length (filter (\<lambda>c. cap_source_pack c = lit pack) caps) = expected)) (\<lambda>_.
     and_then (hashed (sha256_value rt (JList (map JStr (source_ids pack caps))))) (\<lambda>actual.
     let pinned = (case map_of SOURCE_ID_HASHES pack of Some h \<Rightarrow> lit h | None \<Rightarrow> [])
     in and_then (demand (actual = pinned)) (\<lambda>_.
        and_then (mapping_of (field manifest pack)) (\<lambda>entry.
          demand (equals_int (field entry ''count'') (int expected) \<and>
                  field entry ''ids_sha256'' = JStr pinned))))))"

definition validate_source_manifest :: "pyrt \<Rightarrow> dict \<Rightarrow> Capability list \<Rightarrow> check_error + unit" where
  "validate_source_manifest rt contract caps =
     and_then (mapping_of (field contract ''required_coverage'')) (\<lambda>coverage.
     and_then (mapping_of (field contract ''source_manifest'')) (\<lambda>manifest.
     and_then (map_exn (validate_pack rt coverage manifest caps) SOURCE_COUNTS) (\<lambda>_.
       demand (list_ex (\<lambda>c. cap_source_pack c = lit ''runtime_active'') caps))))"

definition contract_pinned :: "dict \<Rightarrow> check_error + unit" where
  "contract_pinned contract =
     and_then (demand (field contract ''name'' = JStr (lit ''Hermes Agent SDK Feature Parity'') \<and>
       field contract ''version'' = JStr (lit ''3.0.0''))) (\<lambda>_.
     and_then (mapping_of (field contract ''tool_inventory'')) (\<lambda>inventory.
     and_then (demand (field inventory ''fail_closed'' = JBool True)) (\<lambda>_.
     and_then (mapping_of (field contract ''profile_policy'')) (\<lambda>policy.
       demand (field policy ''allowed_ids'' = JList [JStr (lit ''fable-v3-isolated'')] \<and>
               field policy ''shared_profiles_forbidden'' = JBool True)))))"

definition load_document :: "pyrt \<Rightarrow> json \<Rightarrow> nat list \<Rightarrow> check_error + Catalog" where
  "load_document rt document file_bytes =
     and_then (mapping_of document) (\<lambda>root.
     and_then (demand (fst ` set root = set (lits [''schema_version'', ''contract'', ''capabilities'']) \<and>
       equals_int (field root ''schema_version'') 1)) (\<lambda>_.
     and_then (mapping_of (field root ''contract'')) (\<lambda>contract.
     and_then (contract_pinned contract) (\<lambda>_.
     and_then (validate_references contract) (\<lambda>_.
     and_then (case field root ''capabilities'' of JList js \<Rightarrow> map_exn load_capability js | _ \<Rightarrow> Inl Violation) (\<lambda>caps.
     and_then (demand (caps \<noteq> [] \<and> distinct (map cap_id caps) \<and>
       distinct (map (\<lambda>c. (cap_source_pack c, cap_source_item_id c)) caps))) (\<lambda>_.
     and_then (validate_source_manifest rt contract caps) (\<lambda>_.
     and_then (hashed (sha256_value rt (JDict contract))) (\<lambda>contract_hash.
     and_then (hashed (sha256_value rt document)) (\<lambda>catalog_hash.
       Inr \<lparr>cat_contract = contract, cat_capabilities = caps, cat_contract_hash = contract_hash,
            cat_catalog_hash = catalog_hash, cat_file_hash = sha256_hex file_bytes\<rparr>))))))))))"


subsection \<open>What a catalog satisfies\<close>

text \<open>
  The content of an accepted capability, without the order of the checks. The three hashes pinned
  in the source fix the item sets of the packs; \<open>catalog_ok\<close> keeps their sizes.
\<close>

definition path_ok :: "dict \<Rightarrow> bool" where
  "path_ok path \<longleftrightarrow> keys_within path [''required'', ''assertion'', ''rationale''] \<and>
     (\<exists>b. field path ''required'' = JBool b \<and> (b \<or> has_key path ''rationale'')) \<and>
     (\<exists>s. field path ''assertion'' = JStr s \<and> py_strip s \<noteq> [])"

definition policy_ok :: "dict \<Rightarrow> bool" where
  "policy_ok policy \<longleftrightarrow>
     (\<exists>minimum consecutive. field policy ''minimum_passes'' = JInt minimum \<and>
        field policy ''consecutive_passes'' = JInt consecutive \<and> 1 \<le> minimum \<and> minimum \<le> consecutive) \<and>
     (has_key policy ''triggers'' \<longrightarrow>
        (\<exists>ts. field policy ''triggers'' = JList (map JStr ts) \<and> py_strip ` set ts \<subseteq> set (lits REPEAT_TRIGGERS)))"

definition capability_ok :: "Capability \<Rightarrow> bool" where
  "capability_ok c \<longleftrightarrow>
     fullmatch CAPABILITY_ID (cap_id c) \<and> cap_source_pack c \<in> set (lits SOURCE_PACKS) \<and>
     cap_lane c = lit (if cap_source_pack c = lit ''runtime_active'' then ''runtime'' else ''rc'') \<and>
     required_paths_ok (cap_source_pack c) (cap_positive c) (cap_denial c) (cap_recovery c) \<and>
     list_all (\<lambda>name. path_ok (cap_path c name)) PATH_NAMES \<and> policy_ok (cap_repeat_policy c) \<and>
     [] \<notin> set ([cap_id c, cap_source_item_id c, cap_execution_id c] @ cap_expected_trace c @ cap_primary_proof c @
        cap_secondary_proof c) \<and>
     [] \<notin> {cap_expected_trace c, cap_primary_proof c, cap_secondary_proof c} \<and>
     (cap_temporal_reason c \<noteq> None \<longrightarrow> cap_lane c = lit ''runtime'') \<and>
     (cap_ledger_status c \<noteq> None \<longleftrightarrow> cap_source_pack c = lit ''agent_sdk_boundary'')"

definition pack_size :: "Capability list \<Rightarrow> string \<Rightarrow> nat" where
  "pack_size caps pack = length (filter (\<lambda>c. cap_source_pack c = lit pack) caps)"

definition catalog_ok :: "Catalog \<Rightarrow> bool" where
  "catalog_ok cat \<longleftrightarrow>
     list_all capability_ok (cat_capabilities cat) \<and> distinct (map cap_id (cat_capabilities cat)) \<and>
     list_all (\<lambda>(pack, n). pack_size (cat_capabilities cat) pack = n) SOURCE_COUNTS \<and>
     pack_size (cat_capabilities cat) ''runtime_active'' > 0"

subsection \<open>Reading the checks\<close>

lemma mapping_of_Inr [checks_pass]: "mapping_of v = Inr d \<longleftrightarrow> v = JDict d"
  by (cases v) (auto simp: mapping_of_def)

lemma nonempty_string_Inr [checks_pass]:
  "nonempty_string v = Inr t \<longleftrightarrow> t \<noteq> [] \<and> (\<exists>s. v = JStr s \<and> t = py_strip s)"
  by (cases v) (auto simp: nonempty_string_def)

lemma string_list_Inr:
  "string_list allow_empty v = Inr ts \<Longrightarrow>
     (ts = [] \<longrightarrow> allow_empty) \<and> [] \<notin> set ts \<and> (\<exists>ss. v = JList (map JStr ss) \<and> ts = map py_strip ss)"
proof -
  assume read: "string_list allow_empty v = Inr ts"
  then obtain js where v: "v = JList js" by (cases v) (simp_all add: string_list_def)
  with read have items: "map_exn nonempty_string js = Inr ts" and "ts \<noteq> [] \<or> allow_empty"
    by (auto simp: string_list_def and_then_Inr demand_Inr)
  have "map_exn nonempty_string js = Inr ts \<Longrightarrow> [] \<notin> set ts \<and> (\<exists>ss. js = map JStr ss \<and> ts = map py_strip ss)"
  proof (induction js arbitrary: ts)
    case (Cons j js)
    then obtain s us where j: "j = JStr s" "py_strip s \<noteq> []" "map_exn nonempty_string js = Inr us" "ts = py_strip s # us"
      by (auto simp: nonempty_string_Inr split: sum.splits)
    from Cons.IH[OF j(3)] obtain ss where "[] \<notin> set us" "js = map JStr ss" "us = map py_strip ss" by blast
    with j show ?case by (auto intro!: exI[of _ "s # ss"])
  qed simp
  with items v \<open>ts \<noteq> [] \<or> allow_empty\<close> show ?thesis by blast
qed

lemma validate_path_Inr: "validate_path v = Inr path \<Longrightarrow> path_ok path"
  by (auto simp: validate_path_def path_ok_def and_then_Inr checks_pass)

lemma validate_repeat_policy_Inr: "validate_repeat_policy v = Inr policy \<Longrightarrow> policy_ok policy"
  by (auto simp: validate_repeat_policy_def policy_ok_def and_then_Inr checks_pass split: if_splits dest!: string_list_Inr)

lemma lane_of_Inr:
  "lane_of item pack = Inr lane \<Longrightarrow> lane = lit (if pack = lit ''runtime_active'' then ''runtime'' else ''rc'')"
  by (auto simp: lane_of_def and_then_Inr checks_pass split: if_splits)

lemma temporal_reason_of_Inr: "temporal_reason_of item lane = Inr r \<Longrightarrow> r \<noteq> None \<longrightarrow> lane = lit ''runtime''"
  by (auto simp: temporal_reason_of_def and_then_Inr checks_pass)

lemma ledger_status_of_Inr:
  "ledger_status_of item pack = Inr s \<Longrightarrow> s \<noteq> None \<longleftrightarrow> pack = lit ''agent_sdk_boundary''"
  by (auto simp: ledger_status_of_def and_then_Inr checks_pass split: if_splits)

lemma load_capability_parts:
  assumes "load_capability raw = Inr c"
  shows "\<exists>item. fullmatch CAPABILITY_ID (cap_id c) \<and> cap_source_pack c \<in> set (lits SOURCE_PACKS) \<and>
     required_paths_ok (cap_source_pack c) (cap_positive c) (cap_denial c) (cap_recovery c) \<and>
     lane_of item (cap_source_pack c) = Inr (cap_lane c) \<and>
     temporal_reason_of item (cap_lane c) = Inr (cap_temporal_reason c) \<and>
     ledger_status_of item (cap_source_pack c) = Inr (cap_ledger_status c) \<and>
     validate_path (field item ''positive_path'') = Inr (cap_positive c) \<and>
     validate_path (field item ''denial_path'') = Inr (cap_denial c) \<and>
     validate_path (field item ''recovery_path'') = Inr (cap_recovery c) \<and>
     string_list False (field item ''expected_trace'') = Inr (cap_expected_trace c) \<and>
     string_list False (field item ''primary_proof'') = Inr (cap_primary_proof c) \<and>
     string_list False (field item ''secondary_proof'') = Inr (cap_secondary_proof c) \<and>
     validate_repeat_policy (field item ''repeat_policy'') = Inr (cap_repeat_policy c) \<and>
     nonempty_string (field item ''capability_id'') = Inr (cap_id c) \<and>
     nonempty_string (field item ''source_item_id'') = Inr (cap_source_item_id c) \<and>
     nonempty_string (field item ''execution_id'') = Inr (cap_execution_id c)"
  using assms unfolding load_capability_def
  apply (elim and_then_InrE)
  subgoal for item
    apply (rule exI[of _ item])
    apply (simp only: demand_Inr sum.inject)
    apply clarify
    apply simp
    done
  done

lemma load_capability_ok: "load_capability raw = Inr c \<Longrightarrow> capability_ok c"
proof -
  assume "load_capability raw = Inr c"
  from load_capability_parts[OF this] obtain item where parts:
    "fullmatch CAPABILITY_ID (cap_id c)" "cap_source_pack c \<in> set (lits SOURCE_PACKS)"
    "required_paths_ok (cap_source_pack c) (cap_positive c) (cap_denial c) (cap_recovery c)"
    "lane_of item (cap_source_pack c) = Inr (cap_lane c)"
    "temporal_reason_of item (cap_lane c) = Inr (cap_temporal_reason c)"
    "ledger_status_of item (cap_source_pack c) = Inr (cap_ledger_status c)"
    "validate_path (field item ''positive_path'') = Inr (cap_positive c)"
    "validate_path (field item ''denial_path'') = Inr (cap_denial c)"
    "validate_path (field item ''recovery_path'') = Inr (cap_recovery c)"
    "string_list False (field item ''expected_trace'') = Inr (cap_expected_trace c)"
    "string_list False (field item ''primary_proof'') = Inr (cap_primary_proof c)"
    "string_list False (field item ''secondary_proof'') = Inr (cap_secondary_proof c)"
    "validate_repeat_policy (field item ''repeat_policy'') = Inr (cap_repeat_policy c)"
    "nonempty_string (field item ''capability_id'') = Inr (cap_id c)"
    "nonempty_string (field item ''source_item_id'') = Inr (cap_source_item_id c)"
    "nonempty_string (field item ''execution_id'') = Inr (cap_execution_id c)" by auto
  have "list_all (\<lambda>name. path_ok (cap_path c name)) PATH_NAMES"
    using parts(7-9)[THEN validate_path_Inr] by (simp add: PATH_NAMES_def cap_path_def)
  moreover have "[] \<notin> {cap_id c, cap_source_item_id c, cap_execution_id c}"
    using parts(14-16) by (auto simp: nonempty_string_Inr)
  ultimately show ?thesis
    using parts(1-3) lane_of_Inr[OF parts(4)] temporal_reason_of_Inr[OF parts(5)] ledger_status_of_Inr[OF parts(6)]
      parts(10-12)[THEN string_list_Inr] validate_repeat_policy_Inr[OF parts(13)]
    by (auto simp: capability_ok_def)
qed

lemma map_exn_mem: "map_exn f xs = Inr ys \<Longrightarrow> x \<in> set xs \<Longrightarrow> \<exists>y. f x = Inr y"
  by (induction xs arbitrary: ys) (auto split: sum.splits)

lemma validate_pack_Inr: "validate_pack rt coverage manifest caps (pack, n) = Inr u \<Longrightarrow> pack_size caps pack = n"
  by (auto simp: validate_pack_def pack_size_def and_then_Inr checks_pass)

lemma validate_source_manifest_Inr:
  assumes "validate_source_manifest rt contract caps = Inr u"
  shows "list_all (\<lambda>(pack, n). pack_size caps pack = n) SOURCE_COUNTS \<and> pack_size caps ''runtime_active'' > 0"
proof -
  obtain coverage manifest us where packs: "map_exn (validate_pack rt coverage manifest caps) SOURCE_COUNTS = Inr us"
    and runtime: "list_ex (\<lambda>c. cap_source_pack c = lit ''runtime_active'') caps"
    using assms by (auto simp: validate_source_manifest_def and_then_Inr demand_Inr)
  have "pack_size caps pack = n" if "(pack, n) \<in> set SOURCE_COUNTS" for pack n
    using map_exn_mem[OF packs that] validate_pack_Inr by blast
  moreover have "pack_size caps ''runtime_active'' > 0"
    using runtime by (auto simp: pack_size_def list_ex_iff filter_empty_conv)
  ultimately show ?thesis by (auto simp: list_all_iff)
qed

lemma load_document_ok: "load_document rt document file_bytes = Inr cat \<Longrightarrow> catalog_ok cat"
proof -
  assume load: "load_document rt document file_bytes = Inr cat"
  have "\<exists>js contract u. map_exn load_capability js = Inr (cat_capabilities cat) \<and>
      validate_source_manifest rt contract (cat_capabilities cat) = Inr u \<and> distinct (map cap_id (cat_capabilities cat))"
    using load unfolding load_document_def
    by (elim and_then_InrE, simp only: demand_Inr sum.inject, clarify) (auto split: json.splits)
  then obtain js contract u where caps: "map_exn load_capability js = Inr (cat_capabilities cat)"
    and manifest: "validate_source_manifest rt contract (cat_capabilities cat) = Inr u"
    and "distinct (map cap_id (cat_capabilities cat))" by blast
  moreover have "list_all capability_ok (cat_capabilities cat)"
    by (rule map_exn_all[OF caps load_capability_ok])
  ultimately show ?thesis using validate_source_manifest_Inr[OF manifest] by (simp add: catalog_ok_def)
qed

subsection \<open>The size of the release lane\<close>

lemma length_by_class:
  "distinct ks \<Longrightarrow> f ` set xs \<subseteq> set ks \<Longrightarrow>
     (\<Sum>x\<leftarrow>xs. w (f x)) = (\<Sum>k\<leftarrow>ks. w k * length (filter (\<lambda>x. f x = k) xs))"
proof (induction xs)
  case (Cons x xs)
  have "(\<Sum>k\<leftarrow>ks. w k * length (filter (\<lambda>y. f y = k) (x # xs))) =
      (\<Sum>k\<leftarrow>ks. (if k = f x then w k else 0) + w k * length (filter (\<lambda>y. f y = k) xs))"
    by (intro arg_cong[of _ _ sum_list] map_cong) auto
  also have "\<dots> = (\<Sum>k\<leftarrow>ks. if k = f x then w k else 0) + (\<Sum>k\<leftarrow>ks. w k * length (filter (\<lambda>y. f y = k) xs))"
    by (simp add: sum_list_addf)
  also have "(\<Sum>k\<leftarrow>ks. if k = f x then w k else 0) = w (f x)"
    using Cons.prems by (simp add: sum_list_distinct_conv_sum_set sum.delta)
  finally show ?case using Cons by simp
qed (induction ks; simp)

text \<open>The number of paths a capability of a pack has to pass.\<close>

definition required_of_pack :: "ustr \<Rightarrow> nat" where
  "required_of_pack pack = (if pack \<in> set (lits [''v2_non_soak'', ''agent_sdk_boundary'']) then 1 else 3)"

lemma required_paths_count:
  "capability_ok c \<Longrightarrow>
     length (filter (\<lambda>name. path_required (cap_path c name)) PATH_NAMES) = required_of_pack (cap_source_pack c)"
  by (auto simp: capability_ok_def required_paths_ok_def required_of_pack_def PATH_NAMES_def cap_path_def)

lemma rc_lane_total:
  assumes "catalog_ok cat"
  shows "(\<Sum>c\<leftarrow>for_lane cat (lit ''rc''). w (cap_source_pack c)) =
     53 * w (lit ''v2_non_soak'') + 12 * w (lit ''openclaw_active'') + 23 * w (lit ''agent_sdk_boundary'') +
     36 * (w (lit ''clawprobench_native'') :: nat)"
proof -
  let ?caps = "cat_capabilities cat" and ?ks = "lits (map fst SOURCE_COUNTS)"
  have ok: "capability_ok c" if "c \<in> set ?caps" for c
    using assms that by (auto simp: catalog_ok_def list_all_iff)
  have packs: "cap_source_pack ` set (for_lane cat (lit ''rc'')) \<subseteq> set ?ks"
    using ok by (fastforce simp: for_lane_def capability_ok_def SOURCE_PACKS_def SOURCE_COUNTS_def)
  have counts: "length (filter (\<lambda>c. cap_source_pack c = lit pack) (for_lane cat (lit ''rc''))) = n"
    if "(pack, n) \<in> set SOURCE_COUNTS" for pack n
  proof -
    have "pack \<noteq> ''runtime_active''" using that by (auto simp: SOURCE_COUNTS_def)
    then have "filter (\<lambda>c. cap_source_pack c = lit pack) (for_lane cat (lit ''rc'')) =
        filter (\<lambda>c. cap_source_pack c = lit pack) ?caps"
      using ok by (auto simp: for_lane_def capability_ok_def intro!: filter_cong)
    then show ?thesis using assms that by (auto simp: catalog_ok_def pack_size_def list_all_iff)
  qed
  have "distinct ?ks" by (simp add: SOURCE_COUNTS_def lits_def)
  from length_by_class[OF this packs] show ?thesis
    using counts by (simp add: SOURCE_COUNTS_def lits_def)
qed

end
