(* ===== verification/Parity_Grader.thy ===== *)
theory Parity_Grader
  imports Parity_Results Parity_Catalog "HOL-Library.Multiset"
begin

section \<open>Grading (parity/grader.py, parity/trace.py)\<close>

text \<open>
  \<^verbatim>\<open>grade_packets\<close> turns the packets of one candidate into a report: one grade for each path of
  each capability of a lane. The generators of the source are lists. Two things the catalog
  accepts make the grader raise or overlook something: a repeat policy without triggers is a
  \<^verbatim>\<open>KeyError\<close>, and a trigger with blanks around it is not recognised.
\<close>

subsection \<open>Packets of one path\<close>

definition is_pass :: "ResultPacket \<Rightarrow> ustr \<Rightarrow> bool" where
  "is_pass p path =
     (if path = lit ''denial'' then rp_classification p = EXPECTED_NEGATIVE
      else rp_classification p = COMPLETE)"

definition event_kinds :: "event list \<Rightarrow> json list" where
  "event_kinds events = map (\<lambda>e. field e ''kind'') events"

definition ends_with_outcome :: "event list \<Rightarrow> string \<Rightarrow> bool" where
  "ends_with_outcome events outcome \<longleftrightarrow>
     events \<noteq> [] \<and> field (last events) ''kind'' = JStr (lit ''terminal'') \<and>
     field (last events) ''terminal_outcome'' = JStr (lit outcome)"

definition trace_matches :: "ResultPacket \<Rightarrow> ustr list \<Rightarrow> bool" where
  "trace_matches p expected =
     (let kinds = event_kinds (rp_events p)
      in if rp_path p = lit ''denial'' then
           ends_with_outcome (rp_events p) ''denied'' \<and>
           (expected = [] \<or> hd expected \<noteq> lit ''start'' \<or> hd kinds = JStr (lit ''start''))
         else kinds = map JStr expected \<and> ends_with_outcome (rp_events p) ''completed'')"

definition counts_as_pass :: "ustr list \<Rightarrow> ResultPacket \<Rightarrow> bool" where
  "counts_as_pass expected p \<longleftrightarrow> is_pass p (rp_path p) \<and> trace_matches p expected"

definition window_ok :: "ustr list \<Rightarrow> ResultPacket list \<Rightarrow> bool" where
  "window_ok expected w \<longleftrightarrow>
     list_all (counts_as_pass expected) w \<and> card (rp_candidate_hash ` set w) = 1 \<and>
     map rp_trial_index w = [rp_trial_index (hd w), rp_trial_index (hd w) + 1, rp_trial_index (hd w) + 2]"

definition three_consecutive :: "ResultPacket list \<Rightarrow> ustr list \<Rightarrow> bool" where
  "three_consecutive packets expected =
     (let ordered = sort_key rp_trial_index packets
      in list_ex (\<lambda>start. window_ok expected (take 3 (drop start ordered))) [0 ..< length ordered - 2])"

subsection \<open>The grade of one path\<close>

record PathGrade =
  pg_capability_id :: ustr
  pg_path :: string
  pg_required :: bool
  pg_status :: string
  pg_observed_trials :: nat
  pg_required_consecutive :: int
  pg_pass_at_3 :: bool
  pg_pass_power_3 :: bool
  pg_reason :: ustr

text \<open>\<^verbatim>\<open>set(policy["triggers"])\<close>, and \<^verbatim>\<open>int(policy["consecutive_passes"])\<close> on a checked policy.\<close>

definition policy_triggers :: "dict \<Rightarrow> check_error + json list" where
  "policy_triggers policy =
     (if \<not> has_key policy ''triggers'' then Inl (Escapes KeyError)
      else case field policy ''triggers'' of JList js \<Rightarrow> Inr js | _ \<Rightarrow> Inl (Escapes TypeError))"

definition policy_consecutive :: "dict \<Rightarrow> int" where
  "policy_consecutive policy = (case field policy ''consecutive_passes'' of JInt n \<Rightarrow> n | _ \<Rightarrow> 0)"

definition had_failure :: "ustr list \<Rightarrow> ResultPacket list \<Rightarrow> bool" where
  "had_failure expected observed \<longleftrightarrow>
     list_ex (\<lambda>p. rp_classification p = VERIFIED_FAILURE) observed \<or>
     list_ex (\<lambda>p. is_pass p (rp_path p) \<and> \<not> trace_matches p expected) observed"

definition unstable :: "ustr list \<Rightarrow> ResultPacket list \<Rightarrow> bool" where
  "unstable expected observed \<longleftrightarrow>
     length (remdups (map (\<lambda>p. (rp_classification p, trace_matches p expected)) observed)) > 1"

definition path_status ::
    "bool \<Rightarrow> bool \<Rightarrow> int \<Rightarrow> bool \<Rightarrow> bool \<Rightarrow> ResultPacket list \<Rightarrow> string \<times> ustr" where
  "path_status required failure need power_3 passed observed =
     (if \<not> required then (''NOT_REQUIRED'', lit ''catalog path is explicitly not required'')
      else if failure \<and> \<not> (need = 3 \<and> power_3) then
        (''VERIFIED_FAILURE'',
         lit ''a verified failure or trace mismatch has not been followed by strict 3/3 evidence'')
      else if need \<ge> 3 \<and> power_3 then
        (''COMPLETE'', lit ''three consecutive passes share one unchanged candidate identity'')
      else if need = 1 \<and> passed then
        (''COMPLETE'', lit ''required path has deterministic passing evidence'')
      else if list_ex (\<lambda>p. rp_classification p \<in> {PENDING, ENVIRONMENT_BLOCKED}) observed then
        (''PENDING'', lit ''execution is pending or environment-blocked'')
      else if observed \<noteq> [] then
        (''PENDING'', lit ''repeat requirement not met: need '' @ dec_int need @ lit '' consecutive pass(es)'')
      else (''PENDING'', lit ''no result packet exists for this required path''))"

definition grade_path :: "ResultPacket list \<Rightarrow> Capability \<Rightarrow> string \<Rightarrow> check_error + PathGrade" where
  "grade_path packets c path =
     (let expected = cap_expected_trace c;
          observed = sort_key rp_trial_index
            (filter (\<lambda>p. rp_capability_id p = cap_id c \<and> rp_path p = lit path) packets);
          required = path_required (cap_path c path);
          passed = list_ex (counts_as_pass expected) observed;
          at_3 = list_ex (counts_as_pass expected) (take 3 observed);
          power_3 = three_consecutive observed expected
      in and_then (policy_triggers (cap_repeat_policy c)) (\<lambda>triggers.
           let failure = had_failure expected observed;
               declared = policy_consecutive (cap_repeat_policy c);
               need = (if JStr (lit ''consequential'') \<in> set triggers \<or> JStr (lit ''unstable'') \<in> set triggers \<or>
                          failure \<or> unstable expected observed
                       then max declared 3 else declared);
               (status, reason) = path_status required failure need power_3 passed observed
           in Inr \<lparr>pg_capability_id = cap_id c, pg_path = path, pg_required = required, pg_status = status,
                  pg_observed_trials = length observed, pg_required_consecutive = need,
                  pg_pass_at_3 = at_3, pg_pass_power_3 = power_3, pg_reason = reason\<rparr>))"

subsection \<open>The report\<close>

record GradeReport =
  gr_lane :: ustr
  gr_status :: string
  gr_exit_code :: int
  gr_contract_hash :: ustr
  gr_catalog_hash :: ustr
  gr_candidate_hash :: "ustr option"
  gr_source_coverage :: "(ustr \<times> nat) list"
  gr_required_paths :: nat
  gr_passed_paths :: nat
  gr_pending_paths :: nat
  gr_failed_paths :: nat
  gr_pass_at_3_paths :: nat
  gr_pass_power_3_paths :: nat
  gr_path_grades :: "PathGrade list"

definition packet_key :: "ResultPacket \<Rightarrow> ustr \<times> ustr \<times> int \<times> ustr" where
  "packet_key p = (rp_capability_id p, rp_path p, rp_trial_index p, rp_candidate_hash p)"

text \<open>The checks of one packet; \<open>seen\<close> holds the keys before it.\<close>

definition packet_admitted ::
    "Catalog \<Rightarrow> ustr \<Rightarrow> ustr option \<Rightarrow> (ustr \<times> ustr \<times> int \<times> ustr) list \<Rightarrow> ResultPacket \<Rightarrow> bool" where
  "packet_admitted cat lane expected seen p =
     (rp_contract_hash p = cat_contract_hash cat \<and> cd_catalog_hash (rp_candidate p) = cat_catalog_hash cat \<and>
      (case filter (\<lambda>c. cap_id c = rp_capability_id p) (cat_capabilities cat) of
         [] \<Rightarrow> False
       | cs \<Rightarrow> (let c = last cs in rp_lane p = cap_lane c \<and> rp_lane p = lane \<and>
                   rp_source_pack p = cap_source_pack c \<and> rp_execution_id p = cap_execution_id c)) \<and>
      (case expected of None \<Rightarrow> True | Some h \<Rightarrow> rp_candidate_hash p = h) \<and>
      packet_key p \<notin> set seen)"

fun admit_packets ::
    "Catalog \<Rightarrow> ustr \<Rightarrow> ustr option \<Rightarrow> (ustr \<times> ustr \<times> int \<times> ustr) list \<Rightarrow> ResultPacket list \<Rightarrow> bool" where
  "admit_packets cat lane expected seen [] = True"
| "admit_packets cat lane expected seen (p # ps) =
     (packet_admitted cat lane expected seen p \<and> admit_packets cat lane expected (packet_key p # seen) ps)"

definition count_status :: "string \<Rightarrow> PathGrade list \<Rightarrow> nat" where
  "count_status status grades = length (filter (\<lambda>g. pg_status g = status) grades)"

definition source_coverage :: "Capability list \<Rightarrow> (ustr \<times> nat) list" where
  "source_coverage caps =
     map (\<lambda>pack. (pack, length (filter (\<lambda>c. cap_source_pack c = pack) caps)))
       (rev (remdups (rev (map cap_source_pack caps))))"

definition candidate_identity :: "ustr option \<Rightarrow> ResultPacket list \<Rightarrow> ustr option" where
  "candidate_identity expected packets =
     (case expected of Some h \<Rightarrow> if h = [] then map_option rp_candidate_hash (case packets of [] \<Rightarrow> None | p # _ \<Rightarrow> Some p) else Some h
      | None \<Rightarrow> (case packets of [] \<Rightarrow> None | p # _ \<Rightarrow> Some (rp_candidate_hash p)))"

definition report_of :: "Catalog \<Rightarrow> ustr \<Rightarrow> ustr option \<Rightarrow> PathGrade list \<Rightarrow> GradeReport" where
  "report_of cat lane identity grades =
     (let required = filter pg_required grades;
          failed = count_status ''VERIFIED_FAILURE'' required;
          pending = count_status ''PENDING'' required;
          passed = count_status ''COMPLETE'' required;
          (status, code) = (if failed > 0 then (''VERIFIED_FAILURE'', 1)
             else if pending > 0 then (''PENDING'', 75) else (''COMPLETE'', 0))
      in \<lparr>gr_lane = lane, gr_status = status, gr_exit_code = code,
          gr_contract_hash = cat_contract_hash cat, gr_catalog_hash = cat_catalog_hash cat,
          gr_candidate_hash = identity, gr_source_coverage = source_coverage (for_lane cat lane),
          gr_required_paths = length required, gr_passed_paths = passed, gr_pending_paths = pending,
          gr_failed_paths = failed,
          gr_pass_at_3_paths = length (filter pg_pass_at_3 required),
          gr_pass_power_3_paths = length (filter pg_pass_power_3 required),
          gr_path_grades = grades\<rparr>)"

definition grade_packets ::
    "Catalog \<Rightarrow> ResultPacket list \<Rightarrow> ustr \<Rightarrow> ustr option \<Rightarrow> check_error + GradeReport" where
  "grade_packets cat packets lane expected =
     and_then (demand (lane \<in> set (lits [''rc'', ''runtime'']) \<and> admit_packets cat lane expected [] packets \<and>
       (expected = None \<longrightarrow> length (remdups (map rp_candidate_hash packets)) \<le> 1))) (\<lambda>_.
     and_then (map_exn (\<lambda>(c, path). grade_path packets c path)
         (List.product (for_lane cat lane) PATH_NAMES)) (\<lambda>grades.
       Inr (report_of cat lane (candidate_identity expected packets) grades)))"

subsection \<open>Traces\<close>

definition event_hash_field :: "ustr \<Rightarrow> ustr option" where
  "event_hash_field kind =
     map_of (map (\<lambda>(k, f). (lit k, lit f))
       [(''approval_requested'', ''request_hash''), (''approval_decision'', ''metadata_hash''),
        (''tool_requested'', ''request_hash''), (''tool_result'', ''tool_hash''), (''state'', ''state_hash''),
        (''usage'', ''usage_hash''), (''compaction'', ''metadata_hash''), (''background'', ''parent_hash''),
        (''restart'', ''metadata_hash'')]) kind"

definition path_event :: "ustr \<Rightarrow> ustr \<Rightarrow> nat \<Rightarrow> ustr \<Rightarrow> event" where
  "path_event path evidence_hash sequence kind =
     (let denial = (path = lit ''denial'')
      in if kind = lit ''terminal'' then
           (let outcome = JStr (if denial then lit ''denied'' else lit ''completed'')
            in [(lit ''sequence'', JInt (int sequence)), (lit ''kind'', JStr kind), (lit ''status'', outcome),
                (lit ''terminal_outcome'', outcome)])
         else
           [(lit ''sequence'', JInt (int sequence)), (lit ''kind'', JStr kind),
            (lit ''status'', JStr (if kind = lit ''start'' then lit ''started''
               else if denial then lit ''expected_negative''
               else if path = lit ''recovery'' then lit ''recovered'' else lit ''observed''))] @
           (case event_hash_field kind of None \<Rightarrow> [] | Some f \<Rightarrow> [(f, JStr evidence_hash)]))"

fun path_events_from :: "nat \<Rightarrow> ustr \<Rightarrow> ustr \<Rightarrow> ustr list \<Rightarrow> event list" where
  "path_events_from n path evidence_hash [] = []"
| "path_events_from n path evidence_hash (kind # kinds) =
     path_event path evidence_hash n kind # path_events_from (Suc n) path evidence_hash kinds"

definition normalized_path_events :: "ustr list \<Rightarrow> ustr \<Rightarrow> ustr \<Rightarrow> event list" where
  "normalized_path_events expected_trace path evidence_hash = path_events_from 1 path evidence_hash expected_trace"


subsection \<open>What a packet list proves about a path\<close>

text \<open>
  The grade of a path, stated on the set of its packets: sorting, windows and the order of the
  packets have no part in it.
\<close>

definition packets_of :: "ResultPacket set \<Rightarrow> Capability \<Rightarrow> string \<Rightarrow> ResultPacket set" where
  "packets_of P c path = {p \<in> P. rp_capability_id p = cap_id c \<and> rp_path p = lit path}"

definition failed_path :: "ResultPacket set \<Rightarrow> Capability \<Rightarrow> string \<Rightarrow> bool" where
  "failed_path P c path \<longleftrightarrow> (\<exists>p \<in> packets_of P c path. rp_classification p = VERIFIED_FAILURE \<or>
     is_pass p (rp_path p) \<and> \<not> trace_matches p (cap_expected_trace c))"

definition unstable_path :: "ResultPacket set \<Rightarrow> Capability \<Rightarrow> string \<Rightarrow> bool" where
  "unstable_path P c path \<longleftrightarrow> (\<exists>p \<in> packets_of P c path. \<exists>q \<in> packets_of P c path.
     rp_classification p \<noteq> rp_classification q \<or>
     trace_matches p (cap_expected_trace c) \<noteq> trace_matches q (cap_expected_trace c))"

definition three_in_a_row :: "ResultPacket set \<Rightarrow> Capability \<Rightarrow> string \<Rightarrow> bool" where
  "three_in_a_row P c path \<longleftrightarrow> (\<exists>k. \<forall>i \<in> {k, k + 1, k + 2}. \<exists>p \<in> packets_of P c path.
     rp_trial_index p = i \<and> counts_as_pass (cap_expected_trace c) p)"

definition triggered :: "Capability \<Rightarrow> bool" where
  "triggered c \<longleftrightarrow> (\<exists>js. policy_triggers (cap_repeat_policy c) = Inr js \<and>
     (JStr (lit ''consequential'') \<in> set js \<or> JStr (lit ''unstable'') \<in> set js))"

definition passes_needed :: "ResultPacket set \<Rightarrow> Capability \<Rightarrow> string \<Rightarrow> int" where
  "passes_needed P c path =
     (if triggered c \<or> failed_path P c path \<or> unstable_path P c path
      then max (policy_consecutive (cap_repeat_policy c)) 3 else policy_consecutive (cap_repeat_policy c))"

definition path_settled :: "ResultPacket set \<Rightarrow> Capability \<Rightarrow> string \<Rightarrow> bool" where
  "path_settled P c path \<longleftrightarrow>
     (if passes_needed P c path = 1
      then \<exists>p \<in> packets_of P c path. counts_as_pass (cap_expected_trace c) p
      else passes_needed P c path \<ge> 3 \<and> three_in_a_row P c path \<and>
           (failed_path P c path \<longrightarrow> passes_needed P c path = 3))"

subsection \<open>The window and the set\<close>

lemma sorted_run:
  fixes xs :: "int list"
  assumes "sorted xs" "distinct xs" "k \<in> set xs" "k + 1 \<in> set xs" "k + 2 \<in> set xs"
  shows "\<exists>i. Suc (Suc i) < length xs \<and> xs ! i = k \<and> xs ! Suc i = k + 1 \<and> xs ! Suc (Suc i) = k + 2"
proof -
  have strict: "sorted_wrt (<) xs" using assms(1,2) strict_sorted_iff by blast
  have next_at: "Suc i < length xs \<and> xs ! Suc i = m + 1" if at: "i < length xs" "xs ! i = m" "m + 1 \<in> set xs" for i m
  proof -
    obtain j where j: "j < length xs" "xs ! j = m + 1" using at(3) by (auto simp: in_set_conv_nth)
    have "i < j"
    proof (rule ccontr)
      assume "\<not> i < j"
      then have "xs ! j \<le> xs ! i" using at(1) assms(1) by (simp add: sorted_nth_mono)
      with at(2) j(2) show False by simp
    qed
    have "Suc i = j"
    proof (rule ccontr)
      assume "Suc i \<noteq> j"
      with \<open>i < j\<close> have "Suc i < j" by simp
      with j(1) have "xs ! i < xs ! Suc i" "xs ! Suc i < xs ! j"
        using sorted_wrt_nth_less[OF strict] by (meson lessI less_trans)+
      with at(2) j(2) show False by simp
    qed
    with j show ?thesis by simp
  qed
  obtain i where "i < length xs" "xs ! i = k" using assms(3) by (auto simp: in_set_conv_nth)
  then show ?thesis using next_at[of i k] next_at[of "Suc i" "k + 1"] assms(4,5) by (auto simp: add.assoc)
qed

lemma take_3_drop:
  "Suc (Suc i) < length xs \<Longrightarrow> take 3 (drop i xs) = [xs ! i, xs ! Suc i, xs ! Suc (Suc i)]"
  by (simp add: numeral_3_eq_3 take_Suc_conv_app_nth)

lemma three_consecutive_iff:
  assumes distinct: "distinct (map rp_trial_index ps)" and same: "\<forall>p \<in> set ps. rp_candidate_hash p = h"
  shows "three_consecutive ps expected \<longleftrightarrow>
    (\<exists>k. \<forall>i \<in> {k, k + 1, k + 2}. \<exists>p \<in> set ps. rp_trial_index p = i \<and> counts_as_pass expected p)"
    (is "?scan \<longleftrightarrow> ?row")
proof -
  let ?os = "sort_key rp_trial_index ps"
  let ?ts = "map rp_trial_index ?os"
  have ts: "sorted ?ts" "distinct ?ts"
    using distinct by (simp_all add: distinct_map)
  have scan: "?scan \<longleftrightarrow> (\<exists>i. Suc (Suc i) < length ?os \<and> window_ok expected [?os ! i, ?os ! Suc i, ?os ! Suc (Suc i)])"
    by (simp add: three_consecutive_def Let_def list_ex_iff Bex_def) (metis less_diff_conv add_2_eq_Suc' take_3_drop length_sort)
  show ?thesis
  proof
    assume ?scan
    then obtain i where i: "Suc (Suc i) < length ?os"
      and w: "window_ok expected [?os ! i, ?os ! Suc i, ?os ! Suc (Suc i)]" using scan by blast
    have "?os ! i \<in> set ps" "?os ! Suc i \<in> set ps" "?os ! Suc (Suc i) \<in> set ps"
      using i nth_mem[of _ ?os] by (metis Suc_lessD set_sort)+
    then show ?row
      using w by (intro exI[of _ "rp_trial_index (?os ! i)"]) (auto simp: window_ok_def)
  next
    assume ?row
    then obtain k where k: "\<forall>i \<in> {k, k + 1, k + 2}. \<exists>p \<in> set ps. rp_trial_index p = i \<and> counts_as_pass expected p"
      by blast
    then have "k \<in> set ?ts" "k + 1 \<in> set ?ts" "k + 2 \<in> set ?ts" by (simp_all add: image_iff) metis+
    from sorted_run[OF ts this] obtain i where i: "Suc (Suc i) < length ?os"
      "rp_trial_index (?os ! i) = k" "rp_trial_index (?os ! Suc i) = k + 1" "rp_trial_index (?os ! Suc (Suc i)) = k + 2"
      by (auto simp: nth_map)
    have pass: "counts_as_pass expected p" if "p \<in> set ps" "rp_trial_index p \<in> {k, k + 1, k + 2}" for p
    proof -
      from k that(2) obtain q where q: "q \<in> set ps" "rp_trial_index q = rp_trial_index p" "counts_as_pass expected q" by blast
      with that(1) distinct have "q = p" by (auto simp: distinct_map dest: inj_onD)
      with q show ?thesis by simp
    qed
    have mem: "?os ! i \<in> set ps" "?os ! Suc i \<in> set ps" "?os ! Suc (Suc i) \<in> set ps"
      using i(1) nth_mem[of _ ?os] by (metis Suc_lessD set_sort)+
    then have "rp_candidate_hash ` {?os ! i, ?os ! Suc i, ?os ! Suc (Suc i)} = {h}" using same by auto
    then have "card (rp_candidate_hash ` {?os ! i, ?os ! Suc i, ?os ! Suc (Suc i)}) = card {h}" by (rule arg_cong)
    then have "window_ok expected [?os ! i, ?os ! Suc i, ?os ! Suc (Suc i)]"
      unfolding window_ok_def using mem i(2-4) by (simp add: pass)
    with i(1) scan show ?scan by blast
  qed
qed

lemma remdups_plural:
  "length (remdups (map f xs)) > 1 \<longleftrightarrow> (\<exists>x \<in> set xs. \<exists>y \<in> set xs. f x \<noteq> f y)"
proof -
  have card: "length (remdups (map f xs)) = card (f ` set xs)" by (simp add: length_remdups_card_conv)
  show ?thesis
  proof (cases "\<exists>x \<in> set xs. \<exists>y \<in> set xs. f x \<noteq> f y")
    case True
    then obtain x y where "x \<in> set xs" "y \<in> set xs" "f x \<noteq> f y" by blast
    moreover from this have "card {f x, f y} \<le> card (f ` set xs)" by (intro card_mono) auto
    ultimately have "card (f ` set xs) > 1" by simp
    with card have "length (remdups (map f xs)) > 1" by simp
    with True show ?thesis by blast
  next
    case False
    then have "\<forall>a \<in> f ` set xs. \<forall>b \<in> f ` set xs. a = b" by blast
    then have "card (f ` set xs) \<le> Suc 0" by (simp only: card_le_Suc0_iff_eq[OF finite_imageI[OF finite_set]])
    then have "\<not> length (remdups (map f xs)) > 1" unfolding card by simp
    with False show ?thesis by blast
  qed
qed


subsection \<open>Admission\<close>

lemma packet_admitted_seen:
  "packet_admitted cat lane e seen p \<longleftrightarrow> packet_admitted cat lane e [] p \<and> packet_key p \<notin> set seen"
  by (auto simp: packet_admitted_def)

lemma admit_packets_iff:
  "admit_packets cat lane e seen ps \<longleftrightarrow> list_all (packet_admitted cat lane e []) ps \<and> distinct (map packet_key ps) \<and>
     packet_key ` set ps \<inter> set seen = {}"
proof (induction ps arbitrary: seen)
  case (Cons p ps)
  show ?case unfolding admit_packets.simps Cons packet_admitted_seen[of _ _ _ seen p] by auto
qed simp

text \<open>What the checks of all packets together leave of a list.\<close>

definition one_candidate :: "ResultPacket list \<Rightarrow> bool" where
  "one_candidate ps \<longleftrightarrow> distinct (map packet_key ps) \<and> (\<exists>h. \<forall>p \<in> set ps. rp_candidate_hash p = h)"

definition observed_of :: "ResultPacket list \<Rightarrow> Capability \<Rightarrow> string \<Rightarrow> ResultPacket list" where
  "observed_of ps c path = filter (\<lambda>p. rp_capability_id p = cap_id c \<and> rp_path p = lit path) ps"

lemma set_observed: "set (observed_of ps c path) = packets_of (set ps) c path"
  by (auto simp: observed_of_def packets_of_def)

lemma admitted_one_candidate:
  assumes "admit_packets cat lane e [] ps" "e = None \<longrightarrow> length (remdups (map rp_candidate_hash ps)) \<le> 1"
  shows "one_candidate ps"
proof (cases e)
  case None
  with assms(2) have "\<not> length (remdups (map rp_candidate_hash ps)) > 1" by simp
  then have same: "\<forall>p \<in> set ps. \<forall>q \<in> set ps. rp_candidate_hash p = rp_candidate_hash q"
    unfolding remdups_plural by blast
  have "\<exists>h. \<forall>p \<in> set ps. rp_candidate_hash p = h"
  proof (cases "ps = []")
    case False
    then have "hd ps \<in> set ps" by simp
    with same show ?thesis by blast
  qed simp
  with assms(1) show ?thesis by (simp add: admit_packets_iff one_candidate_def)
next
  case (Some h)
  then have "\<forall>p \<in> set ps. rp_candidate_hash p = h"
    using assms(1) by (auto simp: admit_packets_iff list_all_iff packet_admitted_def)
  with assms(1) show ?thesis by (auto simp: admit_packets_iff one_candidate_def)
qed

lemma distinct_trials:
  assumes "one_candidate ps"
  shows "distinct (map rp_trial_index (observed_of ps c path))"
proof -
  from assms obtain h where h: "\<forall>p \<in> set ps. rp_candidate_hash p = h" and keys: "distinct (map packet_key ps)"
    by (auto simp: one_candidate_def)
  have "inj_on rp_trial_index (set (observed_of ps c path))"
  proof (rule inj_onI)
    fix p q
    assume pq: "p \<in> set (observed_of ps c path)" "q \<in> set (observed_of ps c path)" "rp_trial_index p = rp_trial_index q"
    then have "packet_key p = packet_key q" using h by (auto simp: packet_key_def observed_of_def)
    with pq(1,2) keys show "p = q" by (auto simp: observed_of_def distinct_map dest: inj_onD)
  qed
  with keys show ?thesis by (simp add: distinct_map observed_of_def)
qed

subsection \<open>The grade of a path and its specification\<close>

lemma had_failure_iff: "had_failure (cap_expected_trace c) (sort_key f (observed_of ps c path)) = failed_path (set ps) c path"
  unfolding had_failure_def failed_path_def list_ex_iff set_sort set_observed by blast

lemma unstable_iff: "unstable (cap_expected_trace c) (sort_key f (observed_of ps c path)) = unstable_path (set ps) c path"
  unfolding unstable_def remdups_plural unstable_path_def set_sort set_observed by auto

lemma three_iff:
  assumes "one_candidate ps"
  shows "three_consecutive (sort_key rp_trial_index (observed_of ps c path)) (cap_expected_trace c) = three_in_a_row (set ps) c path"
proof -
  obtain h where h: "\<forall>p \<in> set ps. rp_candidate_hash p = h" using assms by (auto simp: one_candidate_def)
  have "distinct (map rp_trial_index (sort_key rp_trial_index (observed_of ps c path)))"
    using distinct_trials[OF assms, of c path] by (simp add: distinct_map)
  moreover have "\<forall>p \<in> set (sort_key rp_trial_index (observed_of ps c path)). rp_candidate_hash p = h"
    using h by (simp add: observed_of_def)
  ultimately show ?thesis
    unfolding three_in_a_row_def by (subst three_consecutive_iff) (simp_all only: set_sort set_observed)
qed

lemma path_status_settled:
  assumes "failure \<Longrightarrow> need \<ge> 3"
  shows "fst (path_status True failure need three passed observed) = ''COMPLETE'' \<longleftrightarrow>
     (if need = 1 then passed else need \<ge> 3 \<and> three \<and> (failure \<longrightarrow> need = 3))"
  using assms by (auto simp: path_status_def)

lemma path_status_cases:
  "fst (path_status required failure need three passed observed) \<in>
     (if required then {''COMPLETE'', ''PENDING'', ''VERIFIED_FAILURE''} else {''NOT_REQUIRED''})"
  by (simp add: path_status_def)

lemma triggered_iff:
  "policy_triggers (cap_repeat_policy c) = Inr js \<Longrightarrow>
     triggered c \<longleftrightarrow> JStr (lit ''consequential'') \<in> set js \<or> JStr (lit ''unstable'') \<in> set js"
  by (simp add: triggered_def)

lemma grade_path_Inr:
  assumes "grade_path ps c path = Inr g"
  obtains js where "policy_triggers (cap_repeat_policy c) = Inr js" "pg_required g = path_required (cap_path c path)"
    "pg_status g = fst (path_status (pg_required g) (failed_path (set ps) c path) (passes_needed (set ps) c path)
       (three_consecutive (sort_key rp_trial_index (observed_of ps c path)) (cap_expected_trace c))
       (list_ex (counts_as_pass (cap_expected_trace c)) (sort_key rp_trial_index (observed_of ps c path)))
       (sort_key rp_trial_index (observed_of ps c path)))"
proof -
  from assms obtain js where js: "policy_triggers (cap_repeat_policy c) = Inr js"
    by (auto simp: grade_path_def and_then_Inr Let_def)
  show ?thesis
    by (rule that[OF js], use assms js in \<open>simp_all only: grade_path_def and_then_simps Let_def case_prod_beta
      sum.inject observed_of_def[symmetric] had_failure_iff unstable_iff passes_needed_def triggered_iff[OF js]\<close>)
      (clarsimp)+
qed

lemma grade_path_settled:
  assumes "grade_path ps c path = Inr g" "one_candidate ps" "path_required (cap_path c path)"
  shows "pg_status g = ''COMPLETE'' \<longleftrightarrow> path_settled (set ps) c path"
proof -
  have passed: "list_ex (counts_as_pass (cap_expected_trace c)) (sort_key f (observed_of ps c path)) \<longleftrightarrow>
      (\<exists>p \<in> packets_of (set ps) c path. counts_as_pass (cap_expected_trace c) p)" for f :: "ResultPacket \<Rightarrow> int"
    by (simp only: list_ex_iff set_sort set_observed)
  have "failed_path (set ps) c path \<Longrightarrow> passes_needed (set ps) c path \<ge> 3"
    by (simp add: passes_needed_def)
  with assms(1,3) show ?thesis
    by (elim grade_path_Inr) (simp only: path_status_settled path_settled_def three_iff[OF assms(2)] passed)
qed


lemma grade_path_required: "grade_path ps c path = Inr g \<Longrightarrow> pg_required g = path_required (cap_path c path)"
  by (erule grade_path_Inr)

lemma grade_path_status:
  "grade_path ps c path = Inr g \<Longrightarrow>
     pg_status g \<in> (if pg_required g then {''COMPLETE'', ''PENDING'', ''VERIFIED_FAILURE''} else {''NOT_REQUIRED''})"
  by (erule grade_path_Inr) (metis path_status_cases)

lemma grade_packets_Inr:
  assumes "grade_packets cat ps lane e = Inr r"
  obtains grades where "one_candidate ps" "lane \<in> set (lits [''rc'', ''runtime''])"
    "list_all (packet_admitted cat lane e []) ps"
    "list_all2 (\<lambda>cp g. grade_path ps (fst cp) (snd cp) = Inr g) (List.product (for_lane cat lane) PATH_NAMES) grades"
    "r = report_of cat lane (candidate_identity e ps) grades"
proof -
  from assms obtain grades where parts: "lane \<in> set (lits [''rc'', ''runtime''])" "admit_packets cat lane e [] ps"
    "e = None \<longrightarrow> length (remdups (map rp_candidate_hash ps)) \<le> 1"
    "map_exn (\<lambda>(c, path). grade_path ps c path) (List.product (for_lane cat lane) PATH_NAMES) = Inr grades"
    "r = report_of cat lane (candidate_identity e ps) grades"
    unfolding grade_packets_def and_then_Inr demand_Inr by blast
  show ?thesis
  proof (rule that)
    show "one_candidate ps" by (rule admitted_one_candidate[OF parts(2,3)])
    show "list_all (packet_admitted cat lane e []) ps" using parts(2) by (simp only: admit_packets_iff)
    show "list_all2 (\<lambda>cp g. grade_path ps (fst cp) (snd cp) = Inr g) (List.product (for_lane cat lane) PATH_NAMES) grades"
      using parts(4) unfolding map_exn_Inr by (simp add: case_prod_beta')
  qed (fact parts)+
qed

subsection \<open>Order of the packets\<close>

lemma observed_order:
  assumes "one_candidate ps" "mset ps = mset qs"
  shows "sort_key rp_trial_index (observed_of ps c path) = sort_key rp_trial_index (observed_of qs c path)"
proof -
  have same: "mset (observed_of ps c path) = mset (observed_of qs c path)"
    using assms(2) by (simp add: observed_of_def)
  then have keys: "distinct (map rp_trial_index (observed_of qs c path))"
    using distinct_trials[OF assms(1), of c path] by (metis mset_map mset_eq_imp_distinct_iff)
  show ?thesis
  proof (rule map_sorted_distinct_set_unique[of rp_trial_index])
    show "inj_on rp_trial_index (set (sort_key rp_trial_index (observed_of ps c path)) \<union>
        set (sort_key rp_trial_index (observed_of qs c path)))"
      using keys mset_eq_setD[OF same] by (simp add: distinct_map)
  qed (use keys distinct_trials[OF assms(1), of c path] mset_eq_setD[OF same] in \<open>simp_all add: distinct_map\<close>)
qed

lemma grade_path_order:
  assumes "one_candidate ps" "mset ps = mset qs"
  shows "grade_path ps c path = grade_path qs c path"
  by (simp only: grade_path_def Let_def observed_order[OF assms, unfolded observed_of_def])

lemma admit_packets_order:
  assumes "mset ps = mset qs"
  shows "admit_packets cat lane e [] ps = admit_packets cat lane e [] qs"
proof -
  have "distinct (map packet_key ps) = distinct (map packet_key qs)"
    using assms by (metis mset_map mset_eq_imp_distinct_iff)
  then show ?thesis using mset_eq_setD[OF assms] by (simp add: admit_packets_iff list_all_iff)
qed

lemma candidate_identity_order:
  assumes "one_candidate ps" "mset ps = mset qs"
  shows "candidate_identity e ps = candidate_identity e qs"
proof -
  from assms(1) obtain h where h: "\<forall>p \<in> set ps. rp_candidate_hash p = h" by (auto simp: one_candidate_def)
  have "ps = [] \<longleftrightarrow> qs = []" using mset_eq_setD[OF assms(2)] by force
  moreover have "rp_candidate_hash (hd ps) = rp_candidate_hash (hd qs)" if "ps \<noteq> []" "qs \<noteq> []"
    using that h mset_eq_setD[OF assms(2)] by (metis list.set_sel(1))
  ultimately show ?thesis
    by (cases ps; cases qs) (auto simp: candidate_identity_def split: option.splits)
qed

text \<open>
  C27: The order in which the packets of a candidate arrive has no influence on the grading: the
  same report, or the same error.
\<close>

theorem grade_order_independent:
  assumes "mset ps = mset qs"
  shows "grade_packets cat ps lane e = grade_packets cat qs lane e"
proof -
  let ?admitted = "\<lambda>ps. lane \<in> set (lits [''rc'', ''runtime'']) \<and> admit_packets cat lane e [] ps \<and>
      (e = None \<longrightarrow> length (remdups (map rp_candidate_hash ps)) \<le> 1)"
  have same: "?admitted ps = ?admitted qs"
    using admit_packets_order[OF assms] mset_eq_setD[OF assms] by (simp add: length_remdups_card_conv)
  show ?thesis
  proof (cases "?admitted ps")
    case True
    then have one: "one_candidate ps" using admitted_one_candidate by blast
    have "grade_path ps = grade_path qs" using grade_path_order[OF one assms] by blast
    with True same candidate_identity_order[OF one assms] show ?thesis by (simp only: grade_packets_def)
  next
    case False
    with same show ?thesis by (simp only: grade_packets_def) (simp add: demand_def)
  qed
qed

theorem grade_order_independent_witness:
  "\<forall>cat. grade_packets cat [sample_arguments, sample_arguments\<lparr>rp_trial_index := 4\<rparr>] (lit ''rc'') None =
     grade_packets cat [sample_arguments\<lparr>rp_trial_index := 4\<rparr>, sample_arguments] (lit ''rc'') None"
  using grade_order_independent[of "[sample_arguments, sample_arguments\<lparr>rp_trial_index := 4\<rparr>]"
      "[sample_arguments\<lparr>rp_trial_index := 4\<rparr>, sample_arguments]"] by simp

subsection \<open>What a report says\<close>

lemma count_statuses:
  "list_all (\<lambda>g. pg_status g \<in> {''COMPLETE'', ''PENDING'', ''VERIFIED_FAILURE''}) gs \<Longrightarrow>
     count_status ''COMPLETE'' gs + count_status ''PENDING'' gs + count_status ''VERIFIED_FAILURE'' gs = length gs"
  by (induction gs) (auto simp: count_status_def)

lemma count_status_zero: "count_status status gs = 0 \<longleftrightarrow> list_all (\<lambda>g. pg_status g \<noteq> status) gs"
  by (auto simp: count_status_def filter_empty_conv list_all_iff)

lemma report_exit:
  assumes "list_all (\<lambda>g. pg_required g \<longrightarrow> pg_status g \<in> {''COMPLETE'', ''PENDING'', ''VERIFIED_FAILURE''}) grades"
  shows "gr_exit_code (report_of cat lane h grades) = 0 \<longleftrightarrow>
     list_all (\<lambda>g. pg_required g \<longrightarrow> pg_status g = ''COMPLETE'') grades"
proof -
  let ?required = "filter pg_required grades"
  have "gr_exit_code (report_of cat lane h grades) = 0 \<longleftrightarrow>
      count_status ''VERIFIED_FAILURE'' ?required = 0 \<and> count_status ''PENDING'' ?required = 0"
    by (simp add: report_of_def Let_def)
  also have "\<dots> \<longleftrightarrow> list_all (\<lambda>g. pg_required g \<longrightarrow> pg_status g = ''COMPLETE'') grades"
    using assms unfolding count_status_zero list_all_iff by auto
  finally show ?thesis .
qed

lemma list_all2_all: "list_all2 R xs ys \<Longrightarrow> (\<And>x y. x \<in> set xs \<Longrightarrow> R x y \<Longrightarrow> P x = Q y) \<Longrightarrow> (\<forall>x \<in> set xs. P x) = list_all Q ys"
  by (induction rule: list_all2_induct) auto


end
