(* ===== verification/Parity_Manifest.thy ===== *)
theory Parity_Manifest
  imports Parity_Grader
begin

section \<open>Executor results and the run manifest (parity/runner.py)\<close>

text \<open>
  What an executor may answer, the checks on it, the receipt of an execution and the manifest file
  that carries the receipts to a later run. The fields of an outcome have their annotated types,
  except the two the source itself checks: a classification may be a member of the enumeration,
  a string or anything else, and a turn count any JSON value.
\<close>

datatype claimed_class = Member ExecutionClassification | Text ustr | OtherClass

record ExecutionOutcome =
  eo_classification :: claimed_class
  eo_billing :: ustr
  eo_events :: "event list"
  eo_primary :: "ustr option"
  eo_secondary :: "ustr option"
  eo_silent_fallback :: bool
  eo_violations :: "ustr list"
  eo_reason_code :: "ustr option"
  eo_turn_count :: json

text \<open>In a bundle, \<open>None\<close> stands for a value that is no \<^verbatim>\<open>ExecutionOutcome\<close>.\<close>

record ExecutionBundle =
  eb_outcomes :: "(ustr \<times> ExecutionOutcome option) list"
  eb_turn_count :: json

datatype ExecutorResult = OutcomeResult ExecutionOutcome | BundleResult ExecutionBundle

text \<open>The answer of one call of an executor, before \<^verbatim>\<open>_call_executor\<close> has looked at it.\<close>

datatype answer = Returns ExecutorResult | ReturnsOther | RaisesException | RaisesCancelled

definition turn_budget :: "ustr \<Rightarrow> int" where
  "turn_budget lane = (if lane = lit ''rc'' then 180 else 100)"

definition executor_exception :: ExecutionOutcome where
  "executor_exception =
     \<lparr>eo_classification = Member VERIFIED_FAILURE, eo_billing = lit ''none'',
      eo_events = [[(lit ''sequence'', JInt 1), (lit ''kind'', JStr (lit ''terminal'')),
        (lit ''status'', JStr (lit ''executor_exception'')), (lit ''terminal_outcome'', JStr (lit ''failed''))]],
      eo_primary = None, eo_secondary = None, eo_silent_fallback = False, eo_violations = [],
      eo_reason_code = Some (lit ''executor_exception''), eo_turn_count = JInt 0\<rparr>"

definition executor_not_registered :: ExecutionOutcome where
  "executor_not_registered =
     \<lparr>eo_classification = Member PENDING, eo_billing = lit ''none'', eo_events = [], eo_primary = None,
      eo_secondary = None, eo_silent_fallback = False, eo_violations = [],
      eo_reason_code = Some (lit ''executor_not_registered''), eo_turn_count = JInt 0\<rparr>"

definition call_executor :: "answer \<Rightarrow> check_error + ExecutorResult" where
  "call_executor a =
     (case a of Returns r \<Rightarrow> Inr r | ReturnsOther \<Rightarrow> Inl Violation
      | RaisesException \<Rightarrow> Inr (OutcomeResult executor_exception) | RaisesCancelled \<Rightarrow> Inl (Escapes OtherError))"

subsection \<open>Checks\<close>

text \<open>\<^verbatim>\<open>ExecutionClassification(value)\<close>\<close>

definition class_of :: "claimed_class \<Rightarrow> ExecutionClassification option" where
  "class_of v =
     (case v of Member c \<Rightarrow> Some c
      | Text s \<Rightarrow> (case classification_of (JStr s) of Inr c \<Rightarrow> Some c | Inl _ \<Rightarrow> None)
      | OtherClass \<Rightarrow> None)"

definition turns :: "json \<Rightarrow> int" where
  "turns v = (case v of JInt n \<Rightarrow> n | _ \<Rightarrow> 0)"

definition outcome_valid :: "ExecutionOutcome \<Rightarrow> bool" where
  "outcome_valid out \<longleftrightarrow> class_of (eo_classification out) \<noteq> None \<and> (\<exists>n \<ge> 0. eo_turn_count out = JInt n)"

definition bundle_valid :: "ExecutionBundle \<Rightarrow> bool" where
  "bundle_valid b \<longleftrightarrow>
     fst ` set (eb_outcomes b) = set (lits PATH_NAMES) \<and>
     list_all (\<lambda>(name, out). \<exists>out'. out = Some out' \<and> outcome_valid out') (eb_outcomes b) \<and>
     (\<exists>n \<ge> 0. eb_turn_count b = JInt n \<and> n = (\<Sum>(name, out)\<leftarrow>eb_outcomes b. turns (eo_turn_count (the out))))"

definition result_turns :: "ExecutorResult \<Rightarrow> int" where
  "result_turns r = (case r of OutcomeResult out \<Rightarrow> turns (eo_turn_count out) | BundleResult b \<Rightarrow> turns (eb_turn_count b))"

definition validate_executor_result :: "ExecutorResult \<Rightarrow> int \<Rightarrow> check_error + unit" where
  "validate_executor_result r remaining =
     demand ((case r of OutcomeResult out \<Rightarrow> outcome_valid out | BundleResult b \<Rightarrow> bundle_valid b) \<and>
             result_turns r \<le> remaining)"

definition bundle_outcome :: "ExecutionBundle \<Rightarrow> string \<Rightarrow> ExecutionOutcome" where
  "bundle_outcome b name = the (the (map_of (eb_outcomes b) (lit name)))"

definition campaign_passing :: "ExecutionBundle \<Rightarrow> bool" where
  "campaign_passing b \<longleftrightarrow>
     eo_classification (bundle_outcome b ''positive'') = Member COMPLETE \<and>
     eo_classification (bundle_outcome b ''denial'') = Member EXPECTED_NEGATIVE \<and>
     eo_classification (bundle_outcome b ''recovery'') = Member COMPLETE"

definition validate_runtime_campaign :: "ExecutorResult \<Rightarrow> ustr \<Rightarrow> ustr \<Rightarrow> check_error + unit" where
  "validate_runtime_campaign r lane execution_id =
     (if lane \<noteq> lit ''runtime'' \<or> execution_id \<noteq> lit ''runtime-active-100-turn'' then Inr ()
      else case r of OutcomeResult out \<Rightarrow> Inl Violation
           | BundleResult b \<Rightarrow> demand (campaign_passing b \<longrightarrow> turns (eb_turn_count b) = turn_budget (lit ''runtime'')))"

subsection \<open>Receipts\<close>

record Receipt =
  rc_id :: ustr
  rc_execution_id_hash :: ustr
  rc_scope :: ustr
  rc_path :: "ustr option"
  rc_trial_index :: int
  rc_turn_count :: int

definition outcome_fingerprint :: "ExecutionOutcome \<Rightarrow> json" where
  "outcome_fingerprint out =
     JDict [(lit ''classification'', JStr (classification_value (the (class_of (eo_classification out))))),
       (lit ''billing_classification'', JStr (eo_billing out)),
       (lit ''normalized_events'', events_json (eo_events out)),
       (lit ''primary_proof_hash'', optional_json (eo_primary out)),
       (lit ''secondary_proof_hash'', optional_json (eo_secondary out)),
       (lit ''silent_fallback'', JBool (eo_silent_fallback out)),
       (lit ''invariant_violations'', JList (map JStr (eo_violations out))),
       (lit ''reason_code'', optional_json (eo_reason_code out)),
       (lit ''turn_count'', eo_turn_count out)]"

definition result_fingerprint :: "ExecutorResult \<Rightarrow> json" where
  "result_fingerprint r =
     (case r of OutcomeResult out \<Rightarrow> outcome_fingerprint out
      | BundleResult b \<Rightarrow> JDict (map (\<lambda>(name, out). (name, outcome_fingerprint (the out))) (sort_key fst (eb_outcomes b))))"

definition execution_receipt ::
    "pyrt \<Rightarrow> ustr \<Rightarrow> ustr \<Rightarrow> ustr option \<Rightarrow> int \<Rightarrow> ExecutorResult \<Rightarrow> check_error + Receipt" where
  "execution_receipt rt exact_candidate execution_id path trial_index r =
     (let scope = (case r of BundleResult _ \<Rightarrow> lit ''bundle'' | OutcomeResult _ \<Rightarrow> lit ''path'')
      in and_then (hashed (sha256_value rt (JDict
           [(lit ''candidate_hash'', JStr exact_candidate), (lit ''execution_id'', JStr execution_id),
            (lit ''scope'', JStr scope), (lit ''path'', optional_json path),
            (lit ''trial_index'', JInt trial_index), (lit ''turn_count'', JInt (result_turns r)),
            (lit ''outcome'', result_fingerprint r)]))) (\<lambda>receipt_id.
         and_then (hashed (sha256_value rt (JStr execution_id))) (\<lambda>execution_id_hash.
           Inr \<lparr>rc_id = receipt_id, rc_execution_id_hash = execution_id_hash, rc_scope = scope, rc_path = path,
                rc_trial_index = trial_index, rc_turn_count = result_turns r\<rparr>)))"

definition receipt_json :: "Receipt \<Rightarrow> json" where
  "receipt_json r =
     JDict [(lit ''receipt_id'', JStr (rc_id r)), (lit ''execution_id_hash'', JStr (rc_execution_id_hash r)),
       (lit ''scope'', JStr (rc_scope r)), (lit ''path'', optional_json (rc_path r)),
       (lit ''trial_index'', JInt (rc_trial_index r)), (lit ''turn_count'', JInt (rc_turn_count r))]"

subsection \<open>The manifest\<close>

definition MANIFEST_FIELDS :: "string list" where
  "MANIFEST_FIELDS =
     [''schema_version'', ''lane'', ''contract_hash'', ''catalog_hash'', ''candidate_hash'', ''turn_budget'',
      ''executions'', ''packet_hashes'', ''manifest_hash'']"

definition RECEIPT_FIELDS :: "string list" where
  "RECEIPT_FIELDS = [''receipt_id'', ''execution_id_hash'', ''scope'', ''path'', ''trial_index'', ''turn_count'']"

definition manifest_fields :: "ustr \<Rightarrow> Catalog \<Rightarrow> ustr \<Rightarrow> Receipt list \<Rightarrow> ustr list \<Rightarrow> (ustr \<times> json) list" where
  "manifest_fields lane cat exact_candidate executions packet_hashes =
     [(lit ''schema_version'', JInt 1), (lit ''lane'', JStr lane),
      (lit ''contract_hash'', JStr (cat_contract_hash cat)), (lit ''catalog_hash'', JStr (cat_catalog_hash cat)),
      (lit ''candidate_hash'', JStr exact_candidate), (lit ''turn_budget'', JInt (turn_budget lane)),
      (lit ''executions'', JList (map receipt_json executions)),
      (lit ''packet_hashes'', JList (map JStr (sort packet_hashes)))]"

definition manifest_payload ::
    "pyrt \<Rightarrow> ustr \<Rightarrow> Catalog \<Rightarrow> ustr \<Rightarrow> Receipt list \<Rightarrow> ustr list \<Rightarrow> check_error + json" where
  "manifest_payload rt lane cat exact_candidate executions packet_hashes =
     (let value = manifest_fields lane cat exact_candidate executions packet_hashes
      in and_then (hashed (sha256_value rt (JDict value))) (\<lambda>h.
           Inr (JDict (value @ [(lit ''manifest_hash'', JStr h)]))))"

definition sized_text :: "json \<Rightarrow> check_error + ustr" where
  "sized_text v = (case v of JStr s \<Rightarrow> if length s = 64 then Inr s else Inl Violation | _ \<Rightarrow> Inl Violation)"

definition read_receipt :: "ustr list \<Rightarrow> json \<Rightarrow> check_error + Receipt" where
  "read_receipt seen raw =
     (case raw of
        JDict d \<Rightarrow>
          and_then (demand (fst ` set d = set (lits RECEIPT_FIELDS))) (\<lambda>_.
          and_then (case field d ''receipt_id'' of JList _ \<Rightarrow> Inl (Escapes TypeError) | JDict _ \<Rightarrow> Inl (Escapes TypeError)
                    | JStr s \<Rightarrow> demand (s \<notin> set seen) | _ \<Rightarrow> Inr ()) (\<lambda>_.
          and_then (named [''bundle'', ''path''] (field d ''scope'')) (\<lambda>scope.
          and_then (sized_text (field d ''receipt_id'')) (\<lambda>receipt_id.
          and_then (sized_text (field d ''execution_id_hash'')) (\<lambda>execution_id_hash.
          and_then (count_in 1 None (field d ''trial_index'')) (\<lambda>trial_index.
          and_then (if scope = lit ''path'' then map_sum id Some (named PATH_NAMES (field d ''path''))
                    else and_then (demand (field d ''path'' = JNull)) (\<lambda>_. Inr None)) (\<lambda>path.
          and_then (count_in 0 None (field d ''turn_count'')) (\<lambda>turn_count.
            Inr \<lparr>rc_id = receipt_id, rc_execution_id_hash = execution_id_hash, rc_scope = scope,
                 rc_path = path, rc_trial_index = trial_index, rc_turn_count = turn_count\<rparr>))))))))
      | _ \<Rightarrow> Inl Violation)"

fun read_receipts :: "ustr list \<Rightarrow> json list \<Rightarrow> check_error + Receipt list" where
  "read_receipts seen [] = Inr []"
| "read_receipts seen (raw # raws) =
     and_then (read_receipt seen raw) (\<lambda>r. map_sum id ((#) r) (read_receipts (rc_id r # seen) raws))"

definition turns_used :: "Receipt list \<Rightarrow> int" where
  "turns_used receipts = (\<Sum>r\<leftarrow>receipts. rc_turn_count r)"

text \<open>\<^verbatim>\<open>_load_manifest\<close> on the tree that \<^verbatim>\<open>json.loads\<close> gave; the second component is a set.\<close>

definition load_manifest ::
    "pyrt \<Rightarrow> ustr \<Rightarrow> Catalog \<Rightarrow> ustr \<Rightarrow> json \<Rightarrow> check_error + Receipt list \<times> ustr list" where
  "load_manifest rt lane cat exact_candidate loaded =
     (case loaded of
        JDict d \<Rightarrow>
          and_then (demand (fst ` set d = set (lits MANIFEST_FIELDS) \<and> equals_int (field d ''schema_version'') 1 \<and>
            field d ''lane'' = JStr lane \<and> field d ''contract_hash'' = JStr (cat_contract_hash cat) \<and>
            field d ''catalog_hash'' = JStr (cat_catalog_hash cat) \<and> field d ''candidate_hash'' = JStr exact_candidate \<and>
            equals_int (field d ''turn_budget'') (turn_budget lane))) (\<lambda>_.
          and_then (hashed (sha256_value rt (JDict (dict_del (lit ''manifest_hash'') d)))) (\<lambda>h.
          and_then (demand (field d ''manifest_hash'' = JStr h)) (\<lambda>_.
          (case (field d ''executions'', field d ''packet_hashes'') of
             (JList raws, JList hashes) \<Rightarrow>
               and_then (read_receipts [] raws) (\<lambda>receipts.
               and_then (demand (turns_used receipts \<le> turn_budget lane)) (\<lambda>_.
               and_then (map_exn sized_text hashes) (\<lambda>hs. Inr (receipts, hs))))
           | _ \<Rightarrow> Inl Violation))))
      | _ \<Rightarrow> Inl Violation)"

end
