(* ===== verification/Parity_Runner.thy ===== *)
theory Parity_Runner
  imports Parity_Manifest
begin

section \<open>The resumable runner (parity/runner.py)\<close>

text \<open>
  \<^verbatim>\<open>run_catalog_async\<close> executes the required paths of a lane one after the other; nothing else runs
  between its awaits. A run is a function on the state \<open>run_state\<close> that returns an error or a
  value, and the state as it was left in either case: the directory of result packets survives
  an error. A result file holds what \<^verbatim>\<open>read_result_packet\<close> answers for it; a file that the run
  writes is read back as the written packet. The executors are an arbitrary sequence of answers.
\<close>

subsection \<open>Computations with a state that survives errors\<close>

type_synonym ('s, 'a) run = "'s \<Rightarrow> (check_error + 'a) \<times> 's"

definition run_return :: "'a \<Rightarrow> ('s, 'a) run" where "run_return a s = (Inr a, s)"

definition run_check :: "check_error + 'a \<Rightarrow> ('s, 'a) run" where "run_check x s = (x, s)"

definition run_get :: "('s, 's) run" where "run_get s = (Inr s, s)"

definition run_update :: "('s \<Rightarrow> 's) \<Rightarrow> ('s, unit) run" where "run_update f s = (Inr (), f s)"

definition run_bind :: "('s, 'a) run \<Rightarrow> ('a \<Rightarrow> ('s, 'b) run) \<Rightarrow> ('s, 'b) run" where
  "run_bind m f s = (case m s of (Inl e, t) \<Rightarrow> (Inl e, t) | (Inr a, t) \<Rightarrow> f a t)"

fun run_each :: "('a \<Rightarrow> ('s, 'b) run) \<Rightarrow> 'a list \<Rightarrow> ('s, 'b list) run" where
  "run_each f [] = run_return []"
| "run_each f (x # xs) = run_bind (f x) (\<lambda>y. run_bind (run_each f xs) (\<lambda>ys. run_return (y # ys)))"

subsection \<open>The state\<close>

record directory =
  rs_files :: "(ustr \<times> (check_error + ResultPacket)) list"
  rs_manifest :: "(check_error + json) option"

type_synonym call_key = "ustr \<times> string \<times> int"

record run_state = directory +
  rs_receipts :: "Receipt list"
  rs_used :: int
  rs_calls :: "(call_key \<times> int) list"
  rs_outcomes :: "(call_key \<times> ExecutionOutcome) list"
  rs_bundles :: "((ustr \<times> int) \<times> (ustr \<times> ResultPacket) list) list"
  rs_checkpoint :: "(ustr \<times> ResultPacket) list"
  rs_targets :: "(ustr \<times> int) list"
  rs_packets :: "ResultPacket list"

text \<open>
  \<open>rs_calls\<close> records each call of an executor with the budget it was given; the source has no such
  list. The arguments of a run:
\<close>

record campaign =
  cm_catalog :: Catalog
  cm_lane :: ustr
  cm_candidate :: candidate
  cm_profile_id :: ustr
  cm_resume :: bool
  cm_registered :: "ustr list"
  cm_answers :: "nat \<Rightarrow> answer"
  cm_requested :: "ustr list"
  cm_max_trials :: int

text \<open>The identity under test: of \<open>cm_candidate\<close> the catalog hash is replaced by the catalog's own.\<close>

definition run_candidate :: "campaign \<Rightarrow> candidate" where
  "run_candidate cm = (cm_candidate cm)\<lparr>cd_catalog_hash := cat_catalog_hash (cm_catalog cm)\<rparr>"

subsection \<open>Packets and files\<close>

definition pad3 :: "nat \<Rightarrow> ustr" where
  "pad3 n = replicate (3 - length (dec_nat n)) 48 @ dec_nat n"

definition result_path :: "Capability \<Rightarrow> string \<Rightarrow> int \<Rightarrow> ustr" where
  "result_path c path trial_index =
     cap_id c @ lit ''__'' @ lit path @ lit ''__trial-'' @ pad3 (nat trial_index) @ lit ''.json''"

definition build_packet :: "pyrt \<Rightarrow> campaign \<Rightarrow> Capability \<Rightarrow> string \<Rightarrow> int \<Rightarrow> ExecutionOutcome \<Rightarrow> check_error + ResultPacket" where
  "build_packet rt cm c path trial_index out =
     build rt (eo_silent_fallback out) (eo_violations out)
       \<lparr>rp_capability_id = cap_id c, rp_source_pack = cap_source_pack c, rp_lane = cap_lane c, rp_path = lit path,
        rp_execution_id = cap_execution_id c, rp_classification = the (class_of (eo_classification out)),
        rp_contract_hash = cat_contract_hash (cm_catalog cm), rp_candidate = run_candidate cm,
        rp_profile_id = cm_profile_id cm, rp_candidate_hash = [], rp_billing = eo_billing out,
        rp_turn_count = turns (eo_turn_count out), rp_trial_index = trial_index, rp_events = eo_events out,
        rp_trace_hash = [], rp_primary = eo_primary out, rp_secondary = eo_secondary out,
        rp_reason_code = eo_reason_code out, rp_packet_hash = []\<rparr>"

definition write_packet :: "ustr \<Rightarrow> ResultPacket \<Rightarrow> (run_state, unit) run" where
  "write_packet name p = run_update (\<lambda>s. s
     \<lparr>rs_files := dict_set name (Inr p) (rs_files s), rs_checkpoint := dict_set name p (rs_checkpoint s)\<rparr>)"

definition checkpoint_manifest :: "pyrt \<Rightarrow> campaign \<Rightarrow> ustr \<Rightarrow> (run_state, unit) run" where
  "checkpoint_manifest rt cm exact =
     run_bind run_get (\<lambda>s.
     run_bind (run_check (manifest_payload rt (cm_lane cm) (cm_catalog cm) exact (rs_receipts s)
         (map (rp_packet_hash \<circ> snd) (rs_checkpoint s)))) (\<lambda>m.
       run_update (\<lambda>s. s\<lparr>rs_manifest := Some (Inr m)\<rparr>)))"

definition store_packet :: "pyrt \<Rightarrow> campaign \<Rightarrow> ustr \<Rightarrow> Capability \<Rightarrow> string \<Rightarrow> int \<Rightarrow> ExecutionOutcome \<Rightarrow> (run_state, ResultPacket) run" where
  "store_packet rt cm exact c path trial_index out =
     run_bind (run_check (build_packet rt cm c path trial_index out)) (\<lambda>p.
     run_bind (write_packet (result_path c path trial_index) p) (\<lambda>_.
     run_bind (checkpoint_manifest rt cm exact) (\<lambda>_. run_return p)))"

subsection \<open>One execution\<close>

text \<open>The call, its checks and its receipt.\<close>

definition run_executor :: "pyrt \<Rightarrow> campaign \<Rightarrow> ustr \<Rightarrow> Capability \<Rightarrow> string \<Rightarrow> int \<Rightarrow> (run_state, ExecutorResult) run" where
  "run_executor rt cm exact c path trial_index =
     run_bind run_get (\<lambda>s.
     let remaining = turn_budget (cm_lane cm) - rs_used s
     in run_bind (run_update (\<lambda>s. s\<lparr>rs_calls := rs_calls s @ [((cap_execution_id c, path, trial_index), remaining)]\<rparr>)) (\<lambda>_.
        run_bind (run_check (call_executor (cm_answers cm (length (rs_calls s))))) (\<lambda>r.
        run_bind (run_check (validate_executor_result r remaining)) (\<lambda>_.
        run_bind (run_check (validate_runtime_campaign r (cm_lane cm) (cap_execution_id c))) (\<lambda>_.
        run_bind (run_check (execution_receipt rt exact (cap_execution_id c)
            (case r of BundleResult _ \<Rightarrow> None | OutcomeResult _ \<Rightarrow> Some (lit path)) trial_index r)) (\<lambda>receipt.
        run_bind (run_update (\<lambda>s. s\<lparr>rs_receipts := rs_receipts s @ [receipt], rs_used := rs_used s + result_turns r\<rparr>)) (\<lambda>_.
          run_return r)))))))"

text \<open>The name of a path of a validated bundle is one of the three.\<close>

definition path_name :: "ustr \<Rightarrow> string" where "path_name p = map char_of p"

definition write_bundle_path ::
    "pyrt \<Rightarrow> campaign \<Rightarrow> Capability \<Rightarrow> int \<Rightarrow> ustr \<times> ExecutionOutcome option \<Rightarrow> (run_state, ustr \<times> ResultPacket) run" where
  "write_bundle_path rt cm c trial_index = (\<lambda>(path, out).
     run_bind run_get (\<lambda>s.
     let name = result_path c (path_name path) trial_index
     in run_bind (run_check (demand (name \<notin> fst ` set (rs_files s)))) (\<lambda>_.
        run_bind (run_check (build_packet rt cm c (path_name path) trial_index (the out))) (\<lambda>p.
        run_bind (write_packet name p) (\<lambda>_. run_return (path, p))))))"

definition raised_target :: "campaign \<Rightarrow> run_state \<Rightarrow> ustr \<Rightarrow> int \<Rightarrow> int" where
  "raised_target cm s execution_id trial_index =
     min (cm_max_trials cm)
       (max (case map_of (rs_targets s) execution_id of Some n \<Rightarrow> n | None \<Rightarrow> 1) (trial_index + 3))"

definition store_bundle ::
    "pyrt \<Rightarrow> campaign \<Rightarrow> ustr \<Rightarrow> Capability \<Rightarrow> string \<Rightarrow> int \<Rightarrow> int \<Rightarrow> ExecutionBundle \<Rightarrow> (run_state, ResultPacket \<times> int) run" where
  "store_bundle rt cm exact c path trial_index target b =
     run_bind (run_each (write_bundle_path rt cm c trial_index) (eb_outcomes b)) (\<lambda>built.
     run_bind (run_update (\<lambda>s. s\<lparr>rs_bundles := dict_set (cap_execution_id c, trial_index) built (rs_bundles s)\<rparr>)) (\<lambda>_.
     run_bind (checkpoint_manifest rt cm exact) (\<lambda>_.
     let p = the (map_of built (lit path))
     in if list_ex (\<lambda>(name, out). eo_classification (the out) = Member VERIFIED_FAILURE) (eb_outcomes b) then
          run_bind run_get (\<lambda>s.
          let n = raised_target cm s (cap_execution_id c) trial_index
          in run_bind (run_update (\<lambda>s. s\<lparr>rs_targets := dict_set (cap_execution_id c) n (rs_targets s)\<rparr>)) (\<lambda>_.
               run_return (p, max target n)))
        else run_return (p, target))))"

text \<open>The packet of one trial of one path, and the number of trials now asked for.\<close>

definition obtain_packet ::
    "pyrt \<Rightarrow> campaign \<Rightarrow> ustr \<Rightarrow> Capability \<Rightarrow> string \<Rightarrow> int \<Rightarrow> int \<Rightarrow> (run_state, ResultPacket \<times> int) run" where
  "obtain_packet rt cm exact c path trial_index target =
     run_bind run_get (\<lambda>s.
     let name = result_path c path trial_index; id = cap_execution_id c; key = (id, path, trial_index)
     in case map_of (rs_bundles s) (id, trial_index) of
          Some built \<Rightarrow> run_return (the (map_of built (lit path)), target)
        | None \<Rightarrow>
            (case map_of (rs_files s) name of
               Some content \<Rightarrow>
                 if \<not> cm_resume cm then run_check (Inl Violation)
                 else run_bind (run_check content) (\<lambda>p.
                   run_bind (run_check (demand (rp_candidate_hash p = exact))) (\<lambda>_. run_return (p, target)))
             | None \<Rightarrow>
                 if id \<notin> set (cm_registered cm) then
                   run_bind (store_packet rt cm exact c path trial_index executor_not_registered) (\<lambda>p. run_return (p, target))
                 else
                   (case map_of (rs_outcomes s) key of
                      Some out \<Rightarrow> run_bind (store_packet rt cm exact c path trial_index out) (\<lambda>p. run_return (p, target))
                    | None \<Rightarrow>
                        run_bind (run_executor rt cm exact c path trial_index) (\<lambda>r.
                          case r of
                            BundleResult b \<Rightarrow> store_bundle rt cm exact c path trial_index target b
                          | OutcomeResult out \<Rightarrow>
                              run_bind (run_update (\<lambda>s. s\<lparr>rs_outcomes := dict_set key out (rs_outcomes s)\<rparr>)) (\<lambda>_.
                              run_bind (store_packet rt cm exact c path trial_index out) (\<lambda>p. run_return (p, target)))))))"

subsection \<open>The loops\<close>

text \<open>
  The loop over the trials of a path: \<open>fuel\<close> is the number of trial numbers left up to
  \<^verbatim>\<open>max_trials_per_path\<close>, which the loop never passes.
\<close>

fun run_trials :: "pyrt \<Rightarrow> campaign \<Rightarrow> ustr \<Rightarrow> Capability \<Rightarrow> string \<Rightarrow> nat \<Rightarrow> int \<Rightarrow> int \<Rightarrow> (run_state, unit) run" where
  "run_trials rt cm exact c path 0 trial_index target = run_return ()"
| "run_trials rt cm exact c path (Suc fuel) trial_index target =
     (if trial_index > target then run_return ()
      else run_bind (obtain_packet rt cm exact c path trial_index target) (\<lambda>(p, target).
           run_bind (run_update (\<lambda>s. s\<lparr>rs_packets := rs_packets s @ [p]\<rparr>)) (\<lambda>_.
           let target = (if rp_classification p = VERIFIED_FAILURE
                         then min (cm_max_trials cm) (max target (trial_index + 3)) else target)
           in if rp_classification p \<in> {PENDING, ENVIRONMENT_BLOCKED} then run_return ()
              else run_trials rt cm exact c path fuel (trial_index + 1) target)))"

definition first_target :: "Capability \<Rightarrow> json list \<Rightarrow> run_state \<Rightarrow> int" where
  "first_target c triggers s =
     (let declared = policy_consecutive (cap_repeat_policy c);
          wanted = (if JStr (lit ''consequential'') \<in> set triggers \<or> JStr (lit ''unstable'') \<in> set triggers
                    then max declared 3 else declared)
      in max wanted (case map_of (rs_targets s) (cap_execution_id c) of Some n \<Rightarrow> n | None \<Rightarrow> 1))"

definition run_path :: "pyrt \<Rightarrow> campaign \<Rightarrow> ustr \<Rightarrow> Capability \<times> string \<Rightarrow> (run_state, unit) run" where
  "run_path rt cm exact = (\<lambda>(c, path).
     if \<not> path_required (cap_path c path) then run_return ()
     else run_bind (run_check (policy_triggers (cap_repeat_policy c))) (\<lambda>triggers.
          run_bind run_get (\<lambda>s.
            run_trials rt cm exact c path (nat (cm_max_trials cm)) 1 (first_target c triggers s))))"

definition selected :: "campaign \<Rightarrow> Capability list" where
  "selected cm = filter (\<lambda>c. cm_requested cm = [] \<or> cap_id c \<in> set (cm_requested cm))
     (for_lane (cm_catalog cm) (cm_lane cm))"

text \<open>\<^verbatim>\<open>sorted(output_path.glob("*__*__trial-*.json"))\<close> and reading each file.\<close>

definition read_all :: "(ustr \<times> (check_error + ResultPacket)) list \<Rightarrow> check_error + ResultPacket list" where
  "read_all files = map_exn snd (sort_key fst files)"

definition load_run :: "pyrt \<Rightarrow> campaign \<Rightarrow> ustr \<Rightarrow> directory \<Rightarrow> check_error + Receipt list \<times> ResultPacket list" where
  "load_run rt cm exact dir =
     (if cm_resume cm then
        (case rs_manifest dir of
           Some content \<Rightarrow>
             and_then content (\<lambda>m.
             and_then (load_manifest rt (cm_lane cm) (cm_catalog cm) exact m) (\<lambda>(receipts, recorded).
             and_then (read_all (rs_files dir)) (\<lambda>packets.
             and_then (demand (rp_packet_hash ` set packets = set recorded)) (\<lambda>_. Inr (receipts, packets)))))
         | None \<Rightarrow> and_then (demand (rs_files dir = [])) (\<lambda>_. Inr ([], [])))
      else and_then (demand (rs_manifest dir = None \<and> rs_files dir = [])) (\<lambda>_. Inr ([], [])))"

definition begin_run :: "pyrt \<Rightarrow> campaign \<Rightarrow> directory \<Rightarrow> check_error + ustr \<times> run_state" where
  "begin_run rt cm dir =
     and_then (demand (cm_max_trials cm \<ge> 3 \<and> cm_lane cm \<in> set (lits [''rc'', ''runtime'']) \<and>
       set (cm_requested cm) \<subseteq> cap_id ` set (for_lane (cm_catalog cm) (cm_lane cm)))) (\<lambda>_.
     and_then (hashed (candidate_hash rt (run_candidate cm))) (\<lambda>exact.
     and_then (load_run rt cm exact dir) (\<lambda>(receipts, packets).
       Inr (exact, \<lparr>rs_files = rs_files dir, rs_manifest = rs_manifest dir, rs_receipts = receipts,
                    rs_used = turns_used receipts, rs_calls = [], rs_outcomes = [], rs_bundles = [],
                    rs_checkpoint = zip (map fst (sort_key fst (rs_files dir))) packets,
                    rs_targets = [], rs_packets = []\<rparr>))))"

definition run_body :: "pyrt \<Rightarrow> campaign \<Rightarrow> ustr \<Rightarrow> (run_state, GradeReport) run" where
  "run_body rt cm exact =
     run_bind (run_each (run_path rt cm exact) (List.product (selected cm) PATH_NAMES)) (\<lambda>_.
     run_bind run_get (\<lambda>s.
     run_bind (run_check (read_all (rs_files s))) (\<lambda>packets.
     run_bind (checkpoint_manifest rt cm exact) (\<lambda>_.
       run_check (grade_packets (cm_catalog cm) packets (cm_lane cm) (Some exact))))))"

text \<open>
  The run: the report or the error, and the state it leaves, if it came to have one. The packets
  the source also returns are \<open>rs_packets\<close>.
\<close>

definition run_catalog :: "pyrt \<Rightarrow> campaign \<Rightarrow> directory \<Rightarrow> check_error + (check_error + GradeReport) \<times> run_state" where
  "run_catalog rt cm dir = map_sum id (\<lambda>(exact, s). run_body rt cm exact s) (begin_run rt cm dir)"

text \<open>\<^verbatim>\<open>validate_run_manifest\<close>: turns used, receipts and packets of a directory.\<close>

definition validate_run_manifest :: "pyrt \<Rightarrow> ustr \<Rightarrow> Catalog \<Rightarrow> ustr \<Rightarrow> directory \<Rightarrow> check_error + int \<times> nat \<times> nat" where
  "validate_run_manifest rt lane cat exact dir =
     (case rs_manifest dir of
        None \<Rightarrow> Inl Violation
      | Some content \<Rightarrow>
          and_then content (\<lambda>m.
          and_then (load_manifest rt lane cat exact m) (\<lambda>(receipts, recorded).
          and_then (read_all (rs_files dir)) (\<lambda>packets.
          and_then (demand (rp_packet_hash ` set packets = set recorded \<and>
              list_all (\<lambda>p. rp_candidate_hash p = exact \<and> rp_lane p = lane) packets)) (\<lambda>_.
            Inr (turns_used receipts, length receipts, length packets))))))"

end
