(* ===== verification/Parity_Runs.thy ===== *)
theory Parity_Runs
  imports Parity_Runner
begin

section \<open>Runs of the catalog\<close>

text \<open>
  Triples for computations whose state survives an error, the invariants of a run, and what they
  give: the turn budget, at most one execution of each trial, and that what a finished run leaves
  behind is accepted again.
\<close>

subsection \<open>Triples\<close>

definition triple :: "('s \<Rightarrow> bool) \<Rightarrow> ('s, 'a) run \<Rightarrow> ('a \<Rightarrow> 's \<Rightarrow> bool) \<Rightarrow> ('s \<Rightarrow> bool) \<Rightarrow> bool" where
  "triple P m Q E \<longleftrightarrow> (\<forall>s. P s \<longrightarrow> (case m s of (Inl e, t) \<Rightarrow> E t | (Inr a, t) \<Rightarrow> Q a t))"

named_theorems run_defs \<open>the computations of a run\<close>

lemmas [run_defs] = run_return_def run_check_def run_get_def run_update_def

lemma triple_return: "(\<And>s. P s \<Longrightarrow> Q a s) \<Longrightarrow> triple P (run_return a) Q E"
  by (simp add: triple_def run_defs)

lemma triple_check: "(\<And>s a. P s \<Longrightarrow> x = Inr a \<Longrightarrow> Q a s) \<Longrightarrow> (\<And>s. P s \<Longrightarrow> E s) \<Longrightarrow> triple P (run_check x) Q E"
  by (auto simp: triple_def run_defs split: sum.splits)

lemma triple_update: "(\<And>s. P s \<Longrightarrow> Q () (f s)) \<Longrightarrow> triple P (run_update f) Q E"
  by (simp add: triple_def run_defs)

lemma triple_bind:
  "triple P m R E \<Longrightarrow> (\<And>a. triple (R a) (f a) Q E) \<Longrightarrow> triple P (run_bind m f) Q E"
  by (fastforce simp: triple_def run_bind_def split: prod.splits sum.splits)

lemma triple_get: "(\<And>s. P s \<Longrightarrow> triple (\<lambda>t. t = s) (f s) Q E) \<Longrightarrow> triple P (run_bind run_get f) Q E"
  by (auto simp: triple_def run_bind_def run_defs)

lemma triple_weaken:
  "triple P m Q E \<Longrightarrow> (\<And>s. P' s \<Longrightarrow> P s) \<Longrightarrow> (\<And>a s. Q a s \<Longrightarrow> Q' a s) \<Longrightarrow> (\<And>s. E s \<Longrightarrow> E' s) \<Longrightarrow> triple P' m Q' E'"
  by (fastforce simp: triple_def split: prod.splits sum.splits)

lemma triple_each: "(\<And>x. x \<in> set xs \<Longrightarrow> triple P (f x) (\<lambda>_. P) E) \<Longrightarrow> triple P (run_each f xs) (\<lambda>_. P) E"
proof (induction xs)
  case (Cons x xs)
  then have "triple P (f x) (\<lambda>_. P) E" "triple P (run_each f xs) (\<lambda>_. P) E" by simp_all
  then show ?case unfolding run_each.simps by (intro triple_bind triple_return)
qed (simp add: triple_return)

lemma triple_post: "triple P m Q E \<Longrightarrow> P s \<Longrightarrow> m s = (Inr a, t) \<Longrightarrow> Q a t"
  and triple_error: "triple P m Q E \<Longrightarrow> P s \<Longrightarrow> m s = (Inl e, t) \<Longrightarrow> E t"
  by (auto simp: triple_def)

subsection \<open>Invariants of a run\<close>

text \<open>
  \<open>good\<close> holds between the trials of a run and \<open>safe\<close> whenever an error ends it; a trial has to lead
  from \<open>good\<close> to \<open>good\<close>, and the bookkeeping around it must not matter.
\<close>

locale run_protocol =
  fixes rt :: pyrt and cm :: campaign and exact :: ustr and good safe :: "run_state \<Rightarrow> bool"
  assumes good_safe: "good s \<Longrightarrow> safe s"
    and trial: "c \<in> set (cat_capabilities (cm_catalog cm)) \<Longrightarrow> path \<in> set PATH_NAMES \<Longrightarrow> i \<ge> 1 \<Longrightarrow>
      triple good (obtain_packet rt cm exact c path i target) (\<lambda>_. good) safe"
    and packets_kept: "good s \<Longrightarrow> good (s\<lparr>rs_packets := ps\<rparr>)"
    and manifest_kept: "good s \<Longrightarrow> good (s\<lparr>rs_manifest := m\<rparr>)"
begin

lemma trials:
  "c \<in> set (cat_capabilities (cm_catalog cm)) \<Longrightarrow> path \<in> set PATH_NAMES \<Longrightarrow> i \<ge> 1 \<Longrightarrow>
     triple good (run_trials rt cm exact c path fuel i target) (\<lambda>_. good) safe"
proof (induction fuel arbitrary: i target)
  case (Suc fuel)
  have rest: "triple good (run_trials rt cm exact c path fuel (i + 1) n) (\<lambda>_. good) safe" for n
    using Suc by simp
  have "triple good (run_bind (obtain_packet rt cm exact c path i target) (\<lambda>(p, target).
      run_bind (run_update (\<lambda>s. s\<lparr>rs_packets := rs_packets s @ [p]\<rparr>)) (\<lambda>_.
      let target = (if rp_classification p = VERIFIED_FAILURE
                    then min (cm_max_trials cm) (max target (i + 3)) else target)
      in if rp_classification p \<in> {PENDING, ENVIRONMENT_BLOCKED} then run_return ()
         else run_trials rt cm exact c path fuel (i + 1) target))) (\<lambda>_. good) safe"
    using Suc.prems
    by (intro triple_bind[where R = "\<lambda>_. good"] trial)
      (auto simp: Let_def intro!: triple_bind[where R = "\<lambda>_. good"] triple_update packets_kept triple_return rest)
  then show ?case by (auto intro: triple_return)
qed (simp add: triple_return)

lemma one_path:
  assumes "c \<in> set (cat_capabilities (cm_catalog cm))" "path \<in> set PATH_NAMES"
  shows "triple good (run_path rt cm exact (c, path)) (\<lambda>_. good) safe"
proof -
  have body: "triple good (run_bind run_get (\<lambda>s. run_trials rt cm exact c path n 1 (first_target c js s))) (\<lambda>_. good) safe" for n js
    by (intro triple_get) (rule triple_weaken[OF trials[OF assms order_refl]]; simp)
  then show ?thesis
    unfolding run_path_def prod.case
    by (cases "path_required (cap_path c path)")
      (simp_all add: triple_return triple_bind[OF triple_check body] good_safe)
qed

lemma manifest_written: "triple good (checkpoint_manifest rt cm exact) (\<lambda>_. good) safe"
  unfolding checkpoint_manifest_def
  by (intro triple_get triple_bind[where R = "\<lambda>_. good"] triple_check triple_update)
    (auto intro: good_safe manifest_kept)

lemma whole_run: "triple good (run_body rt cm exact) (\<lambda>_. good) safe"
proof -
  have paths: "triple good (run_each (run_path rt cm exact) (List.product (selected cm) PATH_NAMES)) (\<lambda>_. good) safe"
    by (rule triple_each) (auto simp: selected_def for_lane_def intro: one_path)
  have rest: "triple good (run_bind (run_check (read_all (rs_files s))) (\<lambda>packets.
      run_bind (checkpoint_manifest rt cm exact) (\<lambda>_.
        run_check (grade_packets (cm_catalog cm) packets (cm_lane cm) (Some exact))))) (\<lambda>_. good) safe" for s
    by (intro triple_bind[where R = "\<lambda>_. good"] triple_check manifest_written) (auto intro: good_safe)
  show ?thesis
    unfolding run_body_def
    by (intro triple_bind[OF paths] triple_get) (rule triple_weaken[OF rest]; simp)
qed

lemma after_run:
  assumes "begin_run rt cm dir = Inr (exact, s)" "good s" "run_catalog rt cm dir = Inr (result, t)"
  shows "safe t" "result = Inr report \<Longrightarrow> good t"
proof -
  have run: "run_body rt cm exact s = (result, t)" using assms(1,3) by (simp add: run_catalog_def)
  show "safe t"
    using triple_post[OF whole_run assms(2), of _ t] triple_error[OF whole_run assms(2), of _ t] run good_safe
    by (cases result) auto
  show "result = Inr report \<Longrightarrow> good t"
    using triple_post[OF whole_run assms(2)] run by auto
qed

end


subsection \<open>What the steps of a trial do to the ledger\<close>

text \<open>The part of the state that only an execution changes.\<close>

definition ledger :: "run_state \<Rightarrow> Receipt list \<times> int \<times> (call_key \<times> int) list" where
  "ledger s = (rs_receipts s, rs_used s, rs_calls s)"

definition caches :: "run_state \<Rightarrow> (call_key \<times> ExecutionOutcome) list \<times> ((ustr \<times> int) \<times> (ustr \<times> ResultPacket) list) list" where
  "caches s = (rs_outcomes s, rs_bundles s)"

definition untouched :: "run_state \<Rightarrow> (run_state, 'a) run \<Rightarrow> bool" where
  "untouched s m \<longleftrightarrow> triple (\<lambda>t. ledger t = ledger s \<and> caches t = caches s) m
     (\<lambda>_ t. ledger t = ledger s \<and> caches t = caches s) (\<lambda>t. ledger t = ledger s \<and> caches t = caches s)"

lemma untouched_checkpoint: "untouched s (checkpoint_manifest rt cm exact)"
  unfolding checkpoint_manifest_def untouched_def
  by (intro triple_get triple_bind[where R = "\<lambda>_ t. ledger t = ledger s \<and> caches t = caches s"] triple_check triple_update)
    (auto simp: ledger_def caches_def)

lemma untouched_write: "untouched s (write_packet name p)"
  unfolding write_packet_def untouched_def by (intro triple_update) (auto simp: ledger_def caches_def)

lemma untouched_store: "untouched s (store_packet rt cm exact c path i out)"
  unfolding store_packet_def untouched_def
  by (intro triple_bind[where R = "\<lambda>_ t. ledger t = ledger s \<and> caches t = caches s"] triple_check triple_return
      untouched_write[unfolded untouched_def] untouched_checkpoint[unfolded untouched_def]) simp_all

lemma untouched_bundle_path: "untouched s (write_bundle_path rt cm c i po)"
  unfolding write_bundle_path_def untouched_def Let_def prod.case_eq_if
  by (intro triple_get triple_bind[where R = "\<lambda>_ t. ledger t = ledger s \<and> caches t = caches s"] triple_check triple_return
      untouched_write[unfolded untouched_def]) simp_all

lemma untouched_bundle: "untouched s (run_each (write_bundle_path rt cm c i) pos)"
  using triple_each[where f = "write_bundle_path rt cm c i"] untouched_bundle_path[of s, unfolded untouched_def]
  unfolding untouched_def by blast

text \<open>An execution adds one call, and one receipt if it ends well.\<close>

lemma run_executor_ledger:
  assumes "run_executor rt cm exact c path i s = (result, t)"
  shows "rs_calls t = rs_calls s @ [((cap_execution_id c, path, i), turn_budget (cm_lane cm) - rs_used s)] \<and> caches t = caches s \<and>
    (case result of
       Inl e \<Rightarrow> rs_receipts t = rs_receipts s \<and> rs_used t = rs_used s
     | Inr r \<Rightarrow> \<exists>receipt. execution_receipt rt exact (cap_execution_id c)
           (case r of BundleResult _ \<Rightarrow> None | OutcomeResult _ \<Rightarrow> Some (lit path)) i r = Inr receipt \<and>
         rs_receipts t = rs_receipts s @ [receipt] \<and> rs_used t = rs_used s + result_turns r \<and>
         0 \<le> result_turns r \<and> result_turns r \<le> turn_budget (cm_lane cm) - rs_used s)"
  using assms
  by (auto simp: run_executor_def run_bind_def run_defs Let_def validate_executor_result_def demand_Inr outcome_valid_def
      bundle_valid_def result_turns_def turns_def caches_def split: sum.splits ExecutorResult.splits)

lemma receipt_turns: "execution_receipt rt exact execution_id path i r = Inr receipt \<Longrightarrow> rc_turn_count receipt = result_turns r"
  by (auto simp: execution_receipt_def and_then_Inr Let_def)


subsection \<open>Invariants of the ledger\<close>

text \<open>An invariant of the ledger that every execution keeps is one of the run.\<close>

locale ledger_invariant =
  fixes rt :: pyrt and cm :: campaign and exact :: ustr and inv :: "run_state \<Rightarrow> bool"
  assumes on_ledger: "ledger s = ledger t \<Longrightarrow> inv s = inv t"
    and execution: "path \<in> set PATH_NAMES \<Longrightarrow> i \<ge> 1 \<Longrightarrow> inv s \<Longrightarrow>
      run_executor rt cm exact c path i s = (result, t) \<Longrightarrow> inv t"
begin

lemma from_untouched:
  assumes "\<And>s. untouched s m"
  shows "triple inv m (\<lambda>_. inv) inv"
  unfolding triple_def
proof (intro allI impI)
  fix s
  assume "inv s"
  obtain result t where m: "m s = (result, t)" by (cases "m s")
  have "ledger t = ledger s"
    using assms[of s, unfolded untouched_def triple_def, THEN spec, of s] m by (cases result) auto
  then have "inv t = inv s" by (rule on_ledger)
  with \<open>inv s\<close> m show "case m s of (Inl e, t) \<Rightarrow> inv t | (Inr a, t) \<Rightarrow> inv t"
    by (cases result) simp_all
qed

lemma updates:
  "triple inv (run_update (\<lambda>s. s\<lparr>rs_outcomes := f s\<rparr>)) (\<lambda>_. inv) inv"
  "triple inv (run_update (\<lambda>s. s\<lparr>rs_bundles := g s\<rparr>)) (\<lambda>_. inv) inv"
  "triple inv (run_update (\<lambda>s. s\<lparr>rs_targets := h s\<rparr>)) (\<lambda>_. inv) inv"
proof -
  have same: "inv (s\<lparr>rs_outcomes := a\<rparr>) = inv s" "inv (s\<lparr>rs_bundles := b\<rparr>) = inv s" "inv (s\<lparr>rs_targets := c\<rparr>) = inv s"
    for s a b c by (rule on_ledger, simp add: ledger_def)+
  show "triple inv (run_update (\<lambda>s. s\<lparr>rs_outcomes := f s\<rparr>)) (\<lambda>_. inv) inv"
    "triple inv (run_update (\<lambda>s. s\<lparr>rs_bundles := g s\<rparr>)) (\<lambda>_. inv) inv"
    "triple inv (run_update (\<lambda>s. s\<lparr>rs_targets := h s\<rparr>)) (\<lambda>_. inv) inv"
    by (rule triple_update, simp add: same)+
qed

lemma stores:
  "triple inv (store_packet rt cm exact c path i out) (\<lambda>_. inv) inv"
  "triple inv (run_each (write_bundle_path rt cm c i) pos) (\<lambda>_. inv) inv"
  "triple inv (checkpoint_manifest rt cm exact) (\<lambda>_. inv) inv"
  by (rule from_untouched, rule untouched_store untouched_bundle untouched_checkpoint)+

lemma after_get: "triple inv m (\<lambda>_. inv) inv \<Longrightarrow> inv s \<Longrightarrow> triple (\<lambda>t. t = s) m (\<lambda>_. inv) inv"
  by (erule triple_weaken) simp_all

lemma kept_bind: "triple inv m (\<lambda>_. inv) inv \<Longrightarrow> (\<And>a. triple inv (f a) (\<lambda>_. inv) inv) \<Longrightarrow> triple inv (run_bind m f) (\<lambda>_. inv) inv"
  by (rule triple_bind)

lemma kept_get: "(\<And>s. triple inv (f s) (\<lambda>_. inv) inv) \<Longrightarrow> triple inv (run_bind run_get f) (\<lambda>_. inv) inv"
  by (rule triple_get) (rule after_get)

lemma kept_check: "triple inv (run_check x) (\<lambda>_. inv) inv"
  by (rule triple_check)

lemma kept_return: "triple inv (run_return x) (\<lambda>_. inv) inv"
  by (rule triple_return)

lemmas kept = kept_get kept_bind kept_check kept_return updates stores

lemma bundle_kept: "triple inv (store_bundle rt cm exact c path i target b) (\<lambda>_. inv) inv"
  unfolding store_bundle_def Let_def
  by (intro kept) (simp, intro conjI impI kept)

lemma executor_kept: "path \<in> set PATH_NAMES \<Longrightarrow> i \<ge> 1 \<Longrightarrow> triple inv (run_executor rt cm exact c path i) (\<lambda>_. inv) inv"
  unfolding triple_def using execution by (auto split: prod.splits sum.splits)

lemma trial_kept:
  assumes "path \<in> set PATH_NAMES" "i \<ge> 1"
  shows "triple inv (obtain_packet rt cm exact c path i target) (\<lambda>_. inv) inv"
proof -
  have execute: "triple inv (run_bind (run_executor rt cm exact c path i) (\<lambda>r. case r of
      BundleResult b \<Rightarrow> store_bundle rt cm exact c path i target b
    | OutcomeResult out \<Rightarrow> run_bind (run_update (\<lambda>s. s\<lparr>rs_outcomes := dict_set key out (rs_outcomes s)\<rparr>)) (\<lambda>_.
        run_bind (store_packet rt cm exact c path i out) (\<lambda>p. run_return (p, target))))) (\<lambda>_. inv) inv" for key
    by (rule kept_bind[OF executor_kept[OF assms]]) (auto split: ExecutorResult.splits intro: bundle_kept intro!: kept)
  show ?thesis
    unfolding obtain_packet_def Let_def
    by (rule kept_get) (auto split: option.splits intro!: execute kept_check kept_return kept_bind[OF stores(1)]
        kept_bind[OF kept_check])
qed

end

sublocale ledger_invariant \<subseteq> run_protocol rt cm exact inv inv
proof
  show "inv (s\<lparr>rs_packets := ps\<rparr>)" if "inv s" for s ps
    using that on_ledger[of "s\<lparr>rs_packets := ps\<rparr>" s] by (simp add: ledger_def)
  show "inv (s\<lparr>rs_manifest := m\<rparr>)" if "inv s" for s m
    using that on_ledger[of "s\<lparr>rs_manifest := m\<rparr>" s] by (simp add: ledger_def)
qed (auto intro: trial_kept)

text \<open>The turn budget: the receipts, and what the executors were told they may use.\<close>

definition within_budget :: "ustr \<Rightarrow> run_state \<Rightarrow> bool" where
  "within_budget lane s \<longleftrightarrow>
     rs_used s = turns_used (rs_receipts s) \<and> (\<forall>r \<in> set (rs_receipts s). 0 \<le> rc_turn_count r) \<and>
     rs_used s \<le> turn_budget lane \<and>
     (\<forall>(k, remaining) \<in> set (rs_calls s). turn_budget lane - rs_used s \<le> remaining \<and> remaining \<le> turn_budget lane) \<and>
     sorted_wrt (\<ge>) (map snd (rs_calls s))"

lemma within_budget_execution:
  assumes "within_budget (cm_lane cm) s" "run_executor rt cm exact c path i s = (result, t)"
  shows "within_budget (cm_lane cm) t"
proof -
  have "0 \<le> rs_used s"
    using assms(1) by (auto simp: within_budget_def turns_used_def intro!: sum_list_nonneg)
  then show ?thesis
    using assms(1) run_executor_ledger[OF assms(2)]
    by (cases result) (auto simp: within_budget_def turns_used_def sorted_wrt_append dest!: receipt_turns)
qed

interpretation budget: ledger_invariant rt cm exact "within_budget (cm_lane cm)" for rt cm exact
proof
  show "ledger s = ledger t \<Longrightarrow> within_budget (cm_lane cm) s = within_budget (cm_lane cm) t" for s t
    by (simp add: ledger_def within_budget_def)
qed (rule within_budget_execution)


subsection \<open>No trial is executed twice\<close>

definition called_once :: "run_state \<Rightarrow> bool" where
  "called_once s \<longleftrightarrow> distinct (map fst (rs_calls s))"

definition remembered :: "run_state \<Rightarrow> call_key \<Rightarrow> bool" where
  "remembered s = (\<lambda>(execution_id, path, i). map_of (rs_outcomes s) (execution_id, path, i) \<noteq> None \<or>
     map_of (rs_bundles s) (execution_id, i) \<noteq> None)"

text \<open>Every call but those of \<open>K\<close> has its result in one of the two caches.\<close>

definition covered_but :: "call_key set \<Rightarrow> run_state \<Rightarrow> bool" where
  "covered_but K s \<longleftrightarrow> called_once s \<and> (\<forall>k \<in> fst ` set (rs_calls s). k \<in> K \<or> remembered s k)"

lemma covered_once: "covered_but K s \<Longrightarrow> called_once s"
  by (simp add: covered_but_def)

lemma covered_view: "ledger s = ledger t \<Longrightarrow> caches s = caches t \<Longrightarrow> covered_but K s = covered_but K t"
  by (simp add: ledger_def caches_def covered_but_def called_once_def remembered_def)

lemma untouched_covered:
  assumes "\<And>s. untouched s m"
  shows "triple (covered_but K) m (\<lambda>_. covered_but K) called_once"
  unfolding triple_def
proof (intro allI impI)
  fix s
  assume "covered_but K s"
  obtain result t where m: "m s = (result, t)" by (cases "m s")
  have "ledger t = ledger s \<and> caches t = caches s"
    using assms[of s, unfolded untouched_def triple_def, THEN spec, of s] m by (cases result) auto
  then have "covered_but K t = covered_but K s" using covered_view by blast
  with \<open>covered_but K s\<close> m show "case m s of (Inl e, t) \<Rightarrow> called_once t | (Inr a, t) \<Rightarrow> covered_but K t"
    by (cases result) (simp_all add: covered_once)
qed

lemmas covered_stores = untouched_covered[OF untouched_store] untouched_covered[OF untouched_bundle]
  untouched_covered[OF untouched_checkpoint]

lemma covered_bind:
  "triple (covered_but K) m (\<lambda>_. covered_but L) called_once \<Longrightarrow>
     (\<And>a. triple (covered_but L) (f a) (\<lambda>_. covered_but M) called_once) \<Longrightarrow>
     triple (covered_but K) (run_bind m f) (\<lambda>_. covered_but M) called_once"
  by (rule triple_bind)

lemma covered_get:
  "(\<And>s. triple (covered_but K) (f s) (\<lambda>_. covered_but L) called_once) \<Longrightarrow>
     triple (covered_but K) (run_bind run_get f) (\<lambda>_. covered_but L) called_once"
  by (rule triple_get, rule triple_weaken[where P = "covered_but K" and E = called_once and Q = "\<lambda>_. covered_but L"]) auto

lemma covered_caching:
  "triple (covered_but {(execution_id, path, i)})
     (run_update (\<lambda>s. s\<lparr>rs_outcomes := dict_set (execution_id, path, i) out (rs_outcomes s)\<rparr>)) (\<lambda>_. covered_but {}) called_once"
  "triple (covered_but {(execution_id, path, i)})
     (run_update (\<lambda>s. s\<lparr>rs_bundles := dict_set (execution_id, i) built (rs_bundles s)\<rparr>)) (\<lambda>_. covered_but {}) called_once"
  "triple (covered_but {}) (run_update (\<lambda>s. s\<lparr>rs_targets := h s\<rparr>)) (\<lambda>_. covered_but {}) called_once"
  by (rule triple_update, force simp: covered_but_def called_once_def remembered_def)+

lemma bundle_covered:
  "triple (covered_but {(cap_execution_id c, path, i)}) (store_bundle rt cm exact c path i target b) (\<lambda>_. covered_but {}) called_once"
proof -
  have stay: "triple (covered_but {}) (run_return x) (\<lambda>_. covered_but {}) called_once" for x :: "ResultPacket \<times> int"
    by (rule triple_return)
  show ?thesis
    unfolding store_bundle_def Let_def
    by (intro covered_bind[OF covered_stores(2)] covered_bind[OF covered_caching(2)] covered_bind[OF covered_stores(3)])
      (simp, intro conjI impI covered_get covered_bind[OF covered_caching(3)] stay)
qed

lemma executor_covered:
  assumes "covered_but {} s" "\<not> remembered s (cap_execution_id c, path, i)"
  shows "triple (\<lambda>t. t = s) (run_executor rt cm exact c path i) (\<lambda>_. covered_but {(cap_execution_id c, path, i)}) called_once"
proof -
  have "covered_but {(cap_execution_id c, path, i)} t" if "run_executor rt cm exact c path i s = (result, t)" for result t
  proof -
    from run_executor_ledger[OF that] obtain n where
      t: "rs_calls t = rs_calls s @ [((cap_execution_id c, path, i), n)]" "caches t = caches s" by blast
    from assms have "(cap_execution_id c, path, i) \<notin> fst ` set (rs_calls s)" by (auto simp: covered_but_def)
    with assms(1) t show ?thesis by (auto simp: covered_but_def called_once_def caches_def remembered_def)
  qed
  then show ?thesis by (auto simp: triple_def covered_once split: prod.splits sum.splits)
qed

lemma trial_covered: "triple (covered_but {}) (obtain_packet rt cm exact c path i target) (\<lambda>_. covered_but {}) called_once"
proof -
  have stay: "triple (covered_but {}) (run_return x) (\<lambda>_. covered_but {}) called_once" for x :: "ResultPacket \<times> int"
    by (rule triple_return)
  have check: "triple (covered_but {}) (run_check x) (\<lambda>_. covered_but {}) called_once" for x :: "check_error + 'a"
    by (rule triple_check) (simp_all add: covered_once)
  have store: "triple (covered_but {}) (run_bind (store_packet rt cm exact c path i out) (\<lambda>p. run_return (p, target)))
      (\<lambda>_. covered_but {}) called_once" for out
    by (intro covered_bind[OF covered_stores(1)] stay)
  have at: "triple (\<lambda>t. t = s) m (\<lambda>_. covered_but {}) called_once"
    if "covered_but {} s" "triple (covered_but {}) m (\<lambda>_. covered_but {}) called_once" for s and m :: "(run_state, ResultPacket \<times> int) run"
    by (rule triple_weaken[OF that(2)]) (simp_all add: that(1))
  show ?thesis
    unfolding obtain_packet_def Let_def
  proof (rule triple_get)
    fix s
    assume s: "covered_but {} s"
    have execute: "triple (\<lambda>t. t = s) (run_bind (run_executor rt cm exact c path i) (\<lambda>r. case r of
        OutcomeResult out \<Rightarrow> run_bind (run_update (\<lambda>s. s\<lparr>rs_outcomes :=
            dict_set (cap_execution_id c, path, i) out (rs_outcomes s)\<rparr>)) (\<lambda>_.
          run_bind (store_packet rt cm exact c path i out) (\<lambda>p. run_return (p, target)))
      | BundleResult b \<Rightarrow> store_bundle rt cm exact c path i target b)) (\<lambda>_. covered_but {}) called_once"
      if "map_of (rs_bundles s) (cap_execution_id c, i) = None" "map_of (rs_outcomes s) (cap_execution_id c, path, i) = None"
      using that s
      by (intro triple_bind[OF executor_covered])
        (auto simp: remembered_def intro: bundle_covered covered_bind[OF covered_caching(1)] store split: ExecutorResult.splits)
    show "triple (\<lambda>t. t = s) (case map_of (rs_bundles s) (cap_execution_id c, i) of
        Some built \<Rightarrow> run_return (the (map_of built (lit path)), target)
      | None \<Rightarrow> (case map_of (rs_files s) (result_path c path i) of
          Some content \<Rightarrow>
            if \<not> cm_resume cm then run_check (Inl Violation)
            else run_bind (run_check content) (\<lambda>p.
              run_bind (run_check (demand (rp_candidate_hash p = exact))) (\<lambda>_. run_return (p, target)))
        | None \<Rightarrow>
            if cap_execution_id c \<notin> set (cm_registered cm) then
              run_bind (store_packet rt cm exact c path i executor_not_registered) (\<lambda>p. run_return (p, target))
            else (case map_of (rs_outcomes s) (cap_execution_id c, path, i) of
                Some out \<Rightarrow> run_bind (store_packet rt cm exact c path i out) (\<lambda>p. run_return (p, target))
              | None \<Rightarrow> run_bind (run_executor rt cm exact c path i) (\<lambda>r. case r of
                    OutcomeResult out \<Rightarrow> run_bind (run_update (\<lambda>s. s\<lparr>rs_outcomes :=
                        dict_set (cap_execution_id c, path, i) out (rs_outcomes s)\<rparr>)) (\<lambda>_.
                      run_bind (store_packet rt cm exact c path i out) (\<lambda>p. run_return (p, target)))
                  | BundleResult b \<Rightarrow> store_bundle rt cm exact c path i target b)))) (\<lambda>_. covered_but {}) called_once"
      by (auto intro!: execute at[OF s store] at[OF s stay] at[OF s check] at[OF s covered_bind[OF check covered_bind[OF check stay]]]
          split: option.splits)
  qed
qed

interpretation once: run_protocol rt cm exact "covered_but {}" called_once for rt cm exact
proof
  show "covered_but {} s \<Longrightarrow> called_once s" for s by (rule covered_once)
  show "triple (covered_but {}) (obtain_packet rt cm exact c path i target) (\<lambda>_. covered_but {}) called_once"
    for c path i target by (rule trial_covered)
qed (simp_all add: covered_but_def called_once_def remembered_def)


subsection \<open>The budget and the calls of a run\<close>

lemma read_receipt_turns: "read_receipt seen raw = Inr r \<Longrightarrow> 0 \<le> rc_turn_count r"
  by (auto simp: read_receipt_def and_then_Inr count_in_Inr split: json.splits)

lemma read_receipts_turns: "read_receipts seen raws = Inr rs \<Longrightarrow> r \<in> set rs \<Longrightarrow> 0 \<le> rc_turn_count r"
  by (induction raws arbitrary: seen rs) (auto simp: and_then_Inr read_receipt_turns)

lemma load_manifest_parts:
  assumes "load_manifest rt lane cat exact m = Inr (receipts, recorded)"
  obtains raws hashes where "read_receipts [] raws = Inr receipts" "turns_used receipts \<le> turn_budget lane"
    "map_exn sized_text hashes = Inr recorded"
  using assms by (auto simp: load_manifest_def and_then_Inr demand_Inr split: json.splits)

lemma begin_run_parts:
  assumes "begin_run rt cm dir = Inr (exact, s)"
  obtains receipts packets where "load_run rt cm exact dir = Inr (receipts, packets)" "hashed (candidate_hash rt (run_candidate cm)) = Inr exact"
    "rs_files s = rs_files dir" "rs_manifest s = rs_manifest dir" "rs_receipts s = receipts" "rs_used s = turns_used receipts"
    "rs_calls s = []" "rs_checkpoint s = zip (map fst (sort_key fst (rs_files dir))) packets" "rs_outcomes s = []" "rs_bundles s = []"
    "cm_lane cm \<in> set (lits [''rc'', ''runtime''])"
  using assms by (auto simp: begin_run_def and_then_Inr demand_Inr)

lemma load_run_receipts:
  assumes "load_run rt cm exact dir = Inr (receipts, packets)"
  shows "(\<forall>r \<in> set receipts. 0 \<le> rc_turn_count r) \<and> turns_used receipts \<le> turn_budget (cm_lane cm)"
  using assms
  by (auto simp: load_run_def and_then_Inr turns_used_def turn_budget_def split: if_splits option.splits
      elim!: load_manifest_parts dest: read_receipts_turns)

lemma begin_within_budget: "begin_run rt cm dir = Inr (exact, s) \<Longrightarrow> within_budget (cm_lane cm) s"
  by (erule begin_run_parts) (auto simp: within_budget_def dest: load_run_receipts)

lemma begin_covered: "begin_run rt cm dir = Inr (exact, s) \<Longrightarrow> covered_but {} s"
  by (erule begin_run_parts) (simp add: covered_but_def called_once_def)

lemma run_catalog_begun:
  assumes "run_catalog rt cm dir = Inr (result, t)"
  obtains exact s where "begin_run rt cm dir = Inr (exact, s)" "run_body rt cm exact s = (result, t)"
  using assms by (auto simp: run_catalog_def)

text \<open>
  C31: Whatever the executors answer, and however the run ends: the receipts of all runs of the
  directory never add up to more turns than the lane allows, and each executor was told a budget
  that lies between nothing and the lane's and never grows.
\<close>

theorem turn_budget_kept:
  assumes "run_catalog rt cm dir = Inr (result, t)"
  shows "turns_used (rs_receipts t) \<le> turn_budget (cm_lane cm) \<and> rs_used t = turns_used (rs_receipts t) \<and>
    list_all (\<lambda>remaining. 0 \<le> remaining \<and> remaining \<le> turn_budget (cm_lane cm)) (map snd (rs_calls t)) \<and>
    sorted_wrt (\<ge>) (map snd (rs_calls t))"
proof -
  from assms obtain exact s where s: "begin_run rt cm dir = Inr (exact, s)" by (rule run_catalog_begun)
  have "within_budget (cm_lane cm) t"
    using budget.after_run(1)[OF s begin_within_budget[OF s] assms] .
  then show ?thesis by (fastforce simp: within_budget_def list_all_iff)
qed

text \<open>
  C32: A run never calls an executor twice for the same trial of the same path, however it ends and
  whatever capabilities share the executor.
\<close>

theorem trial_executed_once:
  assumes "run_catalog rt cm dir = Inr (result, t)"
  shows "distinct (map fst (rs_calls t))"
proof -
  from assms obtain exact s where s: "begin_run rt cm dir = Inr (exact, s)" by (rule run_catalog_begun)
  from once.after_run(1)[OF s begin_covered[OF s] assms] show ?thesis by (simp add: called_once_def)
qed


subsection \<open>Receipts and files\<close>

definition receipt_ok :: "Receipt \<Rightarrow> bool" where
  "receipt_ok r \<longleftrightarrow> length (rc_id r) = 64 \<and> length (rc_execution_id_hash r) = 64 \<and> rc_trial_index r \<ge> 1 \<and>
     rc_turn_count r \<ge> 0 \<and>
     (rc_scope r = lit ''bundle'' \<and> rc_path r = None \<or>
      rc_scope r = lit ''path'' \<and> (\<exists>path \<in> set PATH_NAMES. rc_path r = Some (lit path)))"

definition receipts_ok :: "run_state \<Rightarrow> bool" where
  "receipts_ok s \<longleftrightarrow> list_all receipt_ok (rs_receipts s)"

lemma hash_length: "sha256_value rt j = Inr h \<Longrightarrow> length h = 64"
  by (drule sha256_value_shape) (simp add: is_hex64_def)

lemma execution_receipt_ok:
  assumes "execution_receipt rt exact execution_id (case r of BundleResult _ \<Rightarrow> None | OutcomeResult _ \<Rightarrow> Some (lit path)) i r = Inr receipt"
    and "path \<in> set PATH_NAMES" "i \<ge> 1" "0 \<le> result_turns r"
  shows "receipt_ok receipt"
  using assms
  by (auto simp: execution_receipt_def and_then_Inr Let_def hashed_Inr receipt_ok_def dest!: hash_length split: ExecutorResult.splits)

interpretation receipts: ledger_invariant rt cm exact receipts_ok for rt cm exact
proof
  show "ledger s = ledger t \<Longrightarrow> receipts_ok s = receipts_ok t" for s t by (simp add: ledger_def receipts_ok_def)
  show "receipts_ok t" if "path \<in> set PATH_NAMES" "i \<ge> 1" "receipts_ok s" "run_executor rt cm exact c path i s = (result, t)"
    for path i s c result t
    using run_executor_ledger[OF that(4)] that(1-3)
    by (cases result) (auto simp: receipts_ok_def intro: execution_receipt_ok)
qed

lemma read_receipt_ok: "read_receipt seen raw = Inr r \<Longrightarrow> receipt_ok r"
  by (auto simp: read_receipt_def and_then_Inr receipt_ok_def count_in_Inr demand_Inr named_Inr sized_text_def
      split: json.splits if_splits)

lemma read_receipts_ok: "read_receipts seen raws = Inr rs \<Longrightarrow> list_all receipt_ok rs"
  by (induction raws arbitrary: seen rs) (auto simp: and_then_Inr read_receipt_ok)

text \<open>The run knows the packets of the directory: the checkpoint lists what the files hold.\<close>

definition mirrored :: "run_state \<Rightarrow> bool" where
  "mirrored s \<longleftrightarrow> distinct (map fst (rs_files s)) \<and>
     map_of (rs_files s) = (\<lambda>n. map_option Inr (map_of (rs_checkpoint s) n)) \<and>
     distinct (map fst (rs_checkpoint s)) \<and> (\<forall>p \<in> snd ` set (rs_checkpoint s). length (rp_packet_hash p) = 64)"

definition shelf :: "run_state \<Rightarrow> (ustr \<times> (check_error + ResultPacket)) list \<times> (ustr \<times> ResultPacket) list" where
  "shelf s = (rs_files s, rs_checkpoint s)"

lemma mirrored_shelf: "shelf s = shelf t \<Longrightarrow> mirrored s = mirrored t"
  by (simp add: shelf_def mirrored_def)

lemma build_hash_length: "build rt sf iv a = Inr p \<Longrightarrow> length (rp_packet_hash p) = 64"
  by (auto simp: build_def and_then_Inr Let_def packet_ok_def is_hex64_def dest!: parse_packet_ok)

lemma mirrored_write:
  "length (rp_packet_hash p) = 64 \<Longrightarrow> triple mirrored (write_packet name p) (\<lambda>_. mirrored) mirrored"
  unfolding write_packet_def
  by (rule triple_update) (auto simp: mirrored_def distinct_dict_set fun_eq_iff dest!: subsetD[OF set_dict_set_subset])

lemma mirrored_bind:
  "triple mirrored m (\<lambda>_. mirrored) mirrored \<Longrightarrow> (\<And>a. triple mirrored (f a) (\<lambda>_. mirrored) mirrored) \<Longrightarrow>
     triple mirrored (run_bind m f) (\<lambda>_. mirrored) mirrored"
  by (rule triple_bind)

lemma mirrored_get:
  "(\<And>s. triple mirrored (f s) (\<lambda>_. mirrored) mirrored) \<Longrightarrow> triple mirrored (run_bind run_get f) (\<lambda>_. mirrored) mirrored"
  by (rule triple_get, rule triple_weaken[where P = mirrored and E = mirrored and Q = "\<lambda>_. mirrored"]) auto

lemma mirrored_steps:
  "triple mirrored (run_check x) (\<lambda>_. mirrored) mirrored" "triple mirrored (run_return y) (\<lambda>_. mirrored) mirrored"
  "triple mirrored (run_update (\<lambda>s. s\<lparr>rs_outcomes := f s\<rparr>)) (\<lambda>_. mirrored) mirrored"
  "triple mirrored (run_update (\<lambda>s. s\<lparr>rs_bundles := g s\<rparr>)) (\<lambda>_. mirrored) mirrored"
  "triple mirrored (run_update (\<lambda>s. s\<lparr>rs_targets := h s\<rparr>)) (\<lambda>_. mirrored) mirrored"
  "triple mirrored (run_update (\<lambda>s. s\<lparr>rs_calls := k s\<rparr>)) (\<lambda>_. mirrored) mirrored"
  "triple mirrored (run_update (\<lambda>s. s\<lparr>rs_receipts := l s, rs_used := u s\<rparr>)) (\<lambda>_. mirrored) mirrored"
  "triple mirrored (run_update (\<lambda>s. s\<lparr>rs_manifest := m s\<rparr>)) (\<lambda>_. mirrored) mirrored"
  by (auto intro!: triple_check triple_return triple_update simp: mirrored_def)

lemmas mirrored_kept = mirrored_get mirrored_bind mirrored_steps

lemma mirrored_checkpoint: "triple mirrored (checkpoint_manifest rt cm exact) (\<lambda>_. mirrored) mirrored"
  unfolding checkpoint_manifest_def by (intro mirrored_kept)

lemma mirrored_built:
  assumes "\<And>p. length (rp_packet_hash p) = 64 \<Longrightarrow> triple mirrored (f p) (\<lambda>_. mirrored) mirrored"
  shows "triple mirrored (run_bind (run_check (build_packet rt cm c path i out)) f) (\<lambda>_. mirrored) mirrored"
proof (rule triple_bind[where R = "\<lambda>p s. mirrored s \<and> length (rp_packet_hash p) = 64"])
  show "triple mirrored (run_check (build_packet rt cm c path i out))
      (\<lambda>p s. mirrored s \<and> length (rp_packet_hash p) = 64) mirrored"
    by (rule triple_check) (auto simp: build_packet_def dest: build_hash_length)
  show "triple (\<lambda>s. mirrored s \<and> length (rp_packet_hash p) = 64) (f p) (\<lambda>_. mirrored) mirrored" for p
    using assms[of p] by (auto simp: triple_def)
qed

lemma mirrored_store: "triple mirrored (store_packet rt cm exact c path i out) (\<lambda>_. mirrored) mirrored"
  unfolding store_packet_def
  by (rule mirrored_built) (intro mirrored_kept mirrored_checkpoint mirrored_write)

lemma mirrored_bundle: "triple mirrored (store_bundle rt cm exact c path i target b) (\<lambda>_. mirrored) mirrored"
proof -
  have one: "triple mirrored (write_bundle_path rt cm c i po) (\<lambda>_. mirrored) mirrored" for po
    unfolding write_bundle_path_def Let_def prod.case_eq_if
    by (intro mirrored_get mirrored_bind[OF mirrored_steps(1)] mirrored_built mirrored_bind[OF mirrored_write] mirrored_steps)
  show ?thesis
    unfolding store_bundle_def Let_def
    by (intro mirrored_bind[OF triple_each[OF one]] mirrored_bind[OF mirrored_steps(4)] mirrored_bind[OF mirrored_checkpoint])
      (simp, intro conjI impI mirrored_kept)
qed

lemma mirrored_executor: "triple mirrored (run_executor rt cm exact c path i) (\<lambda>_. mirrored) mirrored"
  unfolding run_executor_def Let_def by (intro mirrored_kept)

lemma mirrored_trial: "triple mirrored (obtain_packet rt cm exact c path i target) (\<lambda>_. mirrored) mirrored"
  unfolding obtain_packet_def Let_def
  by (rule mirrored_get)
    (auto split: option.splits ExecutorResult.splits intro!: mirrored_steps mirrored_bind[OF mirrored_store]
      mirrored_bind[OF mirrored_steps(1)] mirrored_bind[OF mirrored_executor] mirrored_bind[OF mirrored_steps(3)] mirrored_bundle)

interpretation mirror: run_protocol rt cm exact mirrored mirrored for rt cm exact
  by standard (auto simp: mirrored_def intro: mirrored_trial)

end
