(* ===== verification/Parity_Traces.thy ===== *)
theory Parity_Traces
  imports Parity_Grader
begin

section \<open>Graded lanes and traces\<close>

text \<open>
  Properties that join the catalog, the packets and the grader: the size of a report of the release
  lane, and that the trace an executor builds with \<^verbatim>\<open>parity/trace.py\<close> is one the packet reader and
  the grader accept.
\<close>

subsection \<open>The size of the report of the release lane\<close>

lemma list_all2_filter_length:
  "list_all2 R xs ys \<Longrightarrow> (\<And>x y. R x y \<Longrightarrow> P x = Q y) \<Longrightarrow> length (filter P xs) = length (filter Q ys)"
  by (induction rule: list_all2_induct) auto

lemma filter_product_length:
  "length (filter (\<lambda>cp. R (fst cp) (snd cp)) (List.product xs ys)) = (\<Sum>x\<leftarrow>xs. length (filter (R x) ys))"
  by (induction xs) (simp_all add: filter_map comp_def)

lemma report_sums:
  assumes "list_all (\<lambda>g. pg_required g \<longrightarrow> pg_status g \<in> {''COMPLETE'', ''PENDING'', ''VERIFIED_FAILURE''}) grades"
    and "r = report_of cat lane h grades"
  shows "gr_passed_paths r + gr_pending_paths r + gr_failed_paths r = gr_required_paths r"
proof -
  have "list_all (\<lambda>g. pg_status g \<in> {''COMPLETE'', ''PENDING'', ''VERIFIED_FAILURE''}) (filter pg_required grades)"
    using assms(1) by (auto simp: list_all_iff)
  from count_statuses[OF this] assms(2) show ?thesis by (simp add: report_of_def Let_def split: if_splits)
qed

lemma report_size:
  assumes "grade_packets cat ps lane e = Inr r"
  shows "gr_required_paths r =
      (\<Sum>c\<leftarrow>for_lane cat lane. length (filter (\<lambda>name. path_required (cap_path c name)) PATH_NAMES))"
    and "gr_passed_paths r + gr_pending_paths r + gr_failed_paths r = gr_required_paths r"
    and "length (gr_path_grades r) = 3 * length (for_lane cat lane)"
proof -
  from assms obtain grades where
    grades: "list_all2 (\<lambda>cp g. grade_path ps (fst cp) (snd cp) = Inr g) (List.product (for_lane cat lane) PATH_NAMES) grades"
    and r: "r = report_of cat lane (candidate_identity e ps) grades" by (rule grade_packets_Inr)
  have "length (filter pg_required grades) =
      length (filter (\<lambda>cp. path_required (cap_path (fst cp) (snd cp))) (List.product (for_lane cat lane) PATH_NAMES))"
    by (rule list_all2_filter_length[OF grades, symmetric]) (simp add: grade_path_required)
  then show "gr_required_paths r =
      (\<Sum>c\<leftarrow>for_lane cat lane. length (filter (\<lambda>name. path_required (cap_path c name)) PATH_NAMES))"
    using filter_product_length[of "\<lambda>c path. path_required (cap_path c path)" "for_lane cat lane" PATH_NAMES]
    by (simp add: r report_of_def Let_def split: prod.splits)
  have "list_all (\<lambda>g. pg_required g \<longrightarrow> pg_status g \<in> {''COMPLETE'', ''PENDING'', ''VERIFIED_FAILURE''}) grades"
    using grades by (induction rule: list_all2_induct) (auto dest!: grade_path_status split: if_splits)
  from report_sums[OF this r] show "gr_passed_paths r + gr_pending_paths r + gr_failed_paths r = gr_required_paths r" .
  show "length (gr_path_grades r) = 3 * length (for_lane cat lane)"
    using list_all2_lengthD[OF grades]
    by (simp add: r report_of_def Let_def PATH_NAMES_def split: if_splits)
qed

text \<open>
  C25: Whatever was run, the report of the release lane of an accepted catalog decides 220 required
  paths, of 372 listed for 124 capabilities: a path without evidence is counted as pending and
  never dropped.
\<close>

theorem rc_report_decides_all:
  assumes "catalog_ok cat" "grade_packets cat ps (lit ''rc'') e = Inr r"
  shows "gr_required_paths r = 220 \<and> length (gr_path_grades r) = 372 \<and>
    gr_passed_paths r + gr_pending_paths r + gr_failed_paths r = 220"
proof -
  have ok: "list_all capability_ok (for_lane cat (lit ''rc''))"
    using assms(1) by (auto simp: catalog_ok_def for_lane_def list_all_iff)
  have "(\<Sum>c\<leftarrow>for_lane cat (lit ''rc''). length (filter (\<lambda>name. path_required (cap_path c name)) PATH_NAMES)) =
      (\<Sum>c\<leftarrow>for_lane cat (lit ''rc''). required_of_pack (cap_source_pack c))"
    using ok by (intro arg_cong[of _ _ sum_list] map_cong) (auto simp: required_paths_count list_all_iff)
  also have "\<dots> = 220"
    unfolding rc_lane_total[OF assms(1)] by (simp add: required_of_pack_def)
  finally have "gr_required_paths r = 220" using report_size(1)[OF assms(2)] by simp
  moreover have "length (for_lane cat (lit ''rc'')) = 124"
    using rc_lane_total[OF assms(1), of "\<lambda>_. 1"] by (simp add: sum_list_triv)
  ultimately show ?thesis using report_size(2,3)[OF assms(2)] by simp
qed

subsection \<open>A catalog\<close>

definition sample_path :: "bool \<Rightarrow> dict" where
  "sample_path required = [(lit ''required'', JBool required), (lit ''assertion'', JStr (lit ''holds'')),
     (lit ''rationale'', JStr (lit ''none''))]"

definition sample_policy :: "int \<Rightarrow> dict" where
  "sample_policy n = [(lit ''minimum_passes'', JInt 1), (lit ''consecutive_passes'', JInt n), (lit ''triggers'', JList [])]"

definition sample_capability :: "string \<Rightarrow> nat \<Rightarrow> Capability" where
  "sample_capability pack i =
     \<lparr>cap_id = lit pack @ replicate i 97, cap_source_item_id = lit ''item'', cap_source_pack = lit pack,
       cap_source_ref = lit ''ref'', cap_lane = lit (if pack = ''runtime_active'' then ''runtime'' else ''rc''),
       cap_surface = lit ''surface'', cap_owner = lit ''owner'', cap_positive = sample_path True,
       cap_denial = sample_path (pack \<notin> {''v2_non_soak'', ''agent_sdk_boundary''}),
       cap_recovery = sample_path (pack \<notin> {''v2_non_soak'', ''agent_sdk_boundary''}), cap_state_before = lit ''before'',
       cap_state_after = lit ''after'', cap_expected_trace = [lit ''terminal''], cap_primary_proof = [lit ''proof''],
       cap_secondary_proof = [lit ''proof''], cap_repeat_policy = sample_policy 1, cap_execution_id = lit ''exec'',
       cap_temporal_reason = None,
       cap_ledger_status = (if pack = ''agent_sdk_boundary'' then Some (lit ''covered_current'') else None)\<rparr>"

definition sample_catalog :: "(string \<times> nat) list \<Rightarrow> Catalog" where
  "sample_catalog packs =
     \<lparr>cat_contract = [], cat_capabilities = concat (map (\<lambda>(pack, n). map (sample_capability pack) [0 ..< n]) packs),
      cat_contract_hash = zero_digest, cat_catalog_hash = zero_digest, cat_file_hash = zero_digest\<rparr>"

definition full_catalog :: Catalog where
  "full_catalog = sample_catalog (SOURCE_COUNTS @ [(''runtime_active'', 1)])"

lemma fullmatch_CAPABILITY_ID:
  "fullmatch CAPABILITY_ID (c # t) \<longleftrightarrow>
     (is_digit c \<or> is_lower c) \<and> 2 \<le> length t \<and> length t \<le> 127 \<and> list_all capability_id_char t"
proof -
  have "fullmatch CAPABILITY_ID (c # t) \<longleftrightarrow> (is_digit c \<or> is_lower c) \<and>
      list_ex (\<lambda>e. snd e = []) (ends (Rep 2 (Some 127) capability_id_char) ([c], t))"
    by (simp add: fullmatch_def CAPABILITY_ID_def del: ends.simps(5))
  then show ?thesis by (simp only: bounded_run)
qed

lemma sample_ids: "pack \<in> set SOURCE_PACKS \<Longrightarrow> i < 60 \<Longrightarrow> fullmatch CAPABILITY_ID (lit pack @ replicate i 97)"
  by (auto simp: SOURCE_PACKS_def lit_def fullmatch_CAPABILITY_ID is_lower_def is_digit_def
      capability_id_char_def chars_def list_all_iff)

lemma sample_paths: "path_ok (sample_path b)" "path_required (sample_path b) = b" "policy_ok (sample_policy 1)"
  by (auto simp: path_ok_def sample_path_def keys_within_def field_def has_key_def path_required_def
      policy_ok_def sample_policy_def) (simp add: lit_def py_strip_def py_isspace_def)

lemma sample_fields [simp]:
  "cap_id (sample_capability pack i) = lit pack @ replicate i 97"
  "cap_source_pack (sample_capability pack i) = lit pack"
  "cap_repeat_policy (sample_capability pack i) = sample_policy 1"
  by (simp_all add: sample_capability_def)

lemma sample_capability_ok:
  assumes "pack \<in> set SOURCE_PACKS" "i < 60"
  shows "capability_ok (sample_capability pack i)"
proof -
  have "list_all (\<lambda>name. path_ok (cap_path (sample_capability pack i) name)) PATH_NAMES"
    by (simp add: PATH_NAMES_def cap_path_def sample_capability_def sample_paths)
  moreover have "pack \<noteq> []" "lit pack \<in> set (lits SOURCE_PACKS)" using assms(1) by (auto simp: SOURCE_PACKS_def)
  moreover have "required_paths_ok (lit pack) (cap_positive (sample_capability pack i))
      (cap_denial (sample_capability pack i)) (cap_recovery (sample_capability pack i))"
    by (simp add: required_paths_ok_def sample_paths sample_capability_def)
  moreover have "cap_lane (sample_capability pack i) = lit (if lit pack = lit ''runtime_active'' then ''runtime'' else ''rc'')"
    "cap_temporal_reason (sample_capability pack i) = None"
    "cap_ledger_status (sample_capability pack i) \<noteq> None \<longleftrightarrow> lit pack = lit ''agent_sdk_boundary''"
    by (simp_all add: sample_capability_def)
  moreover have "[] \<notin> set ([cap_id (sample_capability pack i), cap_source_item_id (sample_capability pack i),
      cap_execution_id (sample_capability pack i)] @ cap_expected_trace (sample_capability pack i) @
      cap_primary_proof (sample_capability pack i) @ cap_secondary_proof (sample_capability pack i))"
    "[] \<notin> {cap_expected_trace (sample_capability pack i), cap_primary_proof (sample_capability pack i),
      cap_secondary_proof (sample_capability pack i)}"
    using \<open>pack \<noteq> []\<close> by (simp_all add: sample_capability_def)
  ultimately show ?thesis
    using sample_ids[OF assms] unfolding capability_ok_def by (simp only: sample_fields sample_paths) simp
qed

lemma pack_size_sample: "pack_size (map (sample_capability pack) [0 ..< n]) name = (if pack = name then n else 0)"
  by (simp add: pack_size_def filter_map comp_def)

lemma pack_size_one: "pack_size [sample_capability pack i] name = (if pack = name then 1 else 0)"
  by (simp add: pack_size_def)

lemma pack_size_append: "pack_size (xs @ ys) name = pack_size xs name + pack_size ys name"
  by (simp add: pack_size_def)

lemma sample_distinct: "distinct (map (cap_id \<circ> sample_capability pack) [0 ..< n])"
  by (auto simp: distinct_map inj_on_def)

lemma full_catalog_ok: "catalog_ok full_catalog"
proof -
  have "distinct (map cap_id (cat_capabilities full_catalog))"
  proof -
    have "distinct (concat (map (\<lambda>(pack, n). map (cap_id \<circ> sample_capability pack) [0 ..< n])
        (SOURCE_COUNTS @ [(''runtime_active'', 1)])))"
      unfolding SOURCE_COUNTS_def
      by (simp only: append.simps list.map concat.simps prod.case distinct_append sample_distinct simp_thms set_append
          set_map distinct.simps append_Nil2 Int_Un_distrib Int_empty_right Un_empty set_simps)
        (auto simp: lit_def)
    then show ?thesis by (simp add: full_catalog_def sample_catalog_def map_concat comp_def case_prod_beta')
  qed
  moreover have "list_all capability_ok (cat_capabilities full_catalog)"
    by (auto simp: full_catalog_def sample_catalog_def SOURCE_COUNTS_def list_all_iff SOURCE_PACKS_def
        intro!: sample_capability_ok)
  ultimately show ?thesis
    by (simp add: catalog_ok_def full_catalog_def sample_catalog_def SOURCE_COUNTS_def pack_size_append pack_size_sample pack_size_one)
qed

lemma grade_total:
  assumes "lane \<in> set (lits [''rc'', ''runtime''])" "admit_packets cat lane e [] ps"
    "e = None \<longrightarrow> length (remdups (map rp_candidate_hash ps)) \<le> 1"
    "\<And>c. c \<in> set (cat_capabilities cat) \<Longrightarrow> has_key (cap_repeat_policy c) ''triggers'' \<and> policy_ok (cap_repeat_policy c)"
  shows "\<exists>r. grade_packets cat ps lane e = Inr r"
proof -
  have "\<exists>g. grade_path ps c path = Inr g" if "c \<in> set (cat_capabilities cat)" for c path
  proof -
    have "\<exists>js. policy_triggers (cap_repeat_policy c) = Inr js"
      using assms(4)[OF that] by (auto simp: policy_triggers_def policy_ok_def)
    then show ?thesis by (auto simp: grade_path_def Let_def split: prod.splits)
  qed
  then have "\<exists>y. grade_path ps (fst cp) (snd cp) = Inr y \<and> True"
    if "cp \<in> set (List.product (for_lane cat lane) PATH_NAMES)" for cp
    using that by (auto simp: for_lane_def)
  from map_exn_total[of _ "\<lambda>cp. grade_path ps (fst cp) (snd cp)" "\<lambda>_. True", OF this]
  obtain gs where "map_exn (\<lambda>cp. grade_path ps (fst cp) (snd cp)) (List.product (for_lane cat lane) PATH_NAMES) = Inr gs"
    by blast
  then show ?thesis using assms(1-3) by (simp add: grade_packets_def demand_def case_prod_beta')
qed

lemma sample_triggers:
  "c \<in> set (cat_capabilities (sample_catalog packs)) \<Longrightarrow>
     has_key (cap_repeat_policy c) ''triggers'' \<and> policy_ok (cap_repeat_policy c)"
  by (auto simp: sample_catalog_def sample_paths) (simp add: has_key_def sample_policy_def)

lemma full_catalog_graded: "\<exists>r. grade_packets full_catalog [] (lit ''rc'') None = Inr r"
  by (rule grade_total) (auto simp: full_catalog_def dest: sample_triggers)

theorem rc_report_decides_all_witness:
  "\<exists>r. grade_packets full_catalog [] (lit ''rc'') None = Inr r \<and> gr_required_paths r = 220"
  using full_catalog_graded rc_report_decides_all[OF full_catalog_ok] by blast


subsection \<open>A complete report\<close>

definition graded_packet :: ResultPacket where
  "graded_packet = sample_arguments\<lparr>rp_capability_id := lit ''v2_non_soak'', rp_source_pack := lit ''v2_non_soak'',
     rp_candidate_hash := zero_digest\<rparr>"

definition small_catalog :: Catalog where "small_catalog = sample_catalog [(''v2_non_soak'', 1)]"

lemma small_graded:
  "\<exists>r. grade_packets small_catalog [graded_packet] (lit ''rc'') None = Inr r"
proof -
  have "packet_admitted small_catalog (lit ''rc'') None [] graded_packet"
    by (simp add: packet_admitted_def graded_packet_def sample_arguments_def small_catalog_def sample_catalog_def
        sample_capability_def)
  then show ?thesis by (intro grade_total) (auto simp: small_catalog_def dest: sample_triggers)
qed

lemma small_settled:
  assumes "path \<in> set PATH_NAMES" "path_required (cap_path (sample_capability ''v2_non_soak'' 0) path)"
  shows "path_settled {graded_packet} (sample_capability ''v2_non_soak'' 0) path"
proof -
  have "path = ''positive''"
    using assms by (auto simp: PATH_NAMES_def cap_path_def sample_capability_def sample_paths)
  moreover have "counts_as_pass [lit ''terminal''] graded_packet"
    by (simp add: counts_as_pass_def is_pass_def graded_packet_def sample_arguments_def trace_matches_def event_kinds_def
        sample_events_def ends_with_outcome_def field_def)
  moreover have "rp_path graded_packet = lit ''positive''" "rp_capability_id graded_packet = lit ''v2_non_soak''"
    "rp_classification graded_packet = COMPLETE"
    by (simp_all add: graded_packet_def sample_arguments_def)
  moreover have "cap_expected_trace (sample_capability ''v2_non_soak'' 0) = [lit ''terminal'']"
    "policy_consecutive (sample_policy 1) = 1" "\<not> triggered (sample_capability ''v2_non_soak'' 0)"
    by (simp_all add: sample_capability_def policy_consecutive_def sample_policy_def field_def triggered_def
        policy_triggers_def has_key_def)
  ultimately show ?thesis
    by (auto simp: path_settled_def passes_needed_def failed_path_def unstable_path_def packets_of_def counts_as_pass_def)
qed


subsection \<open>Traces of executors\<close>

lemma length_path_events: "length (path_events_from n path h kinds) = length kinds"
  by (induction kinds arbitrary: n) auto

lemma nth_path_events:
  "i < length kinds \<Longrightarrow> path_events_from n path h kinds ! i = path_event path h (n + i) (kinds ! i)"
  by (induction kinds arbitrary: n i) (auto simp: nth_Cons split: nat.splits)

lemma field_path_event:
  "field (path_event path h n kind) ''kind'' = JStr kind"
  by (simp add: path_event_def field_def Let_def)

lemma path_event_kinds: "event_kinds (path_events_from n path h kinds) = map JStr kinds"
  by (induction kinds arbitrary: n) (auto simp: event_kinds_def field_path_event)


lemma status_text: "(\<exists>status. JStr x = optional_json status \<and> (\<forall>s. status = Some s \<longrightarrow> fullmatch SAFE_ID s)) = fullmatch SAFE_ID x"
  by (auto simp: optional_json_def split: option.splits intro: exI[of _ "Some x"])

lemma terminal_path_event:
  "is_terminal_event (path_event path h n kind) \<longleftrightarrow> kind = lit ''terminal''"
  by (simp add: is_terminal_event_def field_path_event)

lemma safe_statuses:
  "list_all (\<lambda>s. fullmatch SAFE_ID (lit s)) [''denied'', ''completed'', ''started'', ''expected_negative'', ''recovered'', ''observed'']"
  by (simp add: fullmatch_SAFE_ID lit_def is_alnum_def is_digit_def is_upper_def is_lower_def safe_id_char_def chars_def)

lemma path_event_fields:
  "event_hash_field kind = Some f \<Longrightarrow> f \<in> set (lits [''request_hash'', ''metadata_hash'', ''tool_hash'', ''state_hash'',
     ''usage_hash'', ''parent_hash''])"
  by (auto simp: event_hash_field_def split: if_splits)

lemma path_event_safe:
  assumes "kind \<in> set (lits EVENT_KINDS)" "is_hex64 h"
  shows "event_ok n (path_event path h n kind)"
proof (cases "kind = lit ''terminal''")
  case True
  have "list_all (\<lambda>s. \<not> is_hash_field (lit s)) [''sequence'', ''kind'', ''status'', ''terminal_outcome'']"
    by (simp add: is_hash_field_def lit_def)
  with True show ?thesis
    using safe_statuses
    by (simp add: event_ok_def terminal_path_event path_event_def Let_def field_def EVENT_FIELDS_def EVENT_KINDS_def
        TERMINAL_OUTCOMES_def equals_int_def status_text is_terminal_event_def)
next
  case False
  have plain: "list_all (\<lambda>s. \<not> is_hash_field (lit s)) [''sequence'', ''kind'', ''status'']"
    by (simp add: is_hash_field_def lit_def)
  obtain status extra where e: "path_event path h n kind =
      [(lit ''sequence'', JInt (int n)), (lit ''kind'', JStr kind), (lit ''status'', JStr (lit status))] @ extra"
    and status: "status \<in> {''started'', ''expected_negative'', ''recovered'', ''observed''}"
    and extra: "extra = (case event_hash_field kind of None \<Rightarrow> [] | Some f \<Rightarrow> [(f, JStr h)])"
    using False that[of "if kind = lit ''start'' then ''started'' else if path = lit ''denial'' then ''expected_negative''
        else if path = lit ''recovery'' then ''recovered'' else ''observed''"]
    by (simp add: path_event_def Let_def if_distrib[of lit])
  have "fullmatch SAFE_ID (lit status)" using status safe_statuses by auto
  moreover have "fst ` set extra \<subseteq> set (lits EVENT_FIELDS) - set (lits [''terminal_outcome''])"
    using extra path_event_fields[of kind] by (auto simp: EVENT_FIELDS_def split: option.splits)
  moreover from this have "map_of extra (lit ''terminal_outcome'') = None"
    by (auto simp: map_of_eq_None_iff)
  moreover have "list_all (\<lambda>(k, v). \<exists>h. v = JStr h \<and> is_hex64 h) extra"
    using extra assms(2) by (auto split: option.splits)
  ultimately show ?thesis
    using assms(1) False plain terminal_path_event[of path h n kind]
    unfolding e event_ok_def
    by (auto simp: field_def EVENT_FIELDS_def equals_int_def list_all_iff status_text)
qed


lemma path_event_clean: "\<not> has_forbidden (JDict (path_event path h n kind))"
proof -
  have "list_all (\<lambda>s. lit s \<notin> set (lits FORBIDDEN_KEYS))
      [''sequence'', ''kind'', ''status'', ''terminal_outcome'', ''request_hash'', ''metadata_hash'', ''tool_hash'', ''state_hash'',
       ''usage_hash'', ''parent_hash'']"
    by (simp add: FORBIDDEN_KEYS_def)
  then show ?thesis
    using path_event_fields[of kind] by (auto simp: path_event_def Let_def split: option.splits)
qed

lemma terminals_of_path_events:
  "lit ''terminal'' \<notin> set kinds \<Longrightarrow> filter is_terminal_event (path_events_from n path h kinds) = []"
  by (induction kinds arbitrary: n) (auto simp: terminal_path_event)

lemma path_events_append:
  "path_events_from n path h (ks @ ls) = path_events_from n path h ks @ path_events_from (n + length ks) path h ls"
  by (induction ks arbitrary: n) auto

lemma terminal_outcome_path_event:
  "field (path_event path h n (lit ''terminal'')) ''terminal_outcome'' =
     JStr (if path = lit ''denial'' then lit ''denied'' else lit ''completed'')"
  by (simp add: path_event_def Let_def field_def)

text \<open>The classification an executor gives a path that went as its catalog row declares.\<close>

definition passing_class :: "ustr \<Rightarrow> ExecutionClassification" where
  "passing_class path = (if path = lit ''denial'' then EXPECTED_NEGATIVE else COMPLETE)"

text \<open>
  C28: The events that \<^verbatim>\<open>normalized_path_events\<close> builds for a declared trace (known kinds, one
  terminal at its end) pass the packet reader, fit the passing classification of the path, and the
  grader counts a packet with them as a pass of exactly that trace.
\<close>

theorem normalized_trace_counts:
  assumes "set kinds \<subseteq> set (lits EVENT_KINDS) - {lit ''terminal''}" "length kinds < MAX_NORMALIZED_EVENTS" "is_hex64 h"
  shows "let trace = kinds @ [lit ''terminal'']; events = normalized_path_events trace path h in
    events_ok events \<and> terminal_fits (passing_class path) events \<and>
    counts_as_pass trace (p\<lparr>rp_path := path, rp_classification := passing_class path, rp_events := events\<rparr>)"
proof -
  let ?trace = "kinds @ [lit ''terminal'']"
  let ?events = "normalized_path_events ?trace path h"
  have kinds: "set ?trace \<subseteq> set (lits EVENT_KINDS)" using assms(1) by (auto simp: EVENT_KINDS_def)
  have nth: "?events ! i = path_event path h (Suc i) (?trace ! i)" if "i < length ?events" for i
    using that by (simp add: normalized_path_events_def nth_path_events length_path_events)
  have "event_ok (Suc i) (?events ! i)" if "i < length ?events" for i
  proof -
    have "?trace ! i \<in> set ?trace" using that by (intro nth_mem) (simp add: normalized_path_events_def length_path_events)
    with kinds assms(3) show ?thesis unfolding nth[OF that] by (intro path_event_safe) auto
  qed
  moreover have "\<not> has_forbidden (events_json ?events)"
    using nth by (auto simp: events_json_def list_ex_iff in_set_conv_nth path_event_clean simp del: has_forbidden.simps(1))
  moreover have "length ?events \<le> MAX_NORMALIZED_EVENTS"
    using assms(2) by (simp add: normalized_path_events_def length_path_events)
  ultimately have ok: "events_ok ?events" by (simp add: events_ok_def)
  have none: "lit ''terminal'' \<notin> set kinds" using assms(1) by auto
  have terminals: "filter is_terminal_event ?events = [path_event path h (Suc (length kinds)) (lit ''terminal'')]"
    by (simp add: normalized_path_events_def path_events_append terminals_of_path_events[OF none] terminal_path_event)
  have fits: "terminal_fits (passing_class path) ?events"
    by (simp add: terminal_fits_def terminals passing_class_def terminal_outcome_path_event)
  have "last ?events = path_event path h (Suc (length kinds)) (lit ''terminal'')" "?events \<noteq> []"
    by (simp_all add: normalized_path_events_def path_events_append)
  then have ends: "ends_with_outcome ?events (if path = lit ''denial'' then ''denied'' else ''completed'')"
    by (simp add: ends_with_outcome_def field_path_event terminal_outcome_path_event)
  have "event_kinds ?events = map JStr ?trace" by (simp only: normalized_path_events_def path_event_kinds)
  with ends have "counts_as_pass ?trace (p\<lparr>rp_path := path, rp_classification := passing_class path, rp_events := ?events\<rparr>)"
    by (cases kinds) (simp_all add: counts_as_pass_def is_pass_def passing_class_def trace_matches_def split: if_splits)
  with ok fits show ?thesis by (simp add: Let_def)
qed

theorem normalized_trace_counts_witness:
  "let trace = map lit [''start'', ''tool_requested'', ''tool_result'', ''terminal''];
       events = normalized_path_events trace (lit ''denial'') zero_digest
   in events_ok events \<and> counts_as_pass trace (sample_arguments\<lparr>rp_path := lit ''denial'',
     rp_classification := EXPECTED_NEGATIVE, rp_events := events\<rparr>)"
proof -
  have "set (map lit [''start'', ''tool_requested'', ''tool_result'']) \<subseteq> set (lits EVENT_KINDS) - {lit ''terminal''}"
    by (simp add: EVENT_KINDS_def)
  moreover have "length (map lit [''start'', ''tool_requested'', ''tool_result'']) < MAX_NORMALIZED_EVENTS"
    by (simp add: MAX_NORMALIZED_EVENTS_def)
  moreover have "is_hex64 zero_digest"
    by (simp add: zero_digest_def is_hex64_def list_all_iff hex_digest_char_def is_digit_def)
  ultimately show ?thesis
    using normalized_trace_counts[of "map lit [''start'', ''tool_requested'', ''tool_result'']" zero_digest "lit ''denial''" sample_arguments]
    by (simp add: Let_def passing_class_def)
qed

subsection \<open>Where the catalog and the grader differ\<close>

text \<open>
  A policy of two consecutive passes is accepted by the catalog but a stable path under it is never
  settled, whatever passes: the grader completes a path with one pass or with three.
\<close>

lemma two_passes_never_settle:
  assumes "policy_consecutive (cap_repeat_policy c) = 2" "\<not> triggered c" "\<not> failed_path P c path" "\<not> unstable_path P c path"
  shows "\<not> path_settled P c path"
  using assms by (simp add: path_settled_def passes_needed_def)

lemma two_passes_accepted: "policy_ok (sample_policy 2)"
  by (auto simp: policy_ok_def sample_policy_def field_def has_key_def)

text \<open>A failure under a policy of more than three passes can never be made up for.\<close>

lemma long_policy_failure_final:
  assumes "policy_consecutive (cap_repeat_policy c) > 3" "failed_path P c path"
  shows "\<not> path_settled P c path"
  using assms by (simp add: path_settled_def passes_needed_def)

text \<open>A policy without triggers is accepted by the catalog, and a \<^verbatim>\<open>KeyError\<close> in the grader.\<close>

lemma missing_triggers_escape:
  "policy_ok [(lit ''minimum_passes'', JInt 1), (lit ''consecutive_passes'', JInt 1)]"
  "policy_triggers [(lit ''minimum_passes'', JInt 1), (lit ''consecutive_passes'', JInt 1)] = Inl (Escapes KeyError)"
  by (auto simp: policy_ok_def policy_triggers_def has_key_def field_def)

end
