(* ===== verification/Parity_Resume.thy ===== *)
theory Parity_Resume
  imports Parity_Runs Parity_Traces
begin

section \<open>What a run leaves behind\<close>

text \<open>
  The manifest is read back as it was written, a finished run leaves a directory that validation
  and a resumed run accept, and where the runner and its own ledger disagree.
\<close>

subsection \<open>The manifest\<close>

lemma receipt_fields: "fst ` set [(lit ''receipt_id'', a), (lit ''execution_id_hash'', b), (lit ''scope'', c), (lit ''path'', d),
    (lit ''trial_index'', e), (lit ''turn_count'', f)] = set (lits RECEIPT_FIELDS)"
  by (auto simp: RECEIPT_FIELDS_def)

lemma read_receipt_json:
  assumes "receipt_ok r" "rc_id r \<notin> set seen"
  shows "read_receipt seen (receipt_json r) = Inr r"
proof -
  have texts: "sized_text (JStr (rc_id r)) = Inr (rc_id r)" "sized_text (JStr (rc_execution_id_hash r)) = Inr (rc_execution_id_hash r)"
    "count_in 1 None (JInt (rc_trial_index r)) = Inr (rc_trial_index r)"
    "count_in 0 None (JInt (rc_turn_count r)) = Inr (rc_turn_count r)"
    using assms(1) by (simp_all add: sized_text_def receipt_ok_def count_in_Inr)
  have scope: "named [''bundle'', ''path''] (JStr (rc_scope r)) = Inr (rc_scope r)"
    using assms(1) by (auto simp: named_Inr receipt_ok_def)
  have path: "(if rc_scope r = lit ''path'' then map_sum id Some (named PATH_NAMES (optional_json (rc_path r)))
      else and_then (demand (optional_json (rc_path r) = JNull)) (\<lambda>_. Inr None)) = Inr (rc_path r)"
    using assms(1) by (auto simp: receipt_ok_def optional_json_def demand_def named_def in_names_def)
  have fields: "field d ''receipt_id'' = JStr (rc_id r) \<and> field d ''execution_id_hash'' = JStr (rc_execution_id_hash r) \<and>
      field d ''scope'' = JStr (rc_scope r) \<and> field d ''path'' = optional_json (rc_path r) \<and>
      field d ''trial_index'' = JInt (rc_trial_index r) \<and> field d ''turn_count'' = JInt (rc_turn_count r) \<and>
      fst ` set d = set (lits RECEIPT_FIELDS)" if "receipt_json r = JDict d" for d
    using that receipt_fields by (auto simp: receipt_json_def field_def)
  obtain d where d: "receipt_json r = JDict d" by (simp add: receipt_json_def)
  from fields[OF d] have at: "field d ''receipt_id'' = JStr (rc_id r)" "field d ''execution_id_hash'' = JStr (rc_execution_id_hash r)"
      "field d ''scope'' = JStr (rc_scope r)" "field d ''path'' = optional_json (rc_path r)"
      "field d ''trial_index'' = JInt (rc_trial_index r)" "field d ''turn_count'' = JInt (rc_turn_count r)"
      "fst ` set d = set (lits RECEIPT_FIELDS)" by blast+
  have fresh: "demand (rc_id r \<notin> set seen) = Inr ()" "demand True = Inr ()" using assms(2) by (simp_all add: demand_def)
  show ?thesis
    unfolding read_receipt_def d json.case at
    by (simp only: simp_thms fresh texts scope path and_then_simps json.case) simp
qed

lemma read_receipts_json:
  "list_all receipt_ok rs \<Longrightarrow> distinct (map rc_id rs) \<Longrightarrow> set (map rc_id rs) \<inter> set seen = {} \<Longrightarrow>
     read_receipts seen (map receipt_json rs) = Inr rs"
  by (induction rs arbitrary: seen) (auto simp: read_receipt_json)

lemma sized_texts: "list_all (\<lambda>h. length h = 64) hs \<Longrightarrow> map_exn sized_text (map JStr hs) = Inr hs"
  by (induction hs) (auto simp: sized_text_def)

lemma load_written:
  assumes "list_all receipt_ok receipts" "distinct (map rc_id receipts)" "turns_used receipts \<le> turn_budget lane"
    and "list_all (\<lambda>h. length h = 64) hashes" "manifest_payload rt lane cat exact receipts hashes = Inr m"
  shows "load_manifest rt lane cat exact m = Inr (receipts, sort hashes)"
proof -
  let ?entries = "manifest_fields lane cat exact receipts hashes"
  from assms(5) obtain h where h: "sha256_value rt (JDict ?entries) = Inr h" "m = JDict (?entries @ [(lit ''manifest_hash'', JStr h)])"
    by (auto simp: manifest_payload_def and_then_Inr Let_def hashed_Inr)
  have keys: "fst ` set (?entries @ [(lit ''manifest_hash'', JStr h)]) = set (lits MANIFEST_FIELDS)"
    by (auto simp: manifest_fields_def MANIFEST_FIELDS_def)
  have del: "dict_del (lit ''manifest_hash'') (?entries @ [(lit ''manifest_hash'', JStr h)]) = ?entries"
    by (simp add: dict_del_def manifest_fields_def)
  have fields: "equals_int (field (?entries @ [(lit ''manifest_hash'', JStr h)]) ''schema_version'') 1"
    "field (?entries @ [(lit ''manifest_hash'', JStr h)]) ''lane'' = JStr lane"
    "field (?entries @ [(lit ''manifest_hash'', JStr h)]) ''contract_hash'' = JStr (cat_contract_hash cat)"
    "field (?entries @ [(lit ''manifest_hash'', JStr h)]) ''catalog_hash'' = JStr (cat_catalog_hash cat)"
    "field (?entries @ [(lit ''manifest_hash'', JStr h)]) ''candidate_hash'' = JStr exact"
    "equals_int (field (?entries @ [(lit ''manifest_hash'', JStr h)]) ''turn_budget'') (turn_budget lane)"
    "field (?entries @ [(lit ''manifest_hash'', JStr h)]) ''executions'' = JList (map receipt_json receipts)"
    "field (?entries @ [(lit ''manifest_hash'', JStr h)]) ''packet_hashes'' = JList (map JStr (sort hashes))"
    "field (?entries @ [(lit ''manifest_hash'', JStr h)]) ''manifest_hash'' = JStr h"
    by (simp_all add: manifest_fields_def field_def equals_int_def)
  have "list_all (\<lambda>h. length h = 64) (sort hashes)" using assms(4) by (simp add: list_all_iff)
  then show ?thesis
    using read_receipts_json[OF assms(1,2), of "[]"] assms(3) h(1) sized_texts
    unfolding h(2) load_manifest_def json.case
    by (simp only: keys fields del demand_def hashed_def) simp
qed

subsection \<open>Finished runs\<close>

lemma read_all_mirrored:
  assumes "mirrored s" "read_all (rs_files s) = Inr ps"
  shows "set ps = snd ` set (rs_checkpoint s)" "length ps = length (rs_files s)"
proof -
  from assms have files: "distinct (map fst (rs_files s))"
    "map_of (rs_files s) = (\<lambda>n. map_option Inr (map_of (rs_checkpoint s) n))" "distinct (map fst (rs_checkpoint s))"
    by (simp_all add: mirrored_def)
  have ps: "map snd (sort_key fst (rs_files s)) = map Inr ps"
    using assms(2) unfolding read_all_def map_exn_Inr by (induction rule: list_all2_induct) auto
  from arg_cong[OF ps, of length] show "length ps = length (rs_files s)" by simp
  have "(n, x) \<in> set (rs_files s) \<longleftrightarrow> (\<exists>p. x = Inr p \<and> (n, p) \<in> set (rs_checkpoint s))" for n x
  proof -
    have "(n, x) \<in> set (rs_files s) \<longleftrightarrow> map_option Inr (map_of (rs_checkpoint s) n) = Some x"
      by (simp only: map_of_eq_Some_iff[OF files(1), symmetric] files(2))
    also have "\<dots> \<longleftrightarrow> (\<exists>p. x = Inr p \<and> map_of (rs_checkpoint s) n = Some p)" by auto
    finally show ?thesis by (simp only: map_of_eq_Some_iff[OF files(3)])
  qed
  then have "snd ` set (rs_files s) = Inr ` snd ` set (rs_checkpoint s)" by force
  moreover have "snd ` set (rs_files s) = Inr ` set ps"
    using arg_cong[OF ps, of set] by simp
  ultimately show "set ps = snd ` set (rs_checkpoint s)"
    using inj_image_eq_iff[of "Inr :: ResultPacket \<Rightarrow> check_error + ResultPacket" "set ps" "snd ` set (rs_checkpoint s)"] by simp
qed


lemma begin_mirrored:
  assumes "begin_run rt cm dir = Inr (exact, s)" "distinct (map fst (rs_files dir))"
  shows "mirrored s"
proof -
  from assms(1) obtain receipts packets where load: "load_run rt cm exact dir = Inr (receipts, packets)"
    and s: "rs_files s = rs_files dir" "rs_checkpoint s = zip (map fst (sort_key fst (rs_files dir))) packets"
    by (rule begin_run_parts)
  show ?thesis
  proof (cases "rs_files dir = []")
    case True
    then show ?thesis using s by (simp add: mirrored_def fun_eq_iff)
  next
    case False
    with load obtain content m recorded where read: "read_all (rs_files dir) = Inr packets"
      and m: "load_manifest rt (cm_lane cm) (cm_catalog cm) exact m = Inr (receipts, recorded)"
      and same: "rp_packet_hash ` set packets = set recorded"
      by (auto simp: load_run_def and_then_Inr demand_Inr split: if_splits option.splits)
    from m obtain hashes where "map_exn sized_text hashes = Inr recorded" by (rule load_manifest_parts)
    then have "list_all (\<lambda>h. length h = 64) recorded"
      by (rule map_exn_all) (auto simp: sized_text_def split: json.splits if_splits)
    with same have sizes: "\<forall>p \<in> set packets. length (rp_packet_hash p) = 64" by (auto simp: list_all_iff)
    let ?fs = "sort_key fst (rs_files dir)"
    have ps: "map snd ?fs = map Inr packets"
      using read unfolding read_all_def map_exn_Inr by (induction rule: list_all2_induct) auto
    have names: "distinct (map fst ?fs)" using assms(2) by (rule distinct_map_fst_sort[THEN iffD2])
    have "?fs = zip (map fst ?fs) (map Inr packets)" by (simp add: ps[symmetric] zip_map_fst_snd)
    also have "\<dots> = map (map_prod id Inr) (zip (map fst ?fs) packets)" by (simp add: zip_map2 map_prod_def)
    finally have fs: "?fs = map (map_prod id Inr) (zip (map fst ?fs) packets)" .
    have "map_of (rs_files dir) = map_of ?fs"
      using map_of_inject_set[OF assms(2) names] by simp
    moreover have "map_of ?fs = (\<lambda>n. map_option Inr (map_of (zip (map fst ?fs) packets) n))"
      by (subst fs) (simp add: map_prod_def map_of_map comp_def)
    moreover have "distinct (map fst (zip (map fst ?fs) packets))"
      using names arg_cong[OF ps, of length] by (simp add: map_fst_zip)
    ultimately show ?thesis
      using s assms(2) sizes by (auto simp: mirrored_def dest: set_zip_rightD)
  qed
qed

lemma begin_receipts: "begin_run rt cm dir = Inr (exact, s) \<Longrightarrow> receipts_ok s"
  by (erule begin_run_parts)
    (auto simp: receipts_ok_def load_run_def and_then_Inr split: if_splits option.splits elim!: load_manifest_parts
      dest: read_receipts_ok)

lemma admitted_lane: "packet_admitted cat lane (Some h) [] p \<Longrightarrow> rp_lane p = lane \<and> rp_candidate_hash p = h"
  by (auto simp: packet_admitted_def Let_def split: list.splits)

text \<open>The last steps of a run that gives a report.\<close>

lemma finished_run:
  assumes "run_body rt cm exact s = (Inr report, t)"
  obtains ps m where "read_all (rs_files t) = Inr ps" "rs_manifest t = Some (Inr m)"
    "manifest_payload rt (cm_lane cm) (cm_catalog cm) exact (rs_receipts t) (map (rp_packet_hash \<circ> snd) (rs_checkpoint t)) = Inr m"
    "grade_packets (cm_catalog cm) ps (cm_lane cm) (Some exact) = Inr report"
  using assms
  by (auto simp: run_body_def run_bind_def run_get_def run_check_def run_update_def checkpoint_manifest_def
      split: prod.splits sum.splits)



subsection \<open>Two runs\<close>

definition sample_campaign :: "ustr list \<Rightarrow> answer \<Rightarrow> campaign" where
  "sample_campaign registered a =
     \<lparr>cm_catalog = small_catalog, cm_lane = lit ''rc'', cm_candidate = rp_candidate sample_arguments,
      cm_profile_id = lit ''fable'', cm_resume = False, cm_registered = registered, cm_answers = (\<lambda>_. a),
      cm_requested = [], cm_max_trials = 3\<rparr>"

definition fresh_directory :: directory where
  "fresh_directory = \<lparr>rs_files = [], rs_manifest = None\<rparr>"

lemma sample_candidate: "candidate_ok (rp_candidate sample_arguments)"
  using sample_content by (simp add: content_ok_def)

lemma sample_run_candidate [simp]: "run_candidate (sample_campaign registered a) = rp_candidate sample_arguments"
  by (simp add: run_candidate_def sample_campaign_def small_catalog_def sample_catalog_def sample_arguments_def)

lemma sample_run_fields [simp]:
  "cm_catalog (sample_campaign registered a) = small_catalog" "cm_lane (sample_campaign registered a) = lit ''rc''"
  "cm_profile_id (sample_campaign registered a) = lit ''fable''" "\<not> cm_resume (sample_campaign registered a)"
  "cm_registered (sample_campaign registered a) = registered" "cm_answers (sample_campaign registered a) = (\<lambda>_. a)"
  "cm_requested (sample_campaign registered a) = []" "cm_max_trials (sample_campaign registered a) = 3"
  by (simp_all add: sample_campaign_def)

lemma sample_begins:
  obtains exact s where "begin_run sample_rt (sample_campaign registered a) fresh_directory = Inr (exact, s)"
    "s = \<lparr>rs_files = [], rs_manifest = None, rs_receipts = [], rs_used = 0, rs_calls = [], rs_outcomes = [], rs_bundles = [],
       rs_checkpoint = [], rs_targets = [], rs_packets = []\<rparr>" "is_hex64 exact"
    "candidate_hash sample_rt (rp_candidate sample_arguments) = Inr exact"
proof -
  from sample_candidate obtain exact where "candidate_hash sample_rt (rp_candidate sample_arguments) = Inr exact"
    by (rule candidate_hash_total)
  then show ?thesis
    by (intro that) (auto simp: begin_run_def fresh_directory_def demand_def hashed_def load_run_def
      turns_used_def candidate_hash_def dest: sha256_value_shape)
qed

lemma sample_selected:
  "List.product (selected (sample_campaign registered a)) PATH_NAMES =
     map (Pair (sample_capability ''v2_non_soak'' 0)) [''positive'', ''denial'', ''recovery'']"
  by (simp add: selected_def small_catalog_def sample_catalog_def for_lane_def PATH_NAMES_def)
    (simp add: sample_capability_def)

lemma sample_required:
  "path_required (cap_path (sample_capability ''v2_non_soak'' 0) path) \<longleftrightarrow> path = ''positive''"
  by (simp add: cap_path_def sample_capability_def sample_paths)

lemma sample_policy_read: "policy_triggers (sample_policy 1) = Inr []" "policy_consecutive (sample_policy 1) = 1"
  by (simp_all add: policy_triggers_def sample_policy_def has_key_def field_def policy_consecutive_def)

text \<open>
  An executor that spends seven turns and answers with billing evidence no packet may carry: the
  run ends with an error, and the turns are in the ledger.
\<close>

definition unsafe_outcome :: ExecutionOutcome where
  "unsafe_outcome = executor_not_registered\<lparr>eo_billing := lit ''unsafe'', eo_turn_count := JInt 7\<rparr>"

definition spending_campaign :: campaign where
  "spending_campaign = sample_campaign [lit ''exec''] (Returns (OutcomeResult unsafe_outcome))"

lemma unsafe_receipt:
  assumes "is_hex64 exact"
  obtains receipt where "execution_receipt sample_rt exact (lit ''exec'') (Some (lit ''positive'')) 1 (OutcomeResult unsafe_outcome) = Inr receipt"
    "rc_turn_count receipt = 7"
proof -
  have plain: "list_all (\<lambda>n. is_ascii (lit n)) [''candidate_hash'', ''execution_id'', ''scope'', ''path'', ''trial_index'', ''turn_count'', ''outcome'',
      ''exec'', ''positive'', ''unsafe'', ''PENDING'', ''executor_not_registered'', ''classification'', ''billing_classification'',
      ''normalized_events'', ''primary_proof_hash'', ''secondary_proof_hash'', ''silent_fallback'', ''invariant_violations'', ''reason_code'']"
    by (simp add: is_ascii_def lit_def)
  have "hashable_json (outcome_fingerprint unsafe_outcome)"
    using plain by (simp add: outcome_fingerprint_def unsafe_outcome_def executor_not_registered_def class_of_def
        classification_value_def events_json_def optional_json_def dec_nat.simps MAX_INT_STR_DIGITS_def)
  then have "hashable_json (JDict [(lit ''candidate_hash'', JStr exact), (lit ''execution_id'', JStr (lit ''exec'')),
      (lit ''scope'', JStr (lit ''path'')), (lit ''path'', optional_json (Some (lit ''positive''))), (lit ''trial_index'', JInt 1),
      (lit ''turn_count'', JInt (result_turns (OutcomeResult unsafe_outcome))), (lit ''outcome'', outcome_fingerprint unsafe_outcome)])"
    using plain assms by (simp add: ascii_texts optional_json_def result_turns_def unsafe_outcome_def turns_def dec_nat.simps MAX_INT_STR_DIGITS_def)
  from sha256_value_hashable[OF this] obtain h where h: "sha256_value sample_rt (JDict [(lit ''candidate_hash'', JStr exact),
      (lit ''execution_id'', JStr (lit ''exec'')), (lit ''scope'', JStr (lit ''path'')),
      (lit ''path'', optional_json (Some (lit ''positive''))), (lit ''trial_index'', JInt 1),
      (lit ''turn_count'', JInt (result_turns (OutcomeResult unsafe_outcome))), (lit ''outcome'', outcome_fingerprint unsafe_outcome)]) = Inr h"
    by blast
  have "hashable_json (JStr (lit ''exec''))" using plain by simp
  from sha256_value_hashable[OF this] obtain k where "sha256_value sample_rt (JStr (lit ''exec'')) = Inr k" by blast
  with h show ?thesis
    by (intro that) (auto simp: execution_receipt_def hashed_def result_fingerprint_def result_turns_def unsafe_outcome_def turns_def)
qed

lemma unsafe_unbuilt: "\<exists>e. build_packet rt cm c path i unsafe_outcome = Inl e"
proof -
  have "build_packet rt cm c path i unsafe_outcome \<noteq> Inr p" for p
    unfolding build_packet_def by (auto simp: unsafe_outcome_def content_ok_def dest!: build_content)
  then show ?thesis by (cases "build_packet rt cm c path i unsafe_outcome") auto
qed

lemma spending_run:
  "\<exists>e t. run_catalog sample_rt spending_campaign fresh_directory = Inr (Inl e, t) \<and> rs_used t = 7 \<and> length (rs_calls t) = 1"
proof -
  obtain exact s where s: "begin_run sample_rt spending_campaign fresh_directory = Inr (exact, s)"
    "s = \<lparr>rs_files = [], rs_manifest = None, rs_receipts = [], rs_used = 0, rs_calls = [], rs_outcomes = [], rs_bundles = [],
       rs_checkpoint = [], rs_targets = [], rs_packets = []\<rparr>" "is_hex64 exact"
    unfolding spending_campaign_def using sample_begins by metis
  obtain receipt where receipt: "execution_receipt sample_rt exact (lit ''exec'') (Some (lit ''positive'')) 1
      (OutcomeResult unsafe_outcome) = Inr receipt" using unsafe_receipt[OF s(3)] by blast
  obtain e where e: "build_packet sample_rt spending_campaign (sample_capability ''v2_non_soak'' 0) ''positive'' 1 unsafe_outcome = Inl e"
    using unsafe_unbuilt by blast
  have c: "cap_execution_id (sample_capability ''v2_non_soak'' 0) = lit ''exec''" by (simp add: sample_capability_def)
  have cm: "cm_lane spending_campaign = lit ''rc''" "cm_registered spending_campaign = [lit ''exec'']" "cm_max_trials spending_campaign = 3"
    "cm_answers spending_campaign = (\<lambda>_. Returns (OutcomeResult unsafe_outcome))"
    by (simp_all add: spending_campaign_def)
  have "validate_executor_result (OutcomeResult unsafe_outcome) 180 = Inr ()" "result_turns (OutcomeResult unsafe_outcome) = 7"
    by (simp_all add: validate_executor_result_def demand_def outcome_valid_def unsafe_outcome_def executor_not_registered_def class_of_def
        result_turns_def turns_def)
  then have trial: "\<exists>t. obtain_packet sample_rt spending_campaign exact (sample_capability ''v2_non_soak'' 0) ''positive'' 1 1 s = (Inl e, t) \<and>
      rs_used t = 7 \<and> length (rs_calls t) = 1"
    using receipt e
    by (simp add: obtain_packet_def run_bind_def run_get_def run_executor_def run_check_def run_update_def run_return_def s(2) c cm
        Let_def call_executor_def turn_budget_def validate_runtime_campaign_def store_packet_def)
  then obtain t where t: "obtain_packet sample_rt spending_campaign exact (sample_capability ''v2_non_soak'' 0) ''positive'' 1 1 s = (Inl e, t)"
    "rs_used t = 7 \<and> length (rs_calls t) = 1" by blast
  have "run_trials sample_rt spending_campaign exact (sample_capability ''v2_non_soak'' 0) ''positive'' 3 1 1 s = (Inl e, t)"
    unfolding numeral_3_eq_3 run_trials.simps using t(1) by (simp add: run_bind_def)
  moreover have "rs_targets s = []" by (simp add: s(2))
  ultimately have "run_body sample_rt spending_campaign exact s = (Inl e, t)"
    unfolding run_body_def sample_selected[of "[lit ''exec'']" "Returns (OutcomeResult unsafe_outcome)", folded spending_campaign_def]
    by (simp add: run_bind_def run_path_def sample_required run_check_def sample_policy_read run_get_def cm first_target_def)
  with t(2) have "run_body sample_rt spending_campaign exact s = (Inl e, t) \<and> rs_used t = 7 \<and> length (rs_calls t) = 1" by simp
  with s(1) show ?thesis by (auto simp: run_catalog_def)
qed

theorem turn_budget_kept_witness:
  "\<exists>e t. run_catalog sample_rt spending_campaign fresh_directory = Inr (Inl e, t) \<and> turns_used (rs_receipts t) = 7 \<and> 7 \<le> turn_budget (lit ''rc'')"
proof -
  obtain e t where t: "run_catalog sample_rt spending_campaign fresh_directory = Inr (Inl e, t)" "rs_used t = 7"
    using spending_run by blast
  with turn_budget_kept[OF t(1)] show ?thesis by (auto simp: spending_campaign_def)
qed

theorem trial_executed_once_witness:
  "\<exists>e t. run_catalog sample_rt spending_campaign fresh_directory = Inr (Inl e, t) \<and> length (rs_calls t) = 1 \<and> distinct (map fst (rs_calls t))"
  using spending_run trial_executed_once by blast

lemma manifest_total:
  assumes "list_all is_ascii [lane, cat_contract_hash cat, cat_catalog_hash cat, exact]" "list_all is_ascii hashes"
    "list_all (hashable_json \<circ> receipt_json) receipts"
  obtains m where "manifest_payload rt lane cat exact receipts hashes = Inr m" "hashable_json m"
proof -
  have "list_all (\<lambda>n. is_ascii (lit n)) MANIFEST_FIELDS"
    by (simp add: MANIFEST_FIELDS_def is_ascii_def lit_def)
  moreover have "length (dec_nat (nat \<bar>turn_budget lane\<bar>)) \<le> MAX_INT_STR_DIGITS" "length (dec_nat (nat \<bar>1\<bar>)) \<le> MAX_INT_STR_DIGITS"
    by (simp_all add: turn_budget_def dec_nat.simps MAX_INT_STR_DIGITS_def)
  ultimately have entries: "hashable_json (JDict (manifest_fields lane cat exact receipts hashes))"
    using assms by (simp add: manifest_fields_def MANIFEST_FIELDS_def list_all_iff)
  from sha256_value_hashable[OF this] obtain h where h: "sha256_value rt (JDict (manifest_fields lane cat exact receipts hashes)) = Inr h"
    by blast
  then show ?thesis using entries ascii_texts(1)[OF sha256_value_shape[OF h]]
    by (intro that[of "JDict (manifest_fields lane cat exact receipts hashes @ [(lit ''manifest_hash'', JStr h)])"])
      (simp_all add: manifest_payload_def hashed_def, simp add: is_ascii_def lit_def)
qed

lemma zero_digest_text: "is_ascii zero_digest" "length zero_digest = 64"
  by (simp_all add: zero_digest_def is_ascii_def list_all_iff)

text \<open>A run without executors: its one packet is pending, and the run ends with a report.\<close>

definition idle_campaign :: campaign where "idle_campaign = sample_campaign [] ReturnsOther"

lemma idle_built:
  obtains p where "build_packet sample_rt idle_campaign (sample_capability ''v2_non_soak'' 0) ''positive'' 1 executor_not_registered = Inr p"
    "rp_classification p = PENDING" "packet_admitted small_catalog (lit ''rc'') (Some exact) [] p \<longleftrightarrow> rp_candidate_hash p = exact"
    "candidate_hash sample_rt (rp_candidate sample_arguments) = Inr (rp_candidate_hash p)" "is_hex64 (rp_packet_hash p)"
proof -
  let ?a = "\<lparr>rp_capability_id = lit ''v2_non_soak'', rp_source_pack = lit ''v2_non_soak'', rp_lane = lit ''rc'', rp_path = lit ''positive'',
     rp_execution_id = lit ''exec'', rp_classification = PENDING, rp_contract_hash = zero_digest, rp_candidate = rp_candidate sample_arguments,
     rp_profile_id = lit ''fable'', rp_candidate_hash = [], rp_billing = lit ''none'', rp_turn_count = 0, rp_trial_index = 1,
     rp_events = [], rp_trace_hash = [], rp_primary = None, rp_secondary = None,
     rp_reason_code = Some (lit ''executor_not_registered''), rp_packet_hash = []\<rparr>"
  have ids: "list_all (\<lambda>s. fullmatch SAFE_ID (lit s)) [''v2_non_soak'', ''exec'', ''fable'', ''executor_not_registered'']"
    by (simp add: fullmatch_SAFE_ID lit_def is_alnum_def is_digit_def is_upper_def is_lower_def safe_id_char_def chars_def)
  have hex: "is_hex64 zero_digest"
    by (simp add: zero_digest_def is_hex64_def list_all_iff hex_digest_char_def is_digit_def)
  have "events_ok []" "terminal_fits PENDING []"
    by (simp_all add: events_ok_def events_json_def terminal_fits_def)
  then have "content_ok ?a"
    using ids hex sample_candidate by (simp add: content_ok_def proofs_present_def)
  from build_accepts[OF this, of sample_rt] obtain p where p: "build sample_rt False [] ?a = Inr p" "built_from sample_rt ?a p"
    by (auto simp: events_json_def dec_nat.simps MAX_INT_STR_DIGITS_def)
  from p(2) have eq: "p = ?a\<lparr>rp_candidate_hash := rp_candidate_hash p, rp_trace_hash := rp_trace_hash p,
      rp_packet_hash := rp_packet_hash p\<rparr>" and ok: "packet_ok sample_rt p" by (simp_all only: built_from_def)
  have same: "rp_classification p = PENDING" "rp_capability_id p = lit ''v2_non_soak''" "rp_source_pack p = lit ''v2_non_soak''"
    "rp_lane p = lit ''rc''" "rp_execution_id p = lit ''exec''" "rp_contract_hash p = zero_digest" "rp_path p = lit ''positive''"
    "rp_candidate p = rp_candidate sample_arguments"
    by (subst eq, simp)+
  have cap: "cap_execution_id (sample_capability ''v2_non_soak'' 0) = lit ''exec''" "cap_lane (sample_capability ''v2_non_soak'' 0) = lit ''rc''"
    by (simp_all add: sample_capability_def)
  have "build_packet sample_rt idle_campaign (sample_capability ''v2_non_soak'' 0) ''positive'' 1 executor_not_registered = Inr p"
    using p(1) by (simp add: build_packet_def idle_campaign_def executor_not_registered_def cap class_of_def
        turns_def small_catalog_def sample_catalog_def)
  moreover have "cd_catalog_hash (rp_candidate sample_arguments) = zero_digest" by (simp add: sample_arguments_def)
  moreover have hash: "is_hex64 (rp_packet_hash p)" "candidate_hash sample_rt (rp_candidate p) = Inr (rp_candidate_hash p)"
    using ok by (auto simp: packet_ok_def)
  ultimately show ?thesis
    using same cap by (intro that) (simp_all add: packet_admitted_def small_catalog_def sample_catalog_def)
qed

lemma idle_run:
  "\<exists>r t. run_catalog sample_rt idle_campaign fresh_directory = Inr (Inr r, t) \<and> length (rs_files t) = 1 \<and> rs_receipts t = []"
proof -
  obtain exact s where s: "begin_run sample_rt idle_campaign fresh_directory = Inr (exact, s)"
    "s = \<lparr>rs_files = [], rs_manifest = None, rs_receipts = [], rs_used = 0, rs_calls = [], rs_outcomes = [], rs_bundles = [],
       rs_checkpoint = [], rs_targets = [], rs_packets = []\<rparr>" "is_hex64 exact"
    "candidate_hash sample_rt (rp_candidate sample_arguments) = Inr exact"
    unfolding idle_campaign_def using sample_begins by metis
  obtain p where p: "build_packet sample_rt idle_campaign (sample_capability ''v2_non_soak'' 0) ''positive'' 1 executor_not_registered = Inr p"
    "rp_classification p = PENDING" "packet_admitted small_catalog (lit ''rc'') (Some exact) [] p \<longleftrightarrow> rp_candidate_hash p = exact"
    "candidate_hash sample_rt (rp_candidate sample_arguments) = Inr (rp_candidate_hash p)" "is_hex64 (rp_packet_hash p)"
    using idle_built by blast
  have cm: "cm_lane idle_campaign = lit ''rc''" "cm_registered idle_campaign = []" "cm_max_trials idle_campaign = 3"
    "cm_catalog idle_campaign = small_catalog"
    by (simp_all add: idle_campaign_def)
  obtain m where m: "manifest_payload sample_rt (lit ''rc'') small_catalog exact [] [rp_packet_hash p] = Inr m"
    using manifest_total[of "lit ''rc''" small_catalog exact "[rp_packet_hash p]" "[]" sample_rt] ascii_texts(1)[OF s(3)]
      ascii_texts(1)[OF p(5)] zero_digest_text
    by (auto simp: small_catalog_def sample_catalog_def is_ascii_def lit_def)
  let ?name = "result_path (sample_capability ''v2_non_soak'' 0) ''positive'' 1"
  define t where "t = s\<lparr>rs_files := [(?name, Inr p)], rs_checkpoint := [(?name, p)], rs_manifest := Some (Inr m)\<rparr>"
  have "obtain_packet sample_rt idle_campaign exact (sample_capability ''v2_non_soak'' 0) ''positive'' 1 1 s = (Inr (p, 1), t)"
    using p(1) m by (simp add: obtain_packet_def run_bind_def run_get_def run_check_def run_update_def run_return_def s(2) cm
        Let_def store_packet_def write_packet_def checkpoint_manifest_def t_def)
  then have "run_trials sample_rt idle_campaign exact (sample_capability ''v2_non_soak'' 0) ''positive'' 3 1 1 s =
      (Inr (), t\<lparr>rs_packets := [p]\<rparr>)"
    unfolding numeral_3_eq_3 run_trials.simps
    by (simp add: run_bind_def run_update_def run_return_def p(2) t_def s(2))
  moreover have "rs_targets s = []" by (simp add: s(2))
  ultimately have paths: "run_each (run_path sample_rt idle_campaign exact) (List.product (selected idle_campaign) PATH_NAMES) s =
      (Inr [(), (), ()], t\<lparr>rs_packets := [p]\<rparr>)"
    unfolding sample_selected[of "[]" ReturnsOther, folded idle_campaign_def]
    by (simp add: run_bind_def run_path_def sample_required run_check_def sample_policy_read run_get_def cm first_target_def run_return_def)
  have read: "read_all (rs_files t) = Inr [p]" by (simp add: t_def read_all_def)
  have "rp_candidate_hash p = exact" using p(4) s(4) by simp
  then have "\<exists>r. grade_packets small_catalog [p] (lit ''rc'') (Some exact) = Inr r"
    using p(3) by (intro grade_total) (auto simp: small_catalog_def dest: sample_triggers)
  then obtain r where r: "grade_packets small_catalog [p] (lit ''rc'') (Some exact) = Inr r" by blast
  have kept: "rs_files (t\<lparr>rs_packets := [p]\<rparr>) = rs_files t" "rs_receipts (t\<lparr>rs_packets := [p]\<rparr>) = []"
    "rs_checkpoint (t\<lparr>rs_packets := [p]\<rparr>) = [(?name, p)]" by (simp_all add: t_def s(2))
  have "run_body sample_rt idle_campaign exact s = (Inr r, t\<lparr>rs_packets := [p], rs_manifest := Some (Inr m)\<rparr>)"
    unfolding run_body_def run_bind_def paths
    by (simp add: run_get_def run_check_def checkpoint_manifest_def run_bind_def kept read cm m r run_update_def)
  with s(1) show ?thesis by (auto simp: run_catalog_def t_def s(2))
qed



subsection \<open>Gaps of the ledger\<close>

text \<open>
  The runtime campaign has to bind exactly 100 turns when it passes, but the check compares with
  \<^verbatim>\<open>is\<close>, and an executor may answer with the string values of the enumeration, which every
  other check accepts: such a campaign passes with a single turn.
\<close>

definition text_outcome :: "string \<Rightarrow> json \<Rightarrow> ExecutionOutcome" where
  "text_outcome c n = executor_not_registered\<lparr>eo_classification := Text (lit c), eo_turn_count := n, eo_reason_code := None\<rparr>"

definition text_bundle :: ExecutionBundle where
  "text_bundle = \<lparr>eb_outcomes = [(lit ''positive'', Some (text_outcome ''COMPLETE'' (JInt 1))),
       (lit ''denial'', Some (text_outcome ''EXPECTED_NEGATIVE'' (JInt 0))),
       (lit ''recovery'', Some (text_outcome ''COMPLETE'' (JInt 0)))], eb_turn_count = JInt 1\<rparr>"

lemma text_campaign_passes:
  "validate_executor_result (BundleResult text_bundle) 100 = Inr () \<and>
   validate_runtime_campaign (BundleResult text_bundle) (lit ''runtime'') (lit ''runtime-active-100-turn'') = Inr () \<and>
   list_all (\<lambda>(path, out). class_of (eo_classification (the out)) \<in> {Some COMPLETE, Some EXPECTED_NEGATIVE}) (eb_outcomes text_bundle) \<and>
   result_turns (BundleResult text_bundle) = 1"
proof -
  have "class_of (Text (lit ''COMPLETE'')) = Some COMPLETE" "class_of (Text (lit ''EXPECTED_NEGATIVE'')) = Some EXPECTED_NEGATIVE"
    by (simp_all add: class_of_def classification_of_def classification_value_def lit_def)
  then show ?thesis
    by (simp add: text_bundle_def text_outcome_def validate_executor_result_def bundle_valid_def outcome_valid_def demand_def
        turns_def result_turns_def validate_runtime_campaign_def campaign_passing_def bundle_outcome_def PATH_NAMES_def insert_commute lit_def)
qed

text \<open>
  An executor that answers with more turns than it was given has spent them, but the run ends
  before its receipt: a resumed run starts from the smaller count and may call it again.
\<close>

lemma overspent_turns_unrecorded:
  assumes "cm_answers cm (length (rs_calls s)) = Returns r" "result_turns r > turn_budget (cm_lane cm) - rs_used s"
    "run_executor rt cm exact c path trial_index s = (x, t)"
  shows "x = Inl Violation \<and> rs_receipts t = rs_receipts s \<and> rs_used t = rs_used s \<and> length (rs_calls t) = length (rs_calls s) + 1"
  using assms by (auto simp: run_executor_def run_bind_def run_get_def run_update_def run_check_def Let_def call_executor_def
      validate_executor_result_def demand_def)

end
