(* ===== verification/Json_Files.thy ===== *)
theory Json_Files
  imports Json_Grammar Parity_Resume
begin

section \<open>The files of a parity run (parity/runner.py, parity/results.py)\<close>

text \<open>
  The run manifest and the result packets are written as indented text with sorted keys, a final
  new line and UTF-8, and are read back through the text layer of Python, which translates every
  kind of line end. A written file gives back the same tree with sorted keys, so a manifest gives
  back its receipts; the bound on the size of a file that is read is not part of these
  definitions, nor is the translation of the reader's exceptions.
\<close>

text \<open>What \<^verbatim>\<open>_write_manifest\<close> and \<^verbatim>\<open>ResultPacket.write\<close> put into the file.\<close>

definition json_file :: "pyrt \<Rightarrow> json \<Rightarrow> exn + nat list" where
  "json_file rt payload =
     and_then (json_indent rt 0 payload) (\<lambda>t.
       case utf8_encode (t @ [10]) of None \<Rightarrow> Inl ValueError | Some bs \<Rightarrow> Inr bs)"

fun newlines :: "bool \<Rightarrow> ustr \<Rightarrow> ustr" where
  "newlines after_cr [] = []"
| "newlines after_cr (c # s) =
     (if c = 13 then 10 # newlines True s
      else if c = 10 \<and> after_cr then newlines False s
      else c # newlines False s)"

abbreviation universal_newlines :: "ustr \<Rightarrow> ustr" where "universal_newlines \<equiv> newlines False"

text \<open>\<^verbatim>\<open>json.loads(path.read_text(encoding="utf-8"))\<close>, and \<^verbatim>\<open>json_compatible\<close> of it.\<close>

definition read_json_file :: "pyrt \<Rightarrow> nat list \<Rightarrow> exn + json" where
  "read_json_file rt content =
     (case utf8_decode content of None \<Rightarrow> Inl ValueError
      | Some s \<Rightarrow> json_loads rt no_hooks (universal_newlines s))"

fun finite_json :: "json \<Rightarrow> bool" where
  "finite_json (JFloat f) = (case f of FFin r \<Rightarrow> True | _ \<Rightarrow> False)"
| "finite_json (JList js) = list_all finite_json js"
| "finite_json (JDict d) = list_all (\<lambda>p. finite_json (snd p)) d"
| "finite_json _ = True"

definition read_manifest_file :: "pyrt \<Rightarrow> nat list \<Rightarrow> exn + json" where
  "read_manifest_file rt content =
     and_then (read_json_file rt content) (\<lambda>j. if finite_json j then Inr j else Inl TypeError)"

subsection \<open>The characters of a written text\<close>

fun json_chars :: "json \<Rightarrow> bool" where
  "json_chars (JStr s) = code_points s"
| "json_chars (JList js) = list_all json_chars js"
| "json_chars (JDict d) = list_all (\<lambda>p. code_points (fst p) \<and> json_chars (snd p)) d"
| "json_chars _ = True"

definition plain_text :: "ustr \<Rightarrow> bool" where
  "plain_text s \<longleftrightarrow> list_all (\<lambda>c. (c = 10 \<or> 32 \<le> c) \<and> c < 1114112) s"

lemma plain_text_simps [simp]:
  "plain_text []" "plain_text (c # s) \<longleftrightarrow> (c = 10 \<or> 32 \<le> c) \<and> c < 1114112 \<and> plain_text s"
  "plain_text (s @ t) \<longleftrightarrow> plain_text s \<and> plain_text t"
  by (auto simp: plain_text_def)

lemma plain_join: "plain_text sep \<Longrightarrow> list_all plain_text ts \<Longrightarrow> plain_text (py_join sep ts)"
  by (induction sep ts rule: py_join.induct) auto

lemma plain_dec_int: "plain_text (dec_int i)"
proof -
  have "plain_text (dec_nat n)" for n
    using dec_nat_digits[of n] by (fastforce simp: plain_text_def is_digit_def list_all_iff)
  then show ?thesis by (simp add: dec_int_def)
qed

lemma plain_quote: "code_points s \<Longrightarrow> plain_text (quote_text s)"
proof -
  have "plain_text (escape_char c)" if "c < 1114112" for c
    using that by (auto simp: escape_char_def hex_digit_def)
  then show "code_points s \<Longrightarrow> plain_text (quote_text s)"
    by (auto simp: quote_text_def code_points_def list_all_iff plain_text_def)
qed

lemma plain_new_line [simp]: "plain_text (new_line n)"
  by (simp add: new_line_def plain_text_def list_all_iff)

lemma indent_plain: "json_indent rt level j = Inr t \<Longrightarrow> json_chars j \<Longrightarrow> no_floats j \<Longrightarrow> plain_text t"
proof (induction j arbitrary: level t)
  case (JList js)
  show ?case
  proof (cases "js = []")
    case True
    with JList.prems show ?thesis by auto
  next
    case False
    with JList.prems obtain ts where ts: "map_exn (json_indent rt (Suc level)) js = Inr ts"
      and t: "t = [91] @ new_line (Suc level) @ py_join (44 # new_line (Suc level)) ts @ new_line level @ [93]" by auto
    have "list_all2 (\<lambda>j t. plain_text t) (map id js) ts"
      by (rule map_exn_list_all2[OF ts]) (use JList in \<open>auto simp: list_all_iff\<close>)
    then have "list_all plain_text ts" by (auto simp: list_all2_conv_all_nth list_all_length)
    then show ?thesis by (simp add: t plain_join)
  qed
next
  case (JDict d)
  show ?case
  proof (cases "d = []")
    case True
    with JDict.prems show ?thesis by auto
  next
    case False
    let ?f = "\<lambda>p. map_sum id (\<lambda>t. quote_text (fst p) @ [58, 32] @ t) (json_indent rt (Suc level) (snd p))"
    from False JDict.prems obtain ts where ts: "map_exn ?f (sort_key fst d) = Inr ts"
      and t: "t = [123] @ new_line (Suc level) @ py_join (44 # new_line (Suc level)) ts @ new_line level @ [125]" by auto
    have "list_all2 (\<lambda>p t. plain_text t) (map id (sort_key fst d)) ts"
    proof (rule map_exn_list_all2[OF ts])
      fix p u assume p: "p \<in> set (sort_key fst d)" "?f p = Inr u"
      obtain k j where kj: "p = (k, j)" by (cases p)
      with p JDict.prems have "(k, j) \<in> set d" "code_points k" "json_chars j" "no_floats j" by (auto simp: list_all_iff)
      moreover from p kj obtain v where v: "json_indent rt (Suc level) j = Inr v" "u = quote_text k @ [58, 32] @ v"
        by (auto split: sum.splits)
      ultimately have "plain_text v" by (intro JDict.IH[of "(k, j)" j "Suc level"]) auto
      with v \<open>code_points k\<close> show "plain_text u" by (simp add: plain_quote)
    qed
    then have "list_all plain_text ts" by (auto simp: list_all2_conv_all_nth list_all_length)
    then show ?thesis by (simp add: t plain_join)
  qed
qed (auto simp: plain_quote py_str_int_def plain_dec_int lit_def split: if_splits)

lemma newlines_plain: "plain_text s \<Longrightarrow> universal_newlines s = s"
  by (induction s) auto

lemma no_hooks_build: "builds_objects no_hooks"
proof -
  have "fold (\<lambda>p d. dict_set (fst p) (snd p) d) ps acc = acc @ ps"
    if "distinct (map fst (acc @ ps))" for ps acc :: "(ustr \<times> json) list"
    using that
  proof (induction ps arbitrary: acc)
    case (Cons p ps)
    then have "dict_set (fst p) (snd p) acc = acc @ [p]" by (cases p) (simp add: dict_set_fresh)
    with Cons show ?case by simp
  qed simp
  from this[of "[]"] show ?thesis by (simp add: builds_objects_def no_hooks_def dict_of_pairs_def)
qed

lemma file_read_back:
  assumes "json_file rt j = Inr bs" "json_wf j" "no_floats j" "json_chars j" "json_depth j < rt_json_depth rt"
  shows "read_json_file rt bs = Inr (sort_json j)"
proof -
  from assms(1) obtain t where t: "json_indent rt 0 j = Inr t" "utf8_encode (t @ [10]) = Some bs"
    by (auto simp: json_file_def and_then_Inr split: option.splits)
  have plain: "plain_text (t @ [10])" using indent_plain[OF t(1) assms(4,3)] by simp
  then have "code_points (t @ [10])" by (auto simp: plain_text_def code_points_def list_all_iff)
  with t(2) have "utf8_decode bs = Some (t @ [10])" by (rule utf8_roundtrip)
  then have "read_json_file rt bs = json_loads rt no_hooks (t @ [10])"
    by (simp add: read_json_file_def newlines_plain[OF plain])
  then show ?thesis using printed_read[OF _ assms(2,3,5) no_hooks_build, of False t "[10]"] t(1) by (simp add: json_space_def)
qed

text \<open>A tree that has a hash has a file.\<close>

lemma ascii_plain: "is_ascii s \<Longrightarrow> code_points s"
  by (auto simp: is_ascii_def code_points_def list_all_iff)

lemma hashable_chars: "hashable_json j \<Longrightarrow> json_chars j"
  by (induction j) (auto simp: list_all_iff ascii_plain)

lemma new_line_ascii [simp]: "is_ascii (new_line n)"
  by (simp add: new_line_def is_ascii_def list_all_iff)

lemma is_ascii_Cons [simp]: "is_ascii (c # s) \<longleftrightarrow> c < 128 \<and> is_ascii s"
  by (simp add: is_ascii_def)

lemma indent_hashable: "hashable_json j \<Longrightarrow> \<exists>t. json_indent rt level j = Inr t \<and> is_ascii t"
proof (induction j arbitrary: level)
  case (JInt i)
  then show ?case by (auto simp: py_str_int_def dec_int_def is_ascii_dec_nat)
next
  case (JList js)
  then obtain ts where "map_exn (json_indent rt (Suc level)) js = Inr ts" "list_all is_ascii ts"
    using map_exn_total[of js "json_indent rt (Suc level)" is_ascii] by (fastforce simp: list_all_iff)
  moreover have "is_ascii []" by (simp add: is_ascii_def)
  ultimately show ?case using is_ascii_join[of "44 # new_line (Suc level)" ts] by auto
next
  case (JDict d)
  let ?f = "\<lambda>p. map_sum id (\<lambda>t. quote_text (fst p) @ [58, 32] @ t) (json_indent rt (Suc level) (snd p))"
  have nil: "is_ascii []" by (simp add: is_ascii_def)
  have one: "\<exists>s. ?f p = Inr s \<and> is_ascii s" if p: "p \<in> set (sort_key fst d)" for p
  proof -
    obtain k v where kv: "p = (k, v)" by (cases p)
    with p JDict.prems have "is_ascii k" "hashable_json v" by (auto simp: list_all_iff)
    moreover from this obtain s where "json_indent rt (Suc level) v = Inr s" "is_ascii s"
      using JDict.IH[of p v "Suc level"] p kv by auto
    ultimately show ?thesis using kv is_ascii_quote[of k] nil by auto
  qed
  from map_exn_total[of "sort_key fst d" ?f is_ascii, OF this]
  obtain ts where "map_exn ?f (sort_key fst d) = Inr ts" "list_all is_ascii ts" by blast
  then show ?case using nil is_ascii_join[of "44 # new_line (Suc level)" ts] by auto
qed (auto simp: is_ascii_quote, auto simp: is_ascii_def lit_def)

lemma file_hashable: "hashable_json j \<Longrightarrow> \<exists>content. json_file rt j = Inr content"
  using indent_hashable[of j rt 0] is_ascii_append[of _ "[10]"] is_ascii_def[of "[]"]
  by (auto simp: json_file_def utf8_encode_ascii)


subsection \<open>Reading does not depend on the order of the entries\<close>

lemma sort_json_atoms [simp]:
  "sort_json v = JStr s \<longleftrightarrow> v = JStr s" "sort_json v = JNull \<longleftrightarrow> v = JNull" "sort_json v = JInt i \<longleftrightarrow> v = JInt i"
  by (cases v; simp)+

lemma checks_sorted [simp]:
  "named names (sort_json v) = named names v" "count_in lo hi (sort_json v) = count_in lo hi v"
  "sized_text (sort_json v) = sized_text v" "equals_int (sort_json v) n = equals_int v n"
  by (cases v; simp add: named_def in_names_def count_in_def sized_text_def equals_int_def)+

abbreviation sorted_entries :: "(ustr \<times> json) list \<Rightarrow> (ustr \<times> json) list" where
  "sorted_entries d \<equiv> sort_key fst (map (\<lambda>p. (fst p, sort_json (snd p))) d)"

lemma field_sorted: "distinct (map fst d) \<Longrightarrow> field (sorted_entries d) name = sort_json (field d name)"
  by (simp add: field_def map_of_sorted split: option.split)

lemma keys_sorted: "fst ` set (sorted_entries d) = fst ` set d"
  by (simp add: image_image)

lemma read_receipt_sorted: "json_wf raw \<Longrightarrow> read_receipt seen (sort_json raw) = read_receipt seen raw"
proof (cases raw)
  case (JDict d)
  assume "json_wf raw"
  then have d: "distinct (map fst d)" by (simp add: JDict)
  have fresh: "(case sort_json v of JList _ \<Rightarrow> Inl (Escapes TypeError) | JDict _ \<Rightarrow> Inl (Escapes TypeError)
      | JStr s \<Rightarrow> demand (s \<notin> set seen) | _ \<Rightarrow> Inr ()) =
    (case v of JList _ \<Rightarrow> Inl (Escapes TypeError) | JDict _ \<Rightarrow> Inl (Escapes TypeError)
      | JStr s \<Rightarrow> demand (s \<notin> set seen) | _ \<Rightarrow> Inr ())" for v
    by (cases v) simp_all
  show ?thesis
    by (simp only: JDict read_receipt_def sort_json.simps json.case field_sorted[OF d] keys_sorted checks_sorted fresh sort_json_atoms)
qed (simp_all add: read_receipt_def)

lemma read_receipts_sorted:
  "list_all json_wf raws \<Longrightarrow> read_receipts seen (map sort_json raws) = read_receipts seen raws"
  by (induction raws arbitrary: seen) (simp_all add: read_receipt_sorted cong: and_then_cong)

lemma sized_texts_sorted: "map_exn sized_text (map sort_json js) = map_exn sized_text js"
  by (induction js) (simp_all cong: sum.case_cong)

lemma dict_del_sorted: "dict_del k (sorted_entries d) = sorted_entries (dict_del k d)"
  by (simp add: dict_del_def filter_sort filter_map comp_def)

lemma load_manifest_sorted:
  assumes "json_wf m"
  shows "load_manifest rt lane cat exact (sort_json m) = load_manifest rt lane cat exact m"
proof (cases m)
  case (JDict d)
  with assms have d: "distinct (map fst d)" "\<And>k v. map_of d k = Some v \<Longrightarrow> json_wf v"
    by (auto simp: list_all_iff dest!: map_of_SomeD)
  then have wf: "json_wf (field d n)" for n by (auto simp: field_def split: option.split)
  have hash: "sha256_value rt (JDict (sorted_entries e)) = sha256_value rt (JDict e)" for e
    using sha256_value_sorted[of rt "JDict e"] by simp
  let ?read = "\<lambda>executions hashes. case (executions, hashes) of
     (JList raws, JList hashes) \<Rightarrow>
        and_then (read_receipts [] raws) (\<lambda>receipts.
        and_then (demand (turns_used receipts \<le> turn_budget lane)) (\<lambda>_.
        and_then (map_exn sized_text hashes) (\<lambda>hs. Inr (receipts, hs))))
     | _ \<Rightarrow> Inl Violation"
  have content: "?read (sort_json v) (sort_json w) = ?read v w" if "json_wf v" for v w
    using that by (cases v; cases w) (simp_all add: read_receipts_sorted sized_texts_sorted)
  show ?thesis
    by (simp only: JDict load_manifest_def sort_json.simps json.case field_sorted[OF d(1)] keys_sorted checks_sorted
        sort_json_atoms dict_del_sorted hash content[OF wf])
qed (simp_all add: load_manifest_def)

subsection \<open>The manifest file\<close>

lemma receipt_tree: "json_wf (receipt_json r)" "no_floats (receipt_json r)" "json_depth (receipt_json r) = 1"
  by (auto simp: receipt_json_def optional_json_def split: option.splits)

lemma manifest_tree:
  assumes "manifest_payload rt lane cat exact receipts hashes = Inr m"
  shows "json_wf m" "no_floats m" "json_depth m \<le> 3"
proof -
  from assms obtain h where m: "m = JDict (manifest_fields lane cat exact receipts hashes @ [(lit ''manifest_hash'', JStr h)])"
    by (auto simp: manifest_payload_def and_then_Inr Let_def)
  show "json_wf m" "no_floats m" "json_depth m \<le> 3"
    by (auto simp: m manifest_fields_def list_all_iff receipt_tree)
qed

lemma finite_no_floats: "no_floats j \<Longrightarrow> finite_json j"
  by (induction j) (auto simp: list_all_iff)

lemma no_floats_sorted: "no_floats (sort_json j) = no_floats j"
  by (induction j) (auto simp: list_all_iff)


definition sample_receipt :: Receipt where
  "sample_receipt = \<lparr>rc_id = zero_digest, rc_execution_id_hash = zero_digest, rc_scope = lit ''bundle'', rc_path = None,
     rc_trial_index = 1, rc_turn_count = 5\<rparr>"


end
