(* ===== verification/Memory_Skills.thy ===== *)
theory Memory_Skills
  imports Parity_Json
begin

section \<open>References to memory and skill tools (memory\_skills.py)\<close>

text \<open>
  From the tool schemas of the host the plugin keeps, for four read-side tools, a name and a
  hash. The hash is that of a canonical copy in which anything that is no JSON value is replaced
  by the name of its type. The recursion of the copy ends with the interpreter's frames.
\<close>

definition MEMORY_TOOL_NAMES :: "ustr list" where
  "MEMORY_TOOL_NAMES = lits [''memory'', ''session_search'']"

definition SKILL_TOOL_NAMES :: "ustr list" where
  "SKILL_TOOL_NAMES = lits [''skill_view'', ''skills_list'']"

definition READ_SIDE_TOOL_NAMES :: "ustr list" where
  "READ_SIDE_TOOL_NAMES = MEMORY_TOOL_NAMES @ SKILL_TOOL_NAMES"

subsection \<open>Canonical copies and their hash\<close>

definition tagged :: "string \<Rightarrow> json \<Rightarrow> json" where
  "tagged k j = JDict [(lit k, j)]"

text \<open>
  \<^verbatim>\<open>json.dumps\<close> with \<^verbatim>\<open>ensure_ascii\<close>: in the text without it, characters other than the
  printable ASCII ones occur in strings only.
\<close>

definition u_escape :: "nat \<Rightarrow> ustr" where
  "u_escape c = [92, 117, hex_digit (c div 4096), hex_digit (c div 256 mod 16), hex_digit (c div 16 mod 16), hex_digit (c mod 16)]"

definition ascii_char :: "nat \<Rightarrow> ustr" where
  "ascii_char c =
     (if 32 \<le> c \<and> c \<le> 126 then [c] else if c < 65536 then u_escape c
      else u_escape (55296 + (c - 65536) div 1024) @ u_escape (56320 + (c - 65536) mod 1024))"

definition dumps_ascii :: "pyrt \<Rightarrow> json \<Rightarrow> exn + ustr" where
  "dumps_ascii rt j = map_sum id (\<lambda>t. concat (map ascii_char t)) (dumps_compact rt True j)"

fun canonical_pairs ::
    "heap \<Rightarrow> (pyval \<Rightarrow> exn + json) \<Rightarrow> (pyval \<times> pyval) list \<Rightarrow> exn + (ustr \<times> json) list" where
  "canonical_pairs H f [] = Inr []"
| "canonical_pairs H f ((key, item) # items) =
     and_then (case key of PStr s \<Rightarrow> map_sum id (Pair s) (f item)
       | _ \<Rightarrow> Inr (lit ''<key:'' @ type_name H key @ lit ''>'', tagged ''__type__'' (JStr (type_name H item)))) (\<lambda>p.
     map_sum id ((#) p) (canonical_pairs H f items))"

definition sorted_pairs :: "(ustr \<times> json) list \<Rightarrow> json" where
  "sorted_pairs ps = JDict (fold (\<lambda>p d. dict_set (fst p) (snd p) d) (sort_key fst ps) [])"

definition sorted_set :: "pyrt \<Rightarrow> json list \<Rightarrow> exn + json" where
  "sorted_set rt js =
     map_sum id (\<lambda>keys. JList (map snd (sort_key fst (zip keys js)))) (map_exn (dumps_ascii rt) js)"

fun canonical_value :: "pyrt \<Rightarrow> heap \<Rightarrow> nat \<Rightarrow> pyval \<Rightarrow> exn + json" where
  "canonical_value rt H 0 v = Inl RecursionError"
| "canonical_value rt H (Suc frames) v =
     (case v of
        PNone \<Rightarrow> Inr JNull
      | PBool b \<Rightarrow> Inr (JBool b)
      | PInt i \<Rightarrow> Inr (JInt i)
      | PStr s \<Rightarrow> Inr (JStr s)
      | PFloat f \<Rightarrow>
          Inr (case f of FFin r \<Rightarrow> JFloat f
               | FInf neg \<Rightarrow> tagged ''__float__'' (JStr (if neg then lit ''-inf'' else lit ''inf''))
               | FNan \<Rightarrow> tagged ''__float__'' (JStr (lit ''nan'')))
      | PRef a \<Rightarrow>
          if is_mapping H v then
            and_then (mapping_items H v) (\<lambda>items.
              map_sum id sorted_pairs (canonical_pairs H (canonical_value rt H frames) items))
          else (case H a of
              OList xs \<Rightarrow> map_sum id JList (map_exn (canonical_value rt H frames) xs)
            | OTuple xs \<Rightarrow> map_sum id JList (map_exn (canonical_value rt H frames) xs)
            | OSet xs \<Rightarrow> and_then (map_exn (canonical_value rt H frames) xs) (sorted_set rt)
            | OBytes bs \<Rightarrow> Inr (tagged ''__bytes_length__'' (JInt (int (length bs))))
            | _ \<Rightarrow> Inr (tagged ''__type__'' (JStr (type_name H v)))))"

text \<open>The hash of a canonical copy; a surrogate raises \<^verbatim>\<open>UnicodeEncodeError\<close>.\<close>

definition hash_canonical :: "pyrt \<Rightarrow> json \<Rightarrow> exn + ustr" where
  "hash_canonical rt j =
     and_then (dumps_compact rt True j) (\<lambda>s.
       case utf8_encode s of None \<Rightarrow> Inl ValueError | Some bs \<Rightarrow> Inr (sha256_hex bs))"

definition stable_tool_schema_hash :: "pyrt \<Rightarrow> heap \<Rightarrow> nat \<Rightarrow> pyval \<Rightarrow> exn + ustr" where
  "stable_tool_schema_hash rt H frames schema = and_then (canonical_value rt H frames schema) (hash_canonical rt)"

subsection \<open>Names\<close>

text \<open>\<^verbatim>\<open>candidate.rsplit("__", 1)[-1]\<close>: what follows the last two underscores in a row.\<close>

fun after_last_mark :: "ustr \<Rightarrow> ustr option" where
  "after_last_mark (c # d # s) =
     (case after_last_mark (d # s) of
        Some t \<Rightarrow> Some t
      | None \<Rightarrow> if c = 95 \<and> d = 95 then Some s else None)"
| "after_last_mark _ = None"

definition bare_name :: "pyrt \<Rightarrow> ustr \<Rightarrow> ustr" where
  "bare_name rt raw =
     (let candidate = py_lower rt (py_strip raw)
      in case after_last_mark candidate of Some t \<Rightarrow> t | None \<Rightarrow> candidate)"

definition schema_name :: "pyrt \<Rightarrow> heap \<Rightarrow> pyval \<Rightarrow> exn + ustr option" where
  "schema_name rt H schema =
     (if \<not> is_mapping H schema then Inr None
      else and_then (mapping_get H schema ''name'') (\<lambda>raw.
           and_then (case raw of PStr _ \<Rightarrow> Inr raw
             | _ \<Rightarrow> and_then (mapping_get H schema ''function'') (\<lambda>f.
                 if is_mapping H f then mapping_get H f ''name'' else Inr raw)) (\<lambda>raw.
           Inr (case raw of
                  PStr s \<Rightarrow> let candidate = bare_name rt s
                    in if candidate \<in> set READ_SIDE_TOOL_NAMES then Some candidate else None
                | _ \<Rightarrow> None))))"

subsection \<open>References\<close>

record ToolSchemaReference =
  ts_name :: ustr
  ts_kind :: ustr
  ts_schema_hash :: ustr

record MemorySkillReferences =
  ms_references :: "ToolSchemaReference list"
  ms_schema_hash :: ustr

definition reference_key :: "ToolSchemaReference \<Rightarrow> ustr list" where
  "reference_key r = [ts_kind r, ts_name r, ts_schema_hash r]"

definition reference_json :: "ToolSchemaReference \<Rightarrow> json" where
  "reference_json r =
     JDict [(lit ''kind'', JStr (ts_kind r)), (lit ''name'', JStr (ts_name r)), (lit ''schema_hash'', JStr (ts_schema_hash r))]"

text \<open>\<^verbatim>\<open>MemorySkillReferences(references)\<close>: the payload is its own canonical copy.\<close>

definition MemorySkillReferences_of :: "pyrt \<Rightarrow> ToolSchemaReference list \<Rightarrow> exn + MemorySkillReferences" where
  "MemorySkillReferences_of rt references =
     (let ordered = sort_key reference_key references
      in map_sum id (\<lambda>h. \<lparr>ms_references = ordered, ms_schema_hash = h\<rparr>)
           (hash_canonical rt (JList (map reference_json ordered))))"

definition tool_names :: "MemorySkillReferences \<Rightarrow> ustr list" where
  "tool_names refs = map ts_name (ms_references refs)"

definition names_of_kind :: "string \<Rightarrow> MemorySkillReferences \<Rightarrow> ustr list" where
  "names_of_kind k refs = map ts_name (filter (\<lambda>r. ts_kind r = lit k) (ms_references refs))"

definition prompt_guidance :: "MemorySkillReferences \<Rightarrow> ustr" where
  "prompt_guidance refs =
     (let skill_names = filter (\<lambda>n. n \<in> set SKILL_TOOL_NAMES) (names_of_kind ''skill'' refs)
      in py_join [10]
        ((if lit ''memory'' \<in> set (names_of_kind ''memory'' refs)
          then [lit ''Use the host-provided `memory` tool for durable facts.''] else []) @
         (if lit ''session_search'' \<in> set (names_of_kind ''memory'' refs)
          then [lit ''Use the host-provided `session_search` tool for relevant cross-session context.''] else []) @
         (if skill_names \<noteq> []
          then [lit ''Use the host-provided '' @ py_join (lit '' and '') (map (\<lambda>n. [96] @ n @ [96]) skill_names) @
                lit '' tools to inspect skills.''] else [])))"

subsection \<open>Building them\<close>

definition add_reference ::
    "ToolSchemaReference \<Rightarrow> (ustr \<times> ToolSchemaReference) list \<Rightarrow> (ustr \<times> ToolSchemaReference) list" where
  "add_reference r selected =
     (case map_of selected (ts_name r) of
        Some previous \<Rightarrow> if ts_schema_hash r < ts_schema_hash previous then dict_set (ts_name r) r selected else selected
      | None \<Rightarrow> dict_set (ts_name r) r selected)"

definition reference_of :: "pyrt \<Rightarrow> heap \<Rightarrow> nat \<Rightarrow> pyval \<Rightarrow> exn + ToolSchemaReference option" where
  "reference_of rt H frames schema =
     and_then (schema_name rt H schema) (\<lambda>name.
       case name of
         None \<Rightarrow> Inr None
       | Some n \<Rightarrow>
           map_sum id (\<lambda>h. Some \<lparr>ts_name = n,
               ts_kind = (if n \<in> set MEMORY_TOOL_NAMES then lit ''memory'' else lit ''skill''), ts_schema_hash = h\<rparr>)
             (stable_tool_schema_hash rt H frames schema))"

fun select_references ::
    "pyrt \<Rightarrow> heap \<Rightarrow> nat \<Rightarrow> pyval list \<Rightarrow> (ustr \<times> ToolSchemaReference) list \<Rightarrow> exn + (ustr \<times> ToolSchemaReference) list" where
  "select_references rt H frames [] selected = Inr selected"
| "select_references rt H frames (schema # schemas) selected =
     and_then (reference_of rt H frames schema) (\<lambda>r.
       select_references rt H frames schemas (case r of None \<Rightarrow> selected | Some r \<Rightarrow> add_reference r selected))"

definition schema_list :: "heap \<Rightarrow> pyval \<Rightarrow> pyval list" where
  "schema_list H tool_schemas =
     (if is_mapping H tool_schemas then [tool_schemas]
      else case seq_items H tool_schemas of Some xs \<Rightarrow> xs | None \<Rightarrow> [])"

definition build_memory_skill_references :: "pyrt \<Rightarrow> heap \<Rightarrow> nat \<Rightarrow> pyval \<Rightarrow> exn + MemorySkillReferences" where
  "build_memory_skill_references rt H frames tool_schemas =
     and_then (select_references rt H frames (schema_list H tool_schemas) []) (\<lambda>selected.
       MemorySkillReferences_of rt (map snd selected))"

subsection \<open>What is selected\<close>

text \<open>
  For every name the selection holds the reference with the smallest hash. References of one
  snapshot with the same name and hash are the same.
\<close>

definition one_per_hash :: "ToolSchemaReference set \<Rightarrow> bool" where
  "one_per_hash R \<longleftrightarrow> (\<forall>q \<in> R. \<forall>r \<in> R. ts_name q = ts_name r \<longrightarrow> ts_schema_hash q = ts_schema_hash r \<longrightarrow> q = r)"

definition smallest :: "ToolSchemaReference set \<Rightarrow> ustr \<Rightarrow> ToolSchemaReference \<Rightarrow> bool" where
  "smallest R n r \<longleftrightarrow> r \<in> R \<and> ts_name r = n \<and> (\<forall>q \<in> R. ts_name q = n \<longrightarrow> ts_schema_hash r \<le> ts_schema_hash q)"

definition selects :: "ToolSchemaReference set \<Rightarrow> (ustr \<times> ToolSchemaReference) list \<Rightarrow> bool" where
  "selects R selected \<longleftrightarrow> distinct (map fst selected) \<and>
     (\<forall>n r. map_of selected n = Some r \<longrightarrow> smallest R n r) \<and> (\<forall>r \<in> R. map_of selected (ts_name r) \<noteq> None)"

lemma selectsD:
  assumes "selects R sel"
  shows "distinct (map fst sel)" "map_of sel n = Some r \<Longrightarrow> smallest R n r" "r \<in> R \<Longrightarrow> \<exists>q. map_of sel (ts_name r) = Some q"
  using assms by (simp_all only: selects_def not_None_eq)

lemma selectsI:
  assumes "distinct (map fst sel)" "\<And>n r. map_of sel n = Some r \<Longrightarrow> smallest R n r" "\<And>r. r \<in> R \<Longrightarrow> \<exists>q. map_of sel (ts_name r) = Some q"
  shows "selects R sel"
  using assms by (simp add: selects_def)

lemma smallest_insert: "smallest (insert r R) n q \<longleftrightarrow>
    (if ts_name r = n then (q = r \<or> smallest R n q) \<and> ts_schema_hash q \<le> ts_schema_hash r \<and>
       (\<forall>p \<in> R. ts_name p = n \<longrightarrow> ts_schema_hash q \<le> ts_schema_hash p) else smallest R n q)"
  by (auto simp: smallest_def)

lemma add_reference_selects:
  assumes "selects R selected"
  shows "selects (insert r R) (add_reference r selected)"
proof (cases "map_of selected (ts_name r)")
  case None
  then have new: "ts_name q \<noteq> ts_name r" if "q \<in> R" for q using selectsD(3)[OF assms that] by auto
  have add: "add_reference r selected = dict_set (ts_name r) r selected" using None by (simp add: add_reference_def)
  show ?thesis
    unfolding add
  proof (rule selectsI)
    show "smallest (insert r R) n q" if "map_of (dict_set (ts_name r) r selected) n = Some q" for n q
      using that new selectsD(2)[OF assms] by (auto simp: smallest_insert split: if_splits)
    show "\<exists>p. map_of (dict_set (ts_name r) r selected) (ts_name q) = Some p" if "q \<in> insert r R" for q
      using that selectsD(3)[OF assms, of q] by auto
  qed (rule distinct_dict_set[OF selectsD(1)[OF assms]])
next
  case (Some p)
  then have p: "smallest R (ts_name r) p" by (rule selectsD(2)[OF assms])
  show ?thesis
  proof (cases "ts_schema_hash r < ts_schema_hash p")
    case True
    then have add: "add_reference r selected = dict_set (ts_name r) r selected" using Some by (simp add: add_reference_def)
    have least: "ts_schema_hash r \<le> ts_schema_hash q" if "q \<in> R" "ts_name q = ts_name r" for q
      using p True that order.strict_trans2[of "ts_schema_hash r" "ts_schema_hash p" "ts_schema_hash q"]
      by (auto simp: smallest_def intro: less_imp_le)
    show ?thesis
      unfolding add
    proof (rule selectsI)
      show "smallest (insert r R) n q" if "map_of (dict_set (ts_name r) r selected) n = Some q" for n q
        using that least selectsD(2)[OF assms] by (auto simp: smallest_insert split: if_splits)
      show "\<exists>p. map_of (dict_set (ts_name r) r selected) (ts_name q) = Some p" if "q \<in> insert r R" for q
        using that selectsD(3)[OF assms, of q] by auto
    qed (rule distinct_dict_set[OF selectsD(1)[OF assms]])
  next
    case False
    then have add: "add_reference r selected = selected" using Some by (simp add: add_reference_def)
    show ?thesis
      unfolding add
    proof (rule selectsI)
      show "smallest (insert r R) n q" if "map_of selected n = Some q" for n q
        using selectsD(2)[OF assms that] False Some that by (auto simp: smallest_insert) (auto simp: smallest_def)
      show "\<exists>p. map_of selected (ts_name q) = Some p" if "q \<in> insert r R" for q
        using that selectsD(3)[OF assms, of q] Some by auto
    qed (rule selectsD(1)[OF assms])
  qed
qed

lemma smallest_unique: "one_per_hash R \<Longrightarrow> smallest R n q \<Longrightarrow> smallest R n r \<Longrightarrow> q = r"
  by (auto simp: one_per_hash_def smallest_def) (metis order_antisym)

lemma selects_map_of:
  assumes "selects R sel" "one_per_hash R"
  shows "map_of sel n = Some r \<longleftrightarrow> smallest R n r"
proof
  assume r: "smallest R n r"
  then have "r \<in> R" "ts_name r = n" by (auto simp: smallest_def)
  then obtain q where q: "map_of sel n = Some q" using selectsD(3)[OF assms(1)] by blast
  with smallest_unique[OF assms(2) _ r] selectsD(2)[OF assms(1) q] show "map_of sel n = Some r" by blast
qed (rule selectsD(2)[OF assms(1)])

text \<open>The references of a snapshot.\<close>

definition references_in :: "pyrt \<Rightarrow> heap \<Rightarrow> nat \<Rightarrow> pyval set \<Rightarrow> ToolSchemaReference set" where
  "references_in rt H frames S = {r. \<exists>schema \<in> S. reference_of rt H frames schema = Inr (Some r)}"

lemma references_in_insert:
  "references_in rt H frames (insert x S) =
     (case reference_of rt H frames x of Inr (Some r) \<Rightarrow> insert r (references_in rt H frames S) | _ \<Rightarrow> references_in rt H frames S)"
  by (auto simp: references_in_def split: sum.splits option.splits)

lemma references_inD:
  assumes "r \<in> references_in rt H frames S"
  shows "\<exists>schema \<in> S. schema_name rt H schema = Inr (Some (ts_name r)) \<and> stable_tool_schema_hash rt H frames schema = Inr (ts_schema_hash r)"
proof -
  from assms obtain schema where s: "schema \<in> S" "reference_of rt H frames schema = Inr (Some r)"
    by (auto simp: references_in_def)
  then obtain name where name: "schema_name rt H schema = Inr name"
    by (cases "schema_name rt H schema") (simp_all add: reference_of_def)
  with s(2) obtain n where n: "name = Some n" by (cases name) (simp_all add: reference_of_def)
  with s(2) name obtain h where "stable_tool_schema_hash rt H frames schema = Inr h" "ts_name r = n" "ts_schema_hash r = h"
    by (cases "stable_tool_schema_hash rt H frames schema") (simp_all add: reference_of_def, force)
  with s(1) name n show ?thesis by auto
qed

lemma schema_name_read_side:
  assumes "schema_name rt H schema = Inr (Some n)"
  shows "n \<in> set READ_SIDE_TOOL_NAMES"
proof -
  from assms obtain raw where "(case raw of
      PStr s \<Rightarrow> let candidate = bare_name rt s in if candidate \<in> set READ_SIDE_TOOL_NAMES then Some candidate else None
    | _ \<Rightarrow> None) = Some n"
    unfolding schema_name_def by (simp only: and_then_Inr sum.inject sum.distinct option.distinct split: if_splits) blast
  then show ?thesis by (simp split: pyval.split_asm if_split_asm add: Let_def)
qed

lemma reference_made:
  assumes "schema_name rt H schema = Inr (Some n)" "stable_tool_schema_hash rt H frames schema = Inr h"
  obtains r where "reference_of rt H frames schema = Inr (Some r)" "ts_name r = n" "ts_schema_hash r = h"
proof -
  let ?r = "\<lparr>ts_name = n, ts_kind = (if n \<in> set MEMORY_TOOL_NAMES then lit ''memory'' else lit ''skill''), ts_schema_hash = h\<rparr>"
  have "reference_of rt H frames schema = Inr (Some ?r)" using assms by (simp add: reference_of_def)
  then show ?thesis by (rule that) simp_all
qed

lemma references_one_per_hash: "one_per_hash (references_in rt H frames S)"
  by (auto simp: one_per_hash_def references_in_def reference_of_def and_then_Inr split: option.split_asm)

lemma select_references_selects:
  "select_references rt H frames xs sel = Inr sel' \<Longrightarrow> selects R sel \<Longrightarrow> selects (references_in rt H frames (set xs) \<union> R) sel'"
proof (induction xs arbitrary: sel R)
  case (Cons x xs)
  from Cons.prems(1) obtain o' where o': "reference_of rt H frames x = Inr o'"
    "select_references rt H frames xs (case o' of None \<Rightarrow> sel | Some r \<Rightarrow> add_reference r sel) = Inr sel'"
    by (auto simp: and_then_Inr)
  show ?case
  proof (cases o')
    case None
    with o' Cons.IH[of sel R] Cons.prems(2) show ?thesis by (simp add: references_in_insert)
  next
    case (Some r)
    with o' Cons.IH[of "add_reference r sel" "insert r R"] add_reference_selects[OF Cons.prems(2), of r] show ?thesis
      by (simp add: references_in_insert)
  qed
qed (simp add: references_in_def)

lemma select_references_total:
  "(\<exists>sel'. select_references rt H frames xs sel = Inr sel') \<longleftrightarrow> (\<forall>x \<in> set xs. \<exists>o'. reference_of rt H frames x = Inr o')"
  by (induction xs arbitrary: sel) (auto simp: and_then_Inr)

lemma selects_unique:
  assumes "selects R xs" "selects R ys" "one_per_hash R"
  shows "set xs = set ys"
proof -
  have "map_of xs = map_of ys"
  proof
    fix n
    have "map_of xs n = Some r \<longleftrightarrow> map_of ys n = Some r" for r
      using selects_map_of[OF assms(1,3)] selects_map_of[OF assms(2,3)] by simp
    then show "map_of xs n = map_of ys n" by (metis not_None_eq)
  qed
  then show ?thesis using selectsD(1)[OF assms(1)] selectsD(1)[OF assms(2)] map_of_inject_set by blast
qed

lemma inj_reference_key: "inj_on reference_key R"
  by (auto simp: inj_on_def reference_key_def intro: ToolSchemaReference.equality)

lemma sort_references_unique:
  assumes "distinct xs" "distinct ys" "set xs = set ys"
  shows "sort_key reference_key xs = sort_key reference_key ys"
  by (rule map_sorted_distinct_set_unique[of reference_key])
    (use assms inj_reference_key in \<open>auto simp: distinct_map\<close>)

lemma selects_names:
  assumes "selects R sel"
  shows "map ts_name (map snd sel) = map fst sel" "distinct (map snd sel)"
proof -
  have "ts_name r = n" if "(n, r) \<in> set sel" for n r
    using selectsD(2)[OF assms, of n r] selectsD(1)[OF assms] that by (auto simp: smallest_def)
  then show names: "map ts_name (map snd sel) = map fst sel" by auto
  then show "distinct (map snd sel)" using selectsD(1)[OF assms] by (metis distinct_map)
qed

text \<open>
  C39: The references depend on the set of the schemas only: in which order the host lists them,
  and how often, makes no difference to the names, their hashes and the hash of the whole.
\<close>

theorem references_order_independent:
  assumes "set (schema_list H a) = set (schema_list H b)" "build_memory_skill_references rt H frames a = Inr refs"
  shows "build_memory_skill_references rt H frames b = Inr refs"
proof -
  from assms(2) obtain xs where xs: "select_references rt H frames (schema_list H a) [] = Inr xs"
    "MemorySkillReferences_of rt (map snd xs) = Inr refs"
    by (auto simp: build_memory_skill_references_def and_then_Inr)
  then have "\<forall>x \<in> set (schema_list H b). \<exists>o'. reference_of rt H frames x = Inr o'"
    using select_references_total[of rt H frames "schema_list H a" "[]"] assms(1) by simp
  then obtain ys where ys: "select_references rt H frames (schema_list H b) [] = Inr ys"
    using select_references_total[of rt H frames "schema_list H b" "[]"] by blast
  let ?R = "references_in rt H frames (set (schema_list H a))"
  have none: "selects {} []" by (simp add: selects_def)
  have sel: "selects ?R xs" "selects ?R ys"
    using select_references_selects[OF xs(1) none] select_references_selects[OF ys none] assms(1) by simp_all
  from selects_unique[OF this references_one_per_hash] have "set (map snd xs) = set (map snd ys)" by simp
  then have "sort_key reference_key (map snd xs) = sort_key reference_key (map snd ys)"
    using selects_names(2)[OF sel(1)] selects_names(2)[OF sel(2)] by (intro sort_references_unique)
  with xs(2) ys show ?thesis by (simp add: build_memory_skill_references_def MemorySkillReferences_of_def Let_def)
qed

text \<open>
  The references name exactly the read-side tools of the snapshot, each once, each with the
  smallest hash of its schemas; no other tool is ever named, the mutating skill tool included.
\<close>

theorem references_exact:
  assumes "build_memory_skill_references rt H frames tools = Inr refs"
  shows "distinct (tool_names refs) \<and> set (tool_names refs) \<subseteq> set READ_SIDE_TOOL_NAMES \<and>
    lit ''skill_manage'' \<notin> set (tool_names refs) \<and>
    (\<forall>n. n \<in> set (tool_names refs) \<longleftrightarrow> (\<exists>schema \<in> set (schema_list H tools). schema_name rt H schema = Inr (Some n))) \<and>
    (\<forall>r \<in> set (ms_references refs). \<exists>schema \<in> set (schema_list H tools). schema_name rt H schema = Inr (Some (ts_name r)) \<and>
       stable_tool_schema_hash rt H frames schema = Inr (ts_schema_hash r)) \<and>
    (\<forall>r \<in> set (ms_references refs). \<forall>schema \<in> set (schema_list H tools). \<forall>h. schema_name rt H schema = Inr (Some (ts_name r)) \<longrightarrow>
       stable_tool_schema_hash rt H frames schema = Inr h \<longrightarrow> ts_schema_hash r \<le> h)"
proof -
  let ?S = "set (schema_list H tools)"
  let ?R = "references_in rt H frames ?S"
  from assms obtain sel where sel: "select_references rt H frames (schema_list H tools) [] = Inr sel"
    "ms_references refs = sort_key reference_key (map snd sel)"
    by (auto simp: build_memory_skill_references_def and_then_Inr MemorySkillReferences_of_def Let_def)
  have "selects {} []" by (simp add: selects_def)
  from select_references_selects[OF sel(1) this] have "selects ?R sel" by simp
  note names = selects_names[OF this] and found = selectsD[OF this]
  have total: "\<exists>o'. reference_of rt H frames x = Inr o'" if "x \<in> ?S" for x
    using select_references_total[of rt H frames "schema_list H tools" "[]"] sel(1) that by blast
  have listed: "set (tool_names refs) = fst ` set sel"
    unfolding tool_names_def sel(2) set_map set_sort using arg_cong[OF names(1), of set] by (simp add: image_comp)
  have "distinct (map ts_name (map snd sel))" unfolding names(1) by (rule found(1))
  then have single: "distinct (tool_names refs)" unfolding tool_names_def sel(2) by (auto simp: distinct_map intro: inj_on_imageI inj_on_imageI2)
  have member: "n \<in> set (tool_names refs) \<longleftrightarrow> (\<exists>schema \<in> ?S. schema_name rt H schema = Inr (Some n))" for n
  proof
    assume "n \<in> set (tool_names refs)"
    then obtain r where "map_of sel n = Some r" using weak_map_of_SomeI by (fastforce simp: listed)
    then have r: "r \<in> ?R" "ts_name r = n" using found(2)[of n r] by (simp_all add: smallest_def)
    from references_inD[OF r(1)] r(2) show "\<exists>schema \<in> ?S. schema_name rt H schema = Inr (Some n)"
      by auto
  next
    assume "\<exists>schema \<in> ?S. schema_name rt H schema = Inr (Some n)"
    then obtain schema where s: "schema \<in> ?S" "schema_name rt H schema = Inr (Some n)" by blast
    from total[OF s(1)] s(2) obtain h where h: "stable_tool_schema_hash rt H frames schema = Inr h"
      by (cases "stable_tool_schema_hash rt H frames schema") (auto simp: reference_of_def)
    obtain r where "reference_of rt H frames schema = Inr (Some r)" "ts_name r = n" by (rule reference_made[OF s(2) h])
    with s(1) found(3)[of r] obtain q where "map_of sel n = Some q" by (auto simp only: references_in_def)
    then show "n \<in> set (tool_names refs)" unfolding listed by (force dest: map_of_SomeD)
  qed
  have read_side: "set (tool_names refs) \<subseteq> set READ_SIDE_TOOL_NAMES"
    using member schema_name_read_side by blast
  have manage: "lit ''skill_manage'' \<notin> set READ_SIDE_TOOL_NAMES"
    by (simp add: READ_SIDE_TOOL_NAMES_def MEMORY_TOOL_NAMES_def SKILL_TOOL_NAMES_def)
  have source: "\<exists>schema \<in> ?S. schema_name rt H schema = Inr (Some (ts_name r)) \<and>
      stable_tool_schema_hash rt H frames schema = Inr (ts_schema_hash r)" if "r \<in> set (ms_references refs)" for r
  proof -
    from that obtain n where "(n, r) \<in> set sel" by (auto simp: sel(2))
    with found(1) have "map_of sel n = Some r" by simp
    then have "r \<in> ?R" using found(2) by (auto simp: smallest_def)
    then show ?thesis by (rule references_inD)
  qed
  have least: "ts_schema_hash r \<le> h" if "r \<in> set (ms_references refs)" "schema \<in> ?S"
      "schema_name rt H schema = Inr (Some (ts_name r))" "stable_tool_schema_hash rt H frames schema = Inr h" for r schema h
  proof -
    note made = that(3,4)
    from that(1) obtain n where "(n, r) \<in> set sel" by (auto simp: sel(2))
    with found(1) have "map_of sel n = Some r" by simp
    then have "smallest ?R n r" by (rule found(2))
    moreover obtain q where "reference_of rt H frames schema = Inr (Some q)" "ts_name q = ts_name r" "ts_schema_hash q = h"
      by (rule reference_made[OF made])
    ultimately show ?thesis using that(2) by (auto simp: smallest_def references_in_def)
  qed
  have "\<forall>r \<in> set (ms_references refs). \<exists>schema \<in> ?S. schema_name rt H schema = Inr (Some (ts_name r)) \<and>
      stable_tool_schema_hash rt H frames schema = Inr (ts_schema_hash r)"
    by (intro ballI) (rule source)
  moreover have "\<forall>r \<in> set (ms_references refs). \<forall>schema \<in> ?S. \<forall>h. schema_name rt H schema = Inr (Some (ts_name r)) \<longrightarrow>
      stable_tool_schema_hash rt H frames schema = Inr h \<longrightarrow> ts_schema_hash r \<le> h"
    by (intro ballI allI impI) (rule least)
  moreover have "\<forall>n. n \<in> set (tool_names refs) \<longleftrightarrow> (\<exists>schema \<in> ?S. schema_name rt H schema = Inr (Some n))"
    by (intro allI) (rule member)
  moreover have "lit ''skill_manage'' \<notin> set (tool_names refs)" using manage read_side by (rule contra_subsetD[rotated])
  ultimately show ?thesis using single read_side by (intro conjI)
qed

subsection \<open>An instance\<close>

lemma dumps_nan_irrelevant: "hashable_json j \<Longrightarrow> json_dumps rt i k True j = json_dumps rt i k False j"
proof (induction j)
  case (JList js)
  then show ?case by (auto simp: list_all_iff cong: map_exn_cong)
next
  case (JDict d)
  then have "map_exn (\<lambda>p. map_sum id (\<lambda>t. quote_text (fst p) @ k @ t) (json_dumps rt i k True (snd p))) (sort_key fst d) =
      map_exn (\<lambda>p. map_sum id (\<lambda>t. quote_text (fst p) @ k @ t) (json_dumps rt i k False (snd p))) (sort_key fst d)"
    by (intro map_exn_cong) (auto simp: list_all_iff)
  then show ?case by simp
qed simp_all

lemma hash_canonical_hashable: "hashable_json j \<Longrightarrow> \<exists>h. hash_canonical rt j = Inr h \<and> is_hex64 h"
  using dumps_hashable[of j rt] dumps_nan_irrelevant[of j rt "[44]" "[58]"]
  by (auto simp: hash_canonical_def dumps_compact_def utf8_encode_ascii sha256_hex_shape)

definition skill_heap :: heap where
  "skill_heap a =
     (if a = 0 then OList [PRef 2, PRef 3] else if a = 1 then OTuple [PRef 3, PRef 2, PRef 3]
      else if a = 2 then ODict [(PStr (lit ''name''), PStr (lit ''mcp__hermes__Session_Search''))]
      else ODict [(PStr (lit ''name''), PStr (lit ''skill_manage''))])"

lemma skill_schemas: "schema_list skill_heap (PRef 0) = [PRef 2, PRef 3]" "schema_list skill_heap (PRef 1) = [PRef 3, PRef 2, PRef 3]"
  by (simp_all add: schema_list_def is_mapping_def seq_items_def skill_heap_def)

lemma skill_names:
  "schema_name sample_rt skill_heap (PRef 2) = Inr (Some (lit ''session_search''))" "schema_name sample_rt skill_heap (PRef 3) = Inr None"
  by (simp_all add: schema_name_def is_mapping_def mapping_get_def mapping_find_def mapping_items_def skill_heap_def bare_name_def
      py_strip_def py_isspace_def py_lower_def is_ascii_def ascii_lower_def lit_def READ_SIDE_TOOL_NAMES_def MEMORY_TOOL_NAMES_def
      SKILL_TOOL_NAMES_def lits_def Let_def)

lemma skill_references:
  obtains refs where "build_memory_skill_references sample_rt skill_heap 9 (PRef 0) = Inr refs"
proof -
  have copy: "canonical_value sample_rt skill_heap (Suc (Suc n)) (PRef 2) = Inr (JDict [(lit ''name'', JStr (lit ''mcp__hermes__Session_Search''))])" for n
    by (simp add: is_mapping_def mapping_items_def skill_heap_def sorted_pairs_def)
  have "canonical_value sample_rt skill_heap 9 (PRef 2) = Inr (JDict [(lit ''name'', JStr (lit ''mcp__hermes__Session_Search''))])"
    using copy[of 7] by simp
  moreover have "hashable_json (JDict [(lit ''name'', JStr (lit ''mcp__hermes__Session_Search''))])"
    by (simp add: is_ascii_def lit_def)
  ultimately obtain h where h: "stable_tool_schema_hash sample_rt skill_heap 9 (PRef 2) = Inr h" "is_hex64 h"
    using hash_canonical_hashable by (fastforce simp: stable_tool_schema_hash_def)
  obtain r where r: "reference_of sample_rt skill_heap 9 (PRef 2) = Inr (Some r)"
    "r = \<lparr>ts_name = lit ''session_search'', ts_kind = lit ''memory'', ts_schema_hash = h\<rparr>"
    using h(1) by (simp add: reference_of_def skill_names MEMORY_TOOL_NAMES_def)
  have "select_references sample_rt skill_heap 9 (schema_list skill_heap (PRef 0)) [] = Inr [(ts_name r, r)]"
    unfolding skill_schemas by (simp add: r(1) reference_of_def[of _ _ _ "PRef 3"] skill_names add_reference_def)
  moreover have "is_ascii h" using h(2) by (auto simp: is_hex64_def is_ascii_def list_all_iff hex_digest_char_def is_digit_def)
  then have "hashable_json (JList (map reference_json (sort_key reference_key [r])))"
    by (simp add: reference_json_def r(2)) (simp add: is_ascii_def lit_def)
  from hash_canonical_hashable[OF this] obtain k where "hash_canonical sample_rt (JList (map reference_json (sort_key reference_key [r]))) = Inr k"
    by blast
  ultimately show ?thesis
    by (intro that) (simp add: build_memory_skill_references_def MemorySkillReferences_of_def)
qed

theorem references_order_independent_witness:
  "\<exists>refs. build_memory_skill_references sample_rt skill_heap 9 (PRef 0) = Inr refs \<and>
     build_memory_skill_references sample_rt skill_heap 9 (PRef 1) = Inr refs"
proof -
  have "set (schema_list skill_heap (PRef 0)) = set (schema_list skill_heap (PRef 1))" unfolding skill_schemas by auto
  note same = references_order_independent[OF this]
  obtain refs where "build_memory_skill_references sample_rt skill_heap 9 (PRef 0) = Inr refs" by (rule skill_references)
  with same show ?thesis by blast
qed

theorem references_exact_witness:
  "\<exists>refs. build_memory_skill_references sample_rt skill_heap 9 (PRef 0) = Inr refs \<and> set (tool_names refs) = {lit ''session_search''}"
proof -
  obtain refs where refs: "build_memory_skill_references sample_rt skill_heap 9 (PRef 0) = Inr refs" by (rule skill_references)
  from references_exact[OF refs] have "n \<in> set (tool_names refs) \<longleftrightarrow> n = lit ''session_search''" for n
    by (auto simp: skill_schemas skill_names)
  with refs show ?thesis by blast
qed

end
