(* ===== verification/Prompt_Context.thy ===== *)
theory Prompt_Context
  imports Memory_Skills Regex "HOL-Library.Sublist"
begin

section \<open>Prompt context (prompt\_context.py)\<close>

text \<open>
  The adapter copies the public parts of a turn request into a snapshot, redacts and bounds every
  text, and composes the system prompt from whole blocks under a total budget. \<open>strs\<close> stands for
  what \<^verbatim>\<open>str\<close> gives for objects that are no plain values; a frozen \<^verbatim>\<open>ProjectFile\<close> is an instance
  with the two attributes its constructor has set.
\<close>

definition DEFAULT_FRAGMENT_MAX_CHARS :: int where "DEFAULT_FRAGMENT_MAX_CHARS = 8000"

definition DEFAULT_TOTAL_MAX_CHARS :: int where "DEFAULT_TOTAL_MAX_CHARS = 22000"

subsection \<open>Redaction\<close>

definition spaced_char :: "nat \<Rightarrow> bool" where "spaced_char c \<longleftrightarrow> c = 95 \<or> c = 32 \<or> c = 45"

definition open_char :: "nat \<Rightarrow> bool" where
  "open_char c \<longleftrightarrow> \<not> py_isspace c \<and> c \<noteq> 44 \<and> c \<noteq> 59"

definition key_char :: "nat \<Rightarrow> bool" where
  "key_char c \<longleftrightarrow> is_alnum (fold_ascii c) \<or> c = 95 \<or> c = 45"

definition SENSITIVE_KEY_RE :: regex where
  "SENSITIVE_KEY_RE =
     re_alts [re_seq [re_itext ''api'', Rep 0 (Some 1) spaced_char, re_itext ''key''],
       re_seq [re_itext ''access'', Rep 0 (Some 1) spaced_char, re_itext ''token''],
       re_seq [re_itext ''auth'', re_alts [re_itext ''orization'', Eps]],
       re_itext ''cookie'', re_itext ''credential'', re_itext ''password'', re_itext ''passwd'', re_itext ''secret'',
       re_itext ''token'']"

definition secret_names :: regex where
  "secret_names =
     re_alts [re_seq [re_itext ''api'', Rep 0 (Some 1) spaced_char, re_itext ''key''],
       re_seq [re_itext ''access'', Rep 0 (Some 1) spaced_char, re_itext ''token''],
       re_itext ''authorization'', re_itext ''cookie'', re_itext ''credential'', re_itext ''password'', re_itext ''passwd'',
       re_itext ''secret'', re_itext ''token'']"

definition secret_key :: "pyrt \<Rightarrow> regex" where
  "secret_key rt = re_seq [WordB (word_char rt), re_itext ''sk-'', Rep 8 None key_char]"

definition SENSITIVE_VALUE_RE :: "pyrt \<Rightarrow> regex" where
  "SENSITIVE_VALUE_RE rt =
     (let b = WordB (word_char rt)
      in Alt (re_seq [b, secret_names, b, Rep 0 None py_isspace, Cls (chars '':=''), Rep 0 None py_isspace, Rep 1 None open_char])
           (Alt (re_seq [b, re_itext ''bearer'', Rep 1 None py_isspace, Rep 1 None open_char]) (secret_key rt)))"

definition redact :: "pyrt \<Rightarrow> int \<Rightarrow> ustr \<Rightarrow> ustr" where
  "redact rt limit s =
     (if limit \<le> 0 then []
      else take (nat limit) (re_sub (SENSITIVE_VALUE_RE rt) (lit ''[redacted]'') (py_strip (filter (\<lambda>c. c \<noteq> 0) s))))"

subsection \<open>Values\<close>

definition py_str :: "pyrt \<Rightarrow> (pyval \<Rightarrow> exn + ustr) \<Rightarrow> pyval \<Rightarrow> exn + ustr" where
  "py_str rt strs v =
     (case v of
        PNone \<Rightarrow> Inr (lit ''None'')
      | PBool b \<Rightarrow> Inr (if b then lit ''True'' else lit ''False'')
      | PInt i \<Rightarrow> py_str_int i
      | PFloat f \<Rightarrow> Inr (case f of FFin r \<Rightarrow> rt_float_repr rt r | FInf neg \<Rightarrow> if neg then lit ''-inf'' else lit ''inf''
                         | FNan \<Rightarrow> lit ''nan'')
      | PStr s \<Rightarrow> Inr s
      | PRef a \<Rightarrow> strs v)"

definition public_get :: "heap \<Rightarrow> pyval \<Rightarrow> string \<Rightarrow> pyval \<Rightarrow> exn + pyval" where
  "public_get H v key dflt =
     (if is_mapping H v then
        map_sum id (\<lambda>found. case found of Some x \<Rightarrow> x | None \<Rightarrow> dflt) (mapping_find H v (lit key))
      else (case attr_of H v (lit key) of Absent \<Rightarrow> Inr dflt | Present x \<Rightarrow> Inr x | Raising \<Rightarrow> Inl OtherError))"

text \<open>\<^verbatim>\<open>value.get(first, value.get(second, default))\<close>\<close>

definition get_either :: "heap \<Rightarrow> pyval \<Rightarrow> string \<Rightarrow> string \<Rightarrow> pyval \<Rightarrow> exn + pyval" where
  "get_either H v first second dflt =
     and_then (public_get H v second dflt) (\<lambda>d. public_get H v first d)"

definition is_container :: "heap \<Rightarrow> pyval \<Rightarrow> bool" where
  "is_container H v \<longleftrightarrow> is_mapping H v \<or> seq_items H v \<noteq> None \<or> (\<exists>a bs. v = PRef a \<and> H a = OBytes bs)"

definition safe_text :: "pyrt \<Rightarrow> (pyval \<Rightarrow> exn + ustr) \<Rightarrow> heap \<Rightarrow> pyval \<Rightarrow> int \<Rightarrow> exn + ustr" where
  "safe_text rt strs H v limit =
     (if limit \<le> 0 \<or> v = PNone \<or> is_container H v then Inr []
      else map_sum id (redact rt limit) (py_str rt strs v))"

definition sentence_char :: "nat \<Rightarrow> bool" where
  "sentence_char c \<longleftrightarrow> \<not> chars ''.!?'' c \<and> c \<noteq> 10"

definition strip_uncallable_skill_guidance :: "pyrt \<Rightarrow> ustr \<Rightarrow> ustr" where
  "strip_uncallable_skill_guidance rt s =
     re_sub (re_seq [Rep 0 None sentence_char, WordB (word_char rt), re_itext ''skill_manage'', WordB (word_char rt),
       Rep 0 None sentence_char, Rep 0 (Some 1) (chars ''.!?''), Rep 0 None py_isspace]) [] s"

subsection \<open>Project metadata\<close>

definition relative_path :: "ustr \<Rightarrow> ustr" where
  "relative_path s =
     (let path = map (\<lambda>c. if c = 92 then 47 else c) s; components = py_split_on 47 path
      in if path = [] \<or> startswith path (lit ''/'') \<or> startswith path (lit ''~'') then []
         else if list_ex (\<lambda>w. w \<in> set (lits ['''', ''.'', ''..''])) components then []
         else if list_ex (re_search SENSITIVE_KEY_RE) components then []
         else path)"

record ProjectFile =
  pf_path :: ustr
  pf_content :: ustr

definition ProjectFile_of :: "pyrt \<Rightarrow> (pyval \<Rightarrow> exn + ustr) \<Rightarrow> heap \<Rightarrow> pyval \<Rightarrow> pyval \<Rightarrow> exn + ProjectFile" where
  "ProjectFile_of rt strs H path content =
     and_then (safe_text rt strs H path 240) (\<lambda>p.
     and_then (safe_text rt strs H content DEFAULT_FRAGMENT_MAX_CHARS) (\<lambda>c.
       Inr \<lparr>pf_path = relative_path p, pf_content = c\<rparr>))"

definition built_file :: "heap \<Rightarrow> pyval \<Rightarrow> ProjectFile option" where
  "built_file H v =
     (case v of PRef a \<Rightarrow>
        (case H a of OInst name _ \<Rightarrow>
           (if name \<noteq> lit ''ProjectFile'' then None
            else (case (attr_of H v (lit ''path''), attr_of H v (lit ''content'')) of
                (Present (PStr p), Present (PStr c)) \<Rightarrow> Some \<lparr>pf_path = p, pf_content = c\<rparr>
              | _ \<Rightarrow> None))
         | _ \<Rightarrow> None)
      | _ \<Rightarrow> None)"

definition coerce_project_file :: "pyrt \<Rightarrow> (pyval \<Rightarrow> exn + ustr) \<Rightarrow> heap \<Rightarrow> pyval \<Rightarrow> exn + ProjectFile option" where
  "coerce_project_file rt strs H v =
     (case built_file H v of
        Some f \<Rightarrow> Inr (if pf_path f \<noteq> [] then Some f else None)
      | None \<Rightarrow>
          if is_mapping H v then
            and_then (get_either H v ''path'' ''name'' (PStr [])) (\<lambda>path.
            and_then (get_either H v ''content'' ''text'' (PStr [])) (\<lambda>content.
            and_then (ProjectFile_of rt strs H path content) (\<lambda>f.
              Inr (if pf_path f \<noteq> [] then Some f else None))))
          else Inr None)"

record ProjectMetadata =
  pm_label :: ustr
  pm_instructions :: ustr
  pm_files :: "ProjectFile list"

definition keep_file :: "ProjectFile \<Rightarrow> (ustr \<times> ProjectFile) list \<Rightarrow> (ustr \<times> ProjectFile) list" where
  "keep_file f kept =
     (case map_of kept (pf_path f) of
        Some previous \<Rightarrow> if pf_content f < pf_content previous then dict_set (pf_path f) f kept else kept
      | None \<Rightarrow> dict_set (pf_path f) f kept)"

definition sorted_files :: "ProjectFile list \<Rightarrow> ProjectFile list" where
  "sorted_files fs = sort_key (\<lambda>f. [pf_path f, pf_content f]) (map snd (fold keep_file fs []))"

text \<open>\<^verbatim>\<open>files\<close> may be a mapping of paths to contents or a sequence of files.\<close>

definition project_files :: "pyrt \<Rightarrow> (pyval \<Rightarrow> exn + ustr) \<Rightarrow> heap \<Rightarrow> pyval \<Rightarrow> exn + ProjectFile list" where
  "project_files rt strs H v =
     (if is_mapping H v then
        and_then (mapping_items H v) (\<lambda>items.
        and_then (map_exn (\<lambda>(path, content). ProjectFile_of rt strs H path content) items) (\<lambda>fs.
          Inr (sorted_files (filter (\<lambda>f. pf_path f \<noteq> []) fs))))
      else and_then (map_exn (coerce_project_file rt strs H) (case seq_items H v of Some xs \<Rightarrow> xs | None \<Rightarrow> [])) (\<lambda>fs.
          Inr (sorted_files (List.map_filter id fs))))"

definition ProjectMetadata_of :: "pyrt \<Rightarrow> (pyval \<Rightarrow> exn + ustr) \<Rightarrow> heap \<Rightarrow> pyval \<Rightarrow> pyval \<Rightarrow> pyval \<Rightarrow> exn + ProjectMetadata" where
  "ProjectMetadata_of rt strs H label instructions files =
     and_then (safe_text rt strs H label 240) (\<lambda>l.
     and_then (safe_text rt strs H instructions DEFAULT_FRAGMENT_MAX_CHARS) (\<lambda>i.
     and_then (project_files rt strs H files) (\<lambda>fs.
       Inr \<lparr>pm_label = l, pm_instructions = i, pm_files = fs\<rparr>)))"

definition no_project :: ProjectMetadata where
  "no_project = \<lparr>pm_label = [], pm_instructions = [], pm_files = []\<rparr>"

definition from_mapping :: "pyrt \<Rightarrow> (pyval \<Rightarrow> exn + ustr) \<Rightarrow> heap \<Rightarrow> pyval \<Rightarrow> exn + ProjectMetadata" where
  "from_mapping rt strs H v =
     (if \<not> is_mapping H v then Inr no_project
      else and_then (get_either H v ''label'' ''name'' (PStr [])) (\<lambda>label.
           and_then (get_either H v ''instructions'' ''content'' (PStr [])) (\<lambda>instructions.
           and_then (public_get H v ''files'' PNone) (\<lambda>files.
             ProjectMetadata_of rt strs H label instructions files))))"

definition heading :: "ustr \<Rightarrow> ustr" where "heading s = lit ''## '' @ s"

definition blank_line :: ustr where "blank_line = [10, 10]"

definition project_sections :: "ProjectMetadata \<Rightarrow> ustr list" where
  "project_sections p =
     (if pm_label p \<noteq> [] then [heading (pm_label p)] else []) @
     (if pm_instructions p \<noteq> [] then [pm_instructions p] else []) @
     map (\<lambda>f. heading (pf_path f) @ blank_line @ pf_content f) (pm_files p)"

definition project_render :: "int \<Rightarrow> ProjectMetadata \<Rightarrow> ustr" where
  "project_render max_chars p =
     (if max_chars \<le> 0 \<or> project_sections p = [] then []
      else take (nat max_chars) (lit ''# Project Context'' @ blank_line @ py_join blank_line (project_sections p)))"

subsection \<open>The snapshot\<close>

record PromptContextLimits =
  fragment_max_chars :: int
  total_max_chars :: int

definition default_limits :: PromptContextLimits where
  "default_limits = \<lparr>fragment_max_chars = DEFAULT_FRAGMENT_MAX_CHARS, total_max_chars = DEFAULT_TOTAL_MAX_CHARS\<rparr>"

definition PromptContextLimits_of :: "int \<Rightarrow> int \<Rightarrow> exn + PromptContextLimits" where
  "PromptContextLimits_of fragment overall =
     (if fragment < 1 \<or> overall < 1 then Inl ValueError
      else Inr \<lparr>fragment_max_chars = fragment, total_max_chars = overall\<rparr>)"

record PromptContextSnapshot =
  sn_base_prompt :: ustr
  sn_identity :: ustr
  sn_session_metadata :: ustr
  sn_platform_hint :: ustr
  sn_provider :: ustr
  sn_model :: ustr
  sn_project :: ProjectMetadata
  sn_memory_fragments :: "ustr list"
  sn_skill_fragments :: "ustr list"

definition fragments :: "pyrt \<Rightarrow> (pyval \<Rightarrow> exn + ustr) \<Rightarrow> heap \<Rightarrow> (ustr \<Rightarrow> ustr) \<Rightarrow> pyval \<Rightarrow> exn + ustr list" where
  "fragments rt strs H strip v =
     map_sum id (\<lambda>texts. filter (\<lambda>t. t \<noteq> []) (sort (remdups (map strip (filter (\<lambda>t. t \<noteq> []) texts)))))
       (map_exn (\<lambda>x. safe_text rt strs H x DEFAULT_FRAGMENT_MAX_CHARS)
          (case seq_items H v of Some xs \<Rightarrow> xs | None \<Rightarrow> []))"

definition project_kind :: "pyrt \<Rightarrow> (pyval \<Rightarrow> exn + ustr) \<Rightarrow> heap \<Rightarrow> pyval \<Rightarrow> exn + bool" where
  "project_kind rt strs H attachment =
     and_then (get_either H attachment ''kind'' ''type'' (PStr [])) (\<lambda>k.
       map_sum id (\<lambda>t. py_lower rt (py_strip t) \<in> set (lits [''project'', ''project_context''])) (py_str rt strs k))"

fun first_project :: "pyrt \<Rightarrow> (pyval \<Rightarrow> exn + ustr) \<Rightarrow> heap \<Rightarrow> pyval list \<Rightarrow> exn + ProjectMetadata" where
  "first_project rt strs H [] = Inr no_project"
| "first_project rt strs H (attachment # rest) =
     (if \<not> is_mapping H attachment then first_project rt strs H rest
      else and_then (project_kind rt strs H attachment) (\<lambda>matches.
           if \<not> matches then first_project rt strs H rest
           else and_then (mapping_get H attachment ''metadata'') (\<lambda>metadata.
                from_mapping rt strs H (if is_mapping H metadata then metadata else attachment))))"

definition project_from_attachments :: "pyrt \<Rightarrow> (pyval \<Rightarrow> exn + ustr) \<Rightarrow> heap \<Rightarrow> pyval \<Rightarrow> exn + ProjectMetadata" where
  "project_from_attachments rt strs H attachments =
     first_project rt strs H (case seq_items H attachments of Some xs \<Rightarrow> xs | None \<Rightarrow> [])"

text \<open>The project argument: an instance, or any other value.\<close>

datatype project_arg = Built ProjectMetadata | Given pyval

record prompt_args =
  pa_project :: project_arg
  pa_identity :: pyval
  pa_session_metadata :: pyval
  pa_platform_hint :: pyval
  pa_memory_fragments :: pyval
  pa_skill_fragments :: pyval

text \<open>\<^verbatim>\<open>resolved_project or ProjectMetadata()\<close>; the constructor reads anything but an instance.\<close>

definition early_project :: "pyrt \<Rightarrow> (pyval \<Rightarrow> exn + ustr) \<Rightarrow> heap \<Rightarrow> pyval \<Rightarrow> project_arg \<Rightarrow> exn + project_arg" where
  "early_project rt strs H request project =
     (if project = Given PNone then
        map_sum id Built (and_then (public_get H request ''attachments'' PNone) (project_from_attachments rt strs H))
      else Inr project)"

definition project_or_empty :: "heap \<Rightarrow> project_arg \<Rightarrow> exn + project_arg" where
  "project_or_empty H project =
     (case project of Built p \<Rightarrow> Inr project
      | Given v \<Rightarrow> map_sum id (\<lambda>t. if t then project else Built no_project) (py_truthy H v))"

definition late_project :: "pyrt \<Rightarrow> (pyval \<Rightarrow> exn + ustr) \<Rightarrow> heap \<Rightarrow> project_arg \<Rightarrow> exn + ProjectMetadata" where
  "late_project rt strs H project = (case project of Built p \<Rightarrow> Inr p | Given v \<Rightarrow> from_mapping rt strs H v)"

definition from_request :: "pyrt \<Rightarrow> (pyval \<Rightarrow> exn + ustr) \<Rightarrow> heap \<Rightarrow> pyval \<Rightarrow> prompt_args \<Rightarrow> exn + PromptContextSnapshot" where
  "from_request rt strs H request a =
     (let field_text = (\<lambda>v. safe_text rt strs H v DEFAULT_FRAGMENT_MAX_CHARS)
      in and_then (public_get H request ''selection'' PNone) (\<lambda>selection.
         and_then (early_project rt strs H request (pa_project a)) (\<lambda>project.
         and_then (public_get H request ''prompt_snapshot'' (PStr [])) (\<lambda>base_prompt.
         and_then (public_get H selection ''provider'' (PStr [])) (\<lambda>provider.
         and_then (public_get H selection ''model'' (PStr [])) (\<lambda>model.
         and_then (project_or_empty H project) (\<lambda>project.
         and_then (field_text base_prompt) (\<lambda>base_prompt.
         and_then (field_text (pa_identity a)) (\<lambda>identity.
         and_then (field_text (pa_session_metadata a)) (\<lambda>session_metadata.
         and_then (field_text (pa_platform_hint a)) (\<lambda>platform_hint.
         and_then (field_text provider) (\<lambda>provider.
         and_then (field_text model) (\<lambda>model.
         and_then (late_project rt strs H project) (\<lambda>project.
         and_then (fragments rt strs H id (pa_memory_fragments a)) (\<lambda>memory.
         and_then (fragments rt strs H (strip_uncallable_skill_guidance rt) (pa_skill_fragments a)) (\<lambda>skill.
           Inr \<lparr>sn_base_prompt = base_prompt, sn_identity = identity, sn_session_metadata = session_metadata,
                sn_platform_hint = platform_hint, sn_provider = provider, sn_model = model, sn_project = project,
                sn_memory_fragments = memory, sn_skill_fragments = skill\<rparr>))))))))))))))))"

subsection \<open>The system prompt\<close>

definition selection_metadata :: "PromptContextSnapshot \<Rightarrow> PromptContextLimits \<Rightarrow> ustr" where
  "selection_metadata sn limits =
     take (nat (fragment_max_chars limits))
       (if sn_session_metadata sn \<noteq> [] then sn_session_metadata sn
        else py_join [10]
          ((if sn_model sn \<noteq> [] then [lit ''Model: '' @ sn_model sn] else []) @
           (if sn_provider sn \<noteq> [] then [lit ''Provider: '' @ sn_provider sn] else [])))"

definition prompt_blocks :: "pyrt \<Rightarrow> PromptContextSnapshot \<Rightarrow> MemorySkillReferences \<Rightarrow> PromptContextLimits \<Rightarrow> ustr list" where
  "prompt_blocks rt sn refs limits =
     (let clean = redact rt (fragment_max_chars limits); kept = (\<lambda>texts. filter (\<lambda>t. t \<noteq> []) (map clean texts))
      in kept ([sn_identity sn, selection_metadata sn limits, sn_platform_hint sn,
           project_render (fragment_max_chars limits) (sn_project sn)] @ sn_memory_fragments sn) @
         (if prompt_guidance refs \<noteq> [] then [clean (prompt_guidance refs)] else []) @
         kept (sn_skill_fragments sn))"

text \<open>The blocks that fit, in their order; \<open>first\<close> while nothing has been put out.\<close>

fun fit_blocks :: "int \<Rightarrow> bool \<Rightarrow> int \<Rightarrow> ustr list \<Rightarrow> ustr list" where
  "fit_blocks overall first used [] = []"
| "fit_blocks overall first used (block # blocks) =
     (let cost = int (length block) + (if first then 0 else 2)
      in if used + cost > overall then fit_blocks overall first used blocks
         else block # fit_blocks overall False (used + cost) blocks)"

definition render_prompt_append :: "pyrt \<Rightarrow> PromptContextSnapshot \<Rightarrow> MemorySkillReferences \<Rightarrow> PromptContextLimits \<Rightarrow> ustr option" where
  "render_prompt_append rt sn refs limits =
     (let output = py_join blank_line (fit_blocks (total_max_chars limits) True 0 (prompt_blocks rt sn refs limits))
      in if output = [] then None else Some output)"

subsection \<open>The context\<close>

record SdkPromptContext =
  cx_base_prompt :: ustr
  cx_system_prompt_append :: "ustr option"
  cx_memory_skills :: MemorySkillReferences
  cx_model :: ustr
  cx_provider :: ustr
  cx_api_mode :: ustr
  cx_tool_schema_hash :: ustr

definition hash_char :: "nat \<Rightarrow> bool" where
  "hash_char c \<longleftrightarrow> is_digit c \<or> (97 \<le> c \<and> c \<le> 102) \<or> (65 \<le> c \<and> c \<le> 70)"

definition HOST_HASH :: regex where "HOST_HASH = Rep 64 (Some 64) hash_char"

text \<open>
  The options repeat \<^verbatim>\<open>system_prompt\<close>, the tool names and the two hashes; only the fields that
  are not in the context elsewhere are kept apart.
\<close>

definition build_sdk_prompt_context ::
    "pyrt \<Rightarrow> (pyval \<Rightarrow> exn + ustr) \<Rightarrow> heap \<Rightarrow> nat \<Rightarrow> pyval \<Rightarrow> prompt_args \<Rightarrow> MemorySkillReferences option \<Rightarrow>
       PromptContextLimits option \<Rightarrow> exn + SdkPromptContext" where
  "build_sdk_prompt_context rt strs H frames request a memory_skills limits =
     (let limits = (case limits of Some l \<Rightarrow> l | None \<Rightarrow> default_limits); most = fragment_max_chars limits
      in and_then (from_request rt strs H request a) (\<lambda>sn.
         and_then (case memory_skills of
             Some refs \<Rightarrow> Inr refs
           | None \<Rightarrow> and_then (public_get H request ''tool_schemas'' PNone) (build_memory_skill_references rt H frames)) (\<lambda>refs.
         and_then (public_get H request ''tool_schema_hash'' (PStr [])) (\<lambda>h.
         and_then (safe_text rt strs H h 64) (\<lambda>host_hash.
         and_then (public_get H request ''selection'' PNone) (\<lambda>selection.
         and_then (public_get H selection ''api_mode'' (PStr [])) (\<lambda>api_mode.
         and_then (safe_text rt strs H api_mode most) (\<lambda>api_mode.
           Inr \<lparr>cx_base_prompt = sn_base_prompt sn, cx_system_prompt_append = render_prompt_append rt sn refs limits,
                cx_memory_skills = refs, cx_model = redact rt most (sn_model sn), cx_provider = redact rt most (sn_provider sn),
                cx_api_mode = api_mode,
                cx_tool_schema_hash = (if fullmatch HOST_HASH host_hash then host_hash else ms_schema_hash refs)\<rparr>))))))))"

end
