(* ===== verification/Prompt_Safety.thy ===== *)
theory Prompt_Safety
  imports Prompt_Context Parity_Checks
begin

section \<open>What a prompt may contain\<close>

text \<open>
  No API key survives the redaction, however the texts are cut and joined afterwards; the system
  prompt keeps its budget and loses no block that fits; project files have safe relative paths.
\<close>

subsection \<open>Keys in a text\<close>

text \<open>A key starts at a word boundary: its prefix and at least eight further characters.\<close>

definition key_at :: "pyrt \<Rightarrow> ustr \<Rightarrow> ustr \<Rightarrow> bool" where
  "key_at rt b a \<longleftrightarrow> at_word (word_char rt) b \<noteq> at_word (word_char rt) a \<and> 11 \<le> length a \<and>
     map fold_ascii (take 3 a) = lit ''sk-'' \<and> list_all key_char (take 8 (drop 3 a))"

fun key_free :: "pyrt \<Rightarrow> ustr \<Rightarrow> ustr \<Rightarrow> bool" where
  "key_free rt b [] = True"
| "key_free rt b (c # s) = (\<not> key_at rt b (c # s) \<and> key_free rt (c # b) s)"

lemma ends_re_itext:
  "ends (re_seq (map (\<lambda>k. Cls (\<lambda>c. fold_ascii c = k)) s)) (b, a) =
     (if length s \<le> length a \<and> map fold_ascii (take (length s) a) = s then [advance (length s) (b, a)] else [])"
proof (induction s arbitrary: b a)
  case (Cons k s)
  then show ?case by (cases a) (auto simp: advance_def)
qed (simp add: advance_def)

lemma takeWhile_at_least: "n \<le> length (takeWhile P x) \<longleftrightarrow> n \<le> length x \<and> list_all P (take n x)"
proof (induction x arbitrary: n)
  case (Cons c x)
  then show ?case by (cases n) auto
qed simp

lemma ends_key_tail: "ends (re_seq [Rep 8 None key_char]) (b, a) \<noteq> [] \<longleftrightarrow> 8 \<le> length a \<and> list_all key_char (take 8 a)"
proof -
  have "ends (re_seq [Rep 8 None key_char]) (b, a) \<noteq> [] \<longleftrightarrow> 8 \<le> length (takeWhile key_char a)"
    by (auto simp: run_length_def)
  then show ?thesis by (simp only: takeWhile_at_least)
qed

lemma secret_key_at: "ends (secret_key rt) (b, a) \<noteq> [] \<longleftrightarrow> key_at rt b a"
proof -
  let ?tail = "re_seq [Rep 8 None key_char]"
  have three: "length (lit ''sk-'') = 3" by simp
  have "ends (secret_key rt) (b, a) =
      (if at_word (word_char rt) b \<noteq> at_word (word_char rt) a
       then concat (map (ends ?tail) (ends (re_itext ''sk-'') (b, a))) else [])"
    by (simp add: secret_key_def del: One_nat_def)
  also have "ends (re_itext ''sk-'') (b, a) =
      (if 3 \<le> length a \<and> map fold_ascii (take 3 a) = lit ''sk-'' then [advance 3 (b, a)] else [])"
    by (simp only: re_itext_def ends_re_itext three)
  finally have "ends (secret_key rt) (b, a) \<noteq> [] \<longleftrightarrow> at_word (word_char rt) b \<noteq> at_word (word_char rt) a \<and>
      3 \<le> length a \<and> map fold_ascii (take 3 a) = lit ''sk-'' \<and> ends ?tail (rev (take 3 a) @ b, drop 3 a) \<noteq> []"
    by (simp add: advance_def del: ends.simps re_seq.simps)
  then show ?thesis unfolding ends_key_tail key_at_def by auto
qed

subsection \<open>Keys in parts of a text\<close>

lemma at_word_take: "0 < n \<Longrightarrow> at_word w (take n a) = at_word w a"
  by (cases a; cases n) (auto simp: at_word_def)

lemma key_at_take:
  assumes "key_at rt b (take n a)"
  shows "key_at rt b a"
proof -
  have "11 \<le> length (take n a)" using assms unfolding key_at_def by blast
  then have n: "11 \<le> n" "11 \<le> length a" by simp_all
  then have "take 3 (take n a) = take 3 a" "take 8 (drop 3 (take n a)) = take 8 (drop 3 a)"
    by (simp_all add: drop_take min_def)
  moreover have "at_word (word_char rt) (take n a) = at_word (word_char rt) a" using n by (intro at_word_take) simp
  ultimately show ?thesis using assms n(2) unfolding key_at_def by (simp only: simp_thms)
qed

lemma key_free_take: "key_free rt b s \<Longrightarrow> key_free rt b (take n s)"
proof (induction s arbitrary: b n)
  case (Cons c s)
  then show ?case using key_at_take[of rt b n "c # s"] by (cases n) auto
qed simp

lemma key_at_boundary:
  "at_word (word_char rt) b = at_word (word_char rt) b' \<Longrightarrow> key_at rt b a = key_at rt b' a"
  by (simp only: key_at_def)

lemma at_word_Cons: "at_word w (c # s) = w c"
  by (simp add: at_word_def)

lemma key_free_boundary:
  "at_word (word_char rt) b = at_word (word_char rt) b' \<Longrightarrow> key_free rt b s = key_free rt b' s"
proof (induction s arbitrary: b b')
  case (Cons c s)
  have "key_free rt (c # b) s = key_free rt (c # b') s" by (rule Cons.IH) (simp add: at_word_Cons)
  with key_at_boundary[OF Cons.prems] show ?case by simp
qed simp

lemma fold_key_char: "fold_ascii c \<in> set (lit ''sk-'') \<Longrightarrow> key_char c"
  by (auto simp: lit_def key_char_def is_alnum_def is_lower_def fold_ascii_def ascii_lower_def split: if_splits)

lemma key_at_chars:
  assumes "key_at rt b a"
  shows "list_all key_char (take 11 a)"
proof -
  have eleven: "take 11 a = take 3 a @ take 8 (drop 3 a)" by (simp flip: take_add)
  have "fold_ascii c \<in> set (lit ''sk-'')" if "c \<in> set (take 3 a)" for c
    using assms that by (metis imageI key_at_def list.set_map)
  then show ?thesis using assms fold_key_char by (auto simp: eleven key_at_def list_all_iff)
qed

lemma key_at_head: "key_at rt b (c # s) \<Longrightarrow> key_at rt b (c # take 10 s)"
proof -
  have "take 11 (c # s) = c # take 10 s" by (simp add: numeral_eq_Suc)
  moreover have "key_at rt b (take 11 x)" if "key_at rt b x" for x
  proof -
    have "11 \<le> length x" using that unfolding key_at_def by blast
    then have "take 3 (take 11 x) = take 3 x" "take 8 (drop 3 (take 11 x)) = take 8 (drop 3 x)" "11 \<le> length (take 11 x)"
      by (simp_all add: drop_take)
    moreover have "at_word (word_char rt) (take 11 x) = at_word (word_char rt) x" by (intro at_word_take) simp
    ultimately show ?thesis using that unfolding key_at_def by (simp only: simp_thms)
  qed
  ultimately show "key_at rt b (c # s) \<Longrightarrow> key_at rt b (c # take 10 s)" by metis
qed

lemma key_at_extend: "key_at rt b x \<Longrightarrow> key_at rt b (x @ s)"
  using key_at_take[of rt b "length x" "x @ s"] by simp

lemma key_at_stop:
  assumes "\<not> key_char d" "key_at rt b (x @ d # s)"
  shows "key_at rt b x"
proof -
  have "11 \<le> length x"
  proof (rule ccontr)
    assume "\<not> 11 \<le> length x"
    then have "d \<in> set (take 11 (x @ d # s))" by (cases "11 - length x") auto
    with key_at_chars[OF assms(2)] assms(1) show False by (auto simp: list_all_iff)
  qed
  then have "at_word (word_char rt) (x @ d # s) = at_word (word_char rt) x" by (cases x) (simp_all add: at_word_def)
  with \<open>11 \<le> length x\<close> show ?thesis using assms(2) by (auto simp: key_at_def)
qed

lemma key_free_stop:
  assumes "\<not> key_char d"
  shows "key_free rt b x \<Longrightarrow> key_free rt (d # rev x @ b) s \<Longrightarrow> key_free rt b (x @ d # s)"
proof (induction x arbitrary: b)
  case Nil
  then show ?case using key_at_stop[OF assms, of rt b "[]" s] by (auto simp: key_at_def)
next
  case (Cons c x)
  then show ?case using key_at_stop[OF assms, of rt b "c # x" s] by auto
qed

lemma key_free_plain:
  "list_all (\<lambda>c. fold_ascii c \<noteq> 115) x \<Longrightarrow> key_free rt (rev x @ b) s \<Longrightarrow> key_free rt b (x @ s)"
proof (induction x arbitrary: b)
  case (Cons c x)
  have "\<not> key_at rt b (c # x @ s)" using Cons.prems(1) by (auto simp: key_at_def lit_def numeral_3_eq_3)
  with Cons show ?case by simp
qed simp

lemma key_free_join: "list_all (key_free rt []) blocks \<Longrightarrow> key_free rt [] (py_join blank_line blocks)"
proof (induction blank_line blocks rule: py_join.induct)
  case (3 v w ws)
  have newline: "\<not> key_char 10" "\<not> word_char rt 10"
    by (simp_all add: key_char_def fold_ascii_def ascii_lower_def is_alnum_def is_digit_def is_upper_def is_lower_def word_char_def)
  from 3 have "key_free rt [] (py_join blank_line (w # ws))" by simp
  then have "key_free rt (10 # 10 # rev v) (py_join blank_line (w # ws))"
    using newline key_free_boundary[of rt "[]" "10 # 10 # rev v"] by (simp add: at_word_def)
  then have "key_free rt (10 # rev v) ([] @ 10 # py_join blank_line (w # ws))"
    by (intro key_free_stop newline) simp_all
  then have "key_free rt [] (v @ 10 # 10 # py_join blank_line (w # ws))"
    using 3 by (intro key_free_stop newline) simp_all
  then show ?case by (simp add: blank_line_def)
qed simp_all

subsection \<open>The redacted text\<close>

text \<open>Patterns whose matches are followed by no character of a class.\<close>

definition greedy :: "(nat \<Rightarrow> bool) \<Rightarrow> regex \<Rightarrow> bool" where
  "greedy P r \<longleftrightarrow> (\<forall>p e. re_match r p = Some e \<longrightarrow> \<not> at_word P (snd e))"

lemma re_match_ends: "re_match r p = Some e \<longleftrightarrow> (\<exists>es. ends r p = e # es)"
  by (auto simp: re_match_def split: list.splits)

lemma re_match_Seq:
  assumes "re_match (Seq r s) p = Some e"
  shows "\<exists>q. re_match s q = Some e"
proof -
  have "\<exists>q es. ends s q = e # es" if "concat (map (ends s) qs) = e # es" for qs es
    using that
  proof (induction qs)
    case (Cons q qs)
    show ?case
    proof (cases "ends s q")
      case Nil
      with Cons show ?thesis by simp
    next
      fix e' es' assume "ends s q = e' # es'"
      with Cons.prems have "ends s q = e # es'" by simp
      then show ?thesis by blast
    qed
  qed simp
  with assms show ?thesis unfolding re_match_ends ends.simps by blast
qed

lemma greedy_Seq: "greedy P s \<Longrightarrow> greedy P (Seq r s)"
  unfolding greedy_def by (metis re_match_Seq)

lemma greedy_Alt: "greedy P r \<Longrightarrow> greedy P s \<Longrightarrow> greedy P (Alt r s)"
proof -
  assume a: "greedy P r" "greedy P s"
  have "re_match r p = Some e \<or> re_match s p = Some e" if "re_match (Alt r s) p = Some e" for p e
    using that by (cases "ends r p") (auto simp: re_match_def)
  with a show ?thesis unfolding greedy_def by blast
qed

lemma greedy_Rep:
  assumes "\<And>c. P c \<Longrightarrow> V c"
  shows "greedy P (re_seq [Rep lo None V])"
proof -
  have "\<not> at_word P (snd e)" if "re_match (re_seq [Rep lo None V]) (b, a) = Some e" for b a e
  proof -
    let ?n = "length (takeWhile V a)"
    from that have e: "e = advance ?n (b, a)"
      by (cases "lo \<le> ?n") (auto simp: re_match_def run_length_def)
    have "snd e = dropWhile V a" by (simp add: e advance_def dropWhile_eq_drop)
    then show ?thesis using assms hd_dropWhile[of V a] by (cases "dropWhile V a") (auto simp: at_word_def)
  qed
  then show ?thesis unfolding greedy_def by (metis prod.collapse)
qed

lemma key_char_open: "key_char c \<Longrightarrow> open_char c"
proof (rule ccontr)
  assume c: "key_char c" "\<not> open_char c"
  then have "py_isspace c \<or> c = 44 \<or> c = 59" by (simp add: open_char_def)
  then have "fold_ascii c = c" "\<not> is_alnum c" "c \<noteq> 95" "c \<noteq> 45"
    by (auto simp: py_isspace_def fold_ascii_def ascii_lower_def is_alnum_def is_digit_def is_upper_def is_lower_def)
  with c(1) show False by (simp add: key_char_def)
qed

lemma sensitive_greedy: "greedy key_char (SENSITIVE_VALUE_RE rt)"
  unfolding SENSITIVE_VALUE_RE_def Let_def secret_key_def re_seq.simps
  by (intro greedy_Alt greedy_Seq greedy_Rep[unfolded re_seq.simps] key_char_open)

lemma sensitive_unmatched: "re_match (SENSITIVE_VALUE_RE rt) (b, a) = None \<Longrightarrow> \<not> key_at rt b a"
  unfolding secret_key_at[symmetric]
  by (auto simp: re_match_def SENSITIVE_VALUE_RE_def Let_def split: list.splits simp del: re_seq.simps)

text \<open>Key characters at the front of a redacted text were at the front before.\<close>

lemma redacted_front:
  assumes "\<not> P d"
  shows "re_sub_from r (d # ds) b a = m @ rest \<Longrightarrow> list_all P m \<Longrightarrow> \<exists>rest'. a = m @ rest'"
proof (induction a arbitrary: b m)
  case (Cons c a)
  show ?case
  proof (cases m)
    fix c' m' assume m: "m = c' # m'"
    with Cons.prems have "P c'" by simp
    then have kept: "re_sub_from r (d # ds) b (c # a) = c # re_sub_from r (d # ds) (c # b) a"
      using Cons.prems(1) m assms by (auto split: option.splits if_splits)
    have front: "c' = c" "re_sub_from r (d # ds) (c # b) a = m' @ rest"
      using Cons.prems(1) unfolding kept m append_Cons list.inject by blast+
    moreover have "list_all P m'" using Cons.prems m by simp
    ultimately obtain rest' where "a = m' @ rest'" using Cons.IH by blast
    then show ?thesis using m front by simp
  qed simp
qed simp

text \<open>
  The contexts differ: \<open>b\<close> is the original text before the position, \<open>b'\<close> the redacted one. They
  matter only where a word could start.
\<close>

lemma redacted_key_free:
  assumes "at_word (word_char rt) b = at_word (word_char rt) b' \<or> \<not> at_word key_char a"
  shows "key_free rt b' (re_sub_from (SENSITIVE_VALUE_RE rt) (lit ''[redacted]'') b a)"
  using assms
proof (induction "length a" arbitrary: b b' a rule: less_induct)
  case less
  let ?sub = "re_sub_from (SENSITIVE_VALUE_RE rt) (lit ''[redacted]'')"
  show ?case
  proof (cases a)
    fix c a' assume a: "a = c # a'"
    have kept: "key_free rt b' (c # ?sub (c # b) a')"
      if new: "\<not> key_at rt b a \<or> \<not> key_char c"
    proof -
      have "\<not> key_at rt b' (c # ?sub (c # b) a')"
      proof
        assume at: "key_at rt b' (c # ?sub (c # b) a')"
        let ?m = "take 10 (?sub (c # b) a')"
        have m: "list_all key_char (c # ?m)" using key_at_chars[OF at] by (simp add: numeral_eq_Suc)
        have "\<exists>rest. a' = ?m @ rest"
        proof (rule redacted_front[of key_char 91 "SENSITIVE_VALUE_RE rt" "lit ''redacted]''" "c # b" a' ?m])
          show "\<not> key_char 91" by (simp add: key_char_def fold_ascii_def ascii_lower_def is_alnum_def is_digit_def is_upper_def is_lower_def)
          show "re_sub_from (SENSITIVE_VALUE_RE rt) (91 # lit ''redacted]'') (c # b) a' = ?m @ drop 10 (?sub (c # b) a')"
            by (simp add: lit_def)
        qed (use m in simp)
        then obtain rest where rest: "a' = ?m @ rest" by blast
        have "key_at rt b' (c # ?m)" using at key_at_head by blast
        then have "key_at rt b' a" unfolding a using rest key_at_extend by (metis append_Cons)
        moreover have "at_word (word_char rt) b = at_word (word_char rt) b'"
          using less.prems m a by (auto simp: at_word_def)
        ultimately have "key_at rt b a" using key_at_boundary by blast
        with new m show False by simp
      qed
      moreover have "key_free rt (c # b') (?sub (c # b) a')"
        by (rule less.hyps) (simp_all add: a at_word_Cons)
      ultimately show ?thesis by simp
    qed
    show ?thesis
    proof (cases "re_match (SENSITIVE_VALUE_RE rt) (b, c # a')")
      case None
      then show ?thesis using kept sensitive_unmatched[of rt b a] by (simp add: a)
    next
      case (Some e)
      obtain b2 a2 where e: "e = (b2, a2)" by (cases e)
      have stop: "\<not> at_word key_char a2"
        using sensitive_greedy[of rt] Some e unfolding greedy_def by fastforce
      show ?thesis
      proof (cases "length a2 \<le> length a'")
        case True
        have "key_free rt (rev (lit ''[redacted]'') @ b') (?sub b2 a2)"
          by (rule less.hyps) (use True stop a in simp_all)
        moreover have "list_all (\<lambda>c. fold_ascii c \<noteq> 115) (lit ''[redacted]'')"
          by (simp add: lit_def fold_ascii_def ascii_lower_def)
        ultimately have "key_free rt b' (lit ''[redacted]'' @ ?sub b2 a2)" by (intro key_free_plain)
        then show ?thesis using Some e True a by simp
      next
        case False
        obtain m where "c # a' = m @ a2"
          using Some e ends_advance[of e "SENSITIVE_VALUE_RE rt" "(b, c # a')"] by (auto simp: re_match_def split: list.splits)
        with False have "a2 = c # a'" by (cases m) auto
        with stop have "\<not> key_char c" by (simp add: at_word_Cons)
        with kept show ?thesis using Some e False a by simp
      qed
    qed
  qed simp
qed

lemma redact_key_free: "key_free rt [] (redact rt limit s)"
  by (simp add: redact_def re_sub_def key_free_take redacted_key_free)

lemma key_free_search: "key_free rt b s \<longleftrightarrow> \<not> re_search_from (secret_key rt) b s"
proof (induction s arbitrary: b)
  case Nil
  have "\<not> key_at rt b []" by (simp add: key_at_def)
  then show ?case using secret_key_at[of rt b "[]"] by (simp add: re_match_def)
next
  case (Cons c s)
  then show ?case using secret_key_at[of rt b "c # s"] by (auto simp: re_match_def split: list.splits)
qed

lemma redact_length: "int (length (redact rt limit s)) \<le> max 0 limit"
  unfolding redact_def by auto

lemma safe_text_redacts:
  assumes "safe_text rt strs H v limit = Inr t"
  shows "\<exists>s. t = redact rt limit s"
proof (cases "limit \<le> 0 \<or> v = PNone \<or> is_container H v")
  case True
  then have "t = redact rt limit []" using assms by (simp add: safe_text_def redact_def re_sub_def py_strip_def)
  then show ?thesis by blast
next
  case False
  then show ?thesis using assms by (auto simp: safe_text_def)
qed

lemma prompt_blocks_redacted: "t \<in> set (prompt_blocks rt sn refs limits) \<Longrightarrow> \<exists>s. t = redact rt (fragment_max_chars limits) s"
  by (auto simp: prompt_blocks_def Let_def split: if_splits)

lemma subseq_elem: "subseq xs ys \<Longrightarrow> x \<in> set xs \<Longrightarrow> x \<in> set ys"
  by (erule list_emb_set) auto

lemma fit_blocks_subseq: "subseq (fit_blocks overall first used blocks) blocks"
  by (induction overall first used blocks rule: fit_blocks.induct) (auto simp: Let_def)

definition cost_of :: "bool \<Rightarrow> ustr list \<Rightarrow> int" where
  "cost_of first blocks = (\<Sum>b\<leftarrow>blocks. int (length b) + 2) - (if first \<and> blocks \<noteq> [] then 2 else 0)"

lemma cost_of_join: "cost_of True blocks = int (length (py_join blank_line blocks))"
  by (induction blank_line blocks rule: py_join.induct) (auto simp: cost_of_def blank_line_def)

lemma cost_of_Cons: "cost_of first (b # bs) = int (length b) + (if first then 0 else 2) + cost_of False bs"
  by (simp add: cost_of_def)

lemma fit_blocks_within: "used \<le> overall \<Longrightarrow> used + cost_of first (fit_blocks overall first used blocks) \<le> overall"
proof (induction overall first used blocks rule: fit_blocks.induct)
  case (2 overall first used block blocks)
  then show ?case by (cases "used + (int (length block) + (if first then 0 else 2)) > overall") (simp_all add: Let_def cost_of_Cons)
qed (simp add: cost_of_def)

lemma cost_of_nonneg: "0 \<le> cost_of False blocks"
  by (induction blocks) (auto simp: cost_of_def)

lemma fit_blocks_all: "used + cost_of first blocks \<le> overall \<Longrightarrow> fit_blocks overall first used blocks = blocks"
proof (induction overall first used blocks rule: fit_blocks.induct)
  case (2 overall first used block blocks)
  have "\<not> used + (int (length block) + (if first then 0 else 2)) > overall"
    using 2(3) cost_of_nonneg[of blocks] by (simp add: cost_of_Cons)
  with 2 show ?case by (simp add: Let_def cost_of_Cons algebra_simps)
qed simp

text \<open>
  C37: The system prompt never exceeds its budget. It is made of whole blocks in their fixed order,
  each redacted and within the limit of a fragment, and no block is lost when all of them fit.
\<close>

theorem prompt_append_bounded:
  assumes "PromptContextLimits_of fragment overall = Inr limits" "render_prompt_append rt sn refs limits = Some s"
  shows "s \<noteq> [] \<and> int (length s) \<le> overall \<and>
    (\<exists>blocks. s = py_join blank_line blocks \<and> subseq blocks (prompt_blocks rt sn refs limits) \<and>
       list_all (\<lambda>b. int (length b) \<le> fragment) blocks \<and>
       (int (length (py_join blank_line (prompt_blocks rt sn refs limits))) \<le> overall \<longrightarrow> blocks = prompt_blocks rt sn refs limits))"
proof -
  from assms(1) have limits: "fragment_max_chars limits = fragment" "total_max_chars limits = overall" "1 \<le> fragment" "1 \<le> overall"
    by (auto simp: PromptContextLimits_of_def split: if_splits)
  let ?all = "prompt_blocks rt sn refs limits"
  let ?out = "fit_blocks overall True 0 ?all"
  from assms(2) have s: "s = py_join blank_line ?out" "s \<noteq> []"
    by (auto simp: render_prompt_append_def Let_def limits split: if_splits)
  have "int (length s) \<le> overall"
    using fit_blocks_within[of 0 overall True ?all] limits(4) unfolding s(1) cost_of_join by simp
  moreover have sub: "subseq ?out ?all" by (rule fit_blocks_subseq)
  moreover have "int (length b) \<le> fragment" if "b \<in> set ?out" for b
  proof -
    have "b \<in> set ?all" using that sub by (meson subseq_elem)
    then obtain t where "b = redact rt fragment t" using prompt_blocks_redacted limits(1) by metis
    then show ?thesis using redact_length[of rt fragment t] limits(3) by simp
  qed
  moreover have "?out = ?all" if "int (length (py_join blank_line ?all)) \<le> overall"
    using that by (intro fit_blocks_all) (simp add: cost_of_join)
  ultimately show ?thesis using s by (auto simp: list_all_iff)
qed

lemma rendered_key_free:
  assumes "render_prompt_append rt sn refs limits = Some s"
  shows "key_free rt [] s"
proof -
  have "key_free rt [] b" if "b \<in> set (fit_blocks (total_max_chars limits) True 0 (prompt_blocks rt sn refs limits))" for b
    using that fit_blocks_subseq prompt_blocks_redacted redact_key_free by (metis subseq_elem)
  then have "key_free rt [] (py_join blank_line (fit_blocks (total_max_chars limits) True 0 (prompt_blocks rt sn refs limits)))"
    by (intro key_free_join) (auto simp: list_all_iff)
  then show ?thesis using assms by (auto simp: render_prompt_append_def Let_def split: if_splits)
qed


subsection \<open>Project files\<close>

definition safe_path :: "ustr \<Rightarrow> bool" where
  "safe_path p \<longleftrightarrow> p \<noteq> [] \<and> int (length p) \<le> 240 \<and> 92 \<notin> set p \<and> hd p \<notin> {47, 126} \<and>
     list_all (\<lambda>w. w \<notin> set (lits ['''', ''.'', ''..'']) \<and> \<not> re_search SENSITIVE_KEY_RE w) (py_split_on 47 p)"

definition file_ok :: "ProjectFile \<Rightarrow> bool" where
  "file_ok f \<longleftrightarrow> safe_path (pf_path f) \<and> int (length (pf_content f)) \<le> DEFAULT_FRAGMENT_MAX_CHARS"

text \<open>The instances in the heap were built by the constructor.\<close>

definition built_files_ok :: "heap \<Rightarrow> bool" where
  "built_files_ok H \<longleftrightarrow> (\<forall>v f. built_file H v = Some f \<longrightarrow> pf_path f \<noteq> [] \<longrightarrow> file_ok f)"

lemma relative_path_safe:
  assumes "relative_path (redact rt 240 s) \<noteq> []"
  shows "safe_path (relative_path (redact rt 240 s))"
proof -
  let ?p = "map (\<lambda>c. if c = 92 then 47 else c) (redact rt 240 s)"
  have p: "relative_path (redact rt 240 s) = ?p" "?p \<noteq> []" "\<not> startswith ?p (lit ''/'')" "\<not> startswith ?p (lit ''~'')"
    "\<not> list_ex (\<lambda>w. w \<in> set (lits ['''', ''.'', ''..''])) (py_split_on 47 ?p)" "\<not> list_ex (re_search SENSITIVE_KEY_RE) (py_split_on 47 ?p)"
    using assms unfolding relative_path_def Let_def by (simp_all split: if_split_asm)
  have "hd ?p \<notin> {47, 126}" using p(2-4) by (cases ?p) (auto simp: startswith_def lit_def)
  moreover have "int (length ?p) \<le> 240" using redact_length[of rt 240 s] by simp
  moreover have "92 \<notin> set ?p" by auto
  ultimately show ?thesis using p unfolding safe_path_def p(1) by (auto simp: list_all_iff list_ex_iff)
qed

lemma ProjectFile_ok:
  assumes "ProjectFile_of rt strs H path content = Inr f" "pf_path f \<noteq> []"
  shows "file_ok f"
proof -
  from assms(1) obtain p c where p: "safe_text rt strs H path 240 = Inr p" "safe_text rt strs H content DEFAULT_FRAGMENT_MAX_CHARS = Inr c"
    "f = \<lparr>pf_path = relative_path p, pf_content = c\<rparr>"
    unfolding ProjectFile_of_def by (elim and_then_InrE) simp
  obtain s where "p = redact rt 240 s" using safe_text_redacts[OF p(1)] by blast
  moreover obtain t where "c = redact rt DEFAULT_FRAGMENT_MAX_CHARS t" using safe_text_redacts[OF p(2)] by blast
  ultimately show ?thesis
    using p(3) assms(2) relative_path_safe[of rt s] redact_length[of rt DEFAULT_FRAGMENT_MAX_CHARS t]
    by (simp add: file_ok_def DEFAULT_FRAGMENT_MAX_CHARS_def)
qed

lemma coerced_file_ok:
  assumes "coerce_project_file rt strs H v = Inr (Some f)" "built_files_ok H"
  shows "file_ok f"
proof (cases "built_file H v")
  case (Some g)
  with assms show ?thesis by (auto simp: coerce_project_file_def built_files_ok_def split: if_split_asm)
next
  case None
  then obtain path content where "ProjectFile_of rt strs H path content = Inr f" "pf_path f \<noteq> []"
    using assms(1) unfolding coerce_project_file_def
    by (simp split: if_split_asm) (elim and_then_InrE, simp split: if_split_asm)
  then show ?thesis by (rule ProjectFile_ok)
qed

definition kept_ok :: "(ustr \<times> ProjectFile) list \<Rightarrow> bool" where
  "kept_ok kept \<longleftrightarrow> distinct (map fst kept) \<and> (\<forall>(p, f) \<in> set kept. p = pf_path f \<and> file_ok f)"

lemma keep_file_ok: "kept_ok kept \<Longrightarrow> file_ok f \<Longrightarrow> kept_ok (keep_file f kept)"
  using set_dict_set_subset[of "pf_path f" f kept]
  by (auto simp: kept_ok_def keep_file_def distinct_dict_set split: option.split)

lemma sorted_files_ok:
  assumes "list_all file_ok fs"
  shows "distinct (map pf_path (sorted_files fs)) \<and> list_all file_ok (sorted_files fs)"
proof -
  have "kept_ok (fold keep_file gs kept)" if "list_all file_ok gs" "kept_ok kept" for gs kept
    using that by (induction gs arbitrary: kept) (auto intro: keep_file_ok)
  from this[OF assms, of "[]"] have kept: "kept_ok (fold keep_file fs [])" by (simp add: kept_ok_def)
  then have "map pf_path (map snd (fold keep_file fs [])) = map fst (fold keep_file fs [])" by (auto simp: kept_ok_def)
  then have "distinct (map pf_path (map snd (fold keep_file fs [])))" using kept by (simp only: kept_ok_def)
  then have "distinct (map pf_path (sorted_files fs))"
    unfolding sorted_files_def by (auto simp: distinct_map intro: inj_on_imageI inj_on_imageI2)
  moreover have "list_all file_ok (sorted_files fs)" using kept by (auto simp: sorted_files_def kept_ok_def list_all_iff)
  ultimately show ?thesis by blast
qed

text \<open>
  C38: Every project file a mapping contributes to the prompt has a short relative path without
  empty, \<^verbatim>\<open>.\<close>, \<^verbatim>\<open>..\<close> or secret-looking components, its content is bounded, and no path occurs twice.
\<close>

theorem project_files_safe:
  assumes "from_mapping rt strs H v = Inr p" "built_files_ok H"
  shows "distinct (map pf_path (pm_files p)) \<and> list_all file_ok (pm_files p)"
proof (cases "is_mapping H v")
  case False
  with assms(1) show ?thesis by (auto simp: from_mapping_def no_project_def)
next
  case True
  then obtain label instructions files where "ProjectMetadata_of rt strs H label instructions files = Inr p"
    using assms(1) unfolding from_mapping_def by simp (elim and_then_InrE, blast)
  then obtain fs where fs: "project_files rt strs H files = Inr fs" "pm_files p = fs"
    unfolding ProjectMetadata_of_def by (elim and_then_InrE) auto
  show ?thesis
  proof (cases "is_mapping H files")
    case True
    then obtain items gs where gs: "map_exn (\<lambda>(path, content). ProjectFile_of rt strs H path content) items = Inr gs"
      "fs = sorted_files (filter (\<lambda>f. pf_path f \<noteq> []) gs)"
      using fs(1) unfolding project_files_def by simp (elim and_then_InrE, auto)
    have "list_all (\<lambda>f. pf_path f \<noteq> [] \<longrightarrow> file_ok f) gs"
      using gs(1) by (rule map_exn_all) (auto intro: ProjectFile_ok)
    then show ?thesis unfolding fs(2) gs(2) by (intro sorted_files_ok) (auto simp: list_all_iff)
  next
    case False
    then obtain os where os: "map_exn (coerce_project_file rt strs H) (case seq_items H files of Some xs \<Rightarrow> xs | None \<Rightarrow> []) = Inr os"
      "fs = sorted_files (List.map_filter id os)"
      using fs(1) unfolding project_files_def by simp (elim and_then_InrE, auto)
    have "list_all (\<lambda>o'. \<forall>f. o' = Some f \<longrightarrow> file_ok f) os"
      using os(1) by (rule map_exn_all) (auto intro: coerced_file_ok[OF _ assms(2)])
    then show ?thesis unfolding fs(2) os(2) by (intro sorted_files_ok) (auto simp: list_all_iff map_filter_def)
  qed
qed

subsection \<open>Instances\<close>

lemmas redact_eval = redact_def re_sub_def SENSITIVE_VALUE_RE_def secret_names_def secret_key_def re_itext_def re_match_def lit_def
  py_strip_def py_isspace_def run_length_def advance_def at_word_def word_char_def is_alnum_def is_digit_def is_lower_def
  is_upper_def fold_ascii_def ascii_lower_def chars_def open_char_def key_char_def spaced_char_def Let_def

text \<open>
  Other secrets are less safe: the value of a named secret ends at the first blank, so of the
  usual header only the scheme is replaced and the token stays.
\<close>

lemma bearer_token_kept:
  "redact sample_rt 100 (lit ''Authorization: Bearer abcd1234'') = lit ''[redacted] abcd1234''"
  by (simp add: redact_eval)

definition small_snapshot :: PromptContextSnapshot where
  "small_snapshot = \<lparr>sn_base_prompt = [], sn_identity = lit ''Ada'', sn_session_metadata = lit ''x'', sn_platform_hint = [], sn_provider = [],
     sn_model = [], sn_project = no_project, sn_memory_fragments = [lit ''fact''], sn_skill_fragments = []\<rparr>"

definition no_references :: MemorySkillReferences where
  "no_references = \<lparr>ms_references = [], ms_schema_hash = []\<rparr>"

lemma no_guidance: "prompt_guidance no_references = []"
  by (simp add: prompt_guidance_def names_of_kind_def no_references_def)

theorem prompt_append_bounded_witness:
  "\<exists>limits s. PromptContextLimits_of 8 8 = Inr limits \<and>
     render_prompt_append sample_rt small_snapshot no_references limits = Some s \<and> s \<noteq> [] \<and> int (length s) \<le> 8"
proof -
  let ?l = "\<lparr>fragment_max_chars = 8, total_max_chars = 8\<rparr>"
  have l: "PromptContextLimits_of 8 8 = Inr ?l" by (simp add: PromptContextLimits_of_def)
  have texts: "redact sample_rt 8 (lit ''Ada'') = lit ''Ada''" "redact sample_rt 8 (lit ''fact'') = lit ''fact''"
    "redact sample_rt 8 (lit ''x'') = lit ''x''" "redact sample_rt 8 [] = []"
    by (simp_all add: redact_eval)
  have "prompt_blocks sample_rt small_snapshot no_references ?l = [lit ''Ada'', lit ''x'', lit ''fact'']"
    by (simp add: prompt_blocks_def small_snapshot_def selection_metadata_def project_render_def project_sections_def no_project_def
        texts no_guidance)
  then obtain s where "render_prompt_append sample_rt small_snapshot no_references ?l = Some s"
    by (simp add: render_prompt_append_def blank_line_def)
  with prompt_append_bounded[OF l this] l show ?thesis by blast
qed

definition prompt_heap :: heap where
  "prompt_heap a =
     (if a = 0 then OInst (lit ''Request'') [(lit ''prompt_snapshot'', Some (PStr (lit ''use sk-abcdefgh'')))]
      else if a = 1 then ODict [(PStr (lit ''label''), PStr (lit ''L'')), (PStr (lit ''files''), PRef 2)]
      else ODict [(PStr (lit ''a.py''), PStr (lit ''x'')), (PStr (lit ''../b''), PStr (lit ''y''))])"

definition no_arguments :: prompt_args where
  "no_arguments = \<lparr>pa_project = Given PNone, pa_identity = PStr [], pa_session_metadata = PStr [], pa_platform_hint = PStr [],
     pa_memory_fragments = PNone, pa_skill_fragments = PNone\<rparr>"

lemmas prompt_eval = public_get_def is_mapping_def mapping_find_def mapping_items_def attr_of_def prompt_heap_def safe_text_def
  is_container_def seq_items_def py_str_def

lemma prompt_built:
  "\<exists>cx. build_sdk_prompt_context sample_rt (\<lambda>v. Inl OtherError) prompt_heap 9 (PRef 0) no_arguments (Some no_references) None = Inr cx \<and>
     cx_base_prompt cx = lit ''use [redacted]''"
proof -
  have key: "redact sample_rt 8000 (lit ''use sk-abcdefgh'') = lit ''use [redacted]''" "redact sample_rt n [] = []" for n
    by (simp_all add: redact_eval)
  have "\<exists>sn. from_request sample_rt (\<lambda>v. Inl OtherError) prompt_heap (PRef 0) no_arguments = Inr sn \<and> sn_base_prompt sn = lit ''use [redacted]''"
    by (simp add: from_request_def early_project_def project_or_empty_def late_project_def project_from_attachments_def fragments_def
        no_arguments_def prompt_eval key DEFAULT_FRAGMENT_MAX_CHARS_def Let_def)
  then show ?thesis
    by (auto simp: build_sdk_prompt_context_def Let_def prompt_eval key)
qed


theorem project_files_safe_witness:
  "\<exists>p. from_mapping sample_rt (\<lambda>v. Inl OtherError) prompt_heap (PRef 1) = Inr p \<and> pm_label p = lit ''L'' \<and> list_all file_ok (pm_files p)"
proof -
  have texts: "redact sample_rt 240 (lit ''L'') = lit ''L''" "redact sample_rt n [] = []" for n by (simp_all add: redact_eval)
  have "\<exists>p. from_mapping sample_rt (\<lambda>v. Inl OtherError) prompt_heap (PRef 1) = Inr p \<and> pm_label p = lit ''L''"
    by (simp add: from_mapping_def get_either_def ProjectMetadata_of_def project_files_def ProjectFile_of_def prompt_eval texts)
  moreover have "built_file prompt_heap v = None" for v
    by (auto simp: built_file_def prompt_heap_def split: pyval.split pyobj.split)
  then have "built_files_ok prompt_heap" by (simp add: built_files_ok_def)
  ultimately show ?thesis using project_files_safe by blast
qed

end
