(* ===== verification/Spec2Isabelle.thy ===== *)
theory Spec2Isabelle
  imports Billing Compaction Configuration Tool_Bridge Content_Events Turn_Input Session_Turns Runtime_State Json_Files Prompt_Safety
begin

text \<open>
  Verification of hermes-claude-agent-sdk, the plugin that runs the turns of a Hermes host on
  the Claude Agent SDK. All paths are under \<^verbatim>\<open>src/src/hermes_claude_agent_sdk/\<close>.

  \<^bold>\<open>The program.\<close> The host asks for a turn (\<^verbatim>\<open>runtime.py\<close>). The runtime admits it only after a
  preflight: the pinned SDK and CLI versions (\<^verbatim>\<open>compatibility.py\<close>), a subscription login read
  from the bundled CLI (\<^verbatim>\<open>auth.py\<close>) and a supported selection. It then opens or reuses one SDK
  session (\<^verbatim>\<open>sdk_session.py\<close>) with a validated configuration (\<^verbatim>\<open>configuration.py\<close>) and a scrubbed
  environment (\<^verbatim>\<open>billing.py\<close>). Claude reaches the host's tools through an in-process server
  (\<^verbatim>\<open>tool_bridge.py\<close>) and through nothing else: every SDK message passes the zero-native boundary
  and is projected into bounded public events (\<^verbatim>\<open>content_events.py\<close>). A result leaves the session
  only after its billing evidence was classified as subscription (\<^verbatim>\<open>billing.py\<close>); native
  compactions are followed by \<^verbatim>\<open>compaction.py\<close>; the host's request is turned into the prompt by
  \<^verbatim>\<open>turn_input.py\<close>.

  \<^bold>\<open>The theories.\<close>

  \<^item> \<^theory_text>\<open>Py_Base\<close> is the prelude: Python values on a heap (\<open>pyval\<close>, \<open>pyobj\<close>), strings as code
    points, insertion-ordered dictionaries, accessors that may raise (\<open>exn + _\<close>), and the record
    \<open>pyrt\<close> of what CPython takes from tables that are not in the repository (Unicode data, the
    printing and reading of floats, the JSON recursion limit). \<^theory_text>\<open>Utf8\<close>, \<^theory_text>\<open>Base64\<close>, \<^theory_text>\<open>Regex\<close> and
    \<^theory_text>\<open>Json_Text\<close> model the parts of the standard library that are used, with round trips.
  \<^item> \<^theory_text>\<open>Transitions\<close> has reachability and the locales of invariants; every interleaved component
    interprets \<open>inductive_invariant\<close> on its own step relation.
  \<^item> \<^theory_text>\<open>Billing\<close> (\<^verbatim>\<open>billing.py\<close>): \<open>plan_sdk_env_overrides\<close>, \<open>extract_sdk_billing_evidence\<close>,
    \<open>classify_sdk_billing\<close>; when exactly a turn is allowed, and which variables are scrubbed.
  \<^item> \<^theory_text>\<open>Compaction\<close> (\<^verbatim>\<open>compaction.py\<close>): the lifecycle as a record with one function per coroutine;
    each turn emits at most one start and one matching end, in every order of the operations.
  \<^item> \<^theory_text>\<open>Configuration\<close> (\<^verbatim>\<open>configuration.py\<close>): \<open>config_create\<close> and \<open>option_fields\<close>.
  \<^item> \<^theory_text>\<open>Json_Copy\<close>, \<^theory_text>\<open>Bounded_Text\<close>, \<^theory_text>\<open>Tool_Schema\<close>, \<^theory_text>\<open>Tool_Bridge\<close> (\<^verbatim>\<open>tool_bridge.py\<close>): the bounded
    copy of untrusted graphs and its exact specification \<open>reads\<close>, redaction and truncation, the
    schema check and its declarative meaning \<open>conforms\<close>, the calls as two atomic steps of the
    system \<open>bridge_step\<close>; the locale \<open>audited\<close> gives that a counter agrees with a log.
  \<^item> \<^theory_text>\<open>Zero_Native\<close>, \<^theory_text>\<open>Safe_Values\<close>, \<^theory_text>\<open>Runtime_Events\<close>, \<^theory_text>\<open>Content_Events\<close> (\<^verbatim>\<open>content_events.py\<close>): the
    boundary, the sanitising of provider data, and the projector with its model evidence.
  \<^item> \<^theory_text>\<open>Turn_Input\<close> (\<^verbatim>\<open>turn_input.py\<close>): texts, images, and the choice of the last user message.
  \<^item> \<^theory_text>\<open>Sdk_Session\<close>, \<^theory_text>\<open>Session_Protocol\<close>, \<^theory_text>\<open>Session_Turns\<close> (\<^verbatim>\<open>sdk_session.py\<close>): the coroutines cut at
    their \<^verbatim>\<open>await\<close>s, \<open>session_step\<close> their interleaving; the refinement of the protocol automaton
    \<open>gate\<close> (connect, query, billing, delivery) and what a finished turn says.
  \<^item> \<^theory_text>\<open>Utf8\<close>, \<^theory_text>\<open>Compatibility\<close>, \<^theory_text>\<open>Auth\<close> (\<^verbatim>\<open>compatibility.py\<close>, \<^verbatim>\<open>auth.py\<close>): versions, package metadata,
    the host report, the status decision and the bounded child process.
  \<^item> \<^theory_text>\<open>Runtime\<close>, \<^theory_text>\<open>Runtime_Turns\<close>, \<^theory_text>\<open>Runtime_State\<close> (\<^verbatim>\<open>runtime.py\<close>): preflight, admission, opening of
    the session, the event loop and the end of a turn; the stream of public events, the failure
    phases, and the invariants over all turns of a runtime.

  \<^bold>\<open>Conventions.\<close> An exception is the left side of a sum; what the operating system, the SDK, the
  host or another task answers is an argument or a step, so every answer is covered. A deadline
  is not a clock: a time-out may happen wherever the source waits with one. Loops are structural
  recursions; the only fuel is the nesting limit of the JSON scanner (\<open>rt_json_depth\<close>) and the
  depth bounds the sources themselves use, and exhausting them is the source's own error.

  \<^bold>\<open>Not modelled.\<close> Instances of subclasses of the builtin types; closing the event generator
  early (\<^verbatim>\<open>aclose\<close>); the entry points and printing glue (\<^verbatim>\<open>__init__.py\<close>, \<^verbatim>\<open>__main__.py\<close>,
  \<^verbatim>\<open>diagnostics.py\<close>, \<^verbatim>\<open>provider_profile.py\<close>), which register functions with the host or print reports.
\<close>

end
